(* ===== verification/Cal_Prelude.thy ===== *)
theory Cal_Prelude
  imports Main "HOL-Library.Word" "HOL-Library.Monad_Syntax"
begin

text \<open>
  The shared vocabulary of the development: machine integers and byte strings, checked
  slice operations whose failure is a panic of the source, and the positional values of
  byte strings (big- and little-endian) and of little-endian word arrays.

  Conventions. A Rust panic is \<open>None\<close>; a \<open>Result\<close> is a sum with the error on the left.
  A fixed-size array \<open>[T; N]\<close> is a list whose length is part of the lemmas' hypotheses.
  \<open>usize\<close> is a \<open>nat\<close>; where the code lets a counter grow without a slice bounding it, the
  addition is \<open>usize_add\<close>, which panics at the 32-bit limit of the two supported
  microcontrollers.
\<close>

unbundle bit_operations_syntax

type_synonym u8 = "8 word"
type_synonym u32 = "32 word"
type_synonym u64 = "64 word"
type_synonym bytes = "8 word list"

named_theorems len_simps \<open>lengths of the byte and word strings the code builds\<close>
named_theorems val_simps \<open>positional values of byte and word strings\<close>

lemma unat_u8_less [simp]: "unat (b :: u8) < 256"
  using unsigned_less [where 'a = nat, of b] by simp

lemma unat_u32_less [simp]: "unat (w :: u32) < 4294967296"
  using unsigned_less [where 'a = nat, of w] by simp

lemma unat_u64_less [simp]: "unat (w :: u64) < 18446744073709551616"
  using unsigned_less [where 'a = nat, of w] by simp

lemma radix_less: "a < B \<Longrightarrow> v < C \<Longrightarrow> a + B * v < B * (C :: nat)"
proof -
  assume "a < B" "v < C"
  then have "a + B * v < B * (v + 1)" by simp
  also have "\<dots> \<le> B * C" using \<open>v < C\<close> by (intro mult_le_mono2) simp
  finally show ?thesis .
qed

section \<open>Checked arithmetic and slices\<close>

definition usize_limit :: nat where
  "usize_limit = 2 ^ 32"

definition usize_add :: "nat \<Rightarrow> nat \<Rightarrow> nat option" where
  "usize_add a b = (if a + b < usize_limit then Some (a + b) else None)"

lemma usize_add_Some [simp]: "usize_add a b = Some c \<longleftrightarrow> c = a + b \<and> a + b < usize_limit"
  by (auto simp: usize_add_def)

text \<open>\<open>&xs[i..j]\<close>: panics when \<open>i > j\<close> or \<open>j > xs.len()\<close>.\<close>

definition slice :: "'a list \<Rightarrow> nat \<Rightarrow> nat \<Rightarrow> 'a list option" where
  "slice xs i j = (if i \<le> j \<and> j \<le> length xs then Some (take (j - i) (drop i xs)) else None)"

text \<open>\<open>xs[i..i + ys.len()].copy_from_slice(ys)\<close>: panics when the range is out of bounds.\<close>

definition copy_at :: "'a list \<Rightarrow> nat \<Rightarrow> 'a list \<Rightarrow> 'a list option" where
  "copy_at xs i ys =
     (if i + length ys \<le> length xs then Some (take i xs @ ys @ drop (i + length ys) xs) else None)"

lemma copy_at_length [len_simps]: "copy_at xs i ys = Some zs \<Longrightarrow> length zs = length xs"
  by (auto simp: copy_at_def split: if_splits)

lemma copy_at_eq_Some:
  "copy_at xs i ys = Some zs \<longleftrightarrow>
     i + length ys \<le> length xs \<and> zs = take i xs @ ys @ drop (i + length ys) xs"
  by (auto simp: copy_at_def)

lemma copy_at_prefix:
  "copy_at xs i ys = Some zs \<Longrightarrow> take (i + length ys) zs = take i xs @ ys"
  by (auto simp: copy_at_eq_Some)

lemma list_update_append_replicate:
  "k < n \<Longrightarrow> (xs @ replicate n z)[length xs + k := v] = xs @ (replicate n z)[k := v]"
  by (simp add: list_update_append)

section \<open>Byte strings as numbers\<close>

definition be_val :: "bytes \<Rightarrow> nat" where
  "be_val bs = foldl (\<lambda>acc b. acc * 256 + unat b) 0 bs"

fun le_val :: "bytes \<Rightarrow> nat" where
  "le_val [] = 0"
| "le_val (b # bs) = unat b + 256 * le_val bs"

fun le_bytes :: "nat \<Rightarrow> nat \<Rightarrow> bytes" where
  "le_bytes 0 v = []"
| "le_bytes (Suc n) v = of_nat v # le_bytes n (v div 256)"

definition be_bytes :: "nat \<Rightarrow> nat \<Rightarrow> bytes" where
  "be_bytes n v = rev (le_bytes n v)"

lemma be_val_Nil [simp]: "be_val [] = 0"
  by (simp add: be_val_def)

lemma be_val_snoc [simp]: "be_val (bs @ [b]) = be_val bs * 256 + unat b"
  by (simp add: be_val_def)

lemma be_val_rev: "be_val (rev bs) = le_val bs"
  by (induction bs) auto

lemma le_val_rev: "le_val (rev bs) = be_val bs"
  by (metis be_val_rev rev_rev_ident)

lemma length_le_bytes [simp, len_simps]: "length (le_bytes n v) = n"
  by (induction n arbitrary: v) auto

lemma length_be_bytes [simp, len_simps]: "length (be_bytes n v) = n"
  by (simp add: be_bytes_def)

lemma le_val_append [val_simps]: "le_val (xs @ ys) = le_val xs + 256 ^ length xs * le_val ys"
  by (induction xs) (auto simp: algebra_simps)

lemma be_val_append [val_simps]: "be_val (xs @ ys) = be_val xs * 256 ^ length ys + be_val ys"
  by (simp add: le_val_rev [symmetric] le_val_append)

lemma be_val_Cons: "be_val (b # bs) = unat b * 256 ^ length bs + be_val bs"
  using be_val_append [of "[b]" bs] by (simp add: be_val_def)

lemma le_val_less: "le_val bs < 256 ^ length bs"
proof (induction bs)
  case (Cons b bs)
  then show ?case by (simp add: radix_less)
qed simp

lemma be_val_less: "be_val bs < 256 ^ length bs"
  by (metis le_val_less le_val_rev length_rev)

lemma le_val_le_bytes [val_simps]: "le_val (le_bytes n v) = v mod 256 ^ n"
proof (induction n arbitrary: v)
  case (Suc n)
  have "unat (of_nat v :: u8) = v mod 256" by (simp add: unat_of_nat)
  with Suc show ?case by (simp add: mod_mult2_eq)
qed simp

lemma be_val_be_bytes [val_simps]: "be_val (be_bytes n v) = v mod 256 ^ n"
  by (simp add: be_bytes_def be_val_rev le_val_le_bytes)

lemma le_bytes_le_val: "le_bytes (length bs) (le_val bs) = bs"
proof (induction bs)
  case (Cons b bs)
  have lt: "unat b < 256" by simp
  have 1: "(of_nat (unat b + 256 * le_val bs) :: u8) = b"
    by (rule word_unat_eq_iff [THEN iffD2]) (simp add: unat_of_nat lt del: of_nat_add)
  have 2: "(unat b + 256 * le_val bs) div 256 = le_val bs" using lt by simp
  show ?case using 1 2 Cons by simp
qed simp

lemma be_bytes_be_val: "be_bytes (length bs) (be_val bs) = bs"
  unfolding be_bytes_def le_val_rev [symmetric]
  using le_bytes_le_val [of "rev bs"] by simp

lemma le_val_inj: "length xs = length ys \<Longrightarrow> le_val xs = le_val ys \<Longrightarrow> xs = ys"
  by (metis le_bytes_le_val)

lemma be_val_inj: "length xs = length ys \<Longrightarrow> be_val xs = be_val ys \<Longrightarrow> xs = ys"
  by (metis be_bytes_be_val)

lemma le_val_replicate0 [simp]: "le_val (replicate n 0) = 0"
  by (induction n) auto

section \<open>Words and their byte forms\<close>

definition u32_from_be :: "bytes \<Rightarrow> u32" where
  "u32_from_be bs = of_nat (be_val bs)"

definition u32_from_le :: "bytes \<Rightarrow> u32" where
  "u32_from_le bs = of_nat (le_val bs)"

definition u32_to_be :: "u32 \<Rightarrow> bytes" where
  "u32_to_be w = be_bytes 4 (unat w)"

definition u32_to_le :: "u32 \<Rightarrow> bytes" where
  "u32_to_le w = le_bytes 4 (unat w)"

lemma length_u32_to_be [simp, len_simps]: "length (u32_to_be w) = 4"
  by (simp add: u32_to_be_def)

lemma length_u32_to_le [simp, len_simps]: "length (u32_to_le w) = 4"
  by (simp add: u32_to_le_def)

lemma unat_u32_from_be: "length bs = 4 \<Longrightarrow> unat (u32_from_be bs) = be_val bs"
  using be_val_less [of bs] by (simp add: u32_from_be_def unat_of_nat)

lemma unat_u32_from_le: "length bs = 4 \<Longrightarrow> unat (u32_from_le bs) = le_val bs"
  using le_val_less [of bs] by (simp add: u32_from_le_def unat_of_nat)

lemma be_val_u32_to_be [val_simps]: "be_val (u32_to_be w) = unat w"
  by (simp add: u32_to_be_def be_val_be_bytes)

lemma le_val_u32_to_le [val_simps]: "le_val (u32_to_le w) = unat w"
  by (simp add: u32_to_le_def le_val_le_bytes)

lemma u32_from_be_to_be [simp]: "u32_from_be (u32_to_be w) = w"
  by (simp add: u32_from_be_def be_val_u32_to_be)

lemma u32_from_le_to_le [simp]: "u32_from_le (u32_to_le w) = w"
  by (simp add: u32_from_le_def le_val_u32_to_le)

lemma u32_to_be_from_be: "length bs = 4 \<Longrightarrow> u32_to_be (u32_from_be bs) = bs"
  using be_bytes_be_val [of bs] by (simp add: u32_to_be_def unat_u32_from_be)

lemma u32_to_le_from_le: "length bs = 4 \<Longrightarrow> u32_to_le (u32_from_le bs) = bs"
  using le_bytes_le_val [of bs] by (simp add: u32_to_le_def unat_u32_from_le)

text \<open>The value of a word array, least significant word first.\<close>

fun wval :: "u32 list \<Rightarrow> nat" where
  "wval [] = 0"
| "wval (w # ws) = unat w + 2 ^ 32 * wval ws"

lemma wval_append [val_simps]: "wval (xs @ ys) = wval xs + 2 ^ (32 * length xs) * wval ys"
  by (induction xs) (auto simp: algebra_simps power_add)

lemma wval_less: "wval ws < 2 ^ (32 * length ws)"
proof (induction ws)
  case (Cons w ws)
  then show ?case using radix_less [of "unat w" "2 ^ 32" "wval ws"] by (simp add: power_add)
qed simp

lemma wval_replicate0 [simp]: "wval (replicate n 0) = 0"
  by (induction n) auto

lemma wval_inj: "length xs = length ys \<Longrightarrow> wval xs = wval ys \<Longrightarrow> xs = ys"
proof (induction xs ys rule: list_induct2)
  case (Cons x xs y ys)
  have "unat x = unat y"
    using arg_cong [OF Cons.prems, of "\<lambda>n. n mod 2 ^ 32"] by simp
  moreover from this Cons.prems have "wval xs = wval ys" by simp
  ultimately show ?case using Cons.IH by (simp add: word_unat_eq_iff)
qed simp

lemma wval_update:
  "k < length ws \<Longrightarrow> wval (ws[k := v]) + 2 ^ (32 * k) * unat (ws ! k)
     = wval ws + 2 ^ (32 * k) * unat v"
proof (induction ws arbitrary: k)
  case (Cons w ws)
  show ?case
  proof (cases k)
    case 0
    then show ?thesis by simp
  next
    case (Suc j)
    with Cons.prems have "j < length ws" by simp
    from Cons.IH [OF this]
    have "2 ^ 32 * (wval (ws[j := v]) + 2 ^ (32 * j) * unat (ws ! j))
        = 2 ^ 32 * (wval ws + 2 ^ (32 * j) * unat v)" by simp
    with Suc show ?thesis by (simp add: algebra_simps power_add)
  qed
qed simp

section \<open>Explicit ranges and lists of fixed length\<close>

lemma upt_0_8: "[0..<8] = ([0, 1, 2, 3, 4, 5, 6, 7] :: nat list)"
  by code_simp

lemma upt_0_16: "[0..<16] = ([0, 1, 2, 3, 4, 5, 6, 7, 8, 9, 10, 11, 12, 13, 14, 15] :: nat list)"
  by code_simp

lemma upt_0_32: "[0..<32] = ([0, 1, 2, 3, 4, 5, 6, 7, 8, 9, 10, 11, 12, 13, 14, 15, 16, 17, 18, 19, 20, 21, 22, 23, 24,
     25, 26, 27, 28, 29, 30, 31] :: nat list)"
  by code_simp

lemma list_of_length: "length xs = n \<Longrightarrow> xs = map ((!) xs) [0..<n]"
  by (metis map_nth)

lemma list_length8:
  "length xs = 8 \<Longrightarrow> xs = [xs!0, xs!1, xs!2, xs!3, xs!4, xs!5, xs!6, xs!7]"
  by (drule list_of_length) (simp only: upt_0_8 list.map)

section \<open>The common error type\<close>

text \<open>\<^verbatim>\<open>embedded-cal/src/error.rs\<close>: a zero-sized error with a fixed text.\<close>

datatype import_error = ImportError

definition display_import_error :: "import_error \<Rightarrow> string" where
  "display_import_error e = ''data not valid for algorithm''"

end
