(* ===== verification/P256_Field.thy ===== *)
theory P256_Field
  imports Cal_Prelude
begin

text \<open>
  The word level of the P-256 field arithmetic of \<^verbatim>\<open>embedded-cal/src/util/p256.rs\<close>, which the
  hardware Diffie-Hellman back-ends share: constants, byte and word conversion, comparison,
  subtraction, modular addition and the schoolbook product. \<open>P256_Reduction\<close> adds the NIST fast
  reduction and \<open>P256_Curve\<close> exponentiation and the recovery of a y coordinate.

  \<open>u64\<close> accumulators are kept as 64-bit words (the multiplication uses their whole range); the
  \<open>i64\<close> borrow of the subtraction is an \<open>int\<close>, which is only ever 0 or 1.
\<close>

section \<open>Constants\<close>

definition P256_P :: "u32 list" where
  "P256_P = [0xFFFFFFFF, 0xFFFFFFFF, 0xFFFFFFFF, 0x00000000,
             0x00000000, 0x00000000, 0x00000001, 0xFFFFFFFF]"

definition P256_ORDER :: "u32 list" where
  "P256_ORDER = [0xFC632551, 0xF3B9CAC2, 0xA7179E84, 0xBCE6FAAD,
                 0xFFFFFFFF, 0xFFFFFFFF, 0x00000000, 0xFFFFFFFF]"

definition P256_B :: "u32 list" where
  "P256_B = [0x27D2604B, 0x3BCE3C3E, 0xCC53B0F6, 0x651D06B0,
             0x769886BC, 0xB3EBBD55, 0xAA3A93E7, 0x5AC635D8]"

definition P256_GX_BYTES :: bytes where
  "P256_GX_BYTES =
     [0x6b, 0x17, 0xd1, 0xf2, 0xe1, 0x2c, 0x42, 0x47, 0xf8, 0xbc, 0xe6, 0xe5, 0x63, 0xa4, 0x40, 0xf2,
      0x77, 0x03, 0x7d, 0x81, 0x2d, 0xeb, 0x33, 0xa0, 0xf4, 0xa1, 0x39, 0x45, 0xd8, 0x98, 0xc2, 0x96]"

definition P256_GY_BYTES :: bytes where
  "P256_GY_BYTES =
     [0x4f, 0xe3, 0x42, 0xe2, 0xfe, 0x1a, 0x7f, 0x9b, 0x8e, 0xe7, 0xeb, 0x4a, 0x7c, 0x0f, 0x9e, 0x16,
      0x2b, 0xce, 0x33, 0x57, 0x6b, 0x31, 0x5e, 0xce, 0xcb, 0xb6, 0x40, 0x68, 0x37, 0xbf, 0x51, 0xf5]"

definition SQRT_EXP :: "u32 list" where
  "SQRT_EXP = [0x00000000, 0x00000000, 0x40000000, 0x00000000,
               0x00000000, 0x40000000, 0xC0000000, 0x3FFFFFFF]"

text \<open>The field prime as a number; \<open>wval_P256_P\<close> ties it to the word array.\<close>

definition p256 :: nat where
  "p256 = 2 ^ 256 - 2 ^ 224 + 2 ^ 192 + 2 ^ 96 - 1"

section \<open>Conversion between bytes and words\<close>

text \<open>\<open>w[7 - i] = u32::from_be_bytes([b[i*4], .., b[i*4+3]])\<close> for \<open>i\<close> in \<open>0..8\<close>.\<close>

definition bytes_to_words :: "bytes \<Rightarrow> u32 list" where
  "bytes_to_words b =
     foldl (\<lambda>w i. w[7 - i := u32_from_be [b ! (i * 4), b ! (i * 4 + 1), b ! (i * 4 + 2), b ! (i * 4 + 3)]])
       (replicate 8 0) [0..<8]"

text \<open>\<open>out[i*4..i*4+4] = w[7 - i].to_be_bytes()\<close>: the eight groups are written in order.\<close>

definition words_to_bytes :: "u32 list \<Rightarrow> bytes" where
  "words_to_bytes w = concat (map (\<lambda>i. u32_to_be (w ! (7 - i))) [0..<8])"

definition P256_GX :: "u32 list" where
  "P256_GX = bytes_to_words P256_GX_BYTES"

definition P256_GY :: "u32 list" where
  "P256_GY = bytes_to_words P256_GY_BYTES"

section \<open>Comparison, subtraction, addition\<close>

text \<open>\<open>for i in (0..8).rev()\<close>: the most significant differing word decides.\<close>

fun ge_loop :: "u32 list \<Rightarrow> u32 list \<Rightarrow> nat \<Rightarrow> bool" where
  "ge_loop a b 0 = True"
| "ge_loop a b (Suc i) =
     (if a ! i > b ! i then True else if a ! i < b ! i then False else ge_loop a b i)"

definition ge :: "u32 list \<Rightarrow> u32 list \<Rightarrow> bool" where
  "ge a b = ge_loop a b 8"

fun sub256_loop :: "u32 list \<Rightarrow> u32 list \<Rightarrow> int \<Rightarrow> u32 list" where
  "sub256_loop (a # as) (b # bs) borrow =
     (let d = uint a - uint b - borrow
      in word_of_int d # sub256_loop as bs (if d < 0 then 1 else 0))"
| "sub256_loop _ _ borrow = []"

definition sub256 :: "u32 list \<Rightarrow> u32 list \<Rightarrow> u32 list" where
  "sub256 a b = sub256_loop a b 0"

fun add_loop :: "u32 list \<Rightarrow> u32 list \<Rightarrow> u64 \<Rightarrow> u32 list \<times> u64" where
  "add_loop (a # as) (b # bs) carry =
     (let s = ucast a + ucast b + carry;
          (r, c) = add_loop as bs (drop_bit 32 s)
      in (ucast s # r, c))"
| "add_loop _ _ carry = ([], carry)"

definition add_mod :: "u32 list \<Rightarrow> u32 list \<Rightarrow> u32 list" where
  "add_mod a b =
     (let (r, carry) = add_loop a b 0
      in if carry > 0 \<or> ge r P256_P then sub256 r P256_P else r)"

section \<open>The schoolbook product\<close>

text \<open>The inner loop over \<open>j\<close>: \<open>k\<close> is the code's \<open>i + j\<close>.\<close>

fun mul_inner :: "u32 list \<Rightarrow> u32 \<Rightarrow> u32 list \<Rightarrow> nat \<Rightarrow> u64 \<Rightarrow> u32 list \<times> u64" where
  "mul_inner t ai [] k carry = (t, carry)"
| "mul_inner t ai (bj # bs) k carry =
     (let cur = ucast (t ! k) + ucast ai * ucast bj + carry
      in mul_inner (t[k := ucast cur]) ai bs (Suc k) (drop_bit 32 cur))"

fun mul_outer :: "u32 list \<Rightarrow> u32 list \<Rightarrow> u32 list \<Rightarrow> nat \<Rightarrow> u32 list" where
  "mul_outer t [] bs i = t"
| "mul_outer t (ai # as) bs i =
     (let (t', carry) = mul_inner t ai bs i 0
      in mul_outer (t'[i + 8 := ucast carry]) as bs (Suc i))"

section \<open>Conversion lemmas\<close>

lemma length_P256_P [simp, len_simps]: "length P256_P = 8"
  by (simp add: P256_P_def)

lemma wval_P256_P [val_simps]: "wval P256_P = p256"
  by (simp add: P256_P_def p256_def)

lemma p256_pos [simp]: "0 < p256" "p256 < 2 ^ 256" "2 ^ 256 < 2 * p256"
  by (simp_all add: p256_def)

lemma bytes_to_words_eq:
  "bytes_to_words b = map (\<lambda>j. u32_from_be [b ! (28 - 4 * j), b ! (29 - 4 * j), b ! (30 - 4 * j), b ! (31 - 4 * j)]) [0..<8]"
  unfolding bytes_to_words_def by (simp add: upt_0_8 eval_nat_numeral)

lemma length_bytes_to_words [simp, len_simps]: "length (bytes_to_words b) = 8"
  by (simp add: bytes_to_words_eq)

lemma length_words_to_bytes [simp, len_simps]: "length (words_to_bytes w) = 32"
  by (simp add: words_to_bytes_def upt_0_8)

lemma wval_bytes_to_words [val_simps]:
  assumes "length b = 32"
  shows "wval (bytes_to_words b) = be_val b"
proof -
  have "b = map ((!) b) [0..<32]" using list_of_length [OF assms] .
  also have "\<dots> = [b!0, b!1, b!2, b!3] @ [b!4, b!5, b!6, b!7] @ [b!8, b!9, b!10, b!11]
      @ [b!12, b!13, b!14, b!15] @ [b!16, b!17, b!18, b!19] @ [b!20, b!21, b!22, b!23]
      @ [b!24, b!25, b!26, b!27] @ [b!28, b!29, b!30, b!31]"
    by (simp only: upt_0_32 list.map append.simps)
  finally have "be_val b = be_val ([b!0, b!1, b!2, b!3] @ [b!4, b!5, b!6, b!7] @ [b!8, b!9, b!10, b!11]
      @ [b!12, b!13, b!14, b!15] @ [b!16, b!17, b!18, b!19] @ [b!20, b!21, b!22, b!23]
      @ [b!24, b!25, b!26, b!27] @ [b!28, b!29, b!30, b!31])"
    by (rule arg_cong)
  also have "\<dots> = wval (bytes_to_words b)"
    by (simp only: be_val_append) (simp add: bytes_to_words_eq upt_0_8 unat_u32_from_be)
  finally show ?thesis ..
qed

lemma be_val_words_to_bytes [val_simps]:
  assumes "length w = 8"
  shows "be_val (words_to_bytes w) = wval w"
proof -
  obtain a b c d e f g h where w: "w = [a, b, c, d, e, f, g, h]"
    using list_length8 [OF assms] by blast
  show ?thesis
    by (simp add: w words_to_bytes_def upt_0_8 be_val_append be_val_u32_to_be)
qed

lemma words_to_bytes_to_words: "length b = 32 \<Longrightarrow> words_to_bytes (bytes_to_words b) = b"
  by (rule be_val_inj) (simp_all add: val_simps)

lemma bytes_to_words_to_bytes: "length w = 8 \<Longrightarrow> bytes_to_words (words_to_bytes w) = w"
  by (rule wval_inj) (simp_all add: val_simps)

section \<open>Comparison and subtraction\<close>

lemma wval_take_Suc: "i < length a \<Longrightarrow> wval (take (Suc i) a) = wval (take i a) + 2 ^ (32 * i) * unat (a ! i)"
  by (simp add: take_Suc_conv_app_nth wval_append)

lemma ge_loop_iff:
  "i \<le> length a \<Longrightarrow> length a = length b \<Longrightarrow> ge_loop a b i \<longleftrightarrow> wval (take i b) \<le> wval (take i a)"
proof (induction i)
  case (Suc i)
  have la: "wval (take i a) < 2 ^ (32 * i)" and lb: "wval (take i b) < 2 ^ (32 * i)"
    using wval_less [of "take i a"] wval_less [of "take i b"] Suc.prems by simp_all
  have gt: "wval (take (Suc i) y) < wval (take (Suc i) x)"
    if "y ! i < x ! i" "length x = length y" "i < length x" for x y
  proof -
    have "wval (take i y) < 2 ^ (32 * i)" using wval_less [of "take i y"] that by simp
    moreover have "unat (y ! i) + 1 \<le> unat (x ! i)" using that by (simp add: word_less_nat_alt)
    then have "2 ^ (32 * i) * (unat (y ! i) + 1) \<le> 2 ^ (32 * i) * unat (x ! i)"
      by (rule mult_le_mono2)
    ultimately show ?thesis using that by (simp add: wval_take_Suc algebra_simps)
  qed
  consider "b ! i < a ! i" | "a ! i < b ! i" | "a ! i = b ! i" by (rule linorder_cases)
  then show ?case
  proof cases
    case 1
    with gt [of b a] Suc.prems show ?thesis by simp
  next
    case 2
    with gt [of a b] Suc.prems show ?thesis by simp
  next
    case 3
    with Suc show ?thesis by (simp add: wval_take_Suc)
  qed
qed simp

lemma ge_iff [val_simps]: "length a = 8 \<Longrightarrow> length b = 8 \<Longrightarrow> ge a b \<longleftrightarrow> wval b \<le> wval a"
  by (simp add: ge_def ge_loop_iff)

lemma length_sub256_loop: "length a = length b \<Longrightarrow> length (sub256_loop a b c) = length a"
  by (induction a b c rule: sub256_loop.induct) (auto simp: Let_def)

lemma length_sub256 [len_simps]: "length a = length b \<Longrightarrow> length (sub256 a b) = length a"
  by (simp add: sub256_def length_sub256_loop)

lemma uint_word_of_int_u32: "uint (word_of_int v :: u32) = v mod 4294967296"
  by (simp add: unsigned_of_int take_bit_eq_mod)

lemma uint_u32_range: "0 \<le> uint (w :: u32)" "uint (w :: u32) < 2 ^ 32"
  using unsigned_less [where 'a = int, of w] by simp_all

lemma wval_Cons_int: "int (wval (w # ws)) = uint w + 2 ^ 32 * int (wval ws)"
  by simp

text \<open>The subtraction with its final borrow.\<close>

lemma sub256_loop_val:
  assumes "length a = length b" and "0 \<le> c" and "c \<le> 1"
  shows "\<exists>c'. 0 \<le> c' \<and> c' \<le> 1 \<and> int (wval (sub256_loop a b c))
           = int (wval a) - int (wval b) - c + 2 ^ (32 * length a) * c'"
  using assms
proof (induction a b c rule: sub256_loop.induct)
  case (1 a as b bs c)
  define d where "d = uint a - uint b - c"
  define e :: int where "e = (if d < 0 then 1 else 0)"
  have rng: "- (2 ^ 32) \<le> d" "d < 2 ^ 32"
    using uint_u32_range [of a] uint_u32_range [of b] "1.prems" unfolding d_def by linarith+
  have dm: "d mod 2 ^ 32 = d + 2 ^ 32 * e"
    using rng mod_pos_pos_trivial [of "d + 2 ^ 32" "2 ^ 32 :: int"] by (auto simp: e_def)
  have "0 \<le> e" "e \<le> 1" by (auto simp: e_def)
  with "1.IH" [OF refl] "1.prems" obtain c' where c': "0 \<le> c'" "c' \<le> 1"
    and IH: "int (wval (sub256_loop as bs e))
      = int (wval as) - int (wval bs) - e + 2 ^ (32 * length as) * c'"
    by (auto simp: d_def [symmetric] e_def)
  have "int (wval (sub256_loop (a # as) (b # bs) c))
      = d mod 2 ^ 32 + 2 ^ 32 * int (wval (sub256_loop as bs e))"
    by (simp add: Let_def d_def [symmetric] e_def [symmetric] uint_word_of_int_u32)
  also have "\<dots> = int (wval (a # as)) - int (wval (b # bs)) - c + 2 ^ (32 * length (a # as)) * c'"
    unfolding dm IH wval_Cons_int by (simp add: d_def algebra_simps power_add)
  finally show ?case using c' by blast
qed auto

lemma sub256_val:
  assumes "length a = 8" "length b = 8" "wval b \<le> wval a"
  shows "wval (sub256 a b) = wval a - wval b"
proof -
  obtain c' where c': "0 \<le> c'" "c' \<le> 1"
    and v: "int (wval (sub256 a b)) = int (wval a) - int (wval b) + 2 ^ 256 * c'"
    using sub256_loop_val [of a b 0] assms by (auto simp: sub256_def)
  have "wval (sub256 a b) < 2 ^ 256" "wval a < 2 ^ 256"
    using wval_less [of "sub256 a b"] wval_less [of a] assms by (simp_all add: len_simps)
  then have "c' = 0" using v c' assms(3) by (cases "c' = 0") auto
  with v assms(3) show ?thesis by simp
qed

text \<open>With a carry above the eight words, the subtraction wraps to the right value.\<close>

lemma sub256_val_wrap:
  assumes "length a = 8" "length b = 8" "wval a < wval b"
  shows "wval (sub256 a b) = 2 ^ 256 + wval a - wval b"
proof -
  obtain c' where c': "0 \<le> c'" "c' \<le> 1"
    and v: "int (wval (sub256 a b)) = int (wval a) - int (wval b) + 2 ^ 256 * c'"
    using sub256_loop_val [of a b 0] assms by (auto simp: sub256_def)
  have "wval b < 2 ^ 256" using wval_less [of b] assms by simp
  moreover have "c' = 1" using v c' assms(3) by (cases "c' = 0") auto
  ultimately show ?thesis using v by simp
qed

section \<open>Modular addition\<close>

lemma unat_ucast_u32_u64 [simp]: "unat (ucast (a :: u32) :: u64) = unat a"
proof -
  have "unat a < 2 ^ 64" by (rule less_trans [OF unat_u32_less]) simp
  then show ?thesis by (simp add: unsigned_ucast_eq take_bit_nat_eq_self)
qed

lemma unat_ucast_u64_u32 [simp]: "unat (ucast (a :: u64) :: u32) = unat a mod 4294967296"
  by (simp add: unsigned_ucast_eq take_bit_eq_mod)

lemma unat_drop32 [simp]: "unat (drop_bit 32 (a :: u64)) = unat a div 4294967296"
  by (subst unat_drop_bit_eq) (simp add: drop_bit_eq_div)

lemma unat_add_u64: "unat a + unat b < 2 ^ 64 \<Longrightarrow> unat (a + b :: u64) = unat a + unat b"
  by (rule unat_add_lem [THEN iffD1]) simp

lemma mod_eq_minus: "p \<le> s \<Longrightarrow> s < 2 * p \<Longrightarrow> s mod p = s - (p :: nat)"
  by (simp add: le_mod_geq)

lemma unat_mult_u64: "unat a * unat b < 2 ^ 64 \<Longrightarrow> unat (a * b :: u64) = unat a * unat b"
  by (rule unat_mult_lem [THEN iffD1]) simp

text \<open>One limb of the addition: no overflow of the 64-bit sum, and the carry stays a bit.\<close>

lemma length_add_loop: "length a = length b \<Longrightarrow> length (fst (add_loop a b c)) = length a"
  by (induction a b c rule: add_loop.induct) (auto simp: Let_def split: prod.splits)

lemma add_loop_val:
  assumes "length a = length b" and "unat c \<le> 1" and "add_loop a b c = (r, c')"
  shows "wval r + 2 ^ (32 * length a) * unat c' = wval a + wval b + unat c \<and> unat c' \<le> 1"
  using assms
proof (induction a b c arbitrary: r c' rule: add_loop.induct)
  case (1 a as b bs c)
  define s :: u64 where "s = ucast a + ucast b + c"
  have s: "unat s = unat a + unat b + unat c"
  proof -
    have lt: "unat a + unat b + unat c < 18446744073709551616"
      using unat_u32_less [of a] unat_u32_less [of b] "1.prems"(2) by linarith
    then have ab: "unat (ucast a + ucast b :: u64) = unat a + unat b"
      by (subst unat_add_u64) simp_all
    show ?thesis unfolding s_def
      by (subst unat_add_u64) (use lt in \<open>simp_all add: ab\<close>)
  qed
  obtain r0 where r0: "add_loop as bs (drop_bit 32 s) = (r0, c')" and r: "r = ucast s # r0"
    using "1.prems"(3) by (auto simp: Let_def s_def split: prod.splits)
  have c1: "unat (drop_bit 32 s) \<le> 1"
  proof -
    have "unat s < 2 * 4294967296"
      using s unat_u32_less [of a] unat_u32_less [of b] "1.prems"(2) by linarith
    then have "unat s div 4294967296 < 2" by (rule less_mult_imp_div_less)
    then show ?thesis by simp
  qed
  from "1.IH" [OF s_def _ c1 r0] "1.prems"(1)
  have IH: "wval r0 + 2 ^ (32 * length as) * unat c' = wval as + wval bs + unat s div 4294967296"
    and c'1: "unat c' \<le> 1" by auto
  have "wval r + 2 ^ (32 * length (a # as)) * unat c'
      = unat s mod 4294967296 + 4294967296 * (wval r0 + 2 ^ (32 * length as) * unat c')"
    by (simp add: r algebra_simps power_add)
  also have "\<dots> = unat s + 4294967296 * (wval as + wval bs)"
    unfolding IH by (simp add: distrib_left)
  finally show ?case using s c'1 by simp
qed auto

lemma length_add_mod [len_simps]: "length a = 8 \<Longrightarrow> length b = 8 \<Longrightarrow> length (add_mod a b) = 8"
  using length_add_loop [of a b 0]
  by (auto simp: add_mod_def len_simps split: prod.splits)

lemma add_mod_val:
  assumes "length a = 8" "length b = 8" "wval a < p256" "wval b < p256"
  shows "wval (add_mod a b) = (wval a + wval b) mod p256"
proof -
  obtain r c where rc: "add_loop a b 0 = (r, c)" by fastforce
  with add_loop_val [of a b 0 r c] assms
  have v: "wval r + 2 ^ 256 * unat c = wval a + wval b" and c: "unat c \<le> 1" by auto
  have lr: "length r = 8" using length_add_loop [of a b 0] rc assms by simp
  have rl: "wval r < 2 ^ 256" using wval_less [of r] lr by simp
  show ?thesis
  proof (cases "c = 0")
    case True
    then show ?thesis using v assms lr
      by (auto simp: add_mod_def rc ge_iff val_simps sub256_val len_simps le_mod_geq)
  next
    case False
    then have c1: "unat c = 1" using c by (metis le_neq_implies_less less_one unat_eq_zero)
    have rp: "wval r < p256" using v c1 assms p256_pos by simp
    have "(wval a + wval b) mod p256 = wval a + wval b - p256"
      using v c1 assms p256_pos by (intro mod_eq_minus) simp_all
    with False v c1 assms lr rp show ?thesis
      by (simp add: add_mod_def rc val_simps sub256_val_wrap word_neq_0_conv)
  qed
qed

section \<open>Schoolbook multiplication\<close>

lemma mul_limb:
  fixes t a b :: u32 and c :: u64
  assumes "unat c < 4294967296"
  defines "cur \<equiv> ucast t + ucast a * ucast b + c"
  shows "unat cur = unat t + unat a * unat b + unat c"
    and "unat cur div 4294967296 < 4294967296"
proof -
  have "unat a * unat b \<le> 4294967295 * 4294967295"
    using unat_u32_less [of a] unat_u32_less [of b] by (intro mult_le_mono) linarith+
  then have lt: "unat t + unat a * unat b + unat c < 18446744073709551616"
    using unat_u32_less [of t] assms(1) by linarith
  then have m: "unat (ucast a * ucast b :: u64) = unat a * unat b"
    by (subst unat_mult_u64) simp_all
  then have tm: "unat (ucast t + ucast a * ucast b :: u64) = unat t + unat a * unat b"
    using lt by (subst unat_add_u64) simp_all
  show eq: "unat cur = unat t + unat a * unat b + unat c"
    unfolding cur_def by (subst unat_add_u64) (use lt in \<open>simp_all add: tm\<close>)
  have "unat cur < 4294967296 * 4294967296" using lt eq by simp
  then show "unat cur div 4294967296 < 4294967296" by (rule less_mult_imp_div_less)
qed

lemma length_mul_inner: "length (fst (mul_inner t ai bs k c)) = length t"
  by (induction t ai bs k c rule: mul_inner.induct) (simp_all add: Let_def)

lemma mul_inner_above: "k + length bs \<le> m \<Longrightarrow> fst (mul_inner t ai bs k c) ! m = t ! m"
  by (induction t ai bs k c rule: mul_inner.induct) (simp_all add: Let_def)

lemma mul_inner_val:
  assumes "k + length bs \<le> length t" "unat c < 4294967296" "mul_inner t ai bs k c = (t', c')"
  shows "wval t' + 2 ^ (32 * (k + length bs)) * unat c'
           = wval t + 2 ^ (32 * k) * (unat ai * wval bs + unat c) \<and> unat c' < 4294967296"
  using assms
proof (induction t ai bs k c arbitrary: t' c' rule: mul_inner.induct)
  case (1 t ai k carry)
  then show ?case by simp
next
  case (2 t ai bj bs k carry)
  define cur :: u64 where "cur = ucast (t ! k) + ucast ai * ucast bj + carry"
  have cur: "unat cur = unat (t ! k) + unat ai * unat bj + unat carry"
    and hi: "unat cur div 4294967296 < 4294967296"
    unfolding cur_def using "2.prems"(2) by (rule mul_limb)+
  have upd: "wval (t[k := ucast cur]) + 2 ^ (32 * k) * unat (t ! k)
      = wval t + 2 ^ (32 * k) * (unat cur mod 4294967296)"
    using wval_update [of k t "ucast cur"] "2.prems"(1) by simp
  have IH: "wval t' + 2 ^ (32 * (Suc k + length bs)) * unat c'
      = wval (t[k := ucast cur]) + 2 ^ (32 * Suc k) * (unat ai * wval bs + unat cur div 4294967296)"
    and c': "unat c' < 4294967296"
    using "2.IH" [OF cur_def] "2.prems" hi by (auto simp: Let_def cur_def)
  have "2 ^ (32 * k) * (4294967296 * (unat cur div 4294967296) + unat cur mod 4294967296)
      = 2 ^ (32 * k) * unat cur" by (simp only: mult_div_mod_eq)
  then have split: "2 ^ (32 * Suc k) * (unat cur div 4294967296) + 2 ^ (32 * k) * (unat cur mod 4294967296)
      = 2 ^ (32 * k) * unat cur"
    by (simp only: distrib_left power_add mult_Suc_right) (simp add: mult.assoc mult.left_commute)
  show ?case using IH upd split c' cur by (simp add: algebra_simps power_add)
qed

lemma mul_outer_val:
  assumes "length t = 16" "length bs = 8" "i + length as = 8" "\<forall>m. i + 8 \<le> m \<and> m < 16 \<longrightarrow> t ! m = 0"
  shows "wval (mul_outer t as bs i) = wval t + 2 ^ (32 * i) * (wval as * wval bs)
       \<and> length (mul_outer t as bs i) = 16"
  using assms
proof (induction t as bs i rule: mul_outer.induct)
  case (1 t bs i)
  then show ?case by simp
next
  case (2 t ai as bs i)
  obtain t' c where tc: "mul_inner t ai bs i 0 = (t', c)" by fastforce
  have v: "wval t' + 2 ^ (32 * (i + 8)) * unat c = wval t + 2 ^ (32 * i) * (unat ai * wval bs)"
    and c: "unat c < 4294967296"
    using mul_inner_val [OF _ _ tc] "2.prems" by simp_all
  have len: "length t' = 16" using length_mul_inner [of t ai bs i 0] tc "2.prems" by simp
  have above: "t' ! m = t ! m" if "i + 8 \<le> m" for m
    using mul_inner_above [of i bs m t ai 0] tc that "2.prems" by simp
  then have z: "t' ! (i + 8) = 0" using "2.prems" by simp
  have u: "wval (t'[i + 8 := ucast c]) = wval t' + 2 ^ (32 * (i + 8)) * unat c"
    using wval_update [of "i + 8" t' "ucast c"] len z c "2.prems" by simp
  have "wval (mul_outer (t'[i + 8 := ucast c]) as bs (Suc i))
      = wval (t'[i + 8 := ucast c]) + 2 ^ (32 * Suc i) * (wval as * wval bs)
      \<and> length (mul_outer (t'[i + 8 := ucast c]) as bs (Suc i)) = 16"
    using "2.IH" [OF tc [symmetric] refl] "2.prems" len above by simp
  with u v show ?case by (simp add: tc algebra_simps power_add)
qed

end
