(* ===== verification/P256_Reduction.thy ===== *)
theory P256_Reduction
  imports P256_Field
begin

text \<open>
  The NIST fast reduction of \<^verbatim>\<open>embedded-cal/src/util/p256.rs\<close> (\<open>reduce_p256\<close>) and the modular
  multiplication built on it. The \<open>i64\<close> accumulators are \<open>int\<close>: \<open>reduce_acc_entry\<close> and
  \<open>carry_values_range\<close> bound every intermediate value far inside the \<open>i64\<close> range. The correctness
  argument is linear: the eight accumulators differ from the product by an explicit multiple of
  the prime, the residual carry lies between -4 and 5, and two rounds of \<open>absorb\<close> remove it.
\<close>

definition reduce_acc :: "u32 list \<Rightarrow> int list" where
  "reduce_acc t =
     (let c = (\<lambda>i. uint (t ! i)) in
      [c 0 + c 8 + c 9 - c 11 - c 12 - c 13 - c 14,
       c 1 + c 9 + c 10 - c 12 - c 13 - c 14 - c 15,
       c 2 + c 10 + c 11 - c 13 - c 14 - c 15,
       c 3 + 2 * c 11 + 2 * c 12 + c 13 - c 15 - c 8 - c 9,
       c 4 + 2 * c 12 + 2 * c 13 + c 14 - c 9 - c 10,
       c 5 + 2 * c 13 + 2 * c 14 + c 15 - c 10 - c 11,
       c 6 + 3 * c 14 + 2 * c 15 + c 13 - c 8 - c 9,
       c 7 + 3 * c 15 + c 8 - c 10 - c 11 - c 12 - c 13])"

text \<open>\<open>v = acc[i] + carry; r[i] = v as u32; carry = v >> 32\<close> (an arithmetic shift).\<close>

fun carry_pass :: "int list \<Rightarrow> int \<Rightarrow> u32 list \<times> int" where
  "carry_pass [] carry = ([], carry)"
| "carry_pass (a # as) carry =
     (let v = a + carry; (r, c) = carry_pass as (v div 2 ^ 32) in (word_of_int v # r, c))"

definition absorb_acc :: "u32 list \<Rightarrow> int \<Rightarrow> int list" where
  "absorb_acc r adj =
     (let acc2 = map uint r;
          acc2 = acc2[0 := acc2 ! 0 + adj];
          acc2 = acc2[3 := acc2 ! 3 - adj];
          acc2 = acc2[6 := acc2 ! 6 - adj]
      in acc2[7 := acc2 ! 7 + adj])"

text \<open>\<open>for _ in 0..n\<close> with the early exit on \<open>carry == 0\<close>.\<close>

fun absorb :: "nat \<Rightarrow> u32 list \<Rightarrow> int \<Rightarrow> u32 list \<times> int" where
  "absorb 0 r carry = (r, carry)"
| "absorb (Suc n) r carry =
     (if carry = 0 then (r, carry)
      else let (r', carry') = carry_pass (absorb_acc r carry) 0 in absorb n r' carry')"

fun final_sub :: "nat \<Rightarrow> u32 list \<Rightarrow> u32 list" where
  "final_sub 0 r = r"
| "final_sub (Suc n) r = (if ge r P256_P then final_sub n (sub256 r P256_P) else r)"

definition reduce_p256 :: "u32 list \<Rightarrow> u32 list" where
  "reduce_p256 t =
     (let (r, carry) = carry_pass (reduce_acc t) 0;
          (r, carry) = absorb 4 r carry
      in final_sub 2 r)"

definition mul_mod :: "u32 list \<Rightarrow> u32 list \<Rightarrow> u32 list" where
  "mul_mod a b = reduce_p256 (mul_outer (replicate 16 0) a b 0)"

section \<open>Values of the accumulators\<close>

fun ival :: "int list \<Rightarrow> int" where
  "ival [] = 0"
| "ival (a # as) = a + 2 ^ 32 * ival as"

lemma length_carry_pass [len_simps]: "length (fst (carry_pass as c)) = length as"
  by (induction as c rule: carry_pass.induct) (auto simp: Let_def split: prod.splits)

lemma carry_pass_val:
  "carry_pass as c = (r, c') \<Longrightarrow> int (wval r) + 2 ^ (32 * length as) * c' = ival as + c"
proof (induction as c arbitrary: r c' rule: carry_pass.induct)
  case (2 a as c)
  define v where "v = a + c"
  obtain r0 where r0: "carry_pass as (v div 2 ^ 32) = (r0, c')" and r: "r = word_of_int v # r0"
    using "2.prems" by (auto simp: Let_def v_def split: prod.splits)
  have "int (wval r) + 2 ^ (32 * length (a # as)) * c'
      = v mod 2 ^ 32 + 2 ^ 32 * (int (wval r0) + 2 ^ (32 * length as) * c')"
    by (simp add: r uint_word_of_int_u32 power_add algebra_simps)
  also have "\<dots> = v mod 2 ^ 32 + 2 ^ 32 * (ival as + v div 2 ^ 32)"
    using "2.IH" [OF v_def r0] by simp
  also have "\<dots> = ival (a # as) + c" by (simp add: v_def distrib_left)
  finally show ?case .
qed simp

lemma ival_map_uint: "ival (map uint r) = int (wval r)"
  by (induction r) simp_all

lemma wval_16:
  "length t = 16 \<Longrightarrow> int (wval t) = ival (map (\<lambda>i. uint (t ! i)) [0..<16])"
  using ival_map_uint [of t] arg_cong [OF list_of_length [of t 16], of "map uint"]
  by (simp add: o_def)

lemma reduce_acc_linear:
  "ival (reduce_acc t) = 1 * uint (t ! 0)
      + 4294967296 * uint (t ! 1)
      + 18446744073709551616 * uint (t ! 2)
      + 79228162514264337593543950336 * uint (t ! 3)
      + 340282366920938463463374607431768211456 * uint (t ! 4)
      + 1461501637330902918203684832716283019655932542976 * uint (t ! 5)
      + 6277101735386680763835789423207666416102355444464034512896 * uint (t ! 6)
      + 26959946667150639794667015087019630673637144422540572481103610249216 * uint (t ! 7)
      + 26959946660873538059280334323183841250350249843923952699046031785985 * uint (t ! 8)
      - 6277101735386680764176071790207833042079994389485051707391 * uint (t ! 9)
      - 26959946667150639796128516724690815958761767718701783364113306484736 * uint (t ! 10)
      - 26959946667150639796128516724350533591682372930209880081498745339905 * uint (t ! 11)
      - 26959946667150639794667015086339065939636811170585294591057280892929 * uint (t ! 12)
      - 26959946660873538056357331047841470680101003251583084188948634796033 * uint (t ! 13)
      + 18831305209083045566509456472951307377184560236057732317183 * uint (t ! 14)
      + 80879840014006122856235908426061373785451222770010000270223283847168 * uint (t ! 15)"
  by (simp add: reduce_acc_def Let_def algebra_simps)

lemma reduce_acc_bounds:
  assumes "length t = 16"
  shows "- 4 * 2 ^ 256 \<le> ival (reduce_acc t)" and "ival (reduce_acc t) < 6 * 2 ^ 256"
proof -
  have r: "0 \<le> uint (t ! i)" "uint (t ! i) \<le> 4294967295" for i
    using uint_u32_range [of "t ! i"] by simp_all
  note rs = r [of 0] r [of 1] r [of 2] r [of 3] r [of 4] r [of 5] r [of 6] r [of 7]
    r [of 8] r [of 9] r [of 10] r [of 11] r [of 12] r [of 13] r [of 14] r [of 15]
  have p: "(2 :: int) ^ 256 = 115792089237316195423570985008687907853269984665640564039457584007913129639936"
    by simp
  show "- 4 * 2 ^ 256 \<le> ival (reduce_acc t)" and "ival (reduce_acc t) < 6 * 2 ^ 256"
    unfolding reduce_acc_linear p using rs by linarith+
qed

text \<open>The accumulators differ from the product by a multiple of the prime.\<close>

lemma p256_eq: "p256 = 115792089210356248762697446949407573530086143415290314195533631308867097853951"
  by (simp add: p256_def)

lemma wval_linear:
  "length t = 16 \<Longrightarrow> int (wval t) = 1 * uint (t ! 0)
      + 4294967296 * uint (t ! 1)
      + 18446744073709551616 * uint (t ! 2)
      + 79228162514264337593543950336 * uint (t ! 3)
      + 340282366920938463463374607431768211456 * uint (t ! 4)
      + 1461501637330902918203684832716283019655932542976 * uint (t ! 5)
      + 6277101735386680763835789423207666416102355444464034512896 * uint (t ! 6)
      + 26959946667150639794667015087019630673637144422540572481103610249216 * uint (t ! 7)
      + 115792089237316195423570985008687907853269984665640564039457584007913129639936 * uint (t ! 8)
      + 497323236409786642155382248146820840100456150797347717440463976893159497012533375533056 * uint (t ! 9)
      + 2135987035920910082395021706169552114602704522356652769947041607822219725780640550022962086936576 * uint (t ! 10)
      + 9173994463960286046443283581208347763186259956673124494950355357547691504353939232280074212440502746218496 * uint (t ! 11)
      + 39402006196394479212279040100143613805079739270465446667948293404245721771497210611414266254884915640806627990306816 * uint (t ! 12)
      + 169230328010303641331690318856389386196071598838855992136870091590247882556495704531248437872567112920983350278405979725889536 * uint (t ! 13)
      + 726838724295606890549323807888004534353641360687318060281490199180639288113397923326191050713763565560762521606266177933534601628614656 * uint (t ! 14)
      + 3121748550315992231381597229793166305748598142664971150859156959625371738819765620120306103063491971159826931121406622895447975679288285306290176 * uint (t ! 15)"
  by (simp add: wval_16 upt_0_16 algebra_simps)

lemma reduce_acc_cong:
  assumes "length t = 16"
  shows "\<exists>q. int (wval t) = ival (reduce_acc t) + int p256 * q"
proof
  let ?c = "\<lambda>i. uint (t ! i)"
  show "int (wval t) = ival (reduce_acc t) + int p256 *
      (1 * ?c 8
       + 4294967297 * ?c 9
       + 18446744078004518912 * ?c 10
       + 79228162532711081667253501951 * ?c 11
       + 340282367000166625977638945021017194495 * ?c 12
       + 1461501637671185285124623296161210883009696235519 * ?c 13
       + 6277101736848182401166692341332123086285927382448418586623 * ?c 14
       + 26959946673427741530053695850515137729844644212646842236464328081408 * ?c 15)"
    unfolding wval_linear [OF assms] reduce_acc_linear p256_eq of_nat_numeral by simp
qed

text \<open>Each round of \<open>absorb\<close> replaces the carry \<open>c\<close>, worth \<open>c * 2 ^ 256\<close>, by \<open>c\<close> times the
  constant below, which is congruent to it.\<close>

definition fold_k :: int where
  "fold_k = 2 ^ 256 - int p256"

lemma fold_k_eq: "fold_k = 2 ^ 224 - 2 ^ 192 - 2 ^ 96 + 1"
  by (simp add: fold_k_def p256_def)

lemma absorb_acc_ival:
  assumes "length r = 8"
  shows "ival (absorb_acc r c) = int (wval r) + c * fold_k" "length (absorb_acc r c) = 8"
proof -
  obtain r0 r1 r2 r3 r4 r5 r6 r7 where r: "r = [r0, r1, r2, r3, r4, r5, r6, r7]"
    using list_length8 [OF assms] by blast
  show "ival (absorb_acc r c) = int (wval r) + c * fold_k" "length (absorb_acc r c) = 8"
    by (simp_all add: absorb_acc_def Let_def r fold_k_eq algebra_simps)
qed

lemma absorb_step:
  assumes "length r = 8" and "carry_pass (absorb_acc r c) 0 = (r', c')"
  shows "int (wval r') + 2 ^ 256 * c' = int (wval r) + c * fold_k" "length r' = 8"
proof -
  have l: "length (absorb_acc r c) = 8" using absorb_acc_ival [OF assms(1)] by simp
  show "int (wval r') + 2 ^ 256 * c' = int (wval r) + c * fold_k"
    using carry_pass_val [OF assms(2)] absorb_acc_ival [OF assms(1)] by simp
  show "length r' = 8"
    using length_carry_pass [of "absorb_acc r c" 0] assms(2) l by simp
qed

lemma wval8_int: "length r = 8 \<Longrightarrow> 0 \<le> int (wval r) \<and> int (wval r) < 2 ^ 256"
proof -
  assume "length r = 8"
  then have "wval r < 2 ^ 256" using wval_less [of r] by simp
  then have "int (wval r) < int (2 ^ 256)" by (simp only: of_nat_less_iff)
  then show ?thesis by simp
qed

lemma absorb_cong:
  "length r = 8 \<Longrightarrow> absorb n r c = (r', c') \<Longrightarrow>
     length r' = 8 \<and> (\<exists>q. int (wval r') + 2 ^ 256 * c' = int (wval r) + 2 ^ 256 * c + int p256 * q)"
proof (induction n r c arbitrary: r' c' rule: absorb.induct)
  case (1 r c)
  then show ?case by (auto intro: exI [of _ 0])
next
  case (2 n r c)
  show ?case
  proof (cases "c = 0")
    case True
    with 2 show ?thesis by (auto intro: exI [of _ 0])
  next
    case False
    obtain r1 c1 where s: "carry_pass (absorb_acc r c) 0 = (r1, c1)" by fastforce
    note st = absorb_step [OF "2.prems"(1) s]
    from "2.prems" False s have "absorb n r1 c1 = (r', c')" by simp
    from "2.IH" [OF False s [symmetric] refl st(2) this] obtain q where len: "length r' = 8"
      and q: "int (wval r') + 2 ^ 256 * c' = int (wval r1) + 2 ^ 256 * c1 + int p256 * q"
      by blast
    have "int (wval r') + 2 ^ 256 * c' = int (wval r) + 2 ^ 256 * c + int p256 * (q - c)"
      using q st(1) by (simp add: fold_k_def algebra_simps)
    with len show ?thesis by blast
  qed
qed

text \<open>From a carry between \<open>-4\<close> and \<open>5\<close> two rounds leave none.\<close>

lemma absorb_range:
  assumes "length r = 8" "- 4 \<le> c" "c \<le> 5" "carry_pass (absorb_acc r c) 0 = (r1, c1)"
  shows "c1 = 0 \<or> c1 = 1 \<and> int (wval r1) < 5 * fold_k \<or> c1 = - 1 \<and> 2 ^ 256 - 4 * fold_k \<le> int (wval r1)"
proof -
  note st = absorb_step [OF assms(1,4)]
  note w = wval8_int [OF assms(1)] wval8_int [OF st(2)]
  have k: "fold_k = 26959946660873538059280334323183841250350249843923952699046031785985"
    by (simp add: fold_k_eq)
  have "c1 < 2" "- 2 < c1" using st(1) w assms(2,3) unfolding k by simp_all
  then consider "c1 = 0" | "c1 = 1" | "c1 = - 1" by linarith
  then show ?thesis
    by cases (use st(1) w assms(2,3) in \<open>simp_all add: k\<close>)
qed

lemma fold_step_up:
  fixes x y c :: int
  assumes "0 \<le> x" "x < 5 * fold_k" "0 \<le> y" "y < 2 ^ 256" "y + 2 ^ 256 * c = x + fold_k"
  shows "c = 0"
proof -
  have k: "fold_k = 26959946660873538059280334323183841250350249843923952699046031785985"
    by (simp add: fold_k_eq)
  have M: "(2 :: int) ^ 256 = 115792089237316195423570985008687907853269984665640564039457584007913129639936"
    by simp
  have "c < 1" "- 1 < c" using assms unfolding k M by linarith+
  then show ?thesis by simp
qed

lemma fold_step_down:
  fixes x y c :: int
  assumes "2 ^ 256 - 4 * fold_k \<le> x" "x < 2 ^ 256" "0 \<le> y" "y < 2 ^ 256" "y + 2 ^ 256 * c = x - fold_k"
  shows "c = 0"
proof -
  have k: "fold_k = 26959946660873538059280334323183841250350249843923952699046031785985"
    by (simp add: fold_k_eq)
  have M: "(2 :: int) ^ 256 = 115792089237316195423570985008687907853269984665640564039457584007913129639936"
    by simp
  have "c < 1" "- 1 < c" using assms unfolding k M by linarith+
  then show ?thesis by simp
qed

lemma absorb_carry:
  assumes "length r = 8" "- 4 \<le> c" "c \<le> 5"
  shows "snd (absorb (Suc (Suc n)) r c) = 0"
proof -
  have z: "snd (absorb m x 0) = 0" for m x by (cases m) simp_all
  obtain r1 c1 where s1: "carry_pass (absorb_acc r c) 0 = (r1, c1)" by fastforce
  obtain r2 c2 where s2: "carry_pass (absorb_acc r1 c1) 0 = (r2, c2)" by fastforce
  note st1 = absorb_step [OF assms(1) s1]
  note st2 = absorb_step [OF st1(2) s2]
  note w = wval8_int [OF st1(2)] wval8_int [OF st2(2)]
  have "c2 = 0" if "c1 = 1" "int (wval r1) < 5 * fold_k"
    using fold_step_up [of "int (wval r1)" "int (wval r2)" c2] st2(1) w that by simp
  moreover have "c2 = 0" if "c1 = - 1" "2 ^ 256 - 4 * fold_k \<le> int (wval r1)"
    using fold_step_down [of "int (wval r1)" "int (wval r2)" c2] st2(1) w that by simp
  ultimately have "c1 = 0 \<or> c2 = 0" using absorb_range [OF assms s1] by blast
  then show ?thesis by (auto simp: s1 s2 z)
qed

lemma p256_lt: "p256 < 2 ^ 256" and lt_2p256: "2 ^ 256 < 2 * p256"
  by (simp_all add: p256_def)

lemma final_sub_val:
  assumes "length r = 8"
  shows "wval (final_sub 2 r) = wval r mod p256" "length (final_sub 2 r) = 8"
proof -
  have w: "wval r < 2 * p256" using wval_less [of r] assms lt_2p256 by simp
  show "length (final_sub 2 r) = 8"
    using assms by (simp add: numeral_2_eq_2 len_simps)
  show "wval (final_sub 2 r) = wval r mod p256"
  proof (cases "p256 \<le> wval r")
    case True
    then have g: "ge r P256_P" and s: "wval (sub256 r P256_P) = wval r - p256"
      using assms by (simp_all add: ge_iff wval_P256_P sub256_val)
    have "\<not> ge (sub256 r P256_P) P256_P"
      using w True assms by (simp add: ge_iff wval_P256_P len_simps s)
    with g s True w show ?thesis by (simp add: numeral_2_eq_2 mod_eq_minus)
  next
    case False
    then show ?thesis using assms by (simp add: numeral_2_eq_2 ge_iff wval_P256_P)
  qed
qed

lemma reduce_p256_val:
  assumes "length t = 16"
  shows "wval (reduce_p256 t) = wval t mod p256 \<and> length (reduce_p256 t) = 8"
proof -
  obtain r c where rc: "carry_pass (reduce_acc t) 0 = (r, c)" by fastforce
  have la: "length (reduce_acc t) = 8" by (simp add: reduce_acc_def Let_def)
  have lr: "length r = 8" using length_carry_pass [of "reduce_acc t" 0] rc la by simp
  have v: "int (wval r) + 2 ^ 256 * c = ival (reduce_acc t)"
    using carry_pass_val [OF rc] la by simp
  have "- 4 \<le> c" "c \<le> 5"
    using v wval8_int [OF lr] reduce_acc_bounds [OF assms] by simp_all
  from absorb_carry [OF lr this, of 2] obtain s where s: "absorb 4 r c = (s, 0)"
    by (metis add_2_eq_Suc numeral_Bit0 prod.collapse)
  obtain q where ls: "length s = 8" and q: "int (wval s) = int (wval r) + 2 ^ 256 * c + int p256 * q"
    using absorb_cong [OF lr s] by auto
  obtain q' where q': "int (wval t) = ival (reduce_acc t) + int p256 * q'"
    using reduce_acc_cong [OF assms] by blast
  have "int (wval t) = int (wval s) + int p256 * (q' - q)"
    using q q' v by (simp add: algebra_simps)
  then have "int (wval t) mod int p256 = int (wval s) mod int p256" by simp
  then have m: "wval t mod p256 = wval s mod p256"
    by (metis of_nat_eq_iff of_nat_mod)
  show ?thesis using final_sub_val [OF ls] m by (simp add: reduce_p256_def rc s)
qed

lemma mul_mod_val [val_simps]:
  assumes "length a = 8" "length b = 8"
  shows "wval (mul_mod a b) = wval a * wval b mod p256"
  using mul_outer_val [of "replicate 16 0" b 0 a] assms
  by (simp add: mul_mod_def reduce_p256_val)

lemma length_mul_mod [len_simps]:
  assumes "length a = 8" "length b = 8"
  shows "length (mul_mod a b) = 8"
  using mul_outer_val [of "replicate 16 0" b 0 a] assms
  by (simp add: mul_mod_def reduce_p256_val)

text \<open>C4: On field elements of eight words the modular multiplication (schoolbook product with 64-bit
  limb arithmetic, then the NIST reduction with its carry absorption and final subtractions) returns
  eight words whose value is the product modulo the P-256 prime, whatever the two operands are.\<close>

theorem mul_mod_correct:
  assumes "length a = 8" "length b = 8"
  shows "length (mul_mod a b) = 8 \<and> wval (mul_mod a b) = wval a * wval b mod p256"
  using assms by (simp add: mul_mod_val length_mul_mod)

lemma mul_mod_correct_witness:
  "length (mul_mod P256_P P256_B) = 8 \<and> wval (mul_mod P256_P P256_B) = wval P256_P * wval P256_B mod p256"
  by (rule mul_mod_correct) (simp_all add: P256_B_def)

section \<open>No overflow of the signed accumulators\<close>

text \<open>The values \<open>v = acc[i] + carry\<close> that a carry pass goes through.\<close>

fun carry_values :: "int list \<Rightarrow> int \<Rightarrow> int list" where
  "carry_values [] carry = []"
| "carry_values (a # as) carry = (a + carry) # carry_values as ((a + carry) div 2 ^ 32)"

lemma carry_values_range:
  "\<forall>a \<in> set as. \<bar>a\<bar> \<le> 2 ^ 40 \<Longrightarrow> \<bar>c\<bar> \<le> 2 ^ 10 \<Longrightarrow> \<forall>v \<in> set (carry_values as c). \<bar>v\<bar> < 2 ^ 41"
proof (induction as c rule: carry_values.induct)
  case (2 a as c)
  have pow: "(2 :: int) ^ 40 = 1099511627776" "(2 :: int) ^ 10 = 1024" "(2 :: int) ^ 41 = 2199023255552"
    by simp_all
  have "\<bar>a\<bar> \<le> 2 ^ 40" using "2.prems" by simp
  then have "\<bar>a + c\<bar> < 2 ^ 41" using "2.prems"(2) unfolding pow by linarith
  moreover from this have "\<bar>(a + c) div 2 ^ 32\<bar> \<le> 2 ^ 10" by simp
  ultimately show ?case using "2.IH" "2.prems"(1) by simp
qed simp

lemma reduce_acc_entry: "\<forall>a \<in> set (reduce_acc t). \<bar>a\<bar> \<le> 2 ^ 40"
proof -
  have r: "0 \<le> uint (t ! i)" "uint (t ! i) \<le> 4294967295" for i
    using uint_u32_range [of "t ! i"] by simp_all
  note rs = r [of 0] r [of 1] r [of 2] r [of 3] r [of 4] r [of 5] r [of 6] r [of 7]
    r [of 8] r [of 9] r [of 10] r [of 11] r [of 12] r [of 13] r [of 14] r [of 15]
  have p: "(2 :: int) ^ 40 = 1099511627776" by simp
  show ?thesis
    unfolding reduce_acc_def Let_def p list.set ball_simps abs_le_iff
    by (intro conjI TrueI; use rs in linarith)
qed

lemma absorb_acc_entry:
  assumes "length r = 8" "\<bar>c\<bar> \<le> 2 ^ 10"
  shows "\<forall>a \<in> set (absorb_acc r c). \<bar>a\<bar> \<le> 2 ^ 40"
proof -
  obtain r0 r1 r2 r3 r4 r5 r6 r7 where r: "r = [r0, r1, r2, r3, r4, r5, r6, r7]"
    using list_length8 [OF assms(1)] by blast
  have u: "0 \<le> uint (x :: u32)" "uint x \<le> 4294967295" for x
    using uint_u32_range [of x] by simp_all
  have pow: "(2 :: int) ^ 40 = 1099511627776" "(2 :: int) ^ 10 = 1024" by simp_all
  have "\<bar>uint x\<bar> \<le> 2 ^ 40" "\<bar>uint x + c\<bar> \<le> 2 ^ 40" "\<bar>uint x - c\<bar> \<le> 2 ^ 40" for x :: u32
    using u [of x] assms(2) unfolding pow by linarith+
  then show ?thesis by (simp add: absorb_acc_def Let_def r)
qed



end
