(* ===== verification/P256_Curve.thy ===== *)
theory P256_Curve
  imports P256_Reduction
begin

text \<open>
  Exponentiation in the P-256 field and the recovery of a y coordinate from a compact public key
  (\<open>pow_mod\<close> and \<open>p256_recover_y\<close> of \<^verbatim>\<open>embedded-cal/src/util/p256.rs\<close>), with soundness and
  completeness of the recovery against the curve equation. Primality of the field modulus is not
  in the libraries this development imports, so completeness assumes Fermat's little theorem at
  the one root it speaks about.
\<close>

section \<open>Exponentiation and y recovery\<close>

text \<open>One word of the exponent: \<open>n\<close> bits, least significant first.\<close>

fun pow_bits :: "nat \<Rightarrow> u32 \<Rightarrow> u32 list \<Rightarrow> u32 list \<Rightarrow> u32 list \<times> u32 list" where
  "pow_bits 0 word result base = (result, base)"
| "pow_bits (Suc n) word result base =
     (let result = (if word AND 1 \<noteq> 0 then mul_mod result base else result)
      in pow_bits n (drop_bit 1 word) result (mul_mod base base))"

fun pow_words :: "u32 list \<Rightarrow> u32 list \<Rightarrow> u32 list \<Rightarrow> u32 list" where
  "pow_words [] result base = result"
| "pow_words (word # ws) result base =
     (let (result, base) = pow_bits 32 word result base in pow_words ws result base)"

definition pow_mod :: "u32 list \<Rightarrow> u32 list \<Rightarrow> u32 list" where
  "pow_mod base e = pow_words e ((replicate 8 0)[0 := 1]) base"

definition p256_recover_y :: "bytes \<Rightarrow> import_error + bytes" where
  "p256_recover_y x_bytes =
     (let x = bytes_to_words x_bytes in
      if ge x P256_P then Inl ImportError
      else
        let a = sub256 P256_P [3, 0, 0, 0, 0, 0, 0, 0];
            x2 = mul_mod x x;
            x3 = mul_mod x2 x;
            ax = mul_mod a x;
            rhs = add_mod (add_mod x3 ax) P256_B;
            y = pow_mod rhs SQRT_EXP
        in if mul_mod y y \<noteq> rhs then Inl ImportError else Inr (words_to_bytes y))"

section \<open>The value of a power\<close>

lemma pow_bits_val:
  assumes "length result = 8" "length base = 8" "pow_bits n w result base = (r', b')"
    and "wval result mod p256 = wval result"
  shows "length r' = 8 \<and> length b' = 8
    \<and> wval r' = wval result * wval base ^ (unat w mod 2 ^ n) mod p256
    \<and> (wval b' mod p256 = wval base ^ (2 ^ n) mod p256)"
  using assms
proof (induction n w result base arbitrary: r' b' rule: pow_bits.induct)
  case (1 w result base)
  then show ?case by simp
next
  case (2 n w result base)
  define res where "res = (if w AND 1 \<noteq> 0 then mul_mod result base else result)"
  have odd: "w AND 1 \<noteq> 0 \<longleftrightarrow> unat w mod 2 = 1"
  proof -
    have "unat (w AND 1) = unat w mod 2" 
      by (metis and_one_eq unat_1 unsigned_and_eq word_order.extremum_strict)
    then show ?thesis by (metis not_mod_2_eq_0_eq_1 unat_eq_zero zero_neq_one)
  qed
  have lres: "length res = 8" using "2.prems" by (simp add: res_def len_simps)
  have rres: "wval res = wval result * wval base ^ (unat w mod 2) mod p256"
    using "2.prems" odd by (auto simp: res_def val_simps)
  from "2.IH" [OF res_def lres _ _ , of "r'" "b'"] "2.prems"
  have IH: "length r' = 8" "length b' = 8"
    "wval r' = wval res * wval (mul_mod base base) ^ (unat (drop_bit 1 w) mod 2 ^ n) mod p256"
    "wval b' mod p256 = wval (mul_mod base base) ^ (2 ^ n) mod p256"
    by (auto simp: res_def [symmetric] Let_def len_simps rres)
  have dbl: "unat w mod 2 ^ Suc n = unat w mod 2 + 2 * (unat (drop_bit 1 w) mod 2 ^ n)"
    by (subst unat_drop_bit_eq) (simp add: drop_bit_eq_div mod_mult2_eq)
  have "wval r' = (wval result * wval base ^ (unat w mod 2)) * (wval base * wval base) ^ (unat (drop_bit 1 w) mod 2 ^ n) mod p256"
    unfolding IH(3) rres using "2.prems" by (simp add: mul_mod_val mod_mult_eq power_mod mod_mult_left_eq mod_mult_right_eq) (metis mod_mult_eq mod_mult_left_eq power_mod)
  then have "wval r' = wval result * wval base ^ (unat w mod 2 ^ Suc n) mod p256"
    unfolding dbl by (simp only: power_add power_mult power2_eq_square mult.assoc)
  moreover have "wval b' mod p256 = wval base ^ (2 ^ Suc n) mod p256"
    unfolding IH(4) using "2.prems" by (simp add: mul_mod_val power_mod power_mult power2_eq_square)
  ultimately show ?case using IH by simp
qed

lemma pow_words_val:
  assumes "length result = 8" "length base = 8" "wval result mod p256 = wval result"
  shows "length (pow_words ws result base) = 8
    \<and> wval (pow_words ws result base) = wval result * wval base ^ wval ws mod p256"
  using assms
proof (induction ws result base rule: pow_words.induct)
  case (2 w ws result base)
  obtain r b where rb: "pow_bits 32 w result base = (r, b)" by fastforce
  from pow_bits_val [OF "2.prems"(1,2) rb "2.prems"(3)]
  have len: "length r = 8" "length b = 8"
    and r: "wval r = wval result * wval base ^ unat w mod p256"
    and b: "wval b mod p256 = wval base ^ (2 ^ 32) mod p256" by simp_all
  have "length (pow_words ws r b) = 8 \<and> wval (pow_words ws r b) = wval r * wval b ^ wval ws mod p256"
    using "2.IH" [OF rb [symmetric] refl] len r by simp
  moreover have "wval r * wval b ^ wval ws mod p256 = wval result * wval base ^ wval (w # ws) mod p256"
  proof -
    have "wval b ^ wval ws mod p256 = (wval base ^ (2 ^ 32)) ^ wval ws mod p256"
      by (metis b power_mod)
    then have "wval r * wval b ^ wval ws mod p256
        = wval result * wval base ^ unat w * (wval base ^ (2 ^ 32)) ^ wval ws mod p256"
      unfolding r by (metis mod_mult_eq mod_mod_trivial)
    then show ?thesis by (simp only: wval.simps power_add power_mult mult.assoc)
  qed
  ultimately show ?case using rb by simp
qed simp

lemma pow_mod_val [val_simps]:
  assumes "length base = 8"
  shows "wval (pow_mod base e) = wval base ^ wval e mod p256" "length (pow_mod base e) = 8"
proof -
  have o: "wval ((replicate 8 0)[0 := 1]) = 1"
  proof -
    have "(replicate 8 (0 :: u32))[0 := 1] = 1 # replicate 7 0" by code_simp
    then show ?thesis by simp
  qed
  then have "wval ((replicate 8 0)[0 := 1]) mod p256 = wval ((replicate 8 0)[0 := 1])"
    by (simp add: p256_def)
  from pow_words_val [OF _ assms this, of e] o
  show "wval (pow_mod base e) = wval base ^ wval e mod p256" "length (pow_mod base e) = 8"
    by (simp_all add: pow_mod_def)
qed


section \<open>Constants of the curve\<close>

lemma wval_SQRT_EXP: "4 * wval SQRT_EXP = p256 + 1"
  by (simp add: SQRT_EXP_def p256_def)

lemma length_consts [simp, len_simps]: "length P256_B = 8" "length SQRT_EXP = 8" "length P256_ORDER = 8"
    "length P256_GX = 8" "length P256_GY = 8"
  by (simp_all add: P256_B_def SQRT_EXP_def P256_ORDER_def P256_GX_def P256_GY_def)

lemma wval_P256_B_less: "wval P256_B < p256"
  by (simp add: P256_B_def p256_def)

text \<open>The right-hand side of the curve equation, \<open>x\<^sup>3 - 3 x + b\<close>, without a subtraction.\<close>

definition curve_rhs :: "nat \<Rightarrow> nat" where
  "curve_rhs x = (x ^ 3 + (p256 - 3) * x + wval P256_B) mod p256"

lemma curve_rhs_int: "int (curve_rhs x) = (int x ^ 3 - 3 * int x + int (wval P256_B)) mod int p256"
proof -
  have p3: "int (p256 - 3) = int p256 - 3" by (simp add: p256_def)
  have "int (curve_rhs x) = (int x ^ 3 - 3 * int x + int (wval P256_B) + int p256 * int x) mod int p256"
    unfolding curve_rhs_def of_nat_mod of_nat_add of_nat_mult of_nat_power p3
    by (rule arg_cong [of _ _ "\<lambda>v. v mod int p256"]) (simp add: algebra_simps)
  then show ?thesis by simp
qed

text \<open>The computation of \<open>p256_recover_y\<close> up to the candidate root.\<close>

definition rhs_words :: "u32 list \<Rightarrow> u32 list" where
  "rhs_words x = add_mod (add_mod (mul_mod (mul_mod x x) x)
      (mul_mod (sub256 P256_P [3, 0, 0, 0, 0, 0, 0, 0]) x)) P256_B"

lemma p256_recover_y_eq:
  "p256_recover_y b = (let x = bytes_to_words b; y = pow_mod (rhs_words x) SQRT_EXP in
     if ge x P256_P then Inl ImportError
     else if mul_mod y y \<noteq> rhs_words x then Inl ImportError else Inr (words_to_bytes y))"
  by (simp add: p256_recover_y_def rhs_words_def Let_def)

lemma wval_minus3: "wval (sub256 P256_P [3, 0, 0, 0, 0, 0, 0, 0]) = p256 - 3"
  by (subst sub256_val) (simp_all add: wval_P256_P p256_def)

lemma rhs_words_val:
  assumes "length x = 8" "wval x < p256"
  shows "length (rhs_words x) = 8" "wval (rhs_words x) = curve_rhs (wval x)"
proof -
  let ?a = "sub256 P256_P [3, 0, 0, 0, 0, 0, 0, 0]"
  have la: "length ?a = 8" by (simp add: length_sub256)
  have lt: "y mod p256 < p256" for y by simp
  show "length (rhs_words x) = 8" using assms la by (simp add: rhs_words_def len_simps)
  have x3: "wval (mul_mod (mul_mod x x) x) = wval x ^ 3 mod p256"
    using assms by (simp add: mul_mod_val len_simps mod_mult_left_eq power3_eq_cube mult.assoc)
  have ax: "wval (mul_mod ?a x) = (p256 - 3) * wval x mod p256"
    using assms la by (simp add: mul_mod_val wval_minus3)
  have s: "wval (add_mod (mul_mod (mul_mod x x) x) (mul_mod ?a x)) = (wval x ^ 3 + (p256 - 3) * wval x) mod p256"
    using assms la by (subst add_mod_val) (simp_all add: len_simps x3 ax lt mod_add_eq)
  show "wval (rhs_words x) = curve_rhs (wval x)"
    unfolding rhs_words_def curve_rhs_def
    using assms la by (subst add_mod_val) (simp_all add: len_simps s lt wval_P256_B_less mod_add_left_eq)
qed

lemma recover_y_cases:
  assumes "length b = 32"
  defines "z \<equiv> curve_rhs (be_val b) ^ ((p256 + 1) div 4) mod p256"
  shows "p256_recover_y b =
    (if be_val b < p256 \<and> z * z mod p256 = curve_rhs (be_val b) then Inr (be_bytes 32 z) else Inl ImportError)"
proof (cases "be_val b < p256")
  case False
  then show ?thesis using assms(1)
    by (simp add: p256_recover_y_eq Let_def ge_iff wval_P256_P wval_bytes_to_words)
next
  case True
  let ?x = "bytes_to_words b"
  let ?y = "pow_mod (rhs_words ?x) SQRT_EXP"
  have x: "length ?x = 8" "wval ?x = be_val b" using assms(1) by (simp_all add: wval_bytes_to_words)
  with True have r: "length (rhs_words ?x) = 8" "wval (rhs_words ?x) = curve_rhs (be_val b)"
    using rhs_words_val [of ?x] by simp_all
  have e: "wval SQRT_EXP = (p256 + 1) div 4" using wval_SQRT_EXP by simp
  have y: "length ?y = 8" "wval ?y = z"
    using pow_mod_val [OF r(1), of SQRT_EXP] r by (simp_all add: z_def e)
  have m: "mul_mod ?y ?y = rhs_words ?x \<longleftrightarrow> z * z mod p256 = curve_rhs (be_val b)"
    using y r mul_mod_val [of ?y ?y] length_mul_mod [of ?y ?y] wval_inj [of "mul_mod ?y ?y" "rhs_words ?x"] by auto
  have w: "words_to_bytes ?y = be_bytes 32 z"
  proof (rule be_val_inj)
    have "z < 256 ^ 32" unfolding z_def by (rule less_trans [of _ p256]) (simp_all add: p256_def)
    then show "be_val (words_to_bytes ?y) = be_val (be_bytes 32 z)"
      using y by (simp add: be_val_words_to_bytes be_val_be_bytes mod_less del: power_numeral)
  qed simp
  show ?thesis using True x m w
    by (simp add: p256_recover_y_eq Let_def ge_iff wval_P256_P)
qed


text \<open>Exponentiation by the little-endian bits of an exponent array of any length is the power
  modulo the P-256 prime.\<close>

theorem pow_mod_correct:
  assumes "length base = 8"
  shows "wval (pow_mod base e) = wval base ^ wval e mod p256 \<and> length (pow_mod base e) = 8"
  using pow_mod_val [OF assms] by simp

lemma pow_mod_correct_witness:
  "wval (pow_mod P256_B SQRT_EXP) = wval P256_B ^ wval SQRT_EXP mod p256 \<and> length (pow_mod P256_B SQRT_EXP) = 8"
  by (rule pow_mod_correct) simp

text \<open>C5: Whatever \<open>p256_recover_y\<close> accepts is on the curve: the input is a reduced x coordinate, and
  the 32 bytes returned are a reduced y coordinate satisfying the curve equation.\<close>

theorem recover_y_sound:
  assumes "length b = 32" "p256_recover_y b = Inr yb"
  shows "length yb = 32 \<and> be_val b < p256 \<and> be_val yb < p256
    \<and> (int (be_val yb))\<^sup>2 mod int p256
        = (int (be_val b) ^ 3 - 3 * int (be_val b) + int (wval P256_B)) mod int p256"
proof -
  define z where "z = curve_rhs (be_val b) ^ ((p256 + 1) div 4) mod p256"
  have zl: "z < p256" by (simp add: z_def)
  then have z256: "z < 256 ^ 32" by (rule less_trans) (simp add: p256_def)
  from assms(2) have *: "be_val b < p256" "z * z mod p256 = curve_rhs (be_val b)" "yb = be_bytes 32 z"
    by (simp_all add: recover_y_cases [OF assms(1)] z_def split: if_splits)
  have v: "be_val yb = z" using z256 by (simp add: * be_val_be_bytes del: power_numeral)
  have "(int z)\<^sup>2 mod int p256 = int (curve_rhs (be_val b))"
    by (simp add: *(2) [symmetric] of_nat_mod power2_eq_square)
  then show ?thesis using * v zl curve_rhs_int by simp
qed

text \<open>C25: Completeness of the y recovery: if the reduced x coordinate has a square root \<open>y\<close> of its
  right-hand side and \<open>y\<close> obeys Fermat's little theorem at the field prime, a y coordinate is
  returned. (The prime is 3 modulo 4, so the exponent \<open>SQRT_EXP\<close> computes a root.)\<close>

theorem recover_y_complete:
  assumes "length b = 32" "be_val b < p256" "y * y mod p256 = curve_rhs (be_val b)"
    and "y mod p256 = 0 \<or> y ^ (p256 - 1) mod p256 = 1"
  shows "\<exists>yb. p256_recover_y b = Inr yb"
proof -
  define r where "r = curve_rhs (be_val b)"
  define e where "e = (p256 + 1) div 4"
  have "e = wval SQRT_EXP" unfolding e_def using wval_SQRT_EXP by simp
  then have e4: "4 * e = p256 + 1" using wval_SQRT_EXP by simp
  have "(r ^ e mod p256) * (r ^ e mod p256) mod p256 = (y * y) ^ (2 * e) mod p256"
    unfolding mod_mult_eq power_add [symmetric] mult_2 [symmetric]
    by (metis assms(3) power_mod r_def)
  also have "\<dots> = y ^ (4 * e) mod p256"
    by (simp add: power2_eq_square [symmetric] power_mult [symmetric])
  also have "\<dots> = r"
  proof (cases "y mod p256 = 0")
    case True
    then have "y * y mod p256 = 0" by (metis mod_mult_left_eq mult_zero_left mod_0)
    moreover have "y ^ (4 * e) mod p256 = 0"
      using True e4 by (metis power_mod mod_0 power_0_left Suc_eq_plus1 nat.simps(3))
    ultimately show ?thesis using assms(3) r_def by simp
  next
    case False
    with assms(4) have f: "y ^ (p256 - 1) mod p256 = 1" by simp
    have "4 * e = (p256 - 1) + 2" using e4 p256_pos(1) by linarith
    then have "y ^ (4 * e) = y ^ (p256 - 1) * (y * y)" by (simp only: power_add power2_eq_square)
    then have "y ^ (4 * e) mod p256 = y * y mod p256" by (metis f mod_mult_left_eq mult_1)
    then show ?thesis using assms(3) r_def by simp
  qed
  finally have "(r ^ e mod p256) * (r ^ e mod p256) mod p256 = r" .
  then show ?thesis using assms(2) by (simp add: recover_y_cases [OF assms(1)] r_def e_def)
qed

text \<open>Evaluating the curve equation at a concrete point by certificates: only products are computed.\<close>

lemma mod_cert: "a = q * m + r \<Longrightarrow> r < m \<Longrightarrow> a mod m = (r :: nat)"
  by simp

lemma wval_P256_B: "wval P256_B = 41058363725152142129326129780047268409114441015993725554835256314039467401291"
  by (simp add: P256_B_def)

lemma curve_rhs_cert:
  assumes "x * x = q1 * p256 + r1" "r1 * x + wval P256_B = q2 * p256 + s + 3 * x" "s < p256"
  shows "curve_rhs x = s"
proof -
  have 1: "int x * int x = int q1 * int p256 + int r1"
    using arg_cong [OF assms(1), of int] by simp
  have 2: "int r1 * int x + int (wval P256_B) = int q2 * int p256 + int s + 3 * int x"
    using arg_cong [OF assms(2), of int] by simp
  have "int x ^ 3 - 3 * int x + int (wval P256_B)
      = (int x * int x) * int x - 3 * int x + int (wval P256_B)" by (simp add: power3_eq_cube)
  also have "\<dots> = int s + int p256 * (int q1 * int x + int q2)"
    unfolding 1 using 2 by (simp add: algebra_simps)
  finally have "int (curve_rhs x) = int s mod int p256" by (simp add: curve_rhs_int)
  then show ?thesis using assms(3) by simp
qed

definition x_of_y1 :: nat where
  "x_of_y1 = 4479932584236123010133496826598814311995915216892401210293766552284834806124"

lemma x_of_y1_less: "x_of_y1 < p256" "x_of_y1 < 256 ^ 32"
  by (simp_all add: x_of_y1_def p256_eq)

lemma curve_rhs_y1: "be_val (be_bytes 32 x_of_y1) = x_of_y1" "x_of_y1 < p256" "curve_rhs x_of_y1 = 1"
proof -
  show "be_val (be_bytes 32 x_of_y1) = x_of_y1"
    unfolding be_val_be_bytes by (rule mod_less [OF x_of_y1_less(2)])
  show "x_of_y1 < p256" by (rule x_of_y1_less)
  show "curve_rhs x_of_y1 = 1"
    by (rule curve_rhs_cert
      [where ?q1.0 = 173326140811228568441744412335989952695065810343086791776100663579513182559
         and ?r1.0 = 73093880360734977552301223517682090030521180584566414232457932057473685462767
         and ?q2.0 = 2827962243097919393073178273780002513313439518896420311120308239643367180326])
      (simp_all add: x_of_y1_def p256_eq wval_P256_B)
qed

lemma recover_y_complete_witness: "\<exists>yb. p256_recover_y (be_bytes 32 x_of_y1) = Inr yb"
  by (rule recover_y_complete [where y = 1]) (simp_all add: curve_rhs_y1, simp_all add: p256_def)

lemma recover_y_y1: "p256_recover_y (be_bytes 32 x_of_y1) = Inr (be_bytes 32 1)"
  by (subst recover_y_cases) (simp_all add: curve_rhs_y1, simp_all add: p256_def)

lemma recover_y_sound_witness:
  "length (be_bytes 32 1) = 32 \<and> be_val (be_bytes 32 x_of_y1) < p256 \<and> be_val (be_bytes 32 1) < p256
    \<and> (int (be_val (be_bytes 32 1)))\<^sup>2 mod int p256
      = (int (be_val (be_bytes 32 x_of_y1)) ^ 3 - 3 * int (be_val (be_bytes 32 x_of_y1)) + int (wval P256_B)) mod int p256"
  by (rule recover_y_sound [OF _ recover_y_y1]) simp

text \<open>The generator constants are a point of the curve: both coordinates are reduced, the words and
  the bytes agree, and the code's own arithmetic gives y squared equal to the right-hand side.\<close>

theorem generator_on_curve:
  "wval P256_GX < p256 \<and> wval P256_GY < p256 \<and> words_to_bytes P256_GX = P256_GX_BYTES
   \<and> words_to_bytes P256_GY = P256_GY_BYTES \<and> mul_mod P256_GY P256_GY = rhs_words P256_GX"
proof -
  have l: "length P256_GX_BYTES = 32" "length P256_GY_BYTES = 32"
    by (simp_all add: P256_GX_BYTES_def P256_GY_BYTES_def)
  then have v: "wval P256_GX = be_val P256_GX_BYTES" "wval P256_GY = be_val P256_GY_BYTES"
    by (simp_all add: P256_GX_def P256_GY_def wval_bytes_to_words)
  have n: "be_val P256_GX_BYTES = 48439561293906451759052585252797914202762949526041747995844080717082404635286"
    "be_val P256_GY_BYTES = 36134250956749795798585127919587881956611106672985015071877198253568414405109"
    by (simp_all add: P256_GX_BYTES_def P256_GY_BYTES_def be_val_def)
  have r: "wval P256_GX < p256" "wval P256_GY < p256" by (simp_all add: v n p256_def)
  have wb: "words_to_bytes P256_GX = P256_GX_BYTES" "words_to_bytes P256_GY = P256_GY_BYTES"
    using l by (simp_all add: P256_GX_def P256_GY_def words_to_bytes_to_words)
  have "wval (mul_mod P256_GY P256_GY) = 38841243268434338802906935583467503580982897597684987572860931569745790234001"
    unfolding mul_mod_val [OF length_consts(5) length_consts(5)] v(2) n(2)
    by (rule mod_cert [where q = 11276107902616505813297874115423378275166393229135779582683496500509631641880])
      (simp_all add: p256_eq)
  moreover have "wval (rhs_words P256_GX) = 38841243268434338802906935583467503580982897597684987572860931569745790234001"
    unfolding rhs_words_val(2) [OF length_consts(4) r(1)] v(1) n(1)
    by (rule curve_rhs_cert
      [where ?q1.0 = 20263829026208319148741897648061519306900348706441333533955064566616791682984
         and ?r1.0 = 69187469364232031836548821531971153808731075654725806004116076052366752432012
         and ?q2.0 = 28943347390084467408790429956881815414720867440889874822612823942854484984064])
      (simp_all add: p256_eq wval_P256_B)
  ultimately have "wval (mul_mod P256_GY P256_GY) = wval (rhs_words P256_GX)" by simp
  then have "mul_mod P256_GY P256_GY = rhs_words P256_GX"
    by (intro wval_inj) (simp_all add: length_mul_mod rhs_words_val [OF _ r(1)])
  with r wb show ?thesis by simp
qed

end
