(* ===== verification/Cal_Traits.thy ===== *)
theory Cal_Traits
  imports Cal_Prelude
begin

text \<open>
  The trait layer of the crate \<^verbatim>\<open>embedded-cal\<close>. A trait is a record of its constants and
  methods (a dictionary), generic in the device state \<open>'d\<close> behind \<open>&mut self\<close>; a method takes
  that state last and returns its result with the new state, or \<open>None\<close> when it panics. Provided
  methods are functions of the dictionary. \<open>AsRef<[u8]>\<close> of an output type is a field of the
  dictionary.

  The file also holds the contracts the traits document, as locales: what a SHA-2 plumbing, a
  hash provider and an HMAC provider promise their clients. The client algorithms (one-shot and
  chunked hashing here; HMAC and HKDF in the theories that import this one) are proved once, inside
  these locales, and the back-ends interpret them.
\<close>

section \<open>Errors and small utilities\<close>

text \<open>The zero-sized error types beside \<open>ImportError\<close>; the \<open>Display\<close> texts are part of the interface.\<close>

datatype decryption_failed = DecryptionFailed

datatype incompatible_keys = IncompatibleKeys

datatype hkdf_error = OutputTooLong

definition display_decryption_failed :: "decryption_failed \<Rightarrow> string" where
  "display_decryption_failed e = ''decryption failed''"

definition display_incompatible_keys :: "incompatible_keys \<Rightarrow> string" where
  "display_incompatible_keys e = ''keys are incompatible''"

text \<open>\<open>util::Either\<close>, whose \<open>AsRef\<close> goes to whichever variant is there.\<close>

datatype ('own, 'base) either = Own 'own | Direct 'base

fun either_as_ref :: "('own \<Rightarrow> bytes) \<Rightarrow> ('base \<Rightarrow> bytes) \<Rightarrow> ('own, 'base) either \<Rightarrow> bytes" where
  "either_as_ref f g (Own o') = f o'"
| "either_as_ref f g (Direct b) = g b"

text \<open>\<open>AadGenerator\<close>: the items in order. A single slice is one item, a slice of slices its members.\<close>

definition aad_of_slice :: "bytes \<Rightarrow> bytes list" where
  "aad_of_slice a = [a]"

definition aad_of_slices :: "bytes list \<Rightarrow> bytes list" where
  "aad_of_slices as = as"

section \<open>The SHA-2 plumbing trait\<close>

datatype sha2_variant = Sha244 | Sha256

definition SHA2SHORT_BLOCK_SIZE :: nat where
  "SHA2SHORT_BLOCK_SIZE = 64"

record ('d, 's) sha2short =
  SUPPORTED :: bool
  SEND_PADDING :: bool
  FIRST_CHUNK_SIZE :: nat
  UPDATE_MULTICHUNK :: bool
  s2_init :: "sha2_variant \<Rightarrow> 'd \<Rightarrow> ('s \<times> 'd) option"
  s2_update :: "'s \<Rightarrow> bytes \<Rightarrow> 'd \<Rightarrow> ('s \<times> 'd) option"
  s2_finalize :: "'s \<Rightarrow> bytes \<Rightarrow> bytes \<Rightarrow> 'd \<Rightarrow> (bytes \<times> 'd) option"

definition hash_buffer_requirements :: "('d, 's) sha2short \<Rightarrow> nat" where
  "hash_buffer_requirements T =
     (let for_sha2 =
        (if SUPPORTED T then
           (if FIRST_CHUNK_SIZE T > SHA2SHORT_BLOCK_SIZE then FIRST_CHUNK_SIZE T
            else SHA2SHORT_BLOCK_SIZE)
         else 0)
      in for_sha2)"

section \<open>The provider traits\<close>

record ('d, 'alg, 's, 'o) hash_provider =
  hash_len :: "'alg \<Rightarrow> nat"
  hash_from_cose_number :: "int \<Rightarrow> 'alg option"
  hash_from_ni_id :: "u8 \<Rightarrow> 'alg option"
  hash_from_ni_name :: "string \<Rightarrow> 'alg option"
  hp_init :: "'alg \<Rightarrow> 'd \<Rightarrow> ('s \<times> 'd) option"
  hp_update :: "'s \<Rightarrow> bytes \<Rightarrow> 'd \<Rightarrow> ('s \<times> 'd) option"
  hp_finalize :: "'s \<Rightarrow> 'd \<Rightarrow> ('o \<times> 'd) option"
  hp_output :: "'o \<Rightarrow> bytes"

text \<open>The provided method \<open>HashProvider::hash\<close>.\<close>

definition hash_oneshot :: "('d, 'alg, 's, 'o) hash_provider \<Rightarrow> 'alg \<Rightarrow> bytes \<Rightarrow> 'd \<Rightarrow> ('o \<times> 'd) option" where
  "hash_oneshot P algorithm data d = do {
     (state, d) \<leftarrow> hp_init P algorithm d;
     (state, d) \<leftarrow> hp_update P state data d;
     hp_finalize P state d
   }"

record ('d, 'alg, 'k, 's, 'o) hmac_provider =
  hmac_MAX_LEN :: nat
  hmac_len :: "'alg \<Rightarrow> nat"
  hmac_from_cose_number :: "int \<Rightarrow> 'alg option"
  mp_load_from_keydata :: "'alg \<Rightarrow> bytes \<Rightarrow> 'd \<Rightarrow> ('k \<times> 'd) option"
  mp_init :: "'k \<Rightarrow> 'd \<Rightarrow> ('s \<times> 'd) option"
  mp_update :: "'s \<Rightarrow> bytes \<Rightarrow> 'd \<Rightarrow> ('s \<times> 'd) option"
  mp_finalize :: "'s \<Rightarrow> 'd \<Rightarrow> ('o \<times> 'd) option"
  mp_output :: "'o \<Rightarrow> bytes"

text \<open>The provided methods of \<open>HmacProvider\<close>.\<close>

definition init_with_keydata ::
    "('d, 'alg, 'k, 's, 'o) hmac_provider \<Rightarrow> 'alg \<Rightarrow> bytes \<Rightarrow> 'd \<Rightarrow> ('s \<times> 'd) option" where
  "init_with_keydata P algorithm key d = do {
     (key, d) \<leftarrow> mp_load_from_keydata P algorithm key d;
     mp_init P key d
   }"

definition hmac_with_keydata ::
    "('d, 'alg, 'k, 's, 'o) hmac_provider \<Rightarrow> 'alg \<Rightarrow> bytes \<Rightarrow> bytes \<Rightarrow> 'd \<Rightarrow> ('o \<times> 'd) option" where
  "hmac_with_keydata P algorithm key data d = do {
     (state, d) \<leftarrow> init_with_keydata P algorithm key d;
     (state, d) \<leftarrow> mp_update P state data d;
     mp_finalize P state d
   }"

record ('d, 'alg, 'k, 't) aead_provider =
  key_length :: "'alg \<Rightarrow> nat"
  tag_length :: "'alg \<Rightarrow> nat"
  nonce_length :: "'alg \<Rightarrow> nat"
  aead_from_cose_number :: "int \<Rightarrow> 'alg option"
  ap_load_from_keydata :: "'alg \<Rightarrow> bytes \<Rightarrow> 'd \<Rightarrow> ('k \<times> 'd) option"
  ap_encrypt_in_place :: "'k \<Rightarrow> bytes \<Rightarrow> bytes \<Rightarrow> bytes list \<Rightarrow> 'd \<Rightarrow> (('t \<times> bytes) \<times> 'd) option"
  ap_decrypt_in_place :: "'k \<Rightarrow> bytes \<Rightarrow> bytes \<Rightarrow> bytes \<Rightarrow> bytes list \<Rightarrow> 'd
      \<Rightarrow> (((decryption_failed + unit) \<times> bytes) \<times> 'd) option"
  ap_tag_bytes :: "'t \<Rightarrow> bytes"

record ('d, 'alg, 'v, 'k, 'p, 'ss) dh_provider =
  output_length :: "'alg \<Rightarrow> nat"
  dh_from_cose_ecdh :: "int \<Rightarrow> 'alg option"
  dp_generate_visible :: "'alg \<Rightarrow> 'd \<Rightarrow> ('v \<times> 'd) option"
  dp_into_secret :: "'v \<Rightarrow> 'k"
  dp_export_secretkey_bytes :: "'v \<Rightarrow> 'd \<Rightarrow> (bytes \<times> 'd) option"
  dp_import_secretkey_bytes :: "'alg \<Rightarrow> bytes \<Rightarrow> 'd \<Rightarrow> ((import_error + 'v) \<times> 'd) option"
  dp_export_publickey_bytes :: "'p \<Rightarrow> 'd \<Rightarrow> (bytes \<times> 'd) option"
  dp_import_publickey_bytes :: "'alg \<Rightarrow> bytes \<Rightarrow> 'd \<Rightarrow> ((import_error + 'p) \<times> 'd) option"
  dp_shared_secret :: "'k \<Rightarrow> 'p \<Rightarrow> 'd \<Rightarrow> ((incompatible_keys + 'ss) \<times> 'd) option"
  dp_public_key :: "'k \<Rightarrow> 'd \<Rightarrow> ('p \<times> 'd) option"
  dp_raw_secret_bytes :: "'ss \<Rightarrow> 'd \<Rightarrow> (bytes \<times> 'd) option"

text \<open>The provided method \<open>DhProvider::generate\<close>.\<close>

definition dh_generate :: "('d, 'alg, 'v, 'k, 'p, 'ss) dh_provider \<Rightarrow> 'alg \<Rightarrow> 'd \<Rightarrow> ('k \<times> 'd) option" where
  "dh_generate P alg d = do {
     (v, d) \<leftarrow> dp_generate_visible P alg d;
     Some (dp_into_secret P v, d)
   }"

section \<open>Elliptic-curve plumbing\<close>

record ('d, 'sc, 'pt) ec_primitives =
  HAS_MULTIPLY_SCALAR_POINT :: bool
  ep_multiply_scalar_point :: "'sc \<Rightarrow> 'pt \<Rightarrow> 'd \<Rightarrow> ('pt \<times> 'd) option"
  ep_import_scalar_bytes :: "bytes \<Rightarrow> 'd \<Rightarrow> ((import_error + 'sc) \<times> 'd) option"
  ep_point :: "'sc \<Rightarrow> 'sc \<Rightarrow> 'd \<Rightarrow> ('pt \<times> 'd) option"
  ep_export_scalar_bytes :: "'sc \<Rightarrow> 'd \<Rightarrow> (bytes \<times> 'd) option"
  ep_x_coord :: "'pt \<Rightarrow> 'd \<Rightarrow> ('sc \<times> 'd) option"
  ep_y_coord :: "'pt \<Rightarrow> 'd \<Rightarrow> ('sc \<times> 'd) option"

text \<open>\<open>plumbing::ec::Ec\<close>: the three curves' primitives and the longest scalar of any of them.\<close>

record ('d, 'sp, 'pp, 'sx, 'px, 'sh, 'ph) ec =
  MAX_SCALAR_LENGTH :: nat
  ec_p256 :: "('d, 'sp, 'pp) ec_primitives"
  ec_x25519 :: "('d, 'sx, 'px) ec_primitives"
  ec_x448 :: "('d, 'sh, 'ph) ec_primitives"

section \<open>The conformance checks the crate exports\<close>

text \<open>\<open>test_hash_algorithm_sha256\<close>, \<open>test_hmac_algorithm_hmacsha256\<close>, \<open>test_dh_algorithm_ecdh_p256\<close> and
  \<open>test_dh_selftest\<close>: \<open>None\<close> is a failed assertion.\<close>

definition test_hash_algorithm_sha256 :: "('d, 'alg, 's, 'o) hash_provider \<Rightarrow> unit option" where
  "test_hash_algorithm_sha256 P =
     (let cose_neg10 = hash_from_cose_number P (- 16);
          ni_1 = hash_from_ni_id P 1;
          ni_named = hash_from_ni_name P ''sha-256''
      in if cose_neg10 = ni_1 \<and> cose_neg10 = ni_named then Some () else None)"

definition test_hmac_algorithm_hmacsha256 :: "('d, 'alg, 'k, 's, 'o) hmac_provider \<Rightarrow> unit option" where
  "test_hmac_algorithm_hmacsha256 P =
     (let cose_5 = hmac_from_cose_number P 5
      in if cose_5 \<noteq> None \<and> map_option (hmac_len P) cose_5 = Some 32 then Some () else None)"

definition test_dh_algorithm_ecdh_p256 :: "('d, 'alg, 'v, 'k, 'p, 'ss) dh_provider \<Rightarrow> unit option" where
  "test_dh_algorithm_ecdh_p256 P = do {
     cose_ecdh_1 \<leftarrow> dh_from_cose_ecdh P 1;
     if output_length P cose_ecdh_1 = 32 then Some () else None
   }"

definition test_dh_selftest :: "('d, 'alg, 'v, 'k, 'p, 'ss) dh_provider \<Rightarrow> 'alg \<Rightarrow> 'd \<Rightarrow> (unit \<times> 'd) option" where
  "test_dh_selftest P alg d = do {
     (my_secret, d) \<leftarrow> dh_generate P alg d;
     (peer_secret, d) \<leftarrow> dh_generate P alg d;
     (my_public, d) \<leftarrow> dp_public_key P my_secret d;
     (peer_public, d) \<leftarrow> dp_public_key P peer_secret d;
     (r1, d) \<leftarrow> dp_shared_secret P my_secret peer_public d;
     my_shared_secret \<leftarrow> (case r1 of Inl _ \<Rightarrow> None | Inr ss \<Rightarrow> Some ss);
     (r2, d) \<leftarrow> dp_shared_secret P peer_secret my_public d;
     peer_shared_secret \<leftarrow> (case r2 of Inl _ \<Rightarrow> None | Inr ss \<Rightarrow> Some ss);
     (my_raw_bytes, d) \<leftarrow> dp_raw_secret_bytes P my_shared_secret d;
     (peer_raw_bytes, d) \<leftarrow> dp_raw_secret_bytes P peer_shared_secret d;
     if my_raw_bytes = peer_raw_bytes then Some ((), d) else None
   }"

section \<open>Contracts\<close>

text \<open>What a hash provider promises for one algorithm: \<open>dev\<close> is its invariant on the device, \<open>st s m\<close>
  says that the state \<open>s\<close> has taken in the message \<open>m\<close>, and messages up to \<open>maxlen\<close> bytes are served
  without a panic.\<close>

locale hash_contract =
  fixes P :: "('d, 'alg, 's, 'o) hash_provider"
    and alg :: 'alg
    and dev :: "'d \<Rightarrow> bool"
    and st :: "'s \<Rightarrow> bytes \<Rightarrow> bool"
    and digest :: "bytes \<Rightarrow> bytes"
    and maxlen :: nat
  assumes init_law: "dev d \<Longrightarrow> \<exists>s d'. hp_init P alg d = Some (s, d') \<and> dev d' \<and> st s []"
    and update_law: "dev d \<Longrightarrow> st s m \<Longrightarrow> length m + length data \<le> maxlen \<Longrightarrow>
      \<exists>s' d'. hp_update P s data d = Some (s', d') \<and> dev d' \<and> st s' (m @ data)"
    and finalize_law: "dev d \<Longrightarrow> st s m \<Longrightarrow>
      \<exists>o' d'. hp_finalize P s d = Some (o', d') \<and> dev d' \<and> hp_output P o' = digest m"
    and digest_length: "length (digest m) = hash_len P alg"
begin

lemma oneshot:
  assumes "dev d" "length data \<le> maxlen"
  shows "\<exists>o' d'. hash_oneshot P alg data d = Some (o', d') \<and> dev d' \<and> hp_output P o' = digest data"
proof -
  obtain s d1 where 1: "hp_init P alg d = Some (s, d1)" "dev d1" "st s []"
    using init_law [OF assms(1)] by blast
  obtain s2 d2 where 2: "hp_update P s data d1 = Some (s2, d2)" "dev d2" "st s2 data"
    using update_law [OF 1(2,3), of data] assms(2) by auto
  obtain o' d3 where "hp_finalize P s2 d2 = Some (o', d3)" "dev d3" "hp_output P o' = digest data"
    using finalize_law [OF 2(2,3)] by blast
  with 1 2 show ?thesis by (simp add: hash_oneshot_def)
qed

end

text \<open>Feeding a list of chunks, one \<open>update\<close> each.\<close>

fun update_all :: "('s \<Rightarrow> bytes \<Rightarrow> 'd \<Rightarrow> ('s \<times> 'd) option) \<Rightarrow> 's \<Rightarrow> bytes list \<Rightarrow> 'd \<Rightarrow> ('s \<times> 'd) option" where
  "update_all upd s [] d = Some (s, d)"
| "update_all upd s (c # cs) d = do { (s, d) \<leftarrow> upd s c d; update_all upd s cs d }"

definition hash_chunks :: "('d, 'alg, 's, 'o) hash_provider \<Rightarrow> 'alg \<Rightarrow> bytes list \<Rightarrow> 'd \<Rightarrow> (bytes \<times> 'd) option" where
  "hash_chunks P alg chunks d = do {
     (s, d) \<leftarrow> hp_init P alg d;
     (s, d) \<leftarrow> update_all (hp_update P) s chunks d;
     (out, d) \<leftarrow> hp_finalize P s d;
     Some (hp_output P out, d)
   }"

context hash_contract
begin

lemma update_all_law:
  "dev d \<Longrightarrow> st s m \<Longrightarrow> length m + length (concat cs) \<le> maxlen \<Longrightarrow>
   \<exists>s' d'. update_all (hp_update P) s cs d = Some (s', d') \<and> dev d' \<and> st s' (m @ concat cs)"
proof (induction cs arbitrary: s m d)
  case (Cons c cs)
  obtain s1 d1 where 1: "hp_update P s c d = Some (s1, d1)" "dev d1" "st s1 (m @ c)"
    using update_law [OF Cons.prems(1,2), of c] Cons.prems(3) by auto
  from Cons.IH [OF 1(2,3)] Cons.prems(3) 1(1) show ?case by auto
qed simp

text \<open>How the message is cut into chunks does not matter.\<close>

lemma chunks:
  assumes "dev d" "length (concat cs) \<le> maxlen"
  shows "\<exists>d'. hash_chunks P alg cs d = Some (digest (concat cs), d') \<and> dev d'"
proof -
  obtain s d1 where 1: "hp_init P alg d = Some (s, d1)" "dev d1" "st s []"
    using init_law [OF assms(1)] by blast
  obtain s2 d2 where 2: "update_all (hp_update P) s cs d1 = Some (s2, d2)" "dev d2" "st s2 (concat cs)"
    using update_all_law [OF 1(2,3), of cs] assms(2) by auto
  obtain o' d3 where "hp_finalize P s2 d2 = Some (o', d3)" "dev d3" "hp_output P o' = digest (concat cs)"
    using finalize_law [OF 2(2,3)] by blast
  with 1 2 show ?thesis by (simp add: hash_chunks_def)
qed

end

text \<open>The same for HMAC; \<open>ky k key\<close> says that the loaded key \<open>k\<close> stands for the bytes \<open>key\<close>.\<close>

locale hmac_contract =
  fixes P :: "('d, 'alg, 'k, 's, 'o) hmac_provider"
    and alg :: 'alg
    and dev :: "'d \<Rightarrow> bool"
    and ky :: "'k \<Rightarrow> bytes \<Rightarrow> bool"
    and st :: "'s \<Rightarrow> bytes \<Rightarrow> bytes \<Rightarrow> bool"
    and mac :: "bytes \<Rightarrow> bytes \<Rightarrow> bytes"
    and maxlen :: nat
  assumes load_law: "dev d \<Longrightarrow> length key \<le> maxlen \<Longrightarrow>
      \<exists>k d'. mp_load_from_keydata P alg key d = Some (k, d') \<and> dev d' \<and> ky k key"
    and init_law: "dev d \<Longrightarrow> ky k key \<Longrightarrow> \<exists>s d'. mp_init P k d = Some (s, d') \<and> dev d' \<and> st s key []"
    and update_law: "dev d \<Longrightarrow> st s key m \<Longrightarrow> length m + length data \<le> maxlen \<Longrightarrow>
      \<exists>s' d'. mp_update P s data d = Some (s', d') \<and> dev d' \<and> st s' key (m @ data)"
    and finalize_law: "dev d \<Longrightarrow> st s key m \<Longrightarrow>
      \<exists>o' d'. mp_finalize P s d = Some (o', d') \<and> dev d' \<and> mp_output P o' = mac key m"
    and mac_length: "length (mac key m) = hmac_len P alg"
    and len_le: "hmac_len P alg \<le> hmac_MAX_LEN P"
begin

lemma init_with_keydata_law:
  assumes "dev d" "length key \<le> maxlen"
  shows "\<exists>s d'. init_with_keydata P alg key d = Some (s, d') \<and> dev d' \<and> st s key []"
proof -
  obtain k d1 where 1: "mp_load_from_keydata P alg key d = Some (k, d1)" "dev d1" "ky k key"
    using load_law [OF assms] by blast
  with init_law [OF 1(2,3)] show ?thesis by (auto simp: init_with_keydata_def)
qed

lemma hmac_with_keydata_law:
  assumes "dev d" "length key \<le> maxlen" "length data \<le> maxlen"
  shows "\<exists>o' d'. hmac_with_keydata P alg key data d = Some (o', d') \<and> dev d' \<and> mp_output P o' = mac key data"
proof -
  obtain s d1 where 1: "init_with_keydata P alg key d = Some (s, d1)" "dev d1" "st s key []"
    using init_with_keydata_law [OF assms(1,2)] by blast
  obtain s2 d2 where 2: "mp_update P s data d1 = Some (s2, d2)" "dev d2" "st s2 key data"
    using update_law [OF 1(2,3), of data] assms(3) by auto
  obtain o' d3 where "mp_finalize P s2 d2 = Some (o', d3)" "dev d3" "mp_output P o' = mac key data"
    using finalize_law [OF 2(2,3)] by blast
  with 1 2 show ?thesis by (simp add: hmac_with_keydata_def)
qed

end

end
