(* ===== verification/Cal_Hkdf.thy ===== *)
theory Cal_Hkdf
  imports Cal_Traits
begin

text \<open>
  HKDF (\<^verbatim>\<open>embedded-cal/src/hkdf.rs\<close>): the blanket implementation over any HMAC provider, and its
  refinement of the RFC 5869 specification for every provider that keeps the HMAC contract.
  \<open>debug_assert!\<close> is modelled in its checking form.
\<close>

section \<open>The code\<close>

text \<open>\<open>MaxLenBuf::default()\<close> is an array of \<open>MAX_LEN\<close> zero bytes.\<close>

definition max_len_buf :: "('d, 'alg, 'k, 's, 'o) hmac_provider \<Rightarrow> bytes" where
  "max_len_buf P = replicate (hmac_MAX_LEN P) 0"

definition hkdf_extract :: "('d, 'alg, 'k, 's, 'o) hmac_provider \<Rightarrow> 'alg \<Rightarrow> bytes option \<Rightarrow> bytes \<Rightarrow> 'd
    \<Rightarrow> ((hkdf_error + 'o) \<times> 'd) option" where
  "hkdf_extract P alg salt ikm d =
     (let zero_salt = max_len_buf P;
          hash_len = hmac_len P alg
      in if \<not> hash_len \<le> length zero_salt then None
         else do {
           zeros \<leftarrow> slice zero_salt 0 hash_len;
           let salt_bytes = (case salt of None \<Rightarrow> zeros | Some s \<Rightarrow> s);
           (prk, d) \<leftarrow> hmac_with_keydata P alg salt_bytes ikm d;
           Some (Inr prk, d)
         })"

text \<open>One round of the loop: \<open>T(i)\<close>, written over the buffer \<open>t\<close>.\<close>

definition expand_block :: "('d, 'alg, 'k, 's, 'o) hmac_provider \<Rightarrow> 'alg \<Rightarrow> bytes \<Rightarrow> bytes \<Rightarrow> bytes \<Rightarrow> nat \<Rightarrow> u8 \<Rightarrow> 'd
    \<Rightarrow> (bytes \<times> 'd) option" where
  "expand_block P alg prk info t t_len counter d = do {
     (state, d) \<leftarrow> init_with_keydata P alg prk d;
     (state, d) \<leftarrow> (if t_len > 0 then do { x \<leftarrow> slice t 0 t_len; mp_update P state x d } else Some (state, d));
     (state, d) \<leftarrow> mp_update P state info d;
     (state, d) \<leftarrow> mp_update P state [counter] d;
     (result, d) \<leftarrow> mp_finalize P state d;
     let result_bytes = mp_output P result;
     if length result_bytes \<noteq> hmac_len P alg then None
     else do { t \<leftarrow> copy_at t 0 result_bytes; Some (t, d) }
   }"

text \<open>The loop. \<open>pos / hash_len\<close> panics on a zero length; the counter is cast to \<open>u8\<close>.\<close>

function expand_loop :: "('d, 'alg, 'k, 's, 'o) hmac_provider \<Rightarrow> 'alg \<Rightarrow> bytes \<Rightarrow> bytes \<Rightarrow> bytes \<Rightarrow> nat \<Rightarrow> nat \<Rightarrow> bytes \<Rightarrow> 'd
    \<Rightarrow> (bytes \<times> 'd) option" where
  "expand_loop P alg prk info t t_len pos okm d =
     (if pos < length okm then
        (if hmac_len P alg = 0 then None
         else do {
           let counter = of_nat (pos div hmac_len P alg + 1);
           (t, d) \<leftarrow> expand_block P alg prk info t t_len counter d;
           let t_len = hmac_len P alg;
           let tk = min (length okm - pos) (hmac_len P alg);
           block \<leftarrow> slice t 0 tk;
           okm' \<leftarrow> copy_at okm pos block;
           expand_loop P alg prk info t t_len (pos + tk) okm' d
         })
      else Some (okm, d))"
  by pat_completeness auto
termination
  by (relation "measure (\<lambda>(P, alg, prk, info, t, t_len, pos, okm, d). length okm - pos)")
    (auto dest!: copy_at_length simp: min_def)

definition hkdf_expand :: "('d, 'alg, 'k, 's, 'o) hmac_provider \<Rightarrow> 'alg \<Rightarrow> bytes \<Rightarrow> bytes \<Rightarrow> bytes \<Rightarrow> 'd
    \<Rightarrow> (((hkdf_error + unit) \<times> bytes) \<times> 'd) option" where
  "hkdf_expand P alg prk info okm d =
     (let hash_len = hmac_len P alg
      in if length okm > 255 * hash_len then Some ((Inl OutputTooLong, okm), d)
         else
           let t = max_len_buf P
           in if \<not> hash_len \<le> length t then None
              else do {
                (okm, d) \<leftarrow> expand_loop P alg prk info t 0 0 okm d;
                Some ((Inr (), okm), d)
              })"

text \<open>The provided method: extract, then expand; \<open>?\<close> passes an error on.\<close>

definition hkdf :: "('d, 'alg, 'k, 's, 'o) hmac_provider \<Rightarrow> 'alg \<Rightarrow> bytes option \<Rightarrow> bytes \<Rightarrow> bytes \<Rightarrow> bytes \<Rightarrow> 'd
    \<Rightarrow> (((hkdf_error + unit) \<times> bytes) \<times> 'd) option" where
  "hkdf P alg salt ikm info okm d = do {
     (prk, d) \<leftarrow> hkdf_extract P alg salt ikm d;
     case prk of
       Inl e \<Rightarrow> Some ((Inl e, okm), d)
     | Inr prk \<Rightarrow> hkdf_expand P alg (mp_output P prk) info okm d
   }"

section \<open>RFC 5869\<close>

text \<open>\<open>T(0)\<close> is empty, \<open>T(i) = HMAC(PRK, T(i-1) | info | i)\<close>; the output is the prefix of
  \<open>T(1) | T(2) | ...\<close> of the requested length.\<close>

fun hkdf_T :: "(bytes \<Rightarrow> bytes \<Rightarrow> bytes) \<Rightarrow> bytes \<Rightarrow> bytes \<Rightarrow> nat \<Rightarrow> bytes" where
  "hkdf_T mac prk info 0 = []"
| "hkdf_T mac prk info (Suc i) = mac prk (hkdf_T mac prk info i @ info @ [of_nat (Suc i)])"

definition hkdf_stream :: "(bytes \<Rightarrow> bytes \<Rightarrow> bytes) \<Rightarrow> bytes \<Rightarrow> bytes \<Rightarrow> nat \<Rightarrow> bytes" where
  "hkdf_stream mac prk info n = concat (map (\<lambda>i. hkdf_T mac prk info (Suc i)) [0..<n])"

definition okm_spec :: "(bytes \<Rightarrow> bytes \<Rightarrow> bytes) \<Rightarrow> nat \<Rightarrow> bytes \<Rightarrow> bytes \<Rightarrow> nat \<Rightarrow> bytes" where
  "okm_spec mac hl prk info l = take l (hkdf_stream mac prk info ((l + hl - 1) div hl))"

lemma length_max_len_buf [simp]: "length (max_len_buf P) = hmac_MAX_LEN P"
  by (simp add: max_len_buf_def)

lemma hkdf_stream_Suc: "hkdf_stream mac prk info (Suc n) = hkdf_stream mac prk info n @ hkdf_T mac prk info (Suc n)"
  by (simp add: hkdf_stream_def)

declare expand_loop.simps [simp del]

context hmac_contract
begin

lemma hkdf_T_length: "length (hkdf_T mac prk info (Suc i)) = hmac_len P alg"
  by (simp add: mac_length)

lemma hkdf_stream_length: "length (hkdf_stream mac prk info n) = n * hmac_len P alg"
  by (induction n) (simp add: hkdf_stream_def, simp add: hkdf_stream_Suc hkdf_T_length mac_length)

lemma expand_block_law:
  assumes "dev d" "length prk \<le> maxlen" "hmac_len P alg + length info + 1 \<le> maxlen"
    and "length t = hmac_MAX_LEN P" "t_len = length prev" "take t_len t = prev" "t_len \<le> hmac_len P alg"
  shows "\<exists>d'. expand_block P alg prk info t t_len c d
      = Some (mac prk (prev @ info @ [c]) @ drop (hmac_len P alg) t, d') \<and> dev d'"
proof -
  obtain s0 d0 where 0: "init_with_keydata P alg prk d = Some (s0, d0)" "dev d0" "st s0 prk []"
    using init_with_keydata_law [OF assms(1,2)] by blast
  obtain s1 d1 where 1: "(if t_len > 0 then do { x \<leftarrow> slice t 0 t_len; mp_update P s0 x d0 } else Some (s0, d0)) = Some (s1, d1)"
      "dev d1" "st s1 prk prev"
  proof (cases "t_len > 0")
    case True
    have "slice t 0 t_len = Some prev" using assms(4-7) len_le by (simp add: slice_def)
    with update_law [OF 0(2,3), of prev] assms(3,5,7) True that show ?thesis by auto
  next
    case False
    with 0 assms(5) that show ?thesis by simp
  qed
  obtain s2 d2 where 2: "mp_update P s1 info d1 = Some (s2, d2)" "dev d2" "st s2 prk (prev @ info)"
    using update_law [OF 1(2,3), of info] assms(3,5,7) by auto
  obtain s3 d3 where 3: "mp_update P s2 [c] d2 = Some (s3, d3)" "dev d3" "st s3 prk (prev @ info @ [c])"
    using update_law [OF 2(2,3), of "[c]"] assms(3,5,7) by auto
  obtain o' d4 where 4: "mp_finalize P s3 d3 = Some (o', d4)" "dev d4" "mp_output P o' = mac prk (prev @ info @ [c])"
    using finalize_law [OF 3(2,3)] by blast
  show ?thesis
    unfolding expand_block_def using 0 1 2 3 4 assms(4) len_le
    by (simp add: mac_length copy_at_def)
qed

lemma hkdf_stream_prefix:
  "n \<le> m \<Longrightarrow> take (n * hmac_len P alg) (hkdf_stream mac prk info m) = hkdf_stream mac prk info n"
proof (induction m)
  case (Suc m)
  show ?case
  proof (cases "n = Suc m")
    case True
    then show ?thesis by (metis hkdf_stream_length order_refl take_all)
  next
    case False
    with Suc have "n * hmac_len P alg \<le> length (hkdf_stream mac prk info m)" by (simp add: hkdf_stream_length)
    with False Suc show ?thesis by (simp add: hkdf_stream_Suc)
  qed
qed (simp add: hkdf_stream_def)

text \<open>The stream does not depend on how far beyond the output it is computed.\<close>

lemma okm_spec_eq:
  assumes "0 < hmac_len P alg" "l \<le> n * hmac_len P alg"
  shows "okm_spec mac (hmac_len P alg) prk info l = take l (hkdf_stream mac prk info n)"
proof -
  let ?h = "hmac_len P alg"
  let ?k = "(l + ?h - 1) div ?h"
  have "l + ?h - 1 < Suc n * ?h" using assms unfolding mult_Suc by linarith
  then have "?k < Suc n" by (rule less_mult_imp_div_less)
  then have kn: "?k \<le> n" by simp
  have "?h * ?k + (l + ?h - 1) mod ?h = l + ?h - 1" by (rule mult_div_mod_eq)
  moreover have "(l + ?h - 1) mod ?h < ?h" using assms(1) by simp
  ultimately have "l \<le> ?h * ?k" using assms(1) by linarith
  then have "l \<le> ?k * ?h" by (simp only: mult.commute)
  then have "take l (take (?k * ?h) (hkdf_stream mac prk info n)) = take l (hkdf_stream mac prk info n)"
    by (simp only: take_take min_absorb1)
  then show ?thesis unfolding okm_spec_def hkdf_stream_prefix [OF kn] .
qed

lemma expand_loop_law:
  assumes "0 < hmac_len P alg" "length prk \<le> maxlen" "hmac_len P alg + length info + 1 \<le> maxlen"
    and "dev d" "length t = hmac_MAX_LEN P" "t_len = length (hkdf_T mac prk info n)"
    and "take t_len t = hkdf_T mac prk info n" "pos = min (n * hmac_len P alg) (length okm)"
    and "take pos okm = take pos (hkdf_stream mac prk info n)"
  shows "\<exists>d'. expand_loop P alg prk info t t_len pos okm d
      = Some (okm_spec mac (hmac_len P alg) prk info (length okm), d') \<and> dev d'"
  using assms(4-)
proof (induction "length okm - pos" arbitrary: d t t_len n pos okm rule: less_induct)
  case less
  let ?h = "hmac_len P alg"
  show ?case
  proof (cases "pos < length okm")
    case False
    then have "length okm \<le> n * ?h" using less.prems(5) by simp
    with False less.prems show ?thesis
      by (simp add: expand_loop.simps okm_spec_eq [OF assms(1), of _ n])
  next
    case True
    then have pos: "pos = n * ?h" using less.prems(5) by (simp add: min_def split: if_splits)
    then have cnt: "pos div ?h + 1 = Suc n" using assms(1) by simp
    have tl: "t_len \<le> ?h" using less.prems(3) by (cases n) (simp_all add: mac_length)
    let ?T = "hkdf_T mac prk info (Suc n)"
    let ?t = "?T @ drop ?h t"
    obtain d1 where b: "expand_block P alg prk info t t_len (of_nat (Suc n)) d = Some (?t, d1)" "dev d1"
      using expand_block_law [OF less.prems(1) assms(2,3) less.prems(2,3,4) tl] by auto
    let ?k = "min (length okm - pos) ?h"
    have sl: "slice ?t 0 ?k = Some (take ?k ?T)"
      using hkdf_T_length [of prk info n] by (simp add: slice_def)
    let ?okm = "take pos okm @ take ?k ?T @ drop (pos + ?k) okm"
    have cp: "copy_at okm pos (take ?k ?T) = Some ?okm"
      using hkdf_T_length [of prk info n] True by (simp add: copy_at_def)
    have lo: "length ?okm = length okm" using hkdf_T_length [of prk info n] True by simp
    have pk: "pos + ?k = min (Suc n * ?h) (length okm)" unfolding min_def using pos True by auto
    have pre: "take (pos + ?k) ?okm = take (pos + ?k) (hkdf_stream mac prk info (Suc n))"
      using less.prems(6) pos hkdf_T_length [of prk info n] True
      by (simp add: hkdf_stream_Suc hkdf_stream_length)
    have lt: "length ?okm - (pos + ?k) < length okm - pos" unfolding lo using True assms(1) by linarith
    have "\<exists>d'. expand_loop P alg prk info ?t ?h (pos + ?k) ?okm d1
        = Some (okm_spec mac ?h prk info (length ?okm), d') \<and> dev d'"
    proof (rule less.hyps [OF lt b(2), where n = "Suc n"])
      show "length ?t = hmac_MAX_LEN P" "?h = length ?T" "take ?h ?t = ?T"
        using less.prems(2) len_le by (simp_all add: mac_length)
      show "pos + ?k = min (Suc n * ?h) (length ?okm)" unfolding lo by (rule pk)
    qed (rule pre)
    then show ?thesis
      using True assms(1) b(1) sl cp lo by (subst expand_loop.simps) (simp add: cnt [simplified] Let_def)
  qed
qed

lemma hkdf_expand_law:
  assumes "dev d" "0 < hmac_len P alg" "length prk \<le> maxlen" "hmac_len P alg + length info + 1 \<le> maxlen"
    and "length okm \<le> 255 * hmac_len P alg"
  shows "\<exists>d'. hkdf_expand P alg prk info okm d
      = Some ((Inr (), okm_spec mac (hmac_len P alg) prk info (length okm)), d') \<and> dev d'"
proof -
  obtain d' where "expand_loop P alg prk info (max_len_buf P) 0 0 okm d
      = Some (okm_spec mac (hmac_len P alg) prk info (length okm), d')" "dev d'"
    using expand_loop_law [OF assms(2-4,1), of "max_len_buf P" 0 0 0 okm] by auto
  with assms(5) len_le show ?thesis by (simp add: hkdf_expand_def)
qed

lemma hkdf_extract_law:
  assumes "dev d" "length ikm \<le> maxlen" "\<forall>s. salt = Some s \<longrightarrow> length s \<le> maxlen" "hmac_len P alg \<le> maxlen"
  shows "\<exists>o' d'. hkdf_extract P alg salt ikm d = Some (Inr o', d') \<and> dev d'
      \<and> mp_output P o' = mac (case salt of None \<Rightarrow> replicate (hmac_len P alg) 0 | Some s \<Rightarrow> s) ikm"
proof -
  let ?s = "case salt of None \<Rightarrow> replicate (hmac_len P alg) 0 | Some s \<Rightarrow> s"
  have sl: "slice (max_len_buf P) 0 (hmac_len P alg) = Some (replicate (hmac_len P alg) 0)"
    using len_le by (simp add: slice_def max_len_buf_def min_def)
  have "length ?s \<le> maxlen" using assms(3,4) by (cases salt) auto
  from hmac_with_keydata_law [OF assms(1) this assms(2)] sl len_le show ?thesis
    by (auto simp: hkdf_extract_def)
qed

lemma hkdf_law:
  assumes "dev d" "0 < hmac_len P alg" "length ikm \<le> maxlen" "\<forall>s. salt = Some s \<longrightarrow> length s \<le> maxlen"
    and "hmac_len P alg + length info + 1 \<le> maxlen" "length okm \<le> 255 * hmac_len P alg"
  shows "\<exists>d'. hkdf P alg salt ikm info okm d
      = Some ((Inr (), okm_spec mac (hmac_len P alg)
          (mac (case salt of None \<Rightarrow> replicate (hmac_len P alg) 0 | Some s \<Rightarrow> s) ikm) info (length okm)), d') \<and> dev d'"
proof -
  have m: "hmac_len P alg \<le> maxlen" using assms(5) by simp
  obtain o' d1 where 1: "hkdf_extract P alg salt ikm d = Some (Inr o', d1)" "dev d1"
      "mp_output P o' = mac (case salt of None \<Rightarrow> replicate (hmac_len P alg) 0 | Some s \<Rightarrow> s) ikm"
    using hkdf_extract_law [OF assms(1,3,4) m] by blast
  have "length (mp_output P o') \<le> maxlen" using 1(3) m by (simp add: mac_length)
  from hkdf_expand_law [OF 1(2) assms(2) this assms(5,6)] 1 show ?thesis by (auto simp: hkdf_def)
qed

end

text \<open>Whatever the provider does: the error is returned exactly above 255 blocks, and leaves the
  output buffer alone.\<close>

lemma hkdf_expand_error:
  "hkdf_expand P alg prk info okm d = Some ((Inl e, okm'), d') \<longleftrightarrow>
     255 * hmac_len P alg < length okm \<and> e = OutputTooLong \<and> okm' = okm \<and> d' = d"
  by (cases e) (auto simp: hkdf_expand_def Let_def split: if_splits bind_splits)

end
