(* ===== verification/Empty_Cal.thy ===== *)
theory Empty_Cal
  imports Cal_Traits
begin

text \<open>
  \<^verbatim>\<open>embedded-cal/src/empty.rs\<close>: the implementation of every trait that offers no algorithm.
  \<open>NoAlgorithms\<close> is uninhabited in Rust. A HOL type is not empty, so it is a type with one stray
  value; a method that would have to take the empty match apart has no result on it (\<open>None\<close>), and
  \<open>empty_selects_nothing\<close> and \<open>empty_produces_nothing\<close> show that no operation ever makes such a value.
\<close>

datatype no_algorithms = Uninhabited

definition empty_sha2 :: "('d, no_algorithms) sha2short" where
  "empty_sha2 =
     \<lparr> SUPPORTED = False, SEND_PADDING = False, FIRST_CHUNK_SIZE = 0, UPDATE_MULTICHUNK = False,
       s2_init = (\<lambda>_ _. None), s2_update = (\<lambda>_ _ _. None), s2_finalize = (\<lambda>_ _ _ _. None) \<rparr>"

definition empty_hash :: "('d, no_algorithms, no_algorithms, no_algorithms) hash_provider" where
  "empty_hash =
     \<lparr> hash_len = (\<lambda>_. 0), hash_from_cose_number = (\<lambda>_. None), hash_from_ni_id = (\<lambda>_. None),
       hash_from_ni_name = (\<lambda>_. None),
       hp_init = (\<lambda>_ _. None), hp_update = (\<lambda>_ _ _. None), hp_finalize = (\<lambda>_ _. None),
       hp_output = (\<lambda>_. []) \<rparr>"

definition empty_hmac :: "('d, no_algorithms, no_algorithms, no_algorithms, no_algorithms) hmac_provider" where
  "empty_hmac =
     \<lparr> hmac_MAX_LEN = 0, hmac_len = (\<lambda>_. 0), hmac_from_cose_number = (\<lambda>_. None),
       mp_load_from_keydata = (\<lambda>_ _ _. None), mp_init = (\<lambda>_ _. None), mp_update = (\<lambda>_ _ _. None),
       mp_finalize = (\<lambda>_ _. None), mp_output = (\<lambda>_. []) \<rparr>"

definition empty_aead :: "('d, no_algorithms, no_algorithms, no_algorithms) aead_provider" where
  "empty_aead =
     \<lparr> key_length = (\<lambda>_. 0), tag_length = (\<lambda>_. 0), nonce_length = (\<lambda>_. 0),
       aead_from_cose_number = (\<lambda>_. None), ap_load_from_keydata = (\<lambda>_ _ _. None),
       ap_encrypt_in_place = (\<lambda>_ _ _ _ _. None), ap_decrypt_in_place = (\<lambda>_ _ _ _ _ _. None),
       ap_tag_bytes = (\<lambda>_. []) \<rparr>"

definition empty_dh :: "('d, no_algorithms, no_algorithms, no_algorithms, no_algorithms, no_algorithms) dh_provider" where
  "empty_dh =
     \<lparr> output_length = (\<lambda>_. 0), dh_from_cose_ecdh = (\<lambda>_. None),
       dp_generate_visible = (\<lambda>_ _. None), dp_into_secret = (\<lambda>v. v),
       dp_export_secretkey_bytes = (\<lambda>_ _. None), dp_import_secretkey_bytes = (\<lambda>_ _ _. None),
       dp_export_publickey_bytes = (\<lambda>_ _. None), dp_import_publickey_bytes = (\<lambda>_ _ _. None),
       dp_shared_secret = (\<lambda>_ _ _. None), dp_public_key = (\<lambda>_ _. None), dp_raw_secret_bytes = (\<lambda>_ _. None) \<rparr>"

text \<open>The curve primitives. Unlike the rest, \<open>import_scalar_bytes\<close> can be called and reports an error;
  \<open>export_scalar_bytes\<close> has a body that would return no bytes.\<close>

definition empty_ec_primitives :: "('d, no_algorithms, no_algorithms) ec_primitives" where
  "empty_ec_primitives =
     \<lparr> HAS_MULTIPLY_SCALAR_POINT = False, ep_multiply_scalar_point = (\<lambda>_ _ _. None),
       ep_import_scalar_bytes = (\<lambda>_ d. Some (Inl ImportError, d)), ep_point = (\<lambda>_ _ _. None),
       ep_export_scalar_bytes = (\<lambda>_ d. Some ([], d)), ep_x_coord = (\<lambda>_ _. None), ep_y_coord = (\<lambda>_ _. None) \<rparr>"

definition empty_ec :: "('d, no_algorithms, no_algorithms, no_algorithms, no_algorithms, no_algorithms, no_algorithms) ec" where
  "empty_ec = \<lparr> MAX_SCALAR_LENGTH = 0, ec_p256 = empty_ec_primitives, ec_x25519 = empty_ec_primitives,
     ec_x448 = empty_ec_primitives \<rparr>"

text \<open>The empty implementation offers nothing: no identifier, in any registry of any of the four
  interfaces, selects an algorithm, its plumbing is marked unsupported and needs no buffer, and its
  scalar import reports an error and leaves the device alone.\<close>

theorem empty_selects_nothing:
  "hash_from_cose_number empty_hash n = None \<and> hash_from_ni_id empty_hash i = None
   \<and> hash_from_ni_name empty_hash s = None \<and> hmac_from_cose_number empty_hmac n = None
   \<and> aead_from_cose_number empty_aead n = None \<and> dh_from_cose_ecdh empty_dh n = None
   \<and> \<not> SUPPORTED empty_sha2 \<and> hash_buffer_requirements empty_sha2 = 0
   \<and> ep_import_scalar_bytes (ec_p256 empty_ec) b d = Some (Inl ImportError, d)"
  by (simp add: empty_hash_def empty_hmac_def empty_aead_def empty_dh_def empty_sha2_def
      hash_buffer_requirements_def empty_ec_def empty_ec_primitives_def)

lemma empty_produces_nothing:
  "hp_init empty_hash a d = None \<and> hash_oneshot empty_hash a m d = None
   \<and> init_with_keydata empty_hmac a k d = None \<and> hmac_with_keydata empty_hmac a k m d = None
   \<and> ap_load_from_keydata empty_aead a k d = None \<and> dh_generate empty_dh a d = None
   \<and> s2_init empty_sha2 v d = None"
  by (simp add: empty_hash_def empty_hmac_def empty_aead_def empty_dh_def empty_sha2_def
      hash_oneshot_def init_with_keydata_def hmac_with_keydata_def dh_generate_def)

end
