(* ===== verification/Sha256.thy ===== *)
theory Sha256
  imports Cal_Traits
begin

text \<open>
  The software SHA-256 compression of \<^verbatim>\<open>embedded-cal-software-demo/src/hash_plumbing.rs\<close>, and its
  equivalence with the recursive definitions of FIPS 180-4. Machine words are 32-bit words, so
  \<open>wrapping_add\<close> is \<open>+\<close> and \<open>rotate_right\<close> is \<open>word_rotr\<close>.
\<close>

section \<open>The code\<close>

definition sha256_k :: "u32 list" where
  "sha256_k =
    [0x428A2F98, 0x71374491, 0xB5C0FBCF, 0xE9B5DBA5, 0x3956C25B, 0x59F111F1, 0x923F82A4, 0xAB1C5ED5,
     0xD807AA98, 0x12835B01, 0x243185BE, 0x550C7DC3, 0x72BE5D74, 0x80DEB1FE, 0x9BDC06A7, 0xC19BF174,
     0xE49B69C1, 0xEFBE4786, 0x0FC19DC6, 0x240CA1CC, 0x2DE92C6F, 0x4A7484AA, 0x5CB0A9DC, 0x76F988DA,
     0x983E5152, 0xA831C66D, 0xB00327C8, 0xBF597FC7, 0xC6E00BF3, 0xD5A79147, 0x06CA6351, 0x14292967,
     0x27B70A85, 0x2E1B2138, 0x4D2C6DFC, 0x53380D13, 0x650A7354, 0x766A0ABB, 0x81C2C92E, 0x92722C85,
     0xA2BFE8A1, 0xA81A664B, 0xC24B8B70, 0xC76C51A3, 0xD192E819, 0xD6990624, 0xF40E3585, 0x106AA070,
     0x19A4C116, 0x1E376C08, 0x2748774C, 0x34B0BCB5, 0x391C0CB3, 0x4ED8AA4A, 0x5B9CCA4F, 0x682E6FF3,
     0x748F82EE, 0x78A5636F, 0x84C87814, 0x8CC70208, 0x90BEFFFA, 0xA4506CEB, 0xBEF9A3F7, 0xC67178F2]"

text \<open>The initial value \<open>init\<close> puts into the state.\<close>

definition sha256_init :: "u32 list" where
  "sha256_init = [0x6A09E667, 0xBB67AE85, 0x3C6EF372, 0xA54FF53A, 0x510E527F, 0x9B05688C, 0x1F83D9AB, 0x5BE0CD19]"

text \<open>\<open>data.as_chunks::<4>().0\<close>: the whole groups of four bytes.\<close>

fun as_chunks4 :: "bytes \<Rightarrow> bytes list" where
  "as_chunks4 (a # b # c # d # xs) = [a, b, c, d] # as_chunks4 xs"
| "as_chunks4 _ = []"

definition load_words :: "bytes \<Rightarrow> u32 list" where
  "load_words data =
     foldl (\<lambda>w (i, chunkword). w[i := u32_from_be chunkword]) (replicate 64 0) (enumerate 0 (as_chunks4 data))"

definition extend_step :: "u32 list \<Rightarrow> nat \<Rightarrow> u32 list" where
  "extend_step w i =
     (let s0 = word_rotr 7 (w ! (i - 15)) XOR word_rotr 18 (w ! (i - 15)) XOR drop_bit 3 (w ! (i - 15));
          s1 = word_rotr 17 (w ! (i - 2)) XOR word_rotr 19 (w ! (i - 2)) XOR drop_bit 10 (w ! (i - 2))
      in w[i := w ! (i - 16) + s0 + w ! (i - 7) + s1])"

type_synonym regs = "u32 \<times> u32 \<times> u32 \<times> u32 \<times> u32 \<times> u32 \<times> u32 \<times> u32"

definition round_step :: "u32 list \<Rightarrow> regs \<Rightarrow> nat \<Rightarrow> regs" where
  "round_step w = (\<lambda>(a, b, c, d, e, f, g, h) i.
     (let S1 = word_rotr 6 e XOR word_rotr 11 e XOR word_rotr 25 e;
          ch = (e AND f) XOR (NOT e AND g);
          temp1 = h + S1 + ch + sha256_k ! i + w ! i;
          S0 = word_rotr 2 a XOR word_rotr 13 a XOR word_rotr 22 a;
          maj = (a AND b) XOR (a AND c) XOR (b AND c);
          temp2 = S0 + maj;
          h = g; g = f; f = e; e = d + temp1; d = c; c = b; b = a; a = temp1 + temp2
      in (a, b, c, d, e, f, g, h)))"

definition regs_of :: "u32 list \<Rightarrow> regs" where
  "regs_of s = (s ! 0, s ! 1, s ! 2, s ! 3, s ! 4, s ! 5, s ! 6, s ! 7)"

fun list_of_regs :: "regs \<Rightarrow> u32 list" where
  "list_of_regs (a, b, c, d, e, f, g, h) = [a, b, c, d, e, f, g, h]"

text \<open>One call of \<open>update\<close> on the software state: exactly one block of 64 bytes.\<close>

definition sha256_update :: "u32 list \<Rightarrow> bytes \<Rightarrow> u32 list option" where
  "sha256_update s data =
     (if length data \<noteq> 64 then None
      else
        let w = foldl extend_step (load_words data) [16..<64];
            r = foldl (round_step w) (regs_of s) [0..<64]
        in Some (map2 (+) s (list_of_regs r)))"

text \<open>\<open>target[4 * i..][..4].copy_from_slice(&word.to_be_bytes())\<close>\<close>

fun sha256_store :: "bytes \<Rightarrow> nat \<Rightarrow> u32 list \<Rightarrow> bytes option" where
  "sha256_store target i [] = Some target"
| "sha256_store target i (w # ws) = do {
     target \<leftarrow> copy_at target (4 * i) (u32_to_be w);
     sha256_store target (Suc i) ws
   }"

section \<open>FIPS 180-4\<close>

definition Ch :: "u32 \<Rightarrow> u32 \<Rightarrow> u32 \<Rightarrow> u32" where
  "Ch x y z = (x AND y) XOR (NOT x AND z)"

definition Maj :: "u32 \<Rightarrow> u32 \<Rightarrow> u32 \<Rightarrow> u32" where
  "Maj x y z = (x AND y) XOR (x AND z) XOR (y AND z)"

definition Sigma0 :: "u32 \<Rightarrow> u32" where
  "Sigma0 x = word_rotr 2 x XOR word_rotr 13 x XOR word_rotr 22 x"

definition Sigma1 :: "u32 \<Rightarrow> u32" where
  "Sigma1 x = word_rotr 6 x XOR word_rotr 11 x XOR word_rotr 25 x"

definition sigma0 :: "u32 \<Rightarrow> u32" where
  "sigma0 x = word_rotr 7 x XOR word_rotr 18 x XOR drop_bit 3 x"

definition sigma1 :: "u32 \<Rightarrow> u32" where
  "sigma1 x = word_rotr 17 x XOR word_rotr 19 x XOR drop_bit 10 x"

text \<open>The message schedule as the standard states it: word \<open>t\<close> of the block, or the recurrence.\<close>

function msg_sched :: "bytes \<Rightarrow> nat \<Rightarrow> u32" where
  "msg_sched M t =
     (if t < 16 then u32_from_be (take 4 (drop (4 * t) M))
      else sigma1 (msg_sched M (t - 2)) + msg_sched M (t - 7) + sigma0 (msg_sched M (t - 15)) + msg_sched M (t - 16))"
  by pat_completeness auto
termination by (relation "measure snd") auto

declare msg_sched.simps [simp del]

fun work_vars :: "u32 list \<Rightarrow> bytes \<Rightarrow> nat \<Rightarrow> regs" where
  "work_vars H M 0 = (H ! 0, H ! 1, H ! 2, H ! 3, H ! 4, H ! 5, H ! 6, H ! 7)"
| "work_vars H M (Suc t) =
     (let (a, b, c, d, e, f, g, h) = work_vars H M t;
          T1 = h + Sigma1 e + Ch e f g + sha256_k ! t + msg_sched M t;
          T2 = Sigma0 a + Maj a b c
      in (T1 + T2, a, b, c, d + T1, e, f, g))"

definition sha256_compress :: "u32 list \<Rightarrow> bytes \<Rightarrow> u32 list" where
  "sha256_compress H M = map2 (+) (list_of_regs (work_vars H M 64)) H"

text \<open>The value of a message that is already a whole number of blocks, and of any message.\<close>

fun blocks64 :: "nat \<Rightarrow> bytes \<Rightarrow> bytes list" where
  "blocks64 0 m = []"
| "blocks64 (Suc n) m = take 64 m # blocks64 n (drop 64 m)"

definition sha256_blocks :: "bytes \<Rightarrow> u32 list" where
  "sha256_blocks m = foldl sha256_compress sha256_init (blocks64 (length m div 64) m)"

definition words_be :: "u32 list \<Rightarrow> bytes" where
  "words_be ws = concat (map u32_to_be ws)"

text \<open>Padding: a one bit, the fewest zero bits that leave room for a 64-bit length, the length.\<close>

definition pad_zeros :: "nat \<Rightarrow> nat" where
  "pad_zeros l = (119 - l mod 64) mod 64"

definition sha256_pad :: "nat \<Rightarrow> bytes" where
  "sha256_pad l = 0x80 # replicate (pad_zeros l) 0 @ be_bytes 8 (8 * l)"

definition sha256 :: "bytes \<Rightarrow> bytes" where
  "sha256 m = words_be (sha256_blocks (m @ sha256_pad (length m)))"

section \<open>The schedule\<close>

lemma list_four: "length (xs :: bytes) = 4 * Suc n \<Longrightarrow> \<exists>a b c d ys. xs = a # b # c # d # ys \<and> length ys = 4 * n"
  by (cases xs rule: as_chunks4.cases) auto

lemma length_as_chunks4: "length xs = 4 * n \<Longrightarrow> length (as_chunks4 xs) = n"
proof (induction n arbitrary: xs)
  case (Suc n)
  then obtain a b c d ys where "xs = a # b # c # d # ys" "length ys = 4 * n"
    using list_four [OF Suc.prems] by blast
  with Suc show ?case by simp
qed simp

lemma as_chunks4_nth: "length xs = 4 * n \<Longrightarrow> i < n \<Longrightarrow> as_chunks4 xs ! i = take 4 (drop (4 * i) xs)"
proof (induction n arbitrary: xs i)
  case (Suc n)
  obtain a b c d ys where xs: "xs = a # b # c # d # ys"
    using list_four [OF Suc.prems(1)] by blast
  show ?case
  proof (cases i)
    case (Suc j)
    have "drop (4 * i) xs = drop (4 * j) ys" unfolding xs Suc by (simp add: numeral_eq_Suc)
    with Suc.IH [of ys j] Suc.prems xs Suc show ?thesis by simp
  qed (simp add: xs)
qed simp

lemma foldl_enumerate_update:
  "length w = n \<Longrightarrow> k + length cs \<le> n \<Longrightarrow>
   foldl (\<lambda>w (i, c). w[i := f c]) w (enumerate k cs) = take k w @ map f cs @ drop (k + length cs) w"
proof (induction cs arbitrary: k w)
  case (Cons c cs)
  have "take (Suc k) (w[k := f c]) = take k w @ [f c]"
    using Cons.prems by (simp add: take_Suc_conv_app_nth)
  then show ?case using Cons.IH [of "w[k := f c]" "Suc k"] Cons.prems by simp
qed simp

lemma load_words_nth:
  assumes "length data = 64"
  shows "length (load_words data) = 64" "t < 16 \<Longrightarrow> load_words data ! t = msg_sched data t"
proof -
  have n: "length data = 4 * 16" using assms by simp
  have l: "length (as_chunks4 data) = 16" using length_as_chunks4 [OF n] .
  then have e: "load_words data = map u32_from_be (as_chunks4 data) @ replicate 48 0"
    unfolding load_words_def by (subst foldl_enumerate_update [where n = 64]) simp_all
  then show "length (load_words data) = 64" using l by simp
  show "load_words data ! t = msg_sched data t" if "t < 16"
    using that as_chunks4_nth [OF n that] l by (simp add: e nth_append msg_sched.simps)
qed

lemma extend_sched:
  assumes "length data = 64" "16 \<le> n" "n \<le> 64"
  shows "length (foldl extend_step (load_words data) [16..<n]) = 64
    \<and> (\<forall>t < n. foldl extend_step (load_words data) [16..<n] ! t = msg_sched data t)"
  using assms(2,3)
proof (induction n rule: dec_induct)
  case base
  then show ?case using load_words_nth [OF assms(1)] by simp
next
  case (step n)
  let ?w = "foldl extend_step (load_words data) [16..<n]"
  from step have IH: "length ?w = 64" "\<forall>t < n. ?w ! t = msg_sched data t" by simp_all
  have w: "foldl extend_step (load_words data) [16..<Suc n] = extend_step ?w n"
    using step.hyps by simp
  have ix: "?w ! (n - 16) = msg_sched data (n - 16)" "?w ! (n - 15) = msg_sched data (n - 15)"
      "?w ! (n - 7) = msg_sched data (n - 7)" "?w ! (n - 2) = msg_sched data (n - 2)"
    using IH(2) step.hyps by simp_all
  have "msg_sched data n = sigma1 (msg_sched data (n - 2)) + msg_sched data (n - 7)
      + sigma0 (msg_sched data (n - 15)) + msg_sched data (n - 16)"
    using step.hyps by (subst msg_sched.simps) simp
  then have "extend_step ?w n ! n = msg_sched data n"
    using IH(1) step(2,4) ix by (simp add: extend_step_def sigma0_def sigma1_def Let_def)
  moreover have "extend_step ?w n ! t = ?w ! t" if "t < n" for t
    using that by (simp add: extend_step_def Let_def)
  ultimately show ?case unfolding w using IH by (auto simp: less_Suc_eq extend_step_def Let_def)
qed

lemma rounds_eq:
  assumes "\<forall>t < n. w ! t = msg_sched data t"
  shows "foldl (round_step w) (regs_of s) [0..<n] = work_vars s data n"
  using assms
proof (induction n)
  case (Suc n)
  then have "foldl (round_step w) (regs_of s) [0..<n] = work_vars s data n" by simp
  then show ?case using Suc.prems
    by (simp add: round_step_def Ch_def Maj_def Sigma0_def Sigma1_def Let_def split: prod.splits)
qed (simp add: regs_of_def)

lemma map2_add_commute: "map2 (+) xs ys = map2 (+) ys (xs :: u32 list)"
  by (simp add: list_eq_iff_nth_eq min.commute add.commute)

lemma length_list_of_regs [simp]: "length (list_of_regs r) = 8"
  by (cases r rule: list_of_regs.cases) simp

lemma sha256_update_eq:
  "sha256_update s data = (if length data = 64 then Some (sha256_compress s data) else None)"
  using extend_sched [of data 64] rounds_eq [of 64 _ data s]
  by (simp add: sha256_update_def sha256_compress_def Let_def map2_add_commute [of s])

lemma length_sha256_compress: "length H = 8 \<Longrightarrow> length (sha256_compress H M) = 8"
  by (simp add: sha256_compress_def)

section \<open>Blocks and padding\<close>

lemma blocks64_append: "length m = 64 * n \<Longrightarrow> blocks64 (n + k) (m @ x) = blocks64 n m @ blocks64 k x"
  by (induction n arbitrary: m) simp_all

lemma sha256_blocks_snoc:
  assumes "length m mod 64 = 0" "length b = 64"
  shows "sha256_blocks (m @ b) = sha256_compress (sha256_blocks m) b"
proof -
  have n: "length m = 64 * (length m div 64)" using assms(1) by auto
  have "length (m @ b) div 64 = length m div 64 + 1" using assms by simp
  then show ?thesis using blocks64_append [OF n, of 1 b] assms(2) by (simp add: sha256_blocks_def)
qed

lemma sha256_blocks_Nil [simp]: "sha256_blocks [] = sha256_init"
  by (simp add: sha256_blocks_def)

lemma length_sha256_blocks [simp, len_simps]: "length (sha256_blocks m) = 8"
proof -
  have "length (foldl sha256_compress H bs) = 8" if "length H = 8" for H bs
    using that by (induction bs arbitrary: H) (simp_all add: length_sha256_compress)
  then show ?thesis by (simp add: sha256_blocks_def sha256_init_def)
qed

lemma length_words_be [simp, len_simps]: "length (words_be ws) = 4 * length ws"
  by (induction ws) (simp_all add: words_be_def)

lemma length_sha256 [simp, len_simps]: "length (sha256 m) = 32"
  by (simp add: sha256_def)

lemma sha256_store_eq:
  "4 * (i + length ws) \<le> length target \<Longrightarrow>
   sha256_store target i ws = Some (take (4 * i) target @ words_be ws @ drop (4 * (i + length ws)) target)"
proof (induction ws arbitrary: target i)
  case (Cons w ws)
  let ?t = "take (4 * i) target @ u32_to_be w @ drop (4 * i + 4) target"
  have c: "copy_at target (4 * i) (u32_to_be w) = Some ?t"
    using Cons.prems by (simp add: copy_at_def)
  have "take (4 * Suc i) ?t = take (4 * i) target @ u32_to_be w" using Cons.prems by simp
  moreover have "drop (4 * (Suc i + length ws)) ?t = drop (4 * (i + length (w # ws))) target"
    using Cons.prems by (simp add: algebra_simps)
  moreover have "4 * (Suc i + length ws) \<le> length ?t" using Cons.prems by simp
  ultimately show ?case using Cons.IH [of "Suc i" ?t] c
    by (simp only: sha256_store.simps bind.bind_lunit) (simp add: words_be_def)
qed (simp add: words_be_def)

lemma sha256_pad_length: "length (sha256_pad l) = pad_zeros l + 9"
  by (simp add: sha256_pad_def)

lemma pad_zeros_mod: "(l + 1 + pad_zeros l) mod 64 = 56"
proof -
  have "(l + 1 + pad_zeros l) mod 64 = (l mod 64 + 1 + (119 - l mod 64)) mod 64"
    unfolding pad_zeros_def by (metis mod_add_cong mod_add_eq mod_mod_trivial)
  also have "l mod 64 + 1 + (119 - l mod 64) = 120"
    using mod_less_divisor [of 64 l] by linarith
  finally show ?thesis by simp
qed

lemma padded_blocks: "(l + length (sha256_pad l)) mod 64 = 0"
proof -
  have "(l + length (sha256_pad l)) mod 64 = ((l + 1 + pad_zeros l) mod 64 + 8) mod 64"
    by (simp add: sha256_pad_length mod_simps ac_simps)
  also have "\<dots> = 0" unfolding pad_zeros_mod by simp
  finally show ?thesis .
qed

end
