(* ===== verification/Sha256_Constants.thy ===== *)
theory Sha256_Constants
  imports Sha256
begin

text \<open>
  The constants of the software SHA-256 (\<^verbatim>\<open>embedded-cal-software-demo/src/hash_plumbing.rs\<close>) against
  their definition in FIPS 180-4, by evaluation in the kernel.
\<close>

definition is_prime :: "nat \<Rightarrow> bool" where
  "is_prime n \<longleftrightarrow> 1 < n \<and> list_all (\<lambda>d. n mod d \<noteq> 0 \<or> d = n) [2..<18]"

text \<open>The first 64 primes are those below 312.\<close>

definition primes64 :: "nat list" where
  "primes64 = filter is_prime [2..<312]"

text \<open>Integer cube and square roots, for radicands below 512 and 64.\<close>

definition icbrt :: "nat \<Rightarrow> nat" where
  "icbrt p = length (filter (\<lambda>r. r ^ 3 \<le> p) [1..<8])"

definition isqrt :: "nat \<Rightarrow> nat" where
  "isqrt p = length (filter (\<lambda>r. r ^ 2 \<le> p) [1..<8])"

lemma upt_1_8: "[1..<8] = [1,2,3,4,5,6,7::nat]" by code_simp

lemma primes64_eq: "primes64 = [2, 3, 5, 7, 11, 13, 17, 19, 23, 29, 31, 37, 41, 43, 47, 53, 59, 61, 67, 71, 73, 79, 83, 89, 97, 101, 103, 107,
  109, 113, 127, 131, 137, 139, 149, 151, 157, 163, 167, 173, 179, 181, 191, 193, 197, 199, 211, 223, 227, 229, 233, 239, 241, 251, 257,
  263, 269, 271, 277, 281, 283, 293, 307, 311]"
  by code_simp

lemma icbrt_eq: "icbrt p = length (filter (\<lambda>r. r ^ 3 \<le> p) [1,2,3,4,5,6,7])" by (simp only: icbrt_def upt_1_8)

lemma isqrt_eq: "isqrt p = length (filter (\<lambda>r. r ^ 2 \<le> p) [1,2,3,4,5,6,7])" by (simp only: isqrt_def upt_1_8)

text \<open>The round constants are what FIPS 180-4 says: each is the first 32 bits of the fractional part of
  the cube root of the corresponding one of the first 64 primes.\<close>

theorem round_constants:
  "list_all2 (\<lambda>p v. (icbrt p * 2 ^ 32 + unat v) ^ 3 \<le> p * 2 ^ 96 \<and> p * 2 ^ 96 < (icbrt p * 2 ^ 32 + unat v + 1) ^ 3) 
     primes64 sha256_k"
  unfolding primes64_eq sha256_k_def by (simp add: icbrt_eq)

text \<open>The initial hash value is what FIPS 180-4 says: the first 32 bits of the fractional parts of the
  square roots of the first eight primes.\<close>

theorem initial_value:
  "list_all2 (\<lambda>p v. (isqrt p * 2 ^ 32 + unat v) ^ 2 \<le> p * 2 ^ 64 \<and> p * 2 ^ 64 < (isqrt p * 2 ^ 32 + unat v + 1) ^ 2) 
     (take 8 primes64) sha256_init"
  unfolding primes64_eq sha256_init_def by (simp add: isqrt_eq)

end
