(* ===== verification/Extender_Hash.thy ===== *)
theory Extender_Hash
  imports Sha256
begin

text \<open>
  The hash side of \<^verbatim>\<open>embedded-cal-software-demo\<close>: the SHA-2 plumbing of \<open>Extender\<close>
  (\<^verbatim>\<open>hash_plumbing.rs\<close>), and the buffering and padding layer it puts on top of any plumbing
  (\<^verbatim>\<open>hash.rs\<close>). The plumbing contract is the locale \<open>sha2short_contract\<close>; inside it the buffering
  layer is proved to hash every chunking of a message like the message itself. The software
  plumbing is an instance of it, and the hardware back-ends give others.
\<close>

section \<open>Configuration\<close>

record extender_config =
  IMPLEMENT_SHA2SHORT :: bool
  IMPLEMENT_SHA2SHORT_PLUMBING :: bool

text \<open>The parts of \<open>EC::Base\<close> that the hash side uses. The device state of the extender is that of
  its base (\<open>struct Extender(EC::Base)\<close>, so \<open>new\<close> and \<open>destruct\<close> are the identity).\<close>

record ('d, 'bs, 'balg, 'bst, 'bo) extender_base =
  base_sha2 :: "('d, 'bs) sha2short"
  base_hash :: "('d, 'balg, 'bst, 'bo) hash_provider"

section \<open>The SHA-2 plumbing of the extender\<close>

datatype 'bs plumbing_state = SoftwareSha2Short "u32 list" | PlumbingDirect 'bs

definition ext_s2_init :: "extender_config \<Rightarrow> ('d, 'bs) sha2short \<Rightarrow> sha2_variant \<Rightarrow> 'd
    \<Rightarrow> ('bs plumbing_state \<times> 'd) option" where
  "ext_s2_init EC B variant d =
     (if \<not> IMPLEMENT_SHA2SHORT_PLUMBING EC
      then do { (s, d) \<leftarrow> s2_init B variant d; Some (PlumbingDirect s, d) }
      else if variant \<noteq> Sha256 then None
      else Some (SoftwareSha2Short sha256_init, d))"

fun ext_s2_update :: "('d, 'bs) sha2short \<Rightarrow> 'bs plumbing_state \<Rightarrow> bytes \<Rightarrow> 'd
    \<Rightarrow> ('bs plumbing_state \<times> 'd) option" where
  "ext_s2_update B (PlumbingDirect s) data d =
     do { (s, d) \<leftarrow> s2_update B s data d; Some (PlumbingDirect s, d) }"
| "ext_s2_update B (SoftwareSha2Short s) data d =
     do { s \<leftarrow> sha256_update s data; Some (SoftwareSha2Short s, d) }"

fun ext_s2_finalize :: "('d, 'bs) sha2short \<Rightarrow> 'bs plumbing_state \<Rightarrow> bytes \<Rightarrow> bytes \<Rightarrow> 'd
    \<Rightarrow> (bytes \<times> 'd) option" where
  "ext_s2_finalize B (PlumbingDirect s) last_chunk target d = s2_finalize B s last_chunk target d"
| "ext_s2_finalize B (SoftwareSha2Short s) last_chunk target d =
     (if last_chunk \<noteq> [] then None
      else do { target \<leftarrow> sha256_store target 0 s; Some (target, d) })"

definition extender_sha2 :: "extender_config \<Rightarrow> ('d, 'bs) sha2short \<Rightarrow> ('d, 'bs plumbing_state) sha2short" where
  "extender_sha2 EC B =
     \<lparr> SUPPORTED = (if IMPLEMENT_SHA2SHORT_PLUMBING EC then True else SUPPORTED B),
       SEND_PADDING = (if IMPLEMENT_SHA2SHORT_PLUMBING EC then True else SEND_PADDING B),
       FIRST_CHUNK_SIZE = (if IMPLEMENT_SHA2SHORT_PLUMBING EC then 64 else FIRST_CHUNK_SIZE B),
       UPDATE_MULTICHUNK = (if IMPLEMENT_SHA2SHORT_PLUMBING EC then False else UPDATE_MULTICHUNK B),
       s2_init = ext_s2_init EC B,
       s2_update = ext_s2_update B,
       s2_finalize = ext_s2_finalize B \<rparr>"

section \<open>Buffering and padding\<close>

definition HASH_WRAPPER_MAX_BLOCKSIZE :: nat where
  "HASH_WRAPPER_MAX_BLOCKSIZE = 68"

text \<open>\<open>sha2_padding\<close>: writes the padding into the 256-byte array and returns it with its size.
  \<open>length_bytes_be\<close> are the 16 bytes of the \<open>u128\<close> bit length.\<close>

definition sha2_padding :: "nat \<Rightarrow> nat \<Rightarrow> nat \<Rightarrow> nat \<Rightarrow> bytes \<Rightarrow> (bytes \<times> nat) option" where
  "sha2_padding msg_len block_size length_offset length_bytes out = do {
     out \<leftarrow> copy_at out 0 [0x80];
     n1 \<leftarrow> usize_add msg_len 1;
     let rem = n1 mod block_size;
     let zero_pad = (if rem \<le> length_offset then length_offset - rem
                     else length_offset + (block_size - rem));
     out \<leftarrow> copy_at out 1 (replicate zero_pad 0);
     let bit_len = msg_len * 8;
     let len_bytes_be = be_bytes 16 bit_len;
     tail \<leftarrow> slice len_bytes_be (16 - length_bytes) 16;
     let start = 1 + zero_pad;
     out \<leftarrow> copy_at out start tail;
     Some (out, 1 + zero_pad + length_bytes)
   }"

definition sha256_padding :: "nat \<Rightarrow> bytes \<Rightarrow> (bytes \<times> nat) option" where
  "sha256_padding msg_len out = sha2_padding msg_len 64 56 8 out"

text \<open>The bytes that sit in the buffer after \<open>written\<close> bytes.\<close>

definition written_in_buffer :: "nat \<Rightarrow> nat \<Rightarrow> nat" where
  "written_in_buffer first written =
     (if written < first then written else (written - first) mod SHA2SHORT_BLOCK_SIZE)"

text \<open>The loop of \<open>update\<close>. It ends: every round but the last consumes data or empties the buffer.\<close>

function update_loop :: "('d, 's) sha2short \<Rightarrow> nat \<Rightarrow> bytes \<Rightarrow> 's \<Rightarrow> nat \<Rightarrow> bytes \<Rightarrow> 'd
    \<Rightarrow> ((nat \<times> bytes \<times> 's) \<times> 'd) option" where
  "update_loop T written buffer inst wib data d =
     (let buffer_max = (if written < FIRST_CHUNK_SIZE T then FIRST_CHUNK_SIZE T else SHA2SHORT_BLOCK_SIZE)
      in do {
        buffer_to_fill \<leftarrow> slice buffer wib buffer_max;
        let fill_bytes = (if length data > length buffer_to_fill then length buffer_to_fill else length data);
        buffer \<leftarrow> copy_at buffer wib (take fill_bytes data);
        let data = drop fill_bytes data;
        written \<leftarrow> usize_add written fill_bytes;
        let wib = wib + fill_bytes;
        if wib < buffer_max then Some ((written, buffer, inst), d)
        else do {
          chunk \<leftarrow> slice buffer 0 buffer_max;
          (inst, d) \<leftarrow> s2_update T inst chunk d;
          update_loop T written buffer inst 0 data d
        }
      })"
  by pat_completeness auto
termination
  by (relation "measures [\<lambda>(T, written, buffer, inst, wib, data, d). length data,
      \<lambda>(T, written, buffer, inst, wib, data, d). wib]")
    (auto simp: slice_def SHA2SHORT_BLOCK_SIZE_def split: if_splits)

declare update_loop.simps [simp del]

text \<open>The variant \<open>HashState::Sha256 { written, buffer, instance }\<close> as a triple, over the
  plumbing \<open>T\<close>.\<close>

type_synonym 's sha_state = "nat \<times> bytes \<times> 's"

definition sha_init :: "('d, 's) sha2short \<Rightarrow> 'd \<Rightarrow> ('s sha_state \<times> 'd) option" where
  "sha_init T d = do {
     (inst, d) \<leftarrow> s2_init T Sha256 d;
     Some ((0, replicate HASH_WRAPPER_MAX_BLOCKSIZE 0, inst), d)
   }"

fun sha_update :: "('d, 's) sha2short \<Rightarrow> 's sha_state \<Rightarrow> bytes \<Rightarrow> 'd \<Rightarrow> ('s sha_state \<times> 'd) option" where
  "sha_update T (written, buffer, inst) data d =
     update_loop T written buffer inst (written_in_buffer (FIRST_CHUNK_SIZE T) written) data d"

fun sha_finalize :: "('d, 's) sha2short \<Rightarrow> 's sha_state \<Rightarrow> 'd \<Rightarrow> (bytes \<times> 'd) option" where
  "sha_finalize T (written, buffer, inst) d = do {
     let wib = written_in_buffer (FIRST_CHUNK_SIZE T) written;
     (inst, buffer, wib, d) \<leftarrow>
       (if SEND_PADDING T then do {
          (padding, padding_size) \<leftarrow> sha256_padding written (replicate 256 0);
          pad \<leftarrow> slice padding 0 padding_size;
          ((_, buffer, inst), d) \<leftarrow> sha_update T (written, buffer, inst) pad d;
          Some (inst, buffer, 0, d)
        } else Some (inst, buffer, wib, d));
     last_chunk \<leftarrow> slice buffer 0 wib;
     s2_finalize T inst last_chunk (replicate 32 0) d
   }"

section \<open>The hash provider of the extender\<close>

datatype 'balg ext_hash_algorithm = ExtSha256 | ExtDirect 'balg

datatype ('bst, 's) ext_hash_state = StateDirect 'bst | StateSha256 "'s sha_state"

datatype 'bo ext_hash_result = ResultSha256 bytes | ResultDirect 'bo

definition ext_hash_init :: "extender_config \<Rightarrow> ('d, 'bs, 'balg, 'bst, 'bo) extender_base \<Rightarrow> 'balg ext_hash_algorithm
    \<Rightarrow> 'd \<Rightarrow> (('bst, 'bs plumbing_state) ext_hash_state \<times> 'd) option" where
  "ext_hash_init EC B algorithm d =
     (case algorithm of
        ExtSha256 \<Rightarrow> do { (s, d) \<leftarrow> sha_init (extender_sha2 EC (base_sha2 B)) d; Some (StateSha256 s, d) }
      | ExtDirect alg \<Rightarrow> do { (s, d) \<leftarrow> hp_init (base_hash B) alg d; Some (StateDirect s, d) })"

definition ext_hash_update :: "extender_config \<Rightarrow> ('d, 'bs, 'balg, 'bst, 'bo) extender_base
    \<Rightarrow> ('bst, 'bs plumbing_state) ext_hash_state \<Rightarrow> bytes \<Rightarrow> 'd
    \<Rightarrow> (('bst, 'bs plumbing_state) ext_hash_state \<times> 'd) option" where
  "ext_hash_update EC B inst data d =
     (case inst of
        StateDirect i \<Rightarrow> do { (i, d) \<leftarrow> hp_update (base_hash B) i data d; Some (StateDirect i, d) }
      | StateSha256 s \<Rightarrow> do {
          (s, d) \<leftarrow> sha_update (extender_sha2 EC (base_sha2 B)) s data d;
          Some (StateSha256 s, d) })"

definition ext_hash_finalize :: "extender_config \<Rightarrow> ('d, 'bs, 'balg, 'bst, 'bo) extender_base
    \<Rightarrow> ('bst, 'bs plumbing_state) ext_hash_state \<Rightarrow> 'd \<Rightarrow> ('bo ext_hash_result \<times> 'd) option" where
  "ext_hash_finalize EC B inst d =
     (case inst of
        StateDirect u \<Rightarrow> do { (r, d) \<leftarrow> hp_finalize (base_hash B) u d; Some (ResultDirect r, d) }
      | StateSha256 s \<Rightarrow> do {
          (out, d) \<leftarrow> sha_finalize (extender_sha2 EC (base_sha2 B)) s d;
          Some (ResultSha256 out, d) })"

fun ext_hash_as_ref :: "('bo \<Rightarrow> bytes) \<Rightarrow> 'bo ext_hash_result \<Rightarrow> bytes" where
  "ext_hash_as_ref f (ResultSha256 data) = data"
| "ext_hash_as_ref f (ResultDirect result) = f result"

fun ext_hash_len :: "('balg \<Rightarrow> nat) \<Rightarrow> 'balg ext_hash_algorithm \<Rightarrow> nat" where
  "ext_hash_len f ExtSha256 = 32"
| "ext_hash_len f (ExtDirect a) = f a"

text \<open>The hand-written \<open>PartialEq\<close>, over the equality of the base's algorithms.\<close>

fun ext_hash_algorithm_eq :: "('balg \<Rightarrow> 'balg \<Rightarrow> bool) \<Rightarrow> 'balg ext_hash_algorithm \<Rightarrow> 'balg ext_hash_algorithm \<Rightarrow> bool" where
  "ext_hash_algorithm_eq eq (ExtDirect l0) (ExtDirect r0) = eq l0 r0"
| "ext_hash_algorithm_eq eq ExtSha256 ExtSha256 = True"
| "ext_hash_algorithm_eq eq _ _ = False"

text \<open>The constructors. The constant assertion in \<open>from_cose_number\<close> is a build failure, kept as the
  predicate \<open>config_builds\<close>.\<close>

definition config_builds :: "extender_config \<Rightarrow> ('d, 'bs, 'balg, 'bst, 'bo) extender_base \<Rightarrow> bool" where
  "config_builds EC B \<longleftrightarrow>
     (IMPLEMENT_SHA2SHORT EC \<longrightarrow> SUPPORTED (base_sha2 B) \<or> IMPLEMENT_SHA2SHORT_PLUMBING EC)"

definition ext_hash_from_cose_number :: "extender_config \<Rightarrow> ('d, 'bs, 'balg, 'bst, 'bo) extender_base \<Rightarrow> int
    \<Rightarrow> 'balg ext_hash_algorithm option" where
  "ext_hash_from_cose_number EC B number =
     (if number = - 16 \<and> IMPLEMENT_SHA2SHORT EC then Some ExtSha256
      else map_option ExtDirect (hash_from_cose_number (base_hash B) number))"

definition ext_hash_from_ni_id :: "extender_config \<Rightarrow> ('d, 'bs, 'balg, 'bst, 'bo) extender_base \<Rightarrow> u8
    \<Rightarrow> 'balg ext_hash_algorithm option" where
  "ext_hash_from_ni_id EC B number =
     (if number = 1 \<and> IMPLEMENT_SHA2SHORT EC then Some ExtSha256
      else map_option ExtDirect (hash_from_ni_id (base_hash B) number))"

definition ext_hash_from_ni_name :: "extender_config \<Rightarrow> ('d, 'bs, 'balg, 'bst, 'bo) extender_base \<Rightarrow> string
    \<Rightarrow> 'balg ext_hash_algorithm option" where
  "ext_hash_from_ni_name EC B name =
     (if name = ''sha-256'' \<and> IMPLEMENT_SHA2SHORT EC then Some ExtSha256
      else map_option ExtDirect (hash_from_ni_name (base_hash B) name))"

definition extender_hash :: "extender_config \<Rightarrow> ('d, 'bs, 'balg, 'bst, 'bo) extender_base
    \<Rightarrow> ('d, 'balg ext_hash_algorithm, ('bst, 'bs plumbing_state) ext_hash_state, 'bo ext_hash_result) hash_provider" where
  "extender_hash EC B =
     \<lparr> hash_len = ext_hash_len (hash_len (base_hash B)),
       hash_from_cose_number = ext_hash_from_cose_number EC B,
       hash_from_ni_id = ext_hash_from_ni_id EC B,
       hash_from_ni_name = ext_hash_from_ni_name EC B,
       hp_init = ext_hash_init EC B,
       hp_update = ext_hash_update EC B,
       hp_finalize = ext_hash_finalize EC B,
       hp_output = ext_hash_as_ref (hp_output (base_hash B)) \<rparr>"

section \<open>Padding\<close>

lemma sha2_zero_pad: "(let rem = (l + 1) mod 64 in if rem \<le> 56 then 56 - rem else 56 + (64 - rem)) = pad_zeros l"
proof -
  have "(l + 1) mod 64 = (if l mod 64 = 63 then 0 else l mod 64 + 1)" by (simp add: mod_Suc)
  moreover have "l mod 64 < 64" by simp
  moreover have "pad_zeros l = (if l mod 64 \<le> 55 then 55 - l mod 64 else 119 - l mod 64)"
    using mod_less_divisor [of 64 l] by (auto simp: pad_zeros_def le_mod_geq)
  ultimately show ?thesis by (auto simp: Let_def)
qed

lemma be_bytes_16_tail: "v < 2 ^ 64 \<Longrightarrow> take 8 (drop 8 (be_bytes 16 v)) = be_bytes 8 v"
proof -
  assume v: "v < 2 ^ 64"
  have "be_val (be_bytes 16 v) = be_val (take 8 (be_bytes 16 v)) * 256 ^ 8 + be_val (drop 8 (be_bytes 16 v))"
    by (subst append_take_drop_id [of 8 "be_bytes 16 v", symmetric], subst be_val_append) simp
  moreover have "be_val (drop 8 (be_bytes 16 v)) < 256 ^ 8"
    using be_val_less [of "drop 8 (be_bytes 16 v)"] by simp
  ultimately have "be_val (drop 8 (be_bytes 16 v)) = v mod 256 ^ 16 mod 256 ^ 8"
    unfolding be_val_be_bytes by (metis mod_less mod_mult_self3)
  also have "\<dots> = be_val (be_bytes 8 v)" using v by (simp add: be_val_be_bytes)
  finally have "drop 8 (be_bytes 16 v) = be_bytes 8 v" by (intro be_val_inj) simp_all
  then show ?thesis by simp
qed

lemma sha256_padding_val:
  assumes "l + 1 < usize_limit"
  shows "\<exists>out. sha256_padding l (replicate 256 0) = Some (out, length (sha256_pad l))
     \<and> slice out 0 (length (sha256_pad l)) = Some (sha256_pad l)"
proof -
  have z: "pad_zeros l < 64" by (simp add: pad_zeros_def)
  have "l * 8 < 2 ^ 64" using assms by (simp add: usize_limit_def)
  from be_bytes_16_tail [OF this]
  have t: "take 8 (drop 8 (be_bytes 16 (l * 8))) = be_bytes 8 (8 * l)"
    by (simp only: mult.commute [of 8 l])
  have p: "sha256_padding l (replicate 256 0)
    = Some (0x80 # replicate (pad_zeros l) 0 @ be_bytes 8 (8 * l) @ replicate (247 - pad_zeros l) 0, pad_zeros l + 9)"
    using assms z t sha2_zero_pad [of l]
    by (simp add: sha256_padding_def sha2_padding_def copy_at_def slice_def Let_def usize_add_def drop_Cons' take_Cons')
  show ?thesis
    by (rule exI, rule conjI, simp add: p sha256_pad_length, simp add: slice_def sha256_pad_def take_Cons')
qed

section \<open>The contract of a SHA-2 plumbing\<close>

text \<open>Which chunk lengths \<open>update\<close> must accept after \<open>sent\<close> bytes, and which rest \<open>finalize\<close> must
  accept after them.\<close>

definition chunk_ok :: "nat \<Rightarrow> nat \<Rightarrow> nat \<Rightarrow> bool" where
  "chunk_ok first sent n \<longleftrightarrow> (if sent < first then sent = 0 \<and> n = first else n = SHA2SHORT_BLOCK_SIZE)"

definition rest_ok :: "bool \<Rightarrow> nat \<Rightarrow> nat \<Rightarrow> nat \<Rightarrow> bool" where
  "rest_ok send_padding first sent n \<longleftrightarrow>
     (if send_padding then n = 0 \<and> first \<le> sent
      else n < (if sent < first then first else SHA2SHORT_BLOCK_SIZE))"

text \<open>\<open>ab s m\<close>: the state has absorbed \<open>m\<close>. \<open>raw\<close> is the digest of everything that was sent, which
  includes the padding when the plumbing wants it sent.\<close>

locale sha2short_contract =
  fixes T :: "('d, 's) sha2short"
    and dev :: "'d \<Rightarrow> bool"
    and ab :: "'s \<Rightarrow> bytes \<Rightarrow> bool"
    and raw :: "bytes \<Rightarrow> bytes"
  assumes first_fits: "FIRST_CHUNK_SIZE T \<le> HASH_WRAPPER_MAX_BLOCKSIZE"
    and padded_first: "SEND_PADDING T \<Longrightarrow> FIRST_CHUNK_SIZE T = 0 \<or> FIRST_CHUNK_SIZE T = SHA2SHORT_BLOCK_SIZE"
    and s2_init_law: "dev d \<Longrightarrow> \<exists>s d'. s2_init T Sha256 d = Some (s, d') \<and> dev d' \<and> ab s []"
    and s2_update_law: "dev d \<Longrightarrow> ab s m \<Longrightarrow> chunk_ok (FIRST_CHUNK_SIZE T) (length m) (length data) \<Longrightarrow>
      \<exists>s' d'. s2_update T s data d = Some (s', d') \<and> dev d' \<and> ab s' (m @ data)"
    and s2_finalize_law: "dev d \<Longrightarrow> ab s m \<Longrightarrow> rest_ok (SEND_PADDING T) (FIRST_CHUNK_SIZE T) (length m) (length rest) \<Longrightarrow>
      \<exists>d'. s2_finalize T s rest (replicate 32 0) d = Some (raw (m @ rest), d') \<and> dev d'"
    and raw_length: "length (raw m) = 32"

text \<open>The digest the buffering layer computes over such a plumbing.\<close>

definition plumbed_digest :: "('d, 's) sha2short \<Rightarrow> (bytes \<Rightarrow> bytes) \<Rightarrow> bytes \<Rightarrow> bytes" where
  "plumbed_digest T raw m = (if SEND_PADDING T then raw (m @ sha256_pad (length m)) else raw m)"

text \<open>The buffered state after the message \<open>m\<close>: what has not been sent is in the buffer.\<close>

definition buffered :: "('d, 's) sha2short \<Rightarrow> ('s \<Rightarrow> bytes \<Rightarrow> bool) \<Rightarrow> 's sha_state \<Rightarrow> bytes \<Rightarrow> bool" where
  "buffered T ab = (\<lambda>(written, buffer, inst) m.
     let r = written_in_buffer (FIRST_CHUNK_SIZE T) (length m) in
     written = length m \<and> length buffer = HASH_WRAPPER_MAX_BLOCKSIZE
     \<and> ab inst (take (length m - r) m) \<and> take r buffer = drop (length m - r) m)"

lemma written_in_buffer_le: "written_in_buffer f n \<le> n"
  by (auto simp: written_in_buffer_def intro: order_trans [OF mod_less_eq_dividend])

lemma written_in_buffer_less:
  "written_in_buffer f n < (if n < f then f else SHA2SHORT_BLOCK_SIZE)"
  by (simp add: written_in_buffer_def SHA2SHORT_BLOCK_SIZE_def)

lemma pad_zeros_less: "pad_zeros l \<le> 63"
  using mod_less_divisor [of 64 "119 - l mod 64"] by (simp add: pad_zeros_def)

lemma sent_bound: "f \<le> n \<Longrightarrow> f \<le> n - written_in_buffer f n"
proof -
  assume "f \<le> n"
  moreover have "(n - f) mod SHA2SHORT_BLOCK_SIZE \<le> n - f" by (rule mod_less_eq_dividend)
  ultimately have "(n - f) mod SHA2SHORT_BLOCK_SIZE + f \<le> n" by linarith
  then show ?thesis using \<open>f \<le> n\<close> by (simp add: written_in_buffer_def)
qed

lemma mod_add_less: "a mod b + k < b \<Longrightarrow> (a + k) mod b = a mod b + (k :: nat)"
  by (metis mod_add_left_eq mod_less)

lemma mod_add_full: "a mod b + k = b \<Longrightarrow> (a + k) mod b = (0 :: nat)"
  by (metis mod_add_left_eq mod_self)

text \<open>Adding bytes: either they still fit, or they complete the chunk.\<close>

lemma written_in_buffer_add:
  assumes "written_in_buffer f n + k < (if n < f then f else SHA2SHORT_BLOCK_SIZE)"
  shows "written_in_buffer f (n + k) = written_in_buffer f n + k"
proof (cases "n < f")
  case True
  with assms show ?thesis by (simp add: written_in_buffer_def)
next
  case False
  then have "n + k - f = (n - f) + k" by simp
  moreover have "((n - f) + k) mod 64 = (n - f) mod 64 + k"
    using assms False by (intro mod_add_less) (simp add: written_in_buffer_def SHA2SHORT_BLOCK_SIZE_def)
  ultimately show ?thesis using False by (simp add: written_in_buffer_def SHA2SHORT_BLOCK_SIZE_def)
qed

lemma written_in_buffer_full:
  assumes "written_in_buffer f n + k = (if n < f then f else SHA2SHORT_BLOCK_SIZE)"
  shows "written_in_buffer f (n + k) = 0" "\<not> n + k < f"
proof -
  show g: "\<not> n + k < f" using assms by (auto simp: written_in_buffer_def split: if_splits)
  show "written_in_buffer f (n + k) = 0"
  proof (cases "n < f")
    case True
    with assms show ?thesis by (simp add: written_in_buffer_def)
  next
    case False
    then have "n + k - f = (n - f) + k" by simp
    moreover have "((n - f) + k) mod 64 = 0"
      using assms False by (intro mod_add_full) (simp add: written_in_buffer_def SHA2SHORT_BLOCK_SIZE_def)
    ultimately have "(n + k - f) mod 64 = 0" by (simp only:)
    with g show ?thesis by (simp only: written_in_buffer_def SHA2SHORT_BLOCK_SIZE_def if_False)
  qed
qed

text \<open>One round of the loop when nothing panics.\<close>

lemma update_loop_eval:
  assumes "bm = (if written < FIRST_CHUNK_SIZE T then FIRST_CHUNK_SIZE T else SHA2SHORT_BLOCK_SIZE)"
    and "wib \<le> bm" "bm \<le> length buffer" "written + min (length data) (bm - wib) < usize_limit"
  defines "k \<equiv> min (length data) (bm - wib)"
  defines "b \<equiv> take wib buffer @ take k data @ drop (wib + k) buffer"
  shows "update_loop T written buffer inst wib data d =
    (if wib + k < bm then Some ((written + k, b, inst), d)
     else do { (inst, d) \<leftarrow> s2_update T inst (take bm b) d;
               update_loop T (written + k) b inst 0 (drop k data) d })"
proof -
  have sl: "slice buffer wib bm = Some (take (bm - wib) (drop wib buffer))"
    using assms(2,3) by (simp add: slice_def)
  have k: "(if bm - wib < length data then bm - wib else length data) = k"
    by (simp add: k_def min_def)
  have lk: "length (take (bm - wib) (drop wib buffer)) = bm - wib" using assms(3) by simp
  have le: "wib + k \<le> bm" "k \<le> length data" using assms(2) by (simp_all add: k_def)
  have cp: "copy_at buffer wib (take k data) = Some b"
    using le assms(3) by (simp add: copy_at_def b_def)
  have us: "usize_add written k = Some (written + k)" using assms(4) by (simp add: k_def usize_add_def)
  have sb: "slice b 0 bm = Some (take bm b)"
    using le assms(3) by (simp add: slice_def b_def)
  show ?thesis
    by (subst update_loop.simps) (simp only: assms(1) [symmetric] Let_def sl lk k cp us sb bind.bind_lunit)
qed

context sha2short_contract
begin

lemma update_loop_law:
  assumes "dev d" "buffered T ab (written, buffer, inst) m"
    and "length m + length data < usize_limit"
  shows "\<exists>t d'. update_loop T written buffer inst (written_in_buffer (FIRST_CHUNK_SIZE T) written) data d = Some (t, d')
      \<and> dev d' \<and> buffered T ab t (m @ data)"
  using assms
proof (induction "length data" arbitrary: d written buffer inst m data rule: less_induct)
  case less
  define f where "f = FIRST_CHUNK_SIZE T"
  define r where "r = written_in_buffer f (length m)"
  define bm where "bm = (if length m < f then f else SHA2SHORT_BLOCK_SIZE)"
  define k where "k = min (length data) (bm - r)"
  define b where "b = take r buffer @ take k data @ drop (r + k) buffer"
  from less.prems(2) have w: "written = length m" and lb: "length buffer = HASH_WRAPPER_MAX_BLOCKSIZE"
    and ab: "ab inst (take (length m - r) m)" and rest: "take r buffer = drop (length m - r) m"
    by (auto simp: buffered_def Let_def r_def f_def)
  have rb: "r < bm" unfolding r_def bm_def by (rule written_in_buffer_less)
  have bm: "bm \<le> length buffer" using first_fits lb
    by (simp add: bm_def f_def SHA2SHORT_BLOCK_SIZE_def HASH_WRAPPER_MAX_BLOCKSIZE_def)
  have rm: "r \<le> length m" unfolding r_def by (rule written_in_buffer_le)
  have kb: "r + k \<le> bm" and kd: "k \<le> length data" using rb by (auto simp: k_def)
  have lb': "length b = HASH_WRAPPER_MAX_BLOCKSIZE" using lb kb kd bm by (simp add: b_def)
  have us: "length m + k < usize_limit" using less.prems(3) kd by simp
  have step: "update_loop T written buffer inst (written_in_buffer (FIRST_CHUNK_SIZE T) written) data d =
    (if r + k < bm then Some ((length m + k, b, inst), d)
     else do { (inst, d) \<leftarrow> s2_update T inst (take bm b) d;
               update_loop T (length m + k) b inst 0 (drop k data) d })"
    unfolding w f_def [symmetric] r_def [symmetric] b_def k_def
    by (rule update_loop_eval) (use rb bm us in \<open>simp_all add: bm_def f_def k_def\<close>)
  show ?case
  proof (cases "r + k < bm")
    case True
    then have k: "k = length data" by (simp add: k_def min_def split: if_splits)
    have r': "written_in_buffer f (length m + length data) = r + length data"
      using written_in_buffer_add [of f "length m" "length data"] True k by (simp add: r_def bm_def)
    have "take (r + length data) b = take r buffer @ data"
      using k lb rb bm by (simp add: b_def)
    then have "buffered T ab (length m + length data, b, inst) (m @ data)"
      using r' rm ab rest lb' by (simp add: buffered_def f_def [symmetric] Let_def)
    with step True k less.prems(1) show ?thesis by simp
  next
    case False
    then have k: "k = bm - r" using kb rb by simp
    have full: "r + k = bm" using kb False by simp
    let ?c = "drop (length m - r) m @ take k data"
    have ck: "take bm b = ?c"
      using bm rest kd lb full rm k [symmetric] by (simp add: b_def)
    have "length ?c = bm" using rm kd full by simp
    then have "chunk_ok f (length (take (length m - r) m)) (length ?c)"
      using sent_bound [of f "length m"] rm
      by (cases "length m < f") (simp_all add: chunk_ok_def bm_def r_def, simp add: written_in_buffer_def)
    from s2_update_law [OF less.prems(1) ab this [unfolded f_def]]
    obtain inst' d1 where u: "s2_update T inst ?c d = Some (inst', d1)" "dev d1"
      and ab': "ab inst' (m @ take k data)"
      by (metis append.assoc append_take_drop_id)
    have w0: "written_in_buffer f (length m + k) = 0"
      by (rule written_in_buffer_full) (use full in \<open>simp add: r_def bm_def\<close>)
    have bu: "buffered T ab (length m + k, b, inst') (m @ take k data)"
      using w0 ab' lb' kd by (simp add: buffered_def f_def [symmetric] Let_def)
    have lt: "length (drop k data) < length data" using k kd rb by simp
    have "length (m @ take k data) + length (drop k data) < usize_limit"
      using less.prems(3) kd by simp
    from less.hyps [OF lt u(2) bu this] w0
    obtain t d' where "update_loop T (length m + k) b inst' 0 (drop k data) d1 = Some (t, d')"
      "dev d'" "buffered T ab t (m @ data)" by (auto simp: f_def)
    with step False ck u show ?thesis by simp
  qed
qed

text \<open>The three operations on the buffered state.\<close>

lemma sha_init_law:
  assumes "dev d"
  shows "\<exists>t d'. sha_init T d = Some (t, d') \<and> dev d' \<and> buffered T ab t []"
proof -
  obtain s d' where "s2_init T Sha256 d = Some (s, d')" "dev d'" "ab s []"
    using s2_init_law [OF assms] by blast
  then show ?thesis by (simp add: sha_init_def buffered_def Let_def written_in_buffer_def)
qed

lemma sha_update_law:
  assumes "dev d" "buffered T ab t m" "length m + length data < usize_limit"
  shows "\<exists>t' d'. sha_update T t data d = Some (t', d') \<and> dev d' \<and> buffered T ab t' (m @ data)"
  using update_loop_law assms by (cases t) auto

lemma sha_finalize_law:
  assumes "dev d" "buffered T ab t m" "length m + 72 < usize_limit"
  shows "\<exists>d'. sha_finalize T t d = Some (plumbed_digest T raw m, d') \<and> dev d'"
proof -
  obtain written buffer inst where t: "t = (written, buffer, inst)" by (cases t)
  from assms(2) have w: "written = length m" and lb: "length buffer = HASH_WRAPPER_MAX_BLOCKSIZE"
    by (simp_all add: t buffered_def Let_def)
  show ?thesis
  proof (cases "SEND_PADDING T")
    case False
    define r where "r = written_in_buffer (FIRST_CHUNK_SIZE T) (length m)"
    have ab: "ab inst (take (length m - r) m)" and rest: "take r buffer = drop (length m - r) m"
      using assms(2) by (simp_all add: t buffered_def Let_def r_def)
    have rl: "r \<le> length buffer" "r \<le> length m" using first_fits lb written_in_buffer_le
      written_in_buffer_less [of "FIRST_CHUNK_SIZE T" "length m"]
      by (auto simp: r_def SHA2SHORT_BLOCK_SIZE_def HASH_WRAPPER_MAX_BLOCKSIZE_def split: if_splits)
    have "rest_ok (SEND_PADDING T) (FIRST_CHUNK_SIZE T) (length (take (length m - r) m)) (length (drop (length m - r) m))"
    proof (cases "length m < FIRST_CHUNK_SIZE T")
      case True
      with False rl show ?thesis by (simp add: rest_ok_def r_def written_in_buffer_def)
    next
      case g: False
      have "FIRST_CHUNK_SIZE T \<le> length m - r" "r < SHA2SHORT_BLOCK_SIZE"
        using g sent_bound [of "FIRST_CHUNK_SIZE T" "length m"]
        by (simp_all add: r_def written_in_buffer_def SHA2SHORT_BLOCK_SIZE_def)
      with g False rl show ?thesis by (simp add: rest_ok_def)
    qed
    from s2_finalize_law [OF assms(1) ab this]
    obtain d' where "s2_finalize T inst (drop (length m - r) m) (replicate 32 0) d = Some (raw m, d')" "dev d'"
      by auto
    with False rest rl show ?thesis
      by (simp add: t w r_def [symmetric] slice_def plumbed_digest_def)
  next
    case True
    let ?p = "sha256_pad (length m)"
    have lp: "length ?p \<le> 72" by (simp add: sha256_pad_length pad_zeros_less)
    have l1: "length m + 1 < usize_limit" using assms(3) by simp
    obtain pa where pa: "sha256_padding (length m) (replicate 256 0) = Some (pa, length ?p)"
      "slice pa 0 (length ?p) = Some ?p" using sha256_padding_val [OF l1] by blast
    have "length m + length ?p < usize_limit" using lp assms(3) by simp
    from sha_update_law [OF assms(1,2) this]
    obtain w' b' i' d1 where u: "sha_update T t ?p d = Some ((w', b', i'), d1)" "dev d1"
      "buffered T ab (w', b', i') (m @ ?p)" by (metis prod_cases3)
    have al: "(length m + length ?p) mod 64 = 0" by (rule padded_blocks)
    have fl: "FIRST_CHUNK_SIZE T \<le> length m + length ?p" "written_in_buffer (FIRST_CHUNK_SIZE T) (length m + length ?p) = 0"
    proof -
      have "64 \<le> length m + length ?p"
        using al by (metis add_gr_0 dvd_imp_le length_greater_0_conv list.distinct(1) mod_0_imp_dvd sha256_pad_def)
      with padded_first [OF True]
      show "FIRST_CHUNK_SIZE T \<le> length m + length ?p" "written_in_buffer (FIRST_CHUNK_SIZE T) (length m + length ?p) = 0"
        using al by (auto simp: SHA2SHORT_BLOCK_SIZE_def written_in_buffer_def le_mod_geq)
    qed
    then have "ab i' (m @ ?p)" using u(3) by (simp add: buffered_def)
    moreover have "rest_ok (SEND_PADDING T) (FIRST_CHUNK_SIZE T) (length (m @ ?p)) (length ([] :: bytes))"
      using True fl by (simp add: rest_ok_def)
    ultimately obtain d2 where "s2_finalize T i' [] (replicate 32 0) d1 = Some (raw (m @ ?p), d2)" "dev d2"
      using s2_finalize_law [OF u(2)] by fastforce
    with True pa u show ?thesis
      by (simp add: t w slice_def plumbed_digest_def)
  qed
qed

end

section \<open>The extender's hash over any plumbing that keeps the contract\<close>

text \<open>\<open>ext_state\<close> lifts the buffered state to \<open>HashState\<close>.\<close>

definition ext_state :: "('d, 's) sha2short \<Rightarrow> ('s \<Rightarrow> bytes \<Rightarrow> bool) \<Rightarrow> ('bst, 's) ext_hash_state \<Rightarrow> bytes \<Rightarrow> bool" where
  "ext_state T ab st m \<longleftrightarrow>
     (case st of StateSha256 t \<Rightarrow> buffered T ab t m \<and> length m + 72 < usize_limit | StateDirect _ \<Rightarrow> False)"

text \<open>Messages up to here are hashed without the byte counter of the state overflowing.\<close>

definition max_message :: nat where
  "max_message = usize_limit - 73"

lemma max_message_less: "n \<le> max_message \<longleftrightarrow> n + 72 < usize_limit"
  by (auto simp: max_message_def usize_limit_def)

lemma extender_hash_contract:
  fixes B :: "('d, 'bs, 'balg, 'bst, 'bo) extender_base"
  assumes "sha2short_contract (extender_sha2 EC (base_sha2 B)) dev ab raw"
  shows "hash_contract (extender_hash EC B) ExtSha256 dev (ext_state (extender_sha2 EC (base_sha2 B)) ab)
    (plumbed_digest (extender_sha2 EC (base_sha2 B)) raw) max_message"
proof
  let ?T = "extender_sha2 EC (base_sha2 B)"
  fix d :: 'd and st :: "('bst, 'bs plumbing_state) ext_hash_state" and m data :: bytes
  note init = sha2short_contract.sha_init_law [OF assms]
  note upd = sha2short_contract.sha_update_law [OF assms]
  note fin = sha2short_contract.sha_finalize_law [OF assms]
  assume d: "dev d"
  show "\<exists>s d'. hp_init (extender_hash EC B) ExtSha256 d = Some (s, d') \<and> dev d' \<and> ext_state ?T ab s []"
    using init [OF d] by (auto simp: extender_hash_def ext_hash_init_def ext_state_def usize_limit_def)
  assume st: "ext_state ?T ab st m"
  then obtain t where t: "st = StateSha256 t" "buffered ?T ab t m" "length m + 72 < usize_limit"
    by (cases st) (auto simp: ext_state_def)
  show "\<exists>o' d'. hp_finalize (extender_hash EC B) st d = Some (o', d') \<and> dev d'
      \<and> hp_output (extender_hash EC B) o' = plumbed_digest ?T raw m"
    using fin [OF d t(2,3)] by (auto simp: t(1) extender_hash_def ext_hash_finalize_def)
  assume "length m + length data \<le> max_message"
  then have l: "length m + length data + 72 < usize_limit" by (simp add: max_message_less)
  then have "length m + length data < usize_limit" by simp
  from upd [OF d t(2) this] l
  show "\<exists>s' d'. hp_update (extender_hash EC B) st data d = Some (s', d') \<and> dev d' \<and> ext_state ?T ab s' (m @ data)"
    by (auto simp: t(1) extender_hash_def ext_hash_update_def ext_state_def)
next
  fix m
  show "length (plumbed_digest (extender_sha2 EC (base_sha2 B)) raw m) = hash_len (extender_hash EC B) ExtSha256"
    using sha2short_contract.raw_length [OF assms] by (simp add: plumbed_digest_def extender_hash_def)
qed

section \<open>The software plumbing keeps the contract\<close>

definition software_config :: extender_config where
  "software_config = \<lparr> IMPLEMENT_SHA2SHORT = True, IMPLEMENT_SHA2SHORT_PLUMBING = True \<rparr>"

definition sw_absorbed :: "'bs plumbing_state \<Rightarrow> bytes \<Rightarrow> bool" where
  "sw_absorbed s m \<longleftrightarrow> length m mod 64 = 0 \<and> s = SoftwareSha2Short (sha256_blocks m)"

definition sw_raw :: "bytes \<Rightarrow> bytes" where
  "sw_raw m = words_be (sha256_blocks m)"

interpretation sw: sha2short_contract "extender_sha2 software_config B" "\<lambda>d. d = d0" sw_absorbed sw_raw
  for B :: "('d, 'bs) sha2short" and d0
proof
  fix d :: 'd and s :: "'bs plumbing_state" and m data rest :: bytes
  let ?T = "extender_sha2 software_config B"
  show "FIRST_CHUNK_SIZE ?T \<le> HASH_WRAPPER_MAX_BLOCKSIZE"
    "FIRST_CHUNK_SIZE ?T = 0 \<or> FIRST_CHUNK_SIZE ?T = SHA2SHORT_BLOCK_SIZE"
    by (simp_all add: extender_sha2_def software_config_def HASH_WRAPPER_MAX_BLOCKSIZE_def SHA2SHORT_BLOCK_SIZE_def)
  assume d: "d = d0"
  show "\<exists>s d'. s2_init ?T Sha256 d = Some (s, d') \<and> d' = d0 \<and> sw_absorbed s []"
    by (simp add: extender_sha2_def software_config_def ext_s2_init_def sw_absorbed_def d)
  assume s: "sw_absorbed s m"
  show "\<exists>s' d'. s2_update ?T s data d = Some (s', d') \<and> d' = d0 \<and> sw_absorbed s' (m @ data)"
    if "chunk_ok (FIRST_CHUNK_SIZE ?T) (length m) (length data)"
  proof -
    have l: "length data = 64"
      using that by (auto simp: chunk_ok_def extender_sha2_def software_config_def SHA2SHORT_BLOCK_SIZE_def split: if_splits)
    then have "(length m + length data) mod 64 = 0" using s by (simp add: sw_absorbed_def)
    then show ?thesis using s l
      by (simp add: extender_sha2_def sw_absorbed_def sha256_update_eq sha256_blocks_snoc d)
  qed
  show "\<exists>d'. s2_finalize ?T s rest (replicate 32 0) d = Some (sw_raw (m @ rest), d') \<and> d' = d0"
    if "rest_ok (SEND_PADDING ?T) (FIRST_CHUNK_SIZE ?T) (length m) (length rest)"
  proof -
    have "rest = []" using that by (simp add: rest_ok_def extender_sha2_def software_config_def)
    with s show ?thesis
      by (simp add: extender_sha2_def sw_absorbed_def sw_raw_def sha256_store_eq d)
  qed
next
  fix m
  show "length (sw_raw m) = 32" by (simp add: sw_raw_def)
qed

lemma sw_digest: "plumbed_digest (extender_sha2 software_config B) sw_raw m = sha256 m"
  by (simp add: plumbed_digest_def extender_sha2_def software_config_def sw_raw_def sha256_def)

text \<open>So the extender with the software plumbing is a SHA-256 provider, over any base.\<close>

interpretation sw_hash: hash_contract "extender_hash software_config B" ExtSha256 "\<lambda>d. d = d0"
    "ext_state (extender_sha2 software_config (base_sha2 B)) sw_absorbed" sha256 max_message
  for B :: "('d, 'bs, 'balg, 'bst, 'bo) extender_base" and d0
proof -
  have "plumbed_digest (extender_sha2 software_config (base_sha2 B)) sw_raw = sha256"
    by (rule ext) (rule sw_digest)
  with extender_hash_contract [OF sw.sha2short_contract_axioms, of B d0]
  show "hash_contract (extender_hash software_config B) ExtSha256 (\<lambda>d. d = d0)
    (ext_state (extender_sha2 software_config (base_sha2 B)) sw_absorbed) sha256 max_message" by simp
qed

end
