(* ===== verification/Extender_Hmac.thy ===== *)
theory Extender_Hmac
  imports Extender_Hash Cal_Hkdf
begin

text \<open>
  The HMAC of \<^verbatim>\<open>embedded-cal-software-demo\<close> (\<^verbatim>\<open>hmac.rs\<close>): a two-pass HMAC over the extender's own
  SHA-256. It keeps the HMAC contract over every plumbing that keeps the plumbing contract, with
  RFC 2104 as its specification.
\<close>

section \<open>The code\<close>

datatype ext_hmac_algorithm = HmacSha256

datatype 'hs ext_hmac_key = KeyHmacSha256 (key_inner: 'hs) (key_outer_key: bytes)

datatype 'hs ext_hmac_state = StateHmacSha256 (state_inner: 'hs) (state_outer_key: bytes)

datatype ext_hmac_result = ResultHmacSha256 bytes

fun ext_hmac_as_ref :: "ext_hmac_result \<Rightarrow> bytes" where
  "ext_hmac_as_ref (ResultHmacSha256 data) = data"

fun ext_hmac_len :: "ext_hmac_algorithm \<Rightarrow> nat" where
  "ext_hmac_len HmacSha256 = 32"

definition ext_hmac_from_cose_number :: "int \<Rightarrow> ext_hmac_algorithm option" where
  "ext_hmac_from_cose_number number = (if number = 5 then Some HmacSha256 else None)"

text \<open>\<open>H\<close> is the extender's own hash provider, called as \<open>HashProvider::...(self, ...)\<close>.\<close>

type_synonym ('d, 'bs, 'balg, 'bst, 'bo) ext_hash_dict =
  "('d, 'balg ext_hash_algorithm, ('bst, 'bs plumbing_state) ext_hash_state, 'bo ext_hash_result) hash_provider"

definition ext_hmac_load :: "('d, 'bs, 'balg, 'bst, 'bo) ext_hash_dict \<Rightarrow> ext_hmac_algorithm \<Rightarrow> bytes \<Rightarrow> 'd
    \<Rightarrow> (('bst, 'bs plumbing_state) ext_hash_state ext_hmac_key \<times> 'd) option" where
  "ext_hmac_load H algorithm key d = do {
     let key_block = replicate SHA2SHORT_BLOCK_SIZE 0;
     (key_block, d) \<leftarrow>
       (if length key > SHA2SHORT_BLOCK_SIZE then do {
          (hashed, d) \<leftarrow> hash_oneshot H ExtSha256 key d;
          let h = hp_output H hashed;
          if length h \<noteq> 32 then None
          else do { key_block \<leftarrow> copy_at key_block 0 h; Some (key_block, d) }
        } else do { key_block \<leftarrow> copy_at key_block 0 key; Some (key_block, d) });
     let outer_key = map (\<lambda>k. k XOR 0x5c) key_block;
     let ipad_block = map (\<lambda>k. k XOR 0x36) key_block;
     (inner, d) \<leftarrow> hp_init H ExtSha256 d;
     (inner, d) \<leftarrow> hp_update H inner ipad_block d;
     Some (KeyHmacSha256 inner outer_key, d)
   }"

fun ext_hmac_init :: "'hs ext_hmac_key \<Rightarrow> 'd \<Rightarrow> ('hs ext_hmac_state \<times> 'd) option" where
  "ext_hmac_init (KeyHmacSha256 inner outer_key) d = Some (StateHmacSha256 inner outer_key, d)"

fun ext_hmac_update :: "('d, 'bs, 'balg, 'bst, 'bo) ext_hash_dict \<Rightarrow> ('bst, 'bs plumbing_state) ext_hash_state ext_hmac_state
    \<Rightarrow> bytes \<Rightarrow> 'd \<Rightarrow> (('bst, 'bs plumbing_state) ext_hash_state ext_hmac_state \<times> 'd) option" where
  "ext_hmac_update H (StateHmacSha256 inner outer_key) data d =
     do { (inner, d) \<leftarrow> hp_update H inner data d; Some (StateHmacSha256 inner outer_key, d) }"

fun ext_hmac_finalize :: "('d, 'bs, 'balg, 'bst, 'bo) ext_hash_dict \<Rightarrow> ('bst, 'bs plumbing_state) ext_hash_state ext_hmac_state
    \<Rightarrow> 'd \<Rightarrow> (ext_hmac_result \<times> 'd) option" where
  "ext_hmac_finalize H (StateHmacSha256 inner outer_key) d = do {
     (inner_result, d) \<leftarrow> hp_finalize H inner d;
     (outer, d) \<leftarrow> hp_init H ExtSha256 d;
     (outer, d) \<leftarrow> hp_update H outer outer_key d;
     (outer, d) \<leftarrow> hp_update H outer (hp_output H inner_result) d;
     (result, d) \<leftarrow> hp_finalize H outer d;
     (case result of ResultSha256 buf \<Rightarrow> Some (ResultHmacSha256 buf, d) | ResultDirect _ \<Rightarrow> None)
   }"

definition extender_hmac :: "('d, 'bs, 'balg, 'bst, 'bo) ext_hash_dict
    \<Rightarrow> ('d, ext_hmac_algorithm, ('bst, 'bs plumbing_state) ext_hash_state ext_hmac_key,
        ('bst, 'bs plumbing_state) ext_hash_state ext_hmac_state, ext_hmac_result) hmac_provider" where
  "extender_hmac H =
     \<lparr> hmac_MAX_LEN = 32, hmac_len = ext_hmac_len, hmac_from_cose_number = ext_hmac_from_cose_number,
       mp_load_from_keydata = ext_hmac_load H, mp_init = ext_hmac_init,
       mp_update = ext_hmac_update H, mp_finalize = ext_hmac_finalize H, mp_output = ext_hmac_as_ref \<rparr>"

section \<open>RFC 2104\<close>

definition hmac_key_block :: "(bytes \<Rightarrow> bytes) \<Rightarrow> bytes \<Rightarrow> bytes" where
  "hmac_key_block hash key = (let k = (if length key > 64 then hash key else key) in k @ replicate (64 - length k) 0)"

definition hmac_spec :: "(bytes \<Rightarrow> bytes) \<Rightarrow> bytes \<Rightarrow> bytes \<Rightarrow> bytes" where
  "hmac_spec hash key m =
     (let k0 = hmac_key_block hash key
      in hash (map (\<lambda>b. b XOR 0x5c) k0 @ hash (map (\<lambda>b. b XOR 0x36) k0 @ m)))"

section \<open>The HMAC contract\<close>

text \<open>A hash provider whose finalisation of a \<open>StateSha256\<close> is a \<open>ResultSha256\<close>; this is what rules out
  the \<open>unreachable!\<close> branch.\<close>

definition gives_sha256 :: "('d, 'bs, 'balg, 'bst, 'bo) ext_hash_dict
    \<Rightarrow> (('bst, 'bs plumbing_state) ext_hash_state \<Rightarrow> bytes \<Rightarrow> bool) \<Rightarrow> bool" where
  "gives_sha256 H st \<longleftrightarrow>
     (\<forall>s m d o' d'. st s m \<longrightarrow> hp_finalize H s d = Some (o', d') \<longrightarrow> (\<exists>b. o' = ResultSha256 b \<and> hp_output H o' = b))"

fun hmac_key_ok :: "('hs \<Rightarrow> bytes \<Rightarrow> bool) \<Rightarrow> (bytes \<Rightarrow> bytes) \<Rightarrow> 'hs ext_hmac_key \<Rightarrow> bytes \<Rightarrow> bool" where
  "hmac_key_ok st hash (KeyHmacSha256 inner outer_key) key \<longleftrightarrow>
     st inner (map (\<lambda>b. b XOR 0x36) (hmac_key_block hash key))
     \<and> outer_key = map (\<lambda>b. b XOR 0x5c) (hmac_key_block hash key)"

fun hmac_state_ok :: "('hs \<Rightarrow> bytes \<Rightarrow> bool) \<Rightarrow> (bytes \<Rightarrow> bytes) \<Rightarrow> 'hs ext_hmac_state \<Rightarrow> bytes \<Rightarrow> bytes \<Rightarrow> bool" where
  "hmac_state_ok st hash (StateHmacSha256 inner outer_key) key m \<longleftrightarrow>
     st inner (map (\<lambda>b. b XOR 0x36) (hmac_key_block hash key) @ m)
     \<and> outer_key = map (\<lambda>b. b XOR 0x5c) (hmac_key_block hash key)"

lemma length_hmac_key_block: "(\<And>m. length (hash m) = 32) \<Longrightarrow> length (hmac_key_block hash key) = 64"
  by (simp add: hmac_key_block_def Let_def)

lemma extender_hmac_contract:
  fixes H :: "('d, 'bs, 'balg, 'bst, 'bo) ext_hash_dict"
  assumes hc: "hash_contract H ExtSha256 dev st hash maxlen" and len: "hash_len H ExtSha256 = 32"
    and g: "gives_sha256 H st" and ml: "96 \<le> maxlen"
  shows "hmac_contract (extender_hmac H) HmacSha256 dev (hmac_key_ok st hash) (hmac_state_ok st hash)
    (hmac_spec hash) (maxlen - 64)"
proof
  note init = hash_contract.init_law [OF hc] and upd = hash_contract.update_law [OF hc]
    and fin = hash_contract.finalize_law [OF hc] and one = hash_contract.oneshot [OF hc]
    and dl = hash_contract.digest_length [OF hc, unfolded len]
  let ?ip = "map (\<lambda>b. b XOR 0x36)" and ?op = "map (\<lambda>b. b XOR 0x5c)"
  have kl: "length (hmac_key_block hash key) = 64" for key by (rule length_hmac_key_block) (rule dl)
  fix d :: 'd and key m data :: bytes and k :: "('bst, 'bs plumbing_state) ext_hash_state ext_hmac_key"
    and s :: "('bst, 'bs plumbing_state) ext_hash_state ext_hmac_state"
  show "length (hmac_spec hash key m) = hmac_len (extender_hmac H) HmacSha256"
    by (simp add: hmac_spec_def Let_def dl extender_hmac_def)
  show "hmac_len (extender_hmac H) HmacSha256 \<le> hmac_MAX_LEN (extender_hmac H)"
    by (simp add: extender_hmac_def)
  assume d: "dev d"
  show "\<exists>k d'. mp_load_from_keydata (extender_hmac H) HmacSha256 key d = Some (k, d') \<and> dev d' \<and> hmac_key_ok st hash k key"
    if key: "length key \<le> maxlen - 64"
  proof -
    obtain d1 where b: "dev d1" "(if length key > SHA2SHORT_BLOCK_SIZE then do {
          (hashed, d) \<leftarrow> hash_oneshot H ExtSha256 key d;
          let h = hp_output H hashed;
          if length h \<noteq> 32 then None
          else do { key_block \<leftarrow> copy_at (replicate SHA2SHORT_BLOCK_SIZE 0) 0 h; Some (key_block, d) }
        } else do { key_block \<leftarrow> copy_at (replicate SHA2SHORT_BLOCK_SIZE 0) 0 key; Some (key_block, d) })
        = Some (hmac_key_block hash key, d1)"
    proof (cases "length key > 64")
      case True
      obtain o' d' where "hash_oneshot H ExtSha256 key d = Some (o', d')" "dev d'" "hp_output H o' = hash key"
        using one [OF d le_trans [OF key diff_le_self]] by blast
      with that [of d'] True dl show ?thesis
        by (simp add: SHA2SHORT_BLOCK_SIZE_def hmac_key_block_def Let_def copy_at_def)
    next
      case False
      with that [of d] d show ?thesis
        by (simp add: SHA2SHORT_BLOCK_SIZE_def hmac_key_block_def Let_def copy_at_def)
    qed
    obtain i d2 where i: "hp_init H ExtSha256 d1 = Some (i, d2)" "dev d2" "st i []"
      using init [OF b(1)] by blast
    obtain i' d3 where "hp_update H i (?ip (hmac_key_block hash key)) d2 = Some (i', d3)" "dev d3"
      "st i' (?ip (hmac_key_block hash key))"
      using upd [OF i(2,3), of "?ip (hmac_key_block hash key)"] kl ml by auto
    with b i show ?thesis by (simp add: extender_hmac_def ext_hmac_load_def)
  qed
  show "\<exists>s d'. mp_init (extender_hmac H) k d = Some (s, d') \<and> dev d' \<and> hmac_state_ok st hash s key []"
    if "hmac_key_ok st hash k key"
    using that d by (cases k) (simp add: extender_hmac_def)
  assume s: "hmac_state_ok st hash s key m"
  then obtain inner outer_key where s': "s = StateHmacSha256 inner outer_key"
    and inner: "st inner (?ip (hmac_key_block hash key) @ m)" and ok: "outer_key = ?op (hmac_key_block hash key)"
    by (cases s) auto
  show "\<exists>s' d'. mp_update (extender_hmac H) s data d = Some (s', d') \<and> dev d' \<and> hmac_state_ok st hash s' key (m @ data)"
    if "length m + length data \<le> maxlen - 64"
  proof -
    have "length (?ip (hmac_key_block hash key) @ m) + length data \<le> maxlen" using that kl ml by simp
    from upd [OF d inner this] ok s' show ?thesis by (auto simp: extender_hmac_def)
  qed
  show "\<exists>o' d'. mp_finalize (extender_hmac H) s d = Some (o', d') \<and> dev d' \<and> mp_output (extender_hmac H) o' = hmac_spec hash key m"
  proof -
    obtain r d1 where 1: "hp_finalize H inner d = Some (r, d1)" "dev d1"
        "hp_output H r = hash (?ip (hmac_key_block hash key) @ m)"
      using fin [OF d inner] by blast
    obtain o1 d2 where 2: "hp_init H ExtSha256 d1 = Some (o1, d2)" "dev d2" "st o1 []"
      using init [OF 1(2)] by blast
    obtain o2 d3 where 3: "hp_update H o1 outer_key d2 = Some (o2, d3)" "dev d3" "st o2 outer_key"
      using upd [OF 2(2,3), of outer_key] ok kl ml by auto
    obtain o3 d4 where 4: "hp_update H o2 (hp_output H r) d3 = Some (o3, d4)" "dev d4" "st o3 (outer_key @ hp_output H r)"
      using upd [OF 3(2,3), of "hp_output H r"] ok kl ml dl 1(3) by auto
    obtain q d5 where 5: "hp_finalize H o3 d4 = Some (q, d5)" "dev d5" "hp_output H q = hash (outer_key @ hp_output H r)"
      using fin [OF 4(2,3)] by blast
    obtain b where "q = ResultSha256 b" "hp_output H q = b"
      using g 4(3) 5(1) unfolding gives_sha256_def by blast
    with 1 2 3 4 5 ok s' show ?thesis
      by (simp add: extender_hmac_def hmac_spec_def Let_def)
  qed
qed

section \<open>The software HMAC\<close>

lemma extender_gives_sha256: "gives_sha256 (extender_hash EC B) (ext_state T ab)"
  by (auto simp: gives_sha256_def ext_state_def extender_hash_def ext_hash_finalize_def
      split: ext_hash_state.splits bind_splits)

lemma extender_hash_len: "hash_len (extender_hash EC B) ExtSha256 = 32"
  by (simp add: extender_hash_def)

interpretation sw_hmac: hmac_contract "extender_hmac (extender_hash software_config B)" HmacSha256 "\<lambda>d. d = d0"
    "hmac_key_ok (ext_state (extender_sha2 software_config (base_sha2 B)) sw_absorbed) sha256"
    "hmac_state_ok (ext_state (extender_sha2 software_config (base_sha2 B)) sw_absorbed) sha256"
    "hmac_spec sha256" "max_message - 64"
  for B :: "('d, 'bs, 'balg, 'bst, 'bo) extender_base" and d0
  by (rule extender_hmac_contract [OF sw_hash.hash_contract_axioms extender_hash_len extender_gives_sha256])
    (simp add: max_message_def usize_limit_def)

end
