(* ===== verification/Software_Demo.thy ===== *)
theory Software_Demo
  imports Extender_Hmac Cal_Hkdf Empty_Cal
begin

text \<open>
  The properties of the software demo as a user sees them: the extender over any base, configured to
  run everything in software, hashes and authenticates as FIPS 180-4, RFC 2104 and RFC 5869 say,
  however the message is cut into chunks; and the extender over a hardware plumbing computes that
  plumbing's digest of the message. The witnesses run over \<open>EmptyCal\<close>, as the crate's own tests do.
\<close>

definition demo_base :: "(unit, no_algorithms, no_algorithms, no_algorithms, no_algorithms) extender_base" where
  "demo_base = \<lparr> base_sha2 = empty_sha2, base_hash = empty_hash \<rparr>"

lemma max_message_val: "max_message = 4294967223"
  by (simp add: max_message_def usize_limit_def)

text \<open>C16: One call of the software compression is the compression function of FIPS 180-4 (message
  schedule by its recurrence, 64 rounds of the working variables, sum with the previous value) on a
  64-byte block, and a panic on any other length.\<close>

theorem compression_is_fips:
  "sha256_update s data = (if length data = 64 then Some (sha256_compress s data) else None)"
  by (rule sha256_update_eq)

text \<open>The padding written for a message of \<open>l\<close> bytes is a one bit, the fewest zero bits after
  which 64 bits are left in a block, and the 64-bit big-endian bit length; it always fits the
  256-byte scratch array, and the padded message is a whole number of blocks.\<close>

theorem padding_correct:
  assumes "l + 1 < usize_limit"
  shows "\<exists>out. sha256_padding l (replicate 256 0) = Some (out, pad_zeros l + 9)
    \<and> take (pad_zeros l + 9) out = 0x80 # replicate (pad_zeros l) 0 @ be_bytes 8 (8 * l)
    \<and> (l + pad_zeros l + 9) mod 64 = 0 \<and> pad_zeros l < 64"
proof -
  obtain out where out: "sha256_padding l (replicate 256 0) = Some (out, length (sha256_pad l))"
    "slice out 0 (length (sha256_pad l)) = Some (sha256_pad l)"
    using sha256_padding_val [OF assms] by blast
  have "pad_zeros l < 64" using pad_zeros_less [of l] by simp
  moreover have "(l + (pad_zeros l + 9)) mod 64 = 0"
    using padded_blocks [of l] by (simp only: sha256_pad_length)
  moreover have "take (pad_zeros l + 9) out = sha256_pad l"
    using out(2) by (simp add: slice_def sha256_pad_length split: if_splits)
  ultimately show ?thesis using out(1) by (simp add: sha256_pad_length add.assoc) (simp add: sha256_pad_def)
qed

lemma padding_correct_witness:
  "\<exists>out. sha256_padding 3 (replicate 256 0) = Some (out, pad_zeros 3 + 9)
    \<and> take (pad_zeros 3 + 9) out = 0x80 # replicate (pad_zeros 3) 0 @ be_bytes 8 (8 * 3)
    \<and> (3 + pad_zeros 3 + 9) mod 64 = 0 \<and> pad_zeros 3 < 64"
  by (rule padding_correct) (simp add: usize_limit_def)

text \<open>C1: The software SHA-256: over any base, initialising, feeding any list of chunks and finalising
  never panics, leaves the base alone, and returns the FIPS 180-4 digest of the concatenation, for
  messages up to \<open>max_message\<close> bytes (73 below the 32-bit \<open>usize\<close> limit, where the byte counter
  of the state would overflow).\<close>

theorem software_sha256_chunks:
  fixes B :: "('d, 'bs, 'balg, 'bst, 'bo) extender_base"
  assumes "length (concat cs) \<le> max_message"
  shows "hash_chunks (extender_hash software_config B) ExtSha256 cs d = Some (sha256 (concat cs), d)"
  using sw_hash.chunks [of d d cs B] assms by simp

lemma software_sha256_chunks_witness:
  "hash_chunks (extender_hash software_config demo_base) ExtSha256 [[1, 2], [], [3]] ()
   = Some (sha256 (concat [[1, 2], [], [3]]), ())"
  by (rule software_sha256_chunks) (simp add: max_message_val)

text \<open>C2: The buffering layer over any plumbing that keeps the documented plumbing contract (a first
  chunk of its own size, then blocks of 64 bytes, the rest or the padding at the end): every
  chunking of a message gives the plumbing's digest of the whole message, with the padding appended
  exactly when the plumbing asks for it.\<close>

theorem buffering_correct:
  fixes B :: "('d, 'bs, 'balg, 'bst, 'bo) extender_base"
  assumes "sha2short_contract (extender_sha2 EC (base_sha2 B)) dev ab raw"
    and "dev d" "length (concat cs) \<le> max_message"
  shows "\<exists>d'. dev d' \<and> hash_chunks (extender_hash EC B) ExtSha256 cs d
    = Some (if SEND_PADDING (extender_sha2 EC (base_sha2 B))
            then raw (concat cs @ sha256_pad (length (concat cs))) else raw (concat cs), d')"
  using hash_contract.chunks [OF extender_hash_contract [OF assms(1)] assms(2,3)]
  by (auto simp: plumbed_digest_def)

lemma buffering_correct_witness:
  "\<exists>d'. d' = () \<and> hash_chunks (extender_hash software_config demo_base) ExtSha256 [[1], [2, 3]] ()
    = Some (if SEND_PADDING (extender_sha2 software_config (base_sha2 demo_base))
            then sw_raw (concat [[1], [2, 3]] @ sha256_pad (length (concat [[1], [2, 3 :: u8]])))
            else sw_raw (concat [[1], [2, 3]]), d')"
  by (rule buffering_correct [OF sw.sha2short_contract_axioms]) (simp_all add: max_message_val)

text \<open>C7: The software HMAC is RFC 2104 over SHA-256, for keys shorter than, equal to and longer than a
  block, and it never panics.\<close>

theorem software_hmac_rfc2104:
  fixes B :: "('d, 'bs, 'balg, 'bst, 'bo) extender_base"
  assumes "length key \<le> max_message - 64" "length data \<le> max_message - 64"
  shows "hmac_with_keydata (extender_hmac (extender_hash software_config B)) HmacSha256 key data d
    = Some (ResultHmacSha256 (hmac_spec sha256 key data), d)"
proof -
  obtain o' where "hmac_with_keydata (extender_hmac (extender_hash software_config B)) HmacSha256 key data d = Some (o', d)"
    "mp_output (extender_hmac (extender_hash software_config B)) o' = hmac_spec sha256 key data"
    using sw_hmac.hmac_with_keydata_law [of d d key data B] assms by blast
  then show ?thesis by (cases o') (simp add: extender_hmac_def)
qed

lemma software_hmac_rfc2104_witness:
  "hmac_with_keydata (extender_hmac (extender_hash software_config demo_base)) HmacSha256 (replicate 65 7) [1, 2] ()
    = Some (ResultHmacSha256 (hmac_spec sha256 (replicate 65 7) [1, 2]), ())"
  by (rule software_hmac_rfc2104) (simp_all add: max_message_val)

text \<open>C8: The software HKDF is RFC 5869: extract with the given salt or 32 zero bytes, then the prefix of
  \<open>T(1) | T(2) | ...\<close> that fills the output buffer, for every output of at most 255 blocks.\<close>

theorem software_hkdf_rfc5869:
  fixes B :: "('d, 'bs, 'balg, 'bst, 'bo) extender_base"
  assumes "length ikm \<le> max_message - 64" "\<forall>s. salt = Some s \<longrightarrow> length s \<le> max_message - 64"
    and "length info + 33 \<le> max_message - 64" "length okm \<le> 255 * 32"
  shows "hkdf (extender_hmac (extender_hash software_config B)) HmacSha256 salt ikm info okm d
    = Some ((Inr (), okm_spec (hmac_spec sha256) 32
        (hmac_spec sha256 (case salt of None \<Rightarrow> replicate 32 0 | Some s \<Rightarrow> s) ikm) info (length okm)), d)"
proof -
  have l: "hmac_len (extender_hmac (extender_hash software_config B)) HmacSha256 = 32"
    by (simp add: extender_hmac_def)
  show ?thesis
    using sw_hmac.hkdf_law [of d d B ikm salt info okm] assms unfolding l by auto
qed

lemma software_hkdf_rfc5869_witness:
  "hkdf (extender_hmac (extender_hash software_config demo_base)) HmacSha256 None [11] [1, 2] (replicate 42 0) ()
    = Some ((Inr (), okm_spec (hmac_spec sha256) 32
        (hmac_spec sha256 (case (None :: bytes option) of None \<Rightarrow> replicate 32 0 | Some s \<Rightarrow> s) [11]) [1, 2]
        (length (replicate 42 (0 :: u8)))), ())"
  by (rule software_hkdf_rfc5869) (simp_all add: max_message_val)

text \<open>For any HMAC provider, HKDF-Expand reports \<open>OutputTooLong\<close> exactly when more than 255 blocks
  are asked for, and then neither the output buffer nor the device has been touched; there is no
  other error.\<close>

theorem hkdf_error_iff:
  "hkdf_expand P alg prk info okm d = Some ((Inl e, okm'), d') \<longleftrightarrow>
     255 * hmac_len P alg < length okm \<and> okm' = okm \<and> d' = d"
  by (cases e) (simp add: hkdf_expand_error)

lemma map_option_ExtDirect_eq: "map_option ExtDirect x = map_option ExtDirect y \<longleftrightarrow> x = y"
  by (cases x; cases y) simp_all

text \<open>Algorithm selection of the extender, in all three registries at once: the SHA-256 identifiers
  give the extender's own SHA-256 when the configuration implements it, and everything else is the
  base's selection; so the crate's conformance check on the three SHA-256 identifiers passes
  whenever the extender implements SHA-256 itself or the base passes it.\<close>

theorem extender_selection:
  "hash_from_cose_number (extender_hash EC B) n
     = (if n = - 16 \<and> IMPLEMENT_SHA2SHORT EC then Some ExtSha256
        else map_option ExtDirect (hash_from_cose_number (base_hash B) n))
   \<and> hash_from_ni_id (extender_hash EC B) i
     = (if i = 1 \<and> IMPLEMENT_SHA2SHORT EC then Some ExtSha256
        else map_option ExtDirect (hash_from_ni_id (base_hash B) i))
   \<and> hash_from_ni_name (extender_hash EC B) s
     = (if s = ''sha-256'' \<and> IMPLEMENT_SHA2SHORT EC then Some ExtSha256
        else map_option ExtDirect (hash_from_ni_name (base_hash B) s))
   \<and> (test_hash_algorithm_sha256 (extender_hash EC B) = Some ()
      \<longleftrightarrow> IMPLEMENT_SHA2SHORT EC \<or> test_hash_algorithm_sha256 (base_hash B) = Some ())"
  by (auto simp: extender_hash_def ext_hash_from_cose_number_def ext_hash_from_ni_id_def
      ext_hash_from_ni_name_def test_hash_algorithm_sha256_def Let_def map_option_ExtDirect_eq)

text \<open>The hand-written equality of the extender's algorithm identifiers is equality, given that the
  base's is.\<close>

theorem extender_algorithm_eq:
  "ext_hash_algorithm_eq (=) a b \<longleftrightarrow> a = b"
  by (cases a; cases b) simp_all

end
