(* ===== verification/Montgomery.thy ===== *)
theory Montgomery
  imports Cal_Prelude
begin

text \<open>
  The RFC 7748 fixups of \<^verbatim>\<open>embedded-cal/src/util/montgomery.rs\<close>: bit operations on the first and last
  byte of a little-endian number, and what they mean for its value.
\<close>

definition clamp_x25519 :: "bytes \<Rightarrow> bytes" where
  "clamp_x25519 k = (let k = k[0 := k ! 0 AND 0xF8] in k[31 := (k ! 31 OR 0x40) AND 0x7F])"

definition clamp_x448 :: "bytes \<Rightarrow> bytes" where
  "clamp_x448 k = (let k = k[0 := k ! 0 AND 0xFC] in k[55 := k ! 55 OR 0x80])"

definition mask_u_x25519 :: "bytes \<Rightarrow> bytes" where
  "mask_u_x25519 u = u[31 := u ! 31 AND 0x7F]"

lemma length_clamps [simp, len_simps]:
  "length (clamp_x25519 k) = length k" "length (clamp_x448 k) = length k" "length (mask_u_x25519 k) = length k"
  by (simp_all add: clamp_x25519_def clamp_x448_def mask_u_x25519_def Let_def)

section \<open>What the masks do to a byte\<close>

lemma const_F8: "(0xF8 :: u8) = NOT (mask 3)" by code_simp

lemma const_FC: "(0xFC :: u8) = NOT (mask 2)" by code_simp

lemma const_7F: "(0x7F :: u8) = mask 7" by code_simp

lemma const_bits: "(0x80 :: u8) = push_bit 7 1" "(0x40 :: u8) = push_bit 6 1" by code_simp+

lemma unat_and_not_mask: "unat (b AND NOT (mask n) :: u8) = 2 ^ n * (unat b div 2 ^ n)"
proof -
  have "b AND NOT (mask n) = push_bit n (drop_bit n b)"
    by (rule bit_word_eqI) (auto simp: bit_simps)
  then have "unat (b AND NOT (mask n)) = take_bit 8 (push_bit n (drop_bit n (unat b)))"
    by (simp only: unsigned_push_bit_eq unat_drop_bit_eq) simp
  also have "\<dots> = take_bit 8 (2 ^ n * (unat b div 2 ^ n))"
    by (simp only: push_bit_eq_mult drop_bit_eq_div mult.commute)
  also have "2 ^ n * (unat b div 2 ^ n) < 2 ^ 8"
    by (rule le_less_trans [OF times_div_less_eq_dividend]) simp
  ultimately show ?thesis by (simp add: take_bit_nat_eq_self)
qed

lemma unat_take_bit_u8: "unat (take_bit n b :: u8) = unat b mod 2 ^ n"
  unfolding unsigned_take_bit_eq by (rule take_bit_eq_mod)

lemma unat_or_bit: 
  assumes "n < 8"
  shows "unat (take_bit n b OR push_bit n 1 :: u8) = 2 ^ n + unat b mod 2 ^ n"
proof -
  have p: "(2::nat) ^ n \<le> 2 ^ 7" using assms by (intro power_increasing) auto
  have m: "unat b mod 2 ^ n < 2 ^ n" by simp
  have "unat (push_bit n 1 :: u8) = take_bit 8 (push_bit n 1)" by (simp only: unsigned_push_bit_eq) simp
  also have "\<dots> = 2 ^ n" using assms p by (simp only: push_bit_eq_mult mult_1) (rule take_bit_nat_eq_self, simp)
  finally have u2: "unat (push_bit n 1 :: u8) = 2 ^ n" .
  have "take_bit n b + push_bit n 1 = take_bit n b OR (push_bit n 1 :: u8)"
    by (rule disjunctive_add_eq_or) (rule bit_word_eqI, auto simp: bit_simps)
  moreover have "unat (take_bit n b + push_bit n 1 :: u8) = unat b mod 2 ^ n + 2 ^ n"
  proof -
    have "unat (take_bit n b) + unat (push_bit n 1 :: u8) < 2 ^ LENGTH(8)"
      unfolding unat_take_bit_u8 u2 using p less_le_trans [OF m p] by simp
    with unat_add_lem [of "take_bit n b" "push_bit n 1"] show ?thesis
      unfolding unat_take_bit_u8 u2 by blast
  qed
  ultimately show ?thesis by (simp only: add.commute)
qed

lemma and_F8: "unat (b AND 0xF8 :: u8) = 8 * (unat b div 8)"
  unfolding const_F8 unat_and_not_mask by simp

lemma and_FC: "unat (b AND 0xFC :: u8) = 4 * (unat b div 4)"
  unfolding const_FC unat_and_not_mask by simp

lemma and_7F: "unat (b AND 0x7F :: u8) = unat b mod 128"
  unfolding const_7F take_bit_eq_mask [symmetric] unat_take_bit_u8 by simp

lemma or_bit_mask: "n < 8 \<Longrightarrow> (b OR push_bit n 1) AND mask (Suc n) = take_bit n b OR (push_bit n 1 :: u8)"
  by (rule bit_word_eqI) (auto simp: bit_simps)

lemma or_80: "unat (b OR 0x80 :: u8) = 128 + unat b mod 128"
proof -
  have "x AND mask 8 = x" for x :: u8
    by (rule bit_word_eqI) (auto simp: bit_simps)
  then show ?thesis using unat_or_bit [of 7 b] or_bit_mask [of 7 b] unfolding const_bits by simp
qed

lemma or_40: "unat ((b OR 0x40) AND 0x7F :: u8) = 64 + unat b mod 64"
  using unat_or_bit [of 6 b] or_bit_mask [of 6 b] unfolding const_bits const_7F by simp

section \<open>What the fixups do to the number\<close>

text \<open>A list of at least two bytes as first byte, middle and last byte.\<close>

lemma le_val_first_last:
  assumes "length k = Suc (Suc n)"
  obtains a mid z where "k = a # mid @ [z]" "length mid = n"
    and "\<And>a' z'. k[0 := a', Suc n := z'] = a' # mid @ [z']"
proof -
  obtain a k' where k: "k = a # k'" using assms by (cases k) auto
  then have "k' \<noteq> []" using assms by auto
  then obtain mid z where k': "k' = mid @ [z]" by (metis append_butlast_last_id)
  then have m: "length mid = n" using assms k by simp
  then have "k[0 := a', Suc n := z'] = a' # mid @ [z']" for a' z'
    by (simp add: k k' list_update_append)
  with that k k' m show ?thesis by simp
qed

lemma le_val_ends: "le_val (a # mid @ [z]) = unat a + 256 * le_val mid + 256 ^ Suc (length mid) * unat z"
  by (simp add: le_val_append algebra_simps)

lemma le_val_between:
  "l < B \<Longrightarrow> a \<le> h \<Longrightarrow> h < c \<Longrightarrow> B * a \<le> l + B * h \<and> l + B * h < B * (c :: nat)"
  by (simp add: radix_less trans_le_add2)

text \<open>A clamped X25519 scalar, read as a little-endian number, is a multiple of 8 between 2 to the
  254 and 2 to the 255; clamping changes nothing that is already clamped.\<close>

theorem clamp_x25519_value:
  assumes "length k = 32"
  shows "8 dvd le_val (clamp_x25519 k) \<and> 2 ^ 254 \<le> le_val (clamp_x25519 k) \<and> le_val (clamp_x25519 k) < 2 ^ 255
    \<and> clamp_x25519 (clamp_x25519 k) = clamp_x25519 k"
proof -
  have l: "length k = Suc (Suc 30)" using assms by simp
  obtain a mid z where k: "k = a # mid @ [z]" and m: "length mid = 30"
    and u: "\<And>a' z'. k[0 := a', Suc 30 := z'] = a' # mid @ [z']"
    using le_val_first_last [OF l] by metis
  have z: "k ! 31 = z" using m by (simp add: k nth_append)
  have c: "clamp_x25519 k = (a AND 0xF8) # mid @ [(z OR 0x40) AND 0x7F]"
    using u [of "a AND 0xF8" "(z OR 0x40) AND 0x7F"] z by (simp add: clamp_x25519_def Let_def k)
  have v: "le_val (clamp_x25519 k) = 8 * (unat a div 8) + 256 * le_val mid + 256 ^ Suc 30 * (64 + unat z mod 64)"
    unfolding c le_val_ends and_F8 or_40 m ..
  define h where "h = 64 + unat z mod 64"
  have h: "64 \<le> h" "h < 128" by (simp_all add: h_def)
  have low: "8 * (unat a div 8) + 256 * le_val mid < 256 ^ Suc 30"
  proof -
    have "8 * (unat a div 8) < 256"
      by (rule le_less_trans [OF times_div_less_eq_dividend]) simp
    moreover have "le_val mid < 256 ^ 30" using le_val_less [of mid] m by (simp only:)
    ultimately show ?thesis by (simp only: power_Suc radix_less)
  qed
  note between = le_val_between [OF low h, folded v [folded h_def]]
  have "2 ^ 254 = 256 ^ Suc 30 * (64 :: nat)" "2 ^ 255 = 256 ^ Suc 30 * (128 :: nat)" by simp_all
  with between have "le_val (clamp_x25519 k) < 2 ^ 255" "2 ^ 254 \<le> le_val (clamp_x25519 k)" by simp_all
  moreover have "8 dvd le_val (clamp_x25519 k)" unfolding v
    by (intro dvd_add dvd_triv_left dvd_mult2 [where b = 256] dvd_mult2 [where b = "256 ^ Suc 30"]) (simp_all add: dvd_mult2)
  moreover have "clamp_x25519 (clamp_x25519 k) = clamp_x25519 k"
  proof -
    have "(a AND 0xF8) AND 0xF8 = a AND 0xF8" by (simp add: and.assoc)
    moreover have "(((z OR 0x40) AND 0x7F) OR 0x40) AND 0x7F = (z OR 0x40) AND 0x7F"
      by (simp only: word_unat_eq_iff or_40) simp
    ultimately show ?thesis using m by (simp add: c) (simp add: clamp_x25519_def Let_def nth_append list_update_append)
  qed
  ultimately show ?thesis by blast
qed

lemma clamp_x25519_value_witness:
  "8 dvd le_val (clamp_x25519 (replicate 32 255)) \<and> 2 ^ 254 \<le> le_val (clamp_x25519 (replicate 32 255))
    \<and> le_val (clamp_x25519 (replicate 32 255)) < 2 ^ 255
    \<and> clamp_x25519 (clamp_x25519 (replicate 32 255)) = clamp_x25519 (replicate 32 255)"
  by (rule clamp_x25519_value) simp

text \<open>A clamped X448 scalar is a multiple of 4 with its top bit, 2 to the 447, set, and clamping it
  again changes nothing; masking an X25519 coordinate is reduction modulo 2 to the 255.\<close>

theorem clamp_x448_value:
  assumes "length k = 56" "length u = 32"
  shows "4 dvd le_val (clamp_x448 k) \<and> 2 ^ 447 \<le> le_val (clamp_x448 k)
    \<and> clamp_x448 (clamp_x448 k) = clamp_x448 k \<and> le_val (mask_u_x25519 u) = le_val u mod 2 ^ 255"
proof -
  have l: "length k = Suc (Suc 54)" using assms by simp
  obtain a mid z where k: "k = a # mid @ [z]" and m: "length mid = 54"
    and u: "\<And>a' z'. k[0 := a', Suc 54 := z'] = a' # mid @ [z']"
    using le_val_first_last [OF l] by metis
  have z: "k ! 55 = z" using m by (simp add: k nth_append)
  have c: "clamp_x448 k = (a AND 0xFC) # mid @ [z OR 0x80]"
    using u [of "a AND 0xFC" "z OR 0x80"] z by (simp add: clamp_x448_def Let_def k)
  have v: "le_val (clamp_x448 k) = 4 * (unat a div 4) + 256 * le_val mid + 256 ^ Suc 54 * (128 + unat z mod 128)"
    unfolding c le_val_ends and_FC or_80 m ..
  have "4 dvd le_val (clamp_x448 k)" unfolding v
    by (intro dvd_add dvd_triv_left dvd_mult2 [where b = 256] dvd_mult2 [where b = "256 ^ Suc 54"]) (simp_all add: dvd_mult2)
  moreover have "2 ^ 447 \<le> le_val (clamp_x448 k)"
  proof -
    have "2 ^ 447 = 256 ^ Suc 54 * (128 :: nat)" by simp
    also have "\<dots> \<le> le_val (clamp_x448 k)" unfolding v distrib_left by (simp only: le_add2 trans_le_add2 le_add1)
    finally show ?thesis .
  qed
  moreover have "clamp_x448 (clamp_x448 k) = clamp_x448 k"
  proof -
    have "(a AND 0xFC) AND 0xFC = a AND 0xFC" by (simp add: and.assoc)
    moreover have "(z OR 0x80) OR 0x80 = z OR 0x80" by (simp only: or.assoc or.idem)
    ultimately show ?thesis using m by (simp add: c) (simp add: clamp_x448_def Let_def nth_append list_update_append)
  qed
  moreover have "le_val (mask_u_x25519 u) = le_val u mod 2 ^ 255"
  proof -
    obtain mid z where u: "u = mid @ [z]" and m: "length mid = 31"
      using assms(2) by (cases u rule: rev_cases) auto
    have "mask_u_x25519 u = mid @ [z AND 0x7F]"
      using m by (simp add: mask_u_x25519_def u nth_append list_update_append)
    then have v: "le_val (mask_u_x25519 u) = le_val mid + 256 ^ 31 * (unat z mod 128)"
      using m by (simp add: le_val_append and_7F)
    define q r where "q = unat z div 128" and "r = unat z mod 128"
    have "unat z = 128 * q + r" by (simp add: q_def r_def)
    then have "le_val u = (le_val mid + 256 ^ 31 * r) + 2 ^ 255 * q"
      using m by (simp add: u le_val_append)
    moreover have "le_val mid < 256 ^ 31" "r < 128" using le_val_less [of mid] m by (simp_all add: r_def)
    ultimately show ?thesis unfolding v r_def [symmetric] by simp
  qed
  ultimately show ?thesis by blast
qed

lemma clamp_x448_value_witness:
  "4 dvd le_val (clamp_x448 (replicate 56 255)) \<and> 2 ^ 447 \<le> le_val (clamp_x448 (replicate 56 255))
    \<and> clamp_x448 (clamp_x448 (replicate 56 255)) = clamp_x448 (replicate 56 255)
    \<and> le_val (mask_u_x25519 (replicate 32 255)) = le_val (replicate 32 255) mod 2 ^ 255"
  by (rule clamp_x448_value) simp_all

end
