(* ===== verification/Ccm.thy ===== *)
theory Ccm
  imports Cal_Traits
begin

text \<open>
  AES-CCM as the two hardware back-ends drive it: the first block \<open>B0\<close> that
  \<^verbatim>\<open>embedded-cal/src/util/aesccm.rs\<close> builds, and the specification of RFC 3610 over a block
  cipher \<open>E\<close> (key, block to block), which is not in the repository and stays a parameter.
\<close>

section \<open>The code: build_b0\<close>

definition usize_sub :: "nat \<Rightarrow> nat \<Rightarrow> nat option" where
  "usize_sub a b = (if b \<le> a then Some (a - b) else None)"

definition build_b0 :: "bytes \<Rightarrow> nat \<Rightarrow> nat \<Rightarrow> nat \<Rightarrow> bytes option" where
  "build_b0 nonce msg_len a_len tag_len = do {
     let b0 = replicate 16 0;
     l \<leftarrow> usize_sub 15 (length nonce);
     l1 \<leftarrow> usize_sub l 1;
     t2 \<leftarrow> usize_sub tag_len 2;
     let b0 = b0[0 := of_nat l1 OR push_bit 3 (of_nat (t2 div 2))];
     let b0 = (if a_len > 0 then b0[0 := b0 ! 0 OR 0x40] else b0);
     b0 \<leftarrow> copy_at b0 1 nonce;
     let msg_len_bytes = be_bytes 8 msg_len;
     s \<leftarrow> usize_sub 8 l;
     tail \<leftarrow> slice msg_len_bytes s 8;
     copy_at b0 (16 - l) tail
   }"

section \<open>RFC 3610\<close>

text \<open>The flags octet: \<open>64 * Adata + 8 * ((M - 2) / 2) + (L - 1)\<close>.\<close>

definition ccm_flags :: "bool \<Rightarrow> nat \<Rightarrow> nat \<Rightarrow> nat" where
  "ccm_flags adata m l = (if adata then 64 else 0) + 8 * ((m - 2) div 2) + (l - 1)"

definition ccm_b0 :: "bytes \<Rightarrow> nat \<Rightarrow> nat \<Rightarrow> nat \<Rightarrow> bytes" where
  "ccm_b0 nonce msg_len a_len m =
     (let l = 15 - length nonce in of_nat (ccm_flags (a_len > 0) m l) # nonce @ be_bytes l msg_len)"

text \<open>Zero padding to whole blocks, and the encoded additional data (below \<open>2^16 - 2^8\<close> bytes its length
  takes two octets).\<close>

definition pad16 :: "bytes \<Rightarrow> bytes" where
  "pad16 x = x @ replicate ((16 - length x mod 16) mod 16) 0"

definition ccm_adata :: "bytes \<Rightarrow> bytes" where
  "ccm_adata a = (if a = [] then [] else pad16 (be_bytes 2 (length a) @ a))"

definition ccm_header :: "bytes \<Rightarrow> nat \<Rightarrow> bytes \<Rightarrow> nat \<Rightarrow> bytes" where
  "ccm_header nonce msg_len a m = ccm_b0 nonce msg_len (length a) m @ ccm_adata a"

fun blocks16 :: "nat \<Rightarrow> bytes \<Rightarrow> bytes list" where
  "blocks16 0 x = []"
| "blocks16 (Suc n) x = take 16 x # blocks16 n (drop 16 x)"

definition xor_bytes :: "bytes \<Rightarrow> bytes \<Rightarrow> bytes" where
  "xor_bytes x y = map2 (XOR) x y"

definition cbc_mac :: "(bytes \<Rightarrow> bytes) \<Rightarrow> bytes \<Rightarrow> bytes" where
  "cbc_mac E x = foldl (\<lambda>s b. E (xor_bytes s b)) (replicate 16 0) (blocks16 (length x div 16) x)"

text \<open>The counter blocks \<open>A_i\<close> and the key stream \<open>S_1 | S_2 | ...\<close> over a message.\<close>

definition ccm_ctr :: "bytes \<Rightarrow> nat \<Rightarrow> bytes" where
  "ccm_ctr nonce i = (let l = 15 - length nonce in of_nat (l - 1) # nonce @ be_bytes l i)"

definition ccm_stream :: "(bytes \<Rightarrow> bytes) \<Rightarrow> bytes \<Rightarrow> nat \<Rightarrow> bytes" where
  "ccm_stream E nonce n = take n (concat (map (\<lambda>i. E (ccm_ctr nonce (Suc i))) [0..<(n + 15) div 16]))"

definition ccm_crypt :: "(bytes \<Rightarrow> bytes) \<Rightarrow> bytes \<Rightarrow> bytes \<Rightarrow> bytes" where
  "ccm_crypt E nonce m = xor_bytes m (ccm_stream E nonce (length m))"

definition ccm_tag :: "(bytes \<Rightarrow> bytes) \<Rightarrow> bytes \<Rightarrow> bytes \<Rightarrow> bytes \<Rightarrow> nat \<Rightarrow> bytes" where
  "ccm_tag E nonce a m tag_len =
     take tag_len (xor_bytes (cbc_mac E (ccm_header nonce (length m) a tag_len @ pad16 m)) (E (ccm_ctr nonce 0)))"

section \<open>Lengths and the key stream\<close>

lemma length_pad16: "length (pad16 x) mod 16 = 0" "length x \<le> length (pad16 x)" "length (pad16 x) < length x + 16"
proof -
  have "(length x + (16 - length x mod 16) mod 16) mod 16 = 0"
  proof (cases "length x mod 16 = 0")
    case False
    then have "(16 - length x mod 16) mod 16 = 16 - length x mod 16" by simp
    moreover have "length x mod 16 + (16 - length x mod 16) = 16"
      using mod_less_divisor [of 16 "length x"] by linarith
    ultimately show ?thesis by (metis mod_add_left_eq mod_self)
  qed simp
  then show "length (pad16 x) mod 16 = 0" by (simp add: pad16_def)
  show "length x \<le> length (pad16 x)" "length (pad16 x) < length x + 16" by (simp_all add: pad16_def)
qed

lemma pad16_Nil [simp]: "pad16 [] = []"
  by (simp add: pad16_def)

lemma length_ccm_b0: "length nonce \<le> 14 \<Longrightarrow> length (ccm_b0 nonce ml al m) = 16"
  by (simp add: ccm_b0_def Let_def)

lemma length_xor_bytes [simp, len_simps]: "length (xor_bytes x y) = min (length x) (length y)"
  by (simp add: xor_bytes_def)

lemma length_concat_blocks: "(\<And>i. length (f i) = k) \<Longrightarrow> length (concat (map f xs)) = k * length xs"
  by (induction xs) simp_all

lemma length_ccm_stream: "(\<And>b. length (E b) = 16) \<Longrightarrow> length (ccm_stream E nonce n) = n"
proof -
  assume E: "\<And>b. length (E b) = 16"
  have "length (concat (map (\<lambda>i. E (ccm_ctr nonce (Suc i))) [0..<(n + 15) div 16])) = 16 * length [0..<(n + 15) div 16]"
    by (rule length_concat_blocks) (rule E)
  moreover have "n \<le> 16 * ((n + 15) div 16)" by linarith
  ultimately show ?thesis by (simp add: ccm_stream_def)
qed

lemma xor_bytes_cancel: "length x = length y \<Longrightarrow> xor_bytes (xor_bytes x y) y = x"
  by (induction x y rule: list_induct2) (simp_all add: xor_bytes_def xor.assoc)

text \<open>Decryption is the same operation.\<close>

lemma ccm_crypt_crypt: "(\<And>b. length (E b) = 16) \<Longrightarrow> ccm_crypt E nonce (ccm_crypt E nonce m) = m"
proof -
  assume E: "\<And>b. length (E b) = 16"
  note l = length_ccm_stream [of E nonce, OF E]
  have "length (ccm_crypt E nonce m) = length m" by (simp add: ccm_crypt_def l)
  then show ?thesis by (simp add: ccm_crypt_def l xor_bytes_cancel)
qed

lemma length_ccm_crypt [simp]: "(\<And>b. length (E b) = 16) \<Longrightarrow> length (ccm_crypt E nonce m) = length m"
  by (simp add: ccm_crypt_def length_ccm_stream)

section \<open>build_b0 builds B0\<close>

lemma be_bytes_tail: "k \<le> n \<Longrightarrow> drop (n - k) (be_bytes n v) = be_bytes k v"
proof -
  have "take k (le_bytes n v) = le_bytes k v" if "k \<le> n" for k n v
    using that
  proof (induction k arbitrary: n v)
    case (Suc k)
    then show ?case by (cases n) simp_all
  qed simp
  then show "k \<le> n \<Longrightarrow> drop (n - k) (be_bytes n v) = be_bytes k v"
    by (simp add: be_bytes_def rev_take [symmetric]) (metis diff_diff_cancel length_le_bytes rev_take)
qed

lemma be_bytes_2: "be_bytes 2 n = [of_nat (drop_bit 8 n), of_nat (n AND 0xFF)]"
proof -
  have a: "n AND 0xFF = n mod 256"
  proof -
    have "(0xFF :: nat) = mask 8" by (simp add: mask_eq_exp_minus_1)
    then show ?thesis by (simp only: take_bit_eq_mask [symmetric] take_bit_eq_mod) simp
  qed
  have "(of_nat (n mod 256) :: u8) = of_nat n"
    by (rule word_unat_eq_iff [THEN iffD2]) (simp add: unat_of_nat)
  moreover have "drop_bit 8 n = n div 256" by (simp add: drop_bit_eq_div)
  ultimately show ?thesis unfolding a by (simp add: be_bytes_def numeral_2_eq_2)
qed

lemma replicate_16: "replicate 16 (0 :: u8) = 0 # replicate 15 0"
  by (simp add: numeral_eq_Suc)

lemma flags_byte_all:
  "list_all (\<lambda>x. list_all (\<lambda>y. (word_of_nat y OR push_bit 3 (word_of_nat x) :: u8) = word_of_nat (8 * x + y)
     \<and> (word_of_nat y OR push_bit 3 (word_of_nat x)) OR 0x40 = (word_of_nat (64 + 8 * x + y) :: u8)) [0..<8]) [0..<8]"
  by code_simp

lemma flags_byte:
  assumes "x < 8" "y < 8"
  shows "(word_of_nat y OR push_bit 3 (word_of_nat x) :: u8) = word_of_nat (8 * x + y)"
    "(word_of_nat y OR push_bit 3 (word_of_nat x)) OR 0x40 = (word_of_nat (64 + 8 * x + y) :: u8)"
proof -
  have "x \<in> set [0..<8]" "y \<in> set [0..<8]" using assms by simp_all
  note * = flags_byte_all [unfolded list_all_iff, THEN bspec, OF this(1), THEN bspec, OF this(2)]
  show "(word_of_nat y OR push_bit 3 (word_of_nat x) :: u8) = word_of_nat (8 * x + y)"
    by (rule * [THEN conjunct1])
  show "(word_of_nat y OR push_bit 3 (word_of_nat x)) OR 0x40 = (word_of_nat (64 + 8 * x + y) :: u8)"
    by (rule * [THEN conjunct2])
qed

lemma build_b0_eval:
  "build_b0 nonce msg_len a_len tag_len =
    (if 7 \<le> length nonce \<and> length nonce \<le> 14 \<and> 2 \<le> tag_len
     then let f = word_of_nat (14 - length nonce) OR push_bit 3 (word_of_nat ((tag_len - 2) div 2))
          in Some ((if a_len > 0 then f OR 0x40 else f) # nonce @ be_bytes (15 - length nonce) msg_len)
     else None)"
proof (cases "7 \<le> length nonce \<and> length nonce \<le> 14 \<and> 2 \<le> tag_len")
  case True
  let ?l = "15 - length nonce"
  have l8: "?l \<le> 8" using True by linarith
  have tail: "slice (be_bytes 8 msg_len) (8 - ?l) 8 = Some (be_bytes ?l msg_len)"
    using be_bytes_tail [OF l8] l8 by (simp add: slice_def)
  have s: "usize_sub 15 (length nonce) = Some ?l" "usize_sub ?l 1 = Some (14 - length nonce)"
    "usize_sub tag_len 2 = Some (tag_len - 2)" "usize_sub 8 ?l = Some (8 - ?l)"
    unfolding usize_sub_def using True by auto
  have c: "copy_at (f # replicate 15 0) 1 nonce = Some (f # nonce @ replicate ?l 0)" for f
    using True by (simp add: copy_at_def)
  have c2: "copy_at (f # nonce @ replicate ?l 0) (16 - ?l) (be_bytes ?l msg_len) = Some (f # nonce @ be_bytes ?l msg_len)" for f
    using True by (simp add: copy_at_def Suc_diff_le take_Cons' drop_Cons')
  show ?thesis
    by (cases "a_len > 0") (simp_all only: build_b0_def Let_def s bind.bind_lunit replicate_16 list_update_code
        nth_Cons_0 if_True if_False c tail c2 True simp_thms)
next
  case False
  then show ?thesis
    by (auto simp: build_b0_def usize_sub_def copy_at_def slice_def Let_def split: if_splits bind_splits)
qed

text \<open>\<open>build_b0\<close> returns the block \<open>B0\<close> of RFC 3610, with the message length reduced to the length
  field (it is cut off when the message is too long for the nonce), for every nonce of 7 to 14 bytes
  and even tag length from 4 to 16; for any other nonce length, or a tag length below 2, it panics.\<close>

theorem build_b0_rfc3610:
  assumes "4 \<le> tag_len" "tag_len \<le> 16"
  shows "build_b0 nonce msg_len a_len tag_len =
    (if 7 \<le> length nonce \<and> length nonce \<le> 14 then Some (ccm_b0 nonce msg_len a_len tag_len) else None)"
proof -
  have t: "(tag_len - 2) div 2 < 8" using assms by simp
  have "14 - length nonce < 8" if "7 \<le> length nonce" using that by simp
  from flags_byte [OF t this] assms show ?thesis
    by (auto simp: build_b0_eval ccm_b0_def ccm_flags_def Let_def simp del: of_nat_add)
qed

lemma build_b0_rfc3610_witness:
  "build_b0 (replicate 13 7) 300 0 8 =
    (if 7 \<le> length (replicate 13 (7 :: u8)) \<and> length (replicate 13 (7 :: u8)) \<le> 14
     then Some (ccm_b0 (replicate 13 7) 300 0 8) else None)"
  by (rule build_b0_rfc3610) simp_all

text \<open>The nonce can be read back from \<open>B0\<close>, and two calls that return the same block have the same
  nonce and message lengths that agree modulo the length field: distinct nonces never share a first
  block.\<close>

theorem build_b0_injective:
  assumes "build_b0 n1 m1 a1 t1 = Some b" "build_b0 n2 m2 a2 t2 = Some b" "length n1 = length n2"
  shows "n1 = n2 \<and> m1 mod 256 ^ (15 - length n1) = m2 mod 256 ^ (15 - length n1)"
proof -
  have "n1 @ be_bytes (15 - length n1) m1 = n2 @ be_bytes (15 - length n2) m2"
    using assms(1,2) by (auto simp: build_b0_eval Let_def split: if_splits)
  with assms(3) have *: "n1 = n2" "be_bytes (15 - length n1) m1 = be_bytes (15 - length n1) m2" by simp_all
  from arg_cong [OF *(2), of be_val] * show ?thesis by (simp add: be_val_be_bytes)
qed

lemma build_b0_injective_witness:
  "replicate 13 (7 :: u8) = replicate 13 7 \<and> (5 :: nat) mod 256 ^ (15 - length (replicate 13 (7 :: u8)))
    = (5 + 65536) mod 256 ^ (15 - length (replicate 13 (7 :: u8)))"
proof (rule build_b0_injective)
  show "build_b0 (replicate 13 7) 5 0 8 = Some (ccm_b0 (replicate 13 7) 5 0 8)"
    by (simp add: build_b0_eval ccm_b0_def ccm_flags_def Let_def)
  show "build_b0 (replicate 13 7) (5 + 65536) 0 8 = Some (ccm_b0 (replicate 13 7) 5 0 8)"
  proof -
    have "be_bytes 2 65541 = be_bytes 2 5" by (rule be_val_inj) (simp_all add: be_val_be_bytes)
    then show ?thesis by (simp add: build_b0_eval ccm_b0_def ccm_flags_def Let_def)
  qed
qed simp

end
