(* ===== verification/Cal_Aead.thy ===== *)
theory Cal_Aead
  imports Ccm
begin

text \<open>
  The contract of an AEAD provider (\<^verbatim>\<open>embedded-cal/src/aead.rs\<close>) whose cipher is a stream cipher with a
  tag over the plain text, as AES-CCM is. The documentation of \<open>encrypt_in_place\<close> and
  \<open>decrypt_in_place\<close> is what the client relies on; \<open>left c p\<close> is what a failed decryption leaves in the
  buffer, which the trait does not fix.
\<close>

text \<open>Seal a message under freshly loaded key data, and open one: what a user of the trait writes.\<close>

definition aead_seal :: "('d, 'alg, 'k, 't) aead_provider \<Rightarrow> 'alg \<Rightarrow> bytes \<Rightarrow> bytes \<Rightarrow> bytes \<Rightarrow> bytes list \<Rightarrow> 'd
    \<Rightarrow> ((bytes \<times> bytes) \<times> 'd) option" where
  "aead_seal P alg key nonce m aad d = do {
     (k, d) \<leftarrow> ap_load_from_keydata P alg key d;
     ((t, c), d) \<leftarrow> ap_encrypt_in_place P k nonce m aad d;
     Some ((ap_tag_bytes P t, c), d)
   }"

definition aead_open :: "('d, 'alg, 'k, 't) aead_provider \<Rightarrow> 'alg \<Rightarrow> bytes \<Rightarrow> bytes \<Rightarrow> bytes \<Rightarrow> bytes \<Rightarrow> bytes list \<Rightarrow> 'd
    \<Rightarrow> (((decryption_failed + unit) \<times> bytes) \<times> 'd) option" where
  "aead_open P alg key nonce c tag aad d = do {
     (k, d) \<leftarrow> ap_load_from_keydata P alg key d;
     ap_decrypt_in_place P k nonce c tag aad d
   }"

locale aead_contract =
  fixes P :: "('d, 'alg, 'k, 't) aead_provider" and alg :: 'alg
    and dev :: "'d \<Rightarrow> bool" and ky :: "'k \<Rightarrow> bytes \<Rightarrow> bool"
    and fits :: "bytes \<Rightarrow> bytes \<Rightarrow> nat \<Rightarrow> bool"
    and crypt :: "bytes \<Rightarrow> bytes \<Rightarrow> bytes \<Rightarrow> bytes"
    and mac :: "bytes \<Rightarrow> bytes \<Rightarrow> bytes \<Rightarrow> bytes \<Rightarrow> bytes"
    and left :: "bytes \<Rightarrow> bytes \<Rightarrow> bytes"
  assumes load_law: "dev d \<Longrightarrow> length key = key_length P alg \<Longrightarrow>
      \<exists>k d'. ap_load_from_keydata P alg key d = Some (k, d') \<and> dev d' \<and> ky k key"
    and encrypt_law: "dev d \<Longrightarrow> ky k key \<Longrightarrow> length nonce = nonce_length P alg \<Longrightarrow> fits nonce (concat aad) (length m) \<Longrightarrow>
      \<exists>t d'. ap_encrypt_in_place P k nonce m aad d = Some ((t, crypt key nonce m), d') \<and> dev d'
        \<and> ap_tag_bytes P t = mac key nonce (concat aad) m"
    and decrypt_law: "dev d \<Longrightarrow> ky k key \<Longrightarrow> length nonce = nonce_length P alg \<Longrightarrow> length tag = tag_length P alg \<Longrightarrow>
      fits nonce (concat aad) (length c) \<Longrightarrow>
      \<exists>d'. ap_decrypt_in_place P k nonce c tag aad d =
        Some ((if tag = mac key nonce (concat aad) (crypt key nonce c) then (Inr (), crypt key nonce c)
               else (Inl DecryptionFailed, left c (crypt key nonce c))), d') \<and> dev d'"
    and crypt_involution: "crypt key nonce (crypt key nonce m) = m"
    and crypt_length: "length (crypt key nonce m) = length m"
    and mac_length: "length (mac key nonce a m) = tag_length P alg"
begin

lemma seal_law:
  assumes "dev d" "length key = key_length P alg" "length nonce = nonce_length P alg" "fits nonce (concat aad) (length m)"
  shows "\<exists>d'. aead_seal P alg key nonce m aad d = Some ((mac key nonce (concat aad) m, crypt key nonce m), d') \<and> dev d'"
proof -
  obtain k d1 where 1: "ap_load_from_keydata P alg key d = Some (k, d1)" "dev d1" "ky k key"
    using load_law [OF assms(1,2)] by blast
  obtain t d2 where "ap_encrypt_in_place P k nonce m aad d1 = Some ((t, crypt key nonce m), d2)" "dev d2"
      "ap_tag_bytes P t = mac key nonce (concat aad) m"
    using encrypt_law [OF 1(2,3) assms(3,4)] by blast
  with 1(1) show ?thesis by (simp add: aead_seal_def)
qed

lemma open_law:
  assumes "dev d" "length key = key_length P alg" "length nonce = nonce_length P alg" "length tag = tag_length P alg"
    "fits nonce (concat aad) (length c)"
  shows "\<exists>d'. aead_open P alg key nonce c tag aad d =
        Some ((if tag = mac key nonce (concat aad) (crypt key nonce c) then (Inr (), crypt key nonce c)
               else (Inl DecryptionFailed, left c (crypt key nonce c))), d') \<and> dev d'"
proof -
  obtain k d1 where 1: "ap_load_from_keydata P alg key d = Some (k, d1)" "dev d1" "ky k key"
    using load_law [OF assms(1,2)] by blast
  from decrypt_law [OF 1(2,3) assms(3-5)] 1(1) show ?thesis by (simp add: aead_open_def)
qed

text \<open>What is sealed opens, under any cutting of the additional data into slices.\<close>

lemma round_trip:
  assumes "dev d" "length key = key_length P alg" "length nonce = nonce_length P alg" "fits nonce (concat aad) (length m)"
    and "concat aad' = concat aad"
  shows "\<exists>t c d1 d2. aead_seal P alg key nonce m aad d = Some ((t, c), d1) \<and> dev d1 \<and> length c = length m
    \<and> aead_open P alg key nonce c t aad' d1 = Some ((Inr (), m), d2) \<and> dev d2"
proof -
  obtain d1 where 1: "aead_seal P alg key nonce m aad d = Some ((mac key nonce (concat aad) m, crypt key nonce m), d1)" "dev d1"
    using seal_law [OF assms(1-4)] by blast
  have "fits nonce (concat aad') (length (crypt key nonce m))" using assms(4,5) by (simp add: crypt_length)
  from open_law [OF 1(2) assms(2,3) mac_length [of key nonce "concat aad" m] this]
  obtain d2 where "aead_open P alg key nonce (crypt key nonce m) (mac key nonce (concat aad) m) aad' d1 = Some ((Inr (), m), d2)" "dev d2"
    using assms(5) by (auto simp: crypt_involution)
  with 1 show ?thesis by (auto simp: crypt_length)
qed

text \<open>A tag that differs from the one the message was sealed with is refused.\<close>

lemma tampered_tag:
  assumes "dev d" "length key = key_length P alg" "length nonce = nonce_length P alg" "fits nonce (concat aad) (length m)"
    and "length t' = tag_length P alg" "t' \<noteq> mac key nonce (concat aad) m"
  shows "\<exists>d'. aead_open P alg key nonce (crypt key nonce m) t' aad d
    = Some ((Inl DecryptionFailed, left (crypt key nonce m) m), d') \<and> dev d'"
  using open_law [OF assms(1-3,5), of aad "crypt key nonce m"] assms(4,6) by (simp add: crypt_length crypt_involution)

end

end
