(* ===== verification/Extender_Direct.thy ===== *)
theory Extender_Direct
  imports Extender_Hmac
begin

text \<open>
  The extender with \<open>IMPLEMENT_SHA2SHORT_PLUMBING = false\<close>: its plumbing forwards to the base's, so it
  keeps the plumbing contract whenever the base does. This is the configuration the hardware back-ends
  are used in.
\<close>

definition direct_config :: extender_config where
  "direct_config = \<lparr> IMPLEMENT_SHA2SHORT = True, IMPLEMENT_SHA2SHORT_PLUMBING = False \<rparr>"

definition direct_absorbed :: "('s \<Rightarrow> bytes \<Rightarrow> bool) \<Rightarrow> 's plumbing_state \<Rightarrow> bytes \<Rightarrow> bool" where
  "direct_absorbed ab s m \<longleftrightarrow> (case s of PlumbingDirect t \<Rightarrow> ab t m | SoftwareSha2Short _ \<Rightarrow> False)"

lemma direct_contract:
  fixes T :: "('d, 's) sha2short"
  assumes "sha2short_contract T dev ab raw"
  shows "sha2short_contract (extender_sha2 direct_config T) dev (direct_absorbed ab) raw"
proof
  note ini = sha2short_contract.s2_init_law [OF assms] and upd = sha2short_contract.s2_update_law [OF assms]
    and fin = sha2short_contract.s2_finalize_law [OF assms]
  let ?X = "extender_sha2 direct_config T"
  have [simp]: "FIRST_CHUNK_SIZE ?X = FIRST_CHUNK_SIZE T" "SEND_PADDING ?X = SEND_PADDING T"
    by (simp_all add: extender_sha2_def direct_config_def)
  fix d :: 'd and s :: "'s plumbing_state" and m data rest :: bytes
  show "FIRST_CHUNK_SIZE ?X \<le> HASH_WRAPPER_MAX_BLOCKSIZE"
    using sha2short_contract.first_fits [OF assms] by simp
  show "FIRST_CHUNK_SIZE ?X = 0 \<or> FIRST_CHUNK_SIZE ?X = SHA2SHORT_BLOCK_SIZE" if "SEND_PADDING ?X"
    using sha2short_contract.padded_first [OF assms] that by simp
  show "length (raw m) = 32" by (rule sha2short_contract.raw_length [OF assms])
  assume d: "dev d"
  show "\<exists>s d'. s2_init ?X Sha256 d = Some (s, d') \<and> dev d' \<and> direct_absorbed ab s []"
    using ini [OF d] by (auto simp: extender_sha2_def direct_config_def ext_s2_init_def direct_absorbed_def)
  assume "direct_absorbed ab s m"
  then obtain t where s: "s = PlumbingDirect t" and t: "ab t m" by (cases s) (auto simp: direct_absorbed_def)
  show "\<exists>s' d'. s2_update ?X s data d = Some (s', d') \<and> dev d' \<and> direct_absorbed ab s' (m @ data)"
    if c: "chunk_ok (FIRST_CHUNK_SIZE ?X) (length m) (length data)"
  proof -
    have "chunk_ok (FIRST_CHUNK_SIZE T) (length m) (length data)" using c by simp
    from upd [OF d t this]
    obtain t' d' where "s2_update T t data d = Some (t', d')" "dev d'" "ab t' (m @ data)" by blast
    then show ?thesis by (simp add: s extender_sha2_def direct_absorbed_def)
  qed
  show "\<exists>d'. s2_finalize ?X s rest (replicate 32 0) d = Some (raw (m @ rest), d') \<and> dev d'"
    if "rest_ok (SEND_PADDING ?X) (FIRST_CHUNK_SIZE ?X) (length m) (length rest)"
    using fin [OF d t] that by (auto simp: s extender_sha2_def direct_config_def)
qed

text \<open>Hash and HMAC of the extender over a base whose plumbing keeps the contract.\<close>

lemma direct_hash_contract:
  fixes B :: "('d, 'bs, 'balg, 'bst, 'bo) extender_base"
  assumes "sha2short_contract (base_sha2 B) dev ab raw"
  shows "hash_contract (extender_hash direct_config B) ExtSha256 dev
    (ext_state (extender_sha2 direct_config (base_sha2 B)) (direct_absorbed ab))
    (plumbed_digest (base_sha2 B) raw) max_message"
proof -
  have "plumbed_digest (extender_sha2 direct_config (base_sha2 B)) raw = plumbed_digest (base_sha2 B) raw"
    by (rule ext) (simp add: plumbed_digest_def extender_sha2_def direct_config_def)
  with extender_hash_contract [OF direct_contract [OF assms]] show ?thesis by simp
qed

lemma direct_hmac_contract:
  fixes B :: "('d, 'bs, 'balg, 'bst, 'bo) extender_base"
  assumes "sha2short_contract (base_sha2 B) dev ab raw"
  shows "hmac_contract (extender_hmac (extender_hash direct_config B)) HmacSha256 dev
    (hmac_key_ok (ext_state (extender_sha2 direct_config (base_sha2 B)) (direct_absorbed ab)) (plumbed_digest (base_sha2 B) raw))
    (hmac_state_ok (ext_state (extender_sha2 direct_config (base_sha2 B)) (direct_absorbed ab)) (plumbed_digest (base_sha2 B) raw))
    (hmac_spec (plumbed_digest (base_sha2 B) raw)) (max_message - 64)"
  by (rule extender_hmac_contract [OF direct_hash_contract [OF assms] extender_hash_len extender_gives_sha256])
    (simp add: max_message_def usize_limit_def)

end
