(* ===== verification/Nrf_Descriptor.thy ===== *)
theory Nrf_Descriptor
  imports Cal_Prelude
begin

text \<open>
  The EasyDMA scatter-gather chains of \<^verbatim>\<open>embedded-cal-nrf54l15/src/descriptor.rs\<close>. A chain is an
  array of descriptors at some address of memory; \<open>first\<close> links them, and the DMA engine walks the
  links from the pointer it is given to the sentinel. \<open>follow\<close> is that walk; what is proved is that it
  meets exactly the descriptors that were pushed, in order.

  The memory region a descriptor points to is represented by its contents: the bytes for an input
  descriptor, the length for an output descriptor (\<open>'m\<close>); \<open>None\<close> is the null pointer.
\<close>

section \<open>The code\<close>

definition LAST_DESC_PTR :: nat where
  "LAST_DESC_PTR = 1"

record 'm descriptor =
  addr :: "'m option"
  next_ptr :: nat
  desc_sz :: u32
  dmatag :: u32

definition descriptor_empty :: "'m descriptor" where
  "descriptor_empty = \<lparr> addr = None, next_ptr = 0, desc_sz = 0, dmatag = 0 \<rparr>"

definition descriptor_new :: "'m \<Rightarrow> u32 \<Rightarrow> u32 \<Rightarrow> 'm descriptor" where
  "descriptor_new a s t = \<lparr> addr = Some a, next_ptr = 0, desc_sz = s, dmatag = t \<rparr>"

record 'm descriptor_chain =
  descs :: "'m descriptor list"
  count :: nat

definition chain_new :: "nat \<Rightarrow> 'm descriptor_chain" where
  "chain_new n = \<lparr> descs = replicate n descriptor_empty, count = 0 \<rparr>"

text \<open>\<open>assert!(self.count < N)\<close>; \<open>N\<close> is the length of the array.\<close>

definition push_descriptor :: "'m descriptor \<Rightarrow> 'm descriptor_chain \<Rightarrow> 'm descriptor_chain option" where
  "push_descriptor desc c =
     (if count c < length (descs c)
      then Some (c \<lparr> descs := (descs c)[count c := desc], count := count c + 1 \<rparr>)
      else None)"

text \<open>A descriptor takes four 32-bit words, so the \<open>i\<close>-th of an array at \<open>base\<close> is at \<open>base + 16 i\<close>.\<close>

definition desc_at :: "nat \<Rightarrow> nat \<Rightarrow> nat" where
  "desc_at base i = base + 16 * i"

fun link_loop :: "nat \<Rightarrow> nat list \<Rightarrow> 'm descriptor list \<Rightarrow> 'm descriptor list" where
  "link_loop base [] ds = ds"
| "link_loop base (i # is) ds = link_loop base is (ds[i - 1 := (ds ! (i - 1)) \<lparr> next_ptr := desc_at base i \<rparr>])"

definition update_links :: "nat \<Rightarrow> 'm descriptor_chain \<Rightarrow> 'm descriptor_chain" where
  "update_links base c =
     (let ds = link_loop base [1..<count c] (descs c)
      in if count c > 0 then
           let l = ds ! (count c - 1)
           in c \<lparr> descs := ds[count c - 1 := l \<lparr> next_ptr := LAST_DESC_PTR, dmatag := dmatag l OR push_bit 5 1 \<rparr>] \<rparr>
         else c \<lparr> descs := ds \<rparr>)"

definition first :: "nat \<Rightarrow> 'm descriptor_chain \<Rightarrow> (nat \<times> 'm descriptor_chain) option" where
  "first base c = (if count c > 0 then Some (desc_at base 0, update_links base c) else None)"

text \<open>\<open>with_first_pointer\<close> passes the pointer on while the chain stays where it is.\<close>

definition with_first_pointer :: "nat \<Rightarrow> 'm descriptor_chain \<Rightarrow> (nat \<Rightarrow> 'm descriptor_chain \<Rightarrow> 'a option) \<Rightarrow> 'a option" where
  "with_first_pointer base c f = do { (p, c) \<leftarrow> first base c; f p c }"

text \<open>\<open>sz\<close>: the assertion that the size is a multiple of 4, and the realignment bit.\<close>

definition sz :: "nat \<Rightarrow> u32 option" where
  "sz n = (if n mod 4 = 0 then Some (of_nat (n OR 0x20000000)) else None)"

definition dmatag_ign :: "nat \<Rightarrow> u32" where
  "dmatag_ign n = push_bit 8 (of_nat n)"

definition push_input :: "bytes \<Rightarrow> u32 \<Rightarrow> bytes descriptor_chain \<Rightarrow> bytes descriptor_chain option" where
  "push_input data tag c = do { s \<leftarrow> sz (length data); push_descriptor (descriptor_new data s tag) c }"

definition push_output :: "nat \<Rightarrow> u32 \<Rightarrow> nat descriptor_chain \<Rightarrow> nat descriptor_chain option" where
  "push_output len tag c = do { s \<leftarrow> sz len; push_descriptor (descriptor_new len s tag) c }"

section \<open>The engine's walk\<close>

text \<open>From pointer \<open>p\<close>, through the \<open>next\<close> fields, to the sentinel; \<open>None\<close> when a pointer leads outside
  the array or the fuel runs out (a cycle).\<close>

fun follow :: "nat \<Rightarrow> nat \<Rightarrow> 'm descriptor list \<Rightarrow> nat \<Rightarrow> 'm descriptor list option" where
  "follow 0 base ds p = None"
| "follow (Suc n) base ds p =
     (if p = LAST_DESC_PTR then Some []
      else if base \<le> p \<and> (p - base) mod 16 = 0 \<and> (p - base) div 16 < length ds
      then do { r \<leftarrow> follow n base ds (next_ptr (ds ! ((p - base) div 16))); Some (ds ! ((p - base) div 16) # r) }
      else None)"

text \<open>What was pushed, as the hardware sees it: region, size and tag, the last tag with bit 5 set.\<close>

fun mark_last :: "('m \<times> u32 \<times> u32) list \<Rightarrow> ('m \<times> u32 \<times> u32) list" where
  "mark_last [] = []"
| "mark_last [(a, s, t)] = [(a, s, t OR push_bit 5 1)]"
| "mark_last (x # y # xs) = x # mark_last (y # xs)"

definition view :: "'m descriptor \<Rightarrow> 'm \<times> u32 \<times> u32" where
  "view d = (the (addr d), desc_sz d, dmatag d)"

section \<open>Pushing\<close>

text \<open>\<open>holds c xs\<close>: the chain holds exactly the descriptors \<open>xs\<close>, in this order.\<close>

definition holds :: "'m descriptor_chain \<Rightarrow> ('m \<times> u32 \<times> u32) list \<Rightarrow> bool" where
  "holds c xs \<longleftrightarrow> count c = length xs \<and> length xs \<le> length (descs c) \<and> map view (take (length xs) (descs c)) = xs"

lemma holds_new [simp]: "holds (chain_new n) []"
  by (simp add: holds_def chain_new_def)

lemma push_descriptor_holds:
  assumes "holds c xs" "length xs < length (descs c)"
  shows "\<exists>c'. push_descriptor (descriptor_new a s t) c = Some c' \<and> holds c' (xs @ [(a, s, t)])
    \<and> length (descs c') = length (descs c)"
proof -
  have k: "count c < length (descs c)" using assms by (simp add: holds_def)
  have "take (count c + 1) ((descs c)[count c := descriptor_new a s t]) = take (count c) (descs c) @ [descriptor_new a s t]"
    using k by (simp add: take_Suc_conv_app_nth)
  then show ?thesis using assms k
    by (simp add: push_descriptor_def holds_def view_def descriptor_new_def)
qed

lemma push_descriptor_full:
  "holds c xs \<Longrightarrow> length xs = length (descs c) \<Longrightarrow> push_descriptor d c = None"
  by (simp add: push_descriptor_def holds_def)

section \<open>Linking\<close>

lemma length_link_loop [simp]: "length (link_loop base is ds) = length ds"
  by (induction base "is" ds rule: link_loop.induct) simp_all

lemma link_loop_nth:
  assumes "n \<le> length ds" "j < length ds" "1 \<le> n"
  shows "link_loop base [1..<n] ds ! j = (if j + 1 < n then (ds ! j) \<lparr> next_ptr := desc_at base (j + 1) \<rparr> else ds ! j)"
proof -
  have "link_loop base [k..<n] ds ! j
      = (if k \<le> j + 1 \<and> j + 1 < n then (ds ! j) \<lparr> next_ptr := desc_at base (j + 1) \<rparr> else ds ! j)"
    if "1 \<le> k" "k \<le> n" "n \<le> length ds" "j < length ds" for k ds j
    using that
  proof (induction "n - k" arbitrary: k ds)
    case (Suc x)
    then have u: "[k..<n] = k # [Suc k..<n]" by (simp add: upt_conv_Cons)
    let ?ds = "ds[k - 1 := (ds ! (k - 1)) \<lparr> next_ptr := desc_at base k \<rparr>]"
    have IH: "link_loop base [Suc k..<n] ?ds ! j
      = (if Suc k \<le> j + 1 \<and> j + 1 < n then (?ds ! j) \<lparr> next_ptr := desc_at base (j + 1) \<rparr> else ?ds ! j)"
      using Suc by (intro Suc.hyps(1)) simp_all
    show ?case
    proof (cases "j + 1 = k")
      case True
      with Suc IH u show ?thesis by auto
    next
      case False
      then have "?ds ! j = ds ! j" using Suc.prems by (auto simp: nth_list_update)
      with False IH u show ?thesis by auto
    qed
  qed simp
  from this [of 1 ds j] assms show ?thesis by simp
qed

lemma mark_last_append: "xs \<noteq> [] \<Longrightarrow> mark_last (ys @ xs) = ys @ mark_last xs"
proof (induction ys)
  case (Cons y ys)
  then show ?case by (cases "ys @ xs") auto
qed simp

lemma length_mark_last [simp]: "length (mark_last xs) = length xs"
  by (induction xs rule: mark_last.induct) auto

text \<open>The array after linking.\<close>

lemma update_links_nth:
  fixes base :: nat
  assumes "holds c xs" "xs \<noteq> []" "j < length xs"
  defines "ds \<equiv> descs (update_links base c)"
  shows "length ds = length (descs c)" "view (ds ! j) = mark_last xs ! j"
    "next_ptr (ds ! j) = (if j + 1 < length xs then desc_at base (j + 1) else LAST_DESC_PTR)"
proof -
  have n: "count c = length xs" "length xs \<le> length (descs c)" and v: "map view (take (length xs) (descs c)) = xs"
    using assms(1) by (simp_all add: holds_def)
  have xj: "view (descs c ! i) = xs ! i" if "i < length xs" for i
    using arg_cong [OF v, of "\<lambda>l. l ! i"] that n by simp
  have n1: "1 \<le> length xs" using assms(2) by (cases xs) auto
  have ds: "ds = (link_loop base [1..<length xs] (descs c))
      [length xs - 1 := (link_loop base [1..<length xs] (descs c) ! (length xs - 1))
        \<lparr> next_ptr := LAST_DESC_PTR, dmatag := dmatag (link_loop base [1..<length xs] (descs c) ! (length xs - 1)) OR push_bit 5 1 \<rparr>]"
    using n n1 assms(2) by (simp add: ds_def update_links_def Let_def)
  show "length ds = length (descs c)" by (simp add: ds)
  have l: "link_loop base [1..<length xs] (descs c) ! i
      = (if i + 1 < length xs then (descs c ! i) \<lparr> next_ptr := desc_at base (i + 1) \<rparr> else descs c ! i)"
    if "i < length xs" for i
    using link_loop_nth [OF n(2) _ n1, of i base] that n by simp
  have xs: "xs = butlast xs @ [last xs]" using assms(2) by simp
  have m: "mark_last xs = butlast xs @ mark_last [last xs]"
    by (subst xs) (rule mark_last_append, simp)
  show "view (ds ! j) = mark_last xs ! j"
  proof (cases "j + 1 < length xs")
    case True
    then have "ds ! j = (descs c ! j) \<lparr> next_ptr := desc_at base (j + 1) \<rparr>" using l [of j] by (simp add: ds)
    moreover have "j < length xs - 1" using True by simp
    then have "mark_last xs ! j = xs ! j" by (simp add: m nth_append nth_butlast)
    ultimately show ?thesis using xj [OF assms(3)] by (simp add: view_def)
  next
    case False
    then have j: "j = length xs - 1" using assms(3) by simp
    obtain a s t where last: "last xs = (a, s, t)" by (cases "last xs")
    have "xs ! j = (a, s, t)" using last assms(2) by (simp add: j last_conv_nth)
    then have vj: "view (descs c ! j) = (a, s, t)" using xj [OF assms(3)] by simp
    have "mark_last xs ! j = (a, s, t OR push_bit 5 1)" by (simp add: m last j nth_append)
    moreover have "link_loop base [1..<length xs] (descs c) ! (length xs - 1) = descs c ! j"
      using l [of "length xs - 1"] False j assms(3) by simp
    then have "view (ds ! j) = (a, s, t OR push_bit 5 1)"
      using vj n assms(3) j n1 by (simp add: ds view_def)
    ultimately show ?thesis by simp
  qed
  show "next_ptr (ds ! j) = (if j + 1 < length xs then desc_at base (j + 1) else LAST_DESC_PTR)"
    using l [of j] n assms(3) n1 by (auto simp: ds nth_list_update)
qed

lemma follow_links:
  assumes "holds c xs" "xs \<noteq> []" "base mod 4 = 0" "j \<le> length xs" "k = length xs - j"
  shows "\<exists>r. follow (Suc k) base (descs (update_links base c)) (if j < length xs then desc_at base j else LAST_DESC_PTR) = Some r
    \<and> map view r = drop j (mark_last xs)"
  using assms(4,5)
proof (induction k arbitrary: j)
  case 0
  then show ?case by simp
next
  case (Suc k)
  let ?ds = "descs (update_links base c)"
  from Suc have j: "j < length xs" by simp
  have p: "desc_at base i \<noteq> LAST_DESC_PTR" for i
  proof -
    have "(base + 16 * i) mod 4 = base mod 4" using mod_mult_self2 [of base 4 "4 * i"] by simp
    then show ?thesis using assms(3) by (auto simp: desc_at_def LAST_DESC_PTR_def)
  qed
  note u = update_links_nth [OF assms(1,2) j, of base]
  have ld: "length xs \<le> length (descs c)" using assms(1) by (simp add: holds_def)
  have jd: "j < length ?ds" using j ld u(1) by simp
  have "Suc j \<le> length xs" "k = length xs - Suc j" using Suc.prems by simp_all
  from Suc.IH [OF this]
  obtain r where r: "follow (Suc k) base ?ds (if Suc j < length xs then desc_at base (Suc j) else LAST_DESC_PTR) = Some r"
    "map view r = drop (Suc j) (mark_last xs)"
    by blast
  have "follow (Suc (Suc k)) base ?ds (desc_at base j) = Some (?ds ! j # r)"
    using r(1) u(3) jd p [of j]
    by (cases "Suc j < length xs"; subst follow.simps(2)) (simp_all add: desc_at_def [of base j] del: follow.simps)
  moreover have "drop j (mark_last xs) = mark_last xs ! j # drop (Suc j) (mark_last xs)"
    using j by (simp add: Cons_nth_drop_Suc)
  ultimately show ?case using r(2) u(2) j by simp
qed


definition demo_chain :: "bytes descriptor_chain" where
  "demo_chain = \<lparr> descs = [descriptor_new [8, 0, 0, 0] 0x20000004 19, descriptor_new [1, 2, 3, 4] 0x20000004 35,
      descriptor_empty], count = 2 \<rparr>"

definition demo_items :: "(bytes \<times> u32 \<times> u32) list" where
  "demo_items = [([8, 0, 0, 0], 0x20000004, 19), ([1, 2, 3, 4], 0x20000004, 35)]"

lemma demo_chain_holds: "holds demo_chain demo_items"
  by (simp add: demo_chain_def demo_items_def holds_def view_def descriptor_new_def)


section \<open>Sizes\<close>

lemma or_exp_add: "n < 2 ^ k \<Longrightarrow> n OR 2 ^ k = n + (2 ^ k :: nat)"
proof -
  assume "n < 2 ^ k"
  then have "n = take_bit k n" by (simp add: take_bit_nat_eq_self)
  then have "\<not> bit n k" by (metis bit_take_bit_iff less_irrefl)
  then have "n AND 2 ^ k = 0" by (intro bit_eqI) (auto simp: bit_and_iff bit_exp_iff)
  then show ?thesis by (metis disjunctive_add_eq_or)
qed

text \<open>The realignment bit sits above every size that fits.\<close>

lemma sz_value:
  assumes "n mod 4 = 0" "n < 2 ^ 29"
  shows "\<exists>s. sz n = Some s \<and> unat s = n + 2 ^ 29"
proof -
  have "unat (word_of_nat (n + 2 ^ 29) :: u32) = n + 2 ^ 29"
    using assms(2) by (subst unat_of_nat) simp
  then show ?thesis using assms(1) or_exp_add [OF assms(2)] by (simp add: sz_def del: of_nat_add)
qed

text \<open>Pushing on an input or output chain that has room and gets a region of whole words.\<close>

definition sz_word :: "nat \<Rightarrow> u32" where
  "sz_word n = of_nat (n OR 0x20000000)"

lemma push_input_holds:
  assumes "holds c xs" "length xs < length (descs c)" "length data mod 4 = 0"
  shows "\<exists>c'. push_input data tag c = Some c' \<and> holds c' (xs @ [(data, sz_word (length data), tag)])
    \<and> length (descs c') = length (descs c)"
  using push_descriptor_holds [OF assms(1,2)] assms(3) by (simp add: push_input_def sz_def sz_word_def)

lemma push_output_holds:
  assumes "holds c xs" "length xs < length (descs c)" "len mod 4 = 0"
  shows "\<exists>c'. push_output len tag c = Some c' \<and> holds c' (xs @ [(len, sz_word len, tag)])
    \<and> length (descs c') = length (descs c)"
  using push_descriptor_holds [OF assms(1,2)] assms(3) by (simp add: push_output_def sz_def sz_word_def)

end
