(* ===== verification/Nrf_Cracen.thy ===== *)
theory Nrf_Cracen
  imports Nrf_Descriptor Extender_Hash
begin

text \<open>
  The CRACEN accelerator of the nRF54L15 (\<^verbatim>\<open>embedded-cal-nrf54l15/src/lib.rs\<close>, \<^verbatim>\<open>microcode.rs\<close>): start-up
  and shut-down, the DMA call, and the SHA-256 plumbing. The registers of the hardware are a record
  of functions on a device state, the parameter \<open>hw\<close>; what the code relies on of them is stated as
  laws in the locale \<open>cracen_sha\<close>. A wait loop is a partial function, \<open>None\<close> when it never ends.

  When the code starts a DMA, the engine reads the two descriptor lists from memory by following
  their links from the two pointer registers: \<open>w_dma_start\<close> gets the lists that \<open>follow\<close> finds there.
\<close>

section \<open>The hardware interface\<close>

datatype rng_fsm = FsmRESET | FsmSTARTUP | FsmFILLFIFO | FsmOTHER | FsmERROR

record 'd cracen =
  w_enable :: "bool \<times> bool \<times> bool \<Rightarrow> 'd \<Rightarrow> 'd"
  w_volatile :: "nat \<Rightarrow> u32 \<Rightarrow> 'd \<Rightarrow> 'd"
  m_rng_enable :: "bool \<Rightarrow> 'd \<Rightarrow> 'd"
  m_rng_softrst_ctest :: "bool \<Rightarrow> 'd \<Rightarrow> 'd"
  r_rng_state :: "'d \<Rightarrow> rng_fsm \<times> 'd"
  r_fifolevel :: "'d \<Rightarrow> nat \<times> 'd"
  r_fifo0 :: "'d \<Rightarrow> u32 \<times> 'd"
  w_fetchaddr :: "nat \<Rightarrow> 'd \<Rightarrow> 'd"
  w_pushaddr :: "nat \<Rightarrow> 'd \<Rightarrow> 'd"
  w_dma_config :: "bool \<times> bool \<times> bool \<times> bool \<times> bool \<Rightarrow> 'd \<Rightarrow> 'd"
  w_dma_start :: "bool \<times> bool \<Rightarrow> (bytes \<times> u32 \<times> u32) list \<Rightarrow> (nat \<times> u32 \<times> u32) list \<Rightarrow> 'd \<Rightarrow> 'd"
  r_dma_status :: "'d \<Rightarrow> (bool \<times> bool \<times> bool) \<times> 'd"
  dma_outputs :: "'d \<Rightarrow> bytes list"

section \<open>Start-up and shut-down\<close>

definition MAX_DESCRIPTOR_CHAIN_LEN :: nat where
  "MAX_DESCRIPTOR_CHAIN_LEN = 6"

text \<open>\<open>BASE\<close> of \<^verbatim>\<open>microcode.rs\<close>; the microcode words themselves (\<^verbatim>\<open>microcode/data.rs\<close>) are firmware of the
  engine and stay a parameter.\<close>

definition MICROCODE_BASE :: nat where
  "MICROCODE_BASE = 0x5180C000"

fun microcode_load_loop :: "'d cracen \<Rightarrow> nat \<Rightarrow> u32 list \<Rightarrow> 'd \<Rightarrow> 'd" where
  "microcode_load_loop hw p [] d = d"
| "microcode_load_loop hw p (word # ws) d = microcode_load_loop hw (p + 4) ws (w_volatile hw p word d)"

definition microcode_load :: "'d cracen \<Rightarrow> u32 list \<Rightarrow> 'd \<Rightarrow> 'd" where
  "microcode_load hw ucode d = microcode_load_loop hw MICROCODE_BASE ucode d"

text \<open>\<open>while fifolevel().read() == 0 {}\<close>, returning the level that ended it.\<close>

partial_function (option) fifo_wait :: "'d cracen \<Rightarrow> 'd \<Rightarrow> (nat \<times> 'd) option" where
  "fifo_wait hw d = (let (l, d) = r_fifolevel hw d in if l > 0 then Some (l, d) else fifo_wait hw d)"

definition cal_new :: "'d cracen \<Rightarrow> u32 list \<Rightarrow> 'd \<Rightarrow> 'd option" where
  "cal_new hw ucode d = do {
     let d = w_enable hw (True, True, True) d;
     let d = microcode_load hw ucode d;
     let d = m_rng_enable hw True d;
     (_, d) \<leftarrow> fifo_wait hw d;
     let (_, d) = r_fifo0 hw d;
     Some d
   }"

definition cal_drop :: "'d cracen \<Rightarrow> 'd \<Rightarrow> 'd" where
  "cal_drop hw d = (let d = m_rng_enable hw False d in w_enable hw (False, False, False) d)"

section \<open>The DMA call\<close>

partial_function (option) dma_wait :: "'d cracen \<Rightarrow> 'd \<Rightarrow> 'd option" where
  "dma_wait hw d =
     (let ((fetchbusy, pushbusy, pushwaitingfifo), d) = r_dma_status hw d
      in if fetchbusy \<or> pushbusy \<or> pushwaitingfifo then dma_wait hw d else Some d)"

text \<open>\<open>at_in\<close> and \<open>at_out\<close> are the addresses of the two chains while they are borrowed.\<close>

definition execute_cryptomaster_dma :: "'d cracen \<Rightarrow> nat \<Rightarrow> nat \<Rightarrow> bytes descriptor_chain \<Rightarrow> nat descriptor_chain \<Rightarrow> 'd
    \<Rightarrow> (bytes list \<times> 'd) option" where
  "execute_cryptomaster_dma hw at_in at_out input_descriptors output_descriptors d =
     with_first_pointer at_in input_descriptors (\<lambda>input_ptr ic.
       with_first_pointer at_out output_descriptors (\<lambda>output_ptr oc. do {
         let d = w_fetchaddr hw input_ptr d;
         let d = w_pushaddr hw output_ptr d;
         let d = w_dma_config hw (True, True, False, False, False) d;
         il \<leftarrow> follow (count ic + 1) at_in (descs ic) input_ptr;
         ol \<leftarrow> follow (count oc + 1) at_out (descs oc) output_ptr;
         let d = w_dma_start hw (True, True) (map view il) (map view ol) d;
         d \<leftarrow> dma_wait hw d;
         Some (dma_outputs hw d, d)
       }))"

text \<open>What a chain call comes down to: the two pushed lists, marked, are started and waited for.\<close>

definition dma_job :: "'d cracen \<Rightarrow> nat \<Rightarrow> nat \<Rightarrow> (bytes \<times> u32 \<times> u32) list \<Rightarrow> (nat \<times> u32 \<times> u32) list \<Rightarrow> 'd
    \<Rightarrow> (bytes list \<times> 'd) option" where
  "dma_job hw at_in at_out ins outs d = do {
     d \<leftarrow> dma_wait hw (w_dma_start hw (True, True) (mark_last ins) (mark_last outs)
       (w_dma_config hw (True, True, False, False, False) (w_pushaddr hw at_out (w_fetchaddr hw at_in d))));
     Some (dma_outputs hw d, d)
   }"

declare follow.simps [simp del]

lemma count_update_links [simp]: "count (update_links base c) = count c"
  by (simp add: update_links_def Let_def)

lemma first_holds:
  "holds c xs \<Longrightarrow> xs \<noteq> [] \<Longrightarrow> first base c = Some (base, update_links base c)"
  by (simp add: first_def holds_def desc_at_def)

lemma execute_dma_eq:
  assumes "holds ic ins" "ins \<noteq> []" "holds oc outs" "outs \<noteq> []" "at_in mod 4 = 0" "at_out mod 4 = 0"
  shows "execute_cryptomaster_dma hw at_in at_out ic oc d = dma_job hw at_in at_out ins outs d"
proof -
  obtain r where r: "follow (count ic + 1) at_in (descs (update_links at_in ic)) at_in = Some r" "map view r = mark_last ins"
    using follow_links [OF assms(1,2,5), of 0 "length ins"] assms(1,2) by (auto simp: holds_def desc_at_def)
  obtain q where q: "follow (count oc + 1) at_out (descs (update_links at_out oc)) at_out = Some q" "map view q = mark_last outs"
    using follow_links [OF assms(3,4,6), of 0 "length outs"] assms(3,4) by (auto simp: holds_def desc_at_def)
  show ?thesis
    using r q by (simp add: execute_cryptomaster_dma_def with_first_pointer_def first_holds [OF assms(1,2)]
        first_holds [OF assms(3,4)] dma_job_def Let_def)
qed

section \<open>SHA-256 plumbing\<close>

text \<open>\<open>HashState\<close>: the intermediate value, or nothing before the first block.\<close>

type_synonym nrf_hash_state = "bytes option"

definition nrf_sha_init :: "sha2_variant \<Rightarrow> 'd \<Rightarrow> (nrf_hash_state \<times> 'd) option" where
  "nrf_sha_init variant d = (if variant = Sha256 then Some (None, d) else None)"

definition nrf_sha_update :: "'d cracen \<Rightarrow> nat \<Rightarrow> nat \<Rightarrow> nrf_hash_state \<Rightarrow> bytes \<Rightarrow> 'd \<Rightarrow> (nrf_hash_state \<times> 'd) option" where
  "nrf_sha_update hw at_in at_out inst data d =
     (if length data mod 64 \<noteq> 0 then None
      else do {
        let header = [0x08, 0x00, 0x00, 0x00];
        oc \<leftarrow> push_output 32 32 (chain_new MAX_DESCRIPTOR_CHAIN_LEN);
        ic \<leftarrow> push_input header 19 (chain_new MAX_DESCRIPTOR_CHAIN_LEN);
        ic \<leftarrow> (case inst of Some state \<Rightarrow> push_input state 99 ic | None \<Rightarrow> Some ic);
        ic \<leftarrow> push_input data 35 ic;
        (outs, d) \<leftarrow> execute_cryptomaster_dma hw at_in at_out ic oc d;
        Some (Some (hd outs), d)
      })"

text \<open>\<open>target.copy_from_slice(&instance.state.unwrap())\<close> panics on another length and on no state.\<close>

definition nrf_sha_finalize :: "nrf_hash_state \<Rightarrow> bytes \<Rightarrow> bytes \<Rightarrow> 'd \<Rightarrow> (bytes \<times> 'd) option" where
  "nrf_sha_finalize inst last_chunk target d =
     (if last_chunk \<noteq> [] then None
      else do { s \<leftarrow> inst; if length target = length s then Some (s, d) else None })"

definition nrf_sha2 :: "'d cracen \<Rightarrow> nat \<Rightarrow> nat \<Rightarrow> ('d, nrf_hash_state) sha2short" where
  "nrf_sha2 hw at_in at_out =
     \<lparr> SUPPORTED = True, SEND_PADDING = True, FIRST_CHUNK_SIZE = 64, UPDATE_MULTICHUNK = True,
       s2_init = nrf_sha_init, s2_update = nrf_sha_update hw at_in at_out, s2_finalize = nrf_sha_finalize \<rparr>"

text \<open>The job of one update, as the hardware gets it.\<close>

definition sha_job_in :: "bytes option \<Rightarrow> bytes \<Rightarrow> (bytes \<times> u32 \<times> u32) list" where
  "sha_job_in st data =
     ([0x08, 0, 0, 0], sz_word 4, 19) #
     (case st of Some s \<Rightarrow> [(s, sz_word (length s), 99)] | None \<Rightarrow> []) @ [(data, sz_word (length data), 35)]"

lemma chain_new_length [simp]: "length (descs (chain_new n)) = n"
  by (simp add: chain_new_def)

lemma nrf_sha_update_eq:
  assumes "length data mod 64 = 0" "\<forall>s. st = Some s \<longrightarrow> length s = 32" "at_in mod 4 = 0" "at_out mod 4 = 0"
  shows "nrf_sha_update hw at_in at_out st data d =
    do { (outs, d) \<leftarrow> dma_job hw at_in at_out (sha_job_in st data) [(32, sz_word 32, 32)] d; Some (Some (hd outs), d) }"
proof -
  let ?n = "chain_new MAX_DESCRIPTOR_CHAIN_LEN"
  have d4: "length data mod 4 = 0" using assms(1) by presburger
  obtain oc where oc: "push_output 32 32 (chain_new MAX_DESCRIPTOR_CHAIN_LEN) = Some oc" "holds oc [(32, sz_word 32, 32)]"
    using push_output_holds [of "chain_new MAX_DESCRIPTOR_CHAIN_LEN" "[]" 32 32] by (auto simp: MAX_DESCRIPTOR_CHAIN_LEN_def)
  obtain ic where ic: "push_input [8, 0, 0, 0] 19 (chain_new MAX_DESCRIPTOR_CHAIN_LEN) = Some ic"
    "holds ic [([8, 0, 0, 0], sz_word 4, 19)]" "length (descs ic) = 6"
    using push_input_holds [of "chain_new MAX_DESCRIPTOR_CHAIN_LEN" "[]" "[8, 0, 0, 0]" 19]
    by (auto simp: MAX_DESCRIPTOR_CHAIN_LEN_def numeral_eq_Suc)
  obtain ic2 where ic2: "(case st of Some state \<Rightarrow> push_input state 99 ic | None \<Rightarrow> Some ic) = Some ic2"
    "holds ic2 (([8, 0, 0, 0], sz_word 4, 19) # (case st of Some s \<Rightarrow> [(s, sz_word (length s), 99)] | None \<Rightarrow> []))"
    "length (descs ic2) = 6"
  proof (cases st)
    case None
    with ic that show ?thesis by simp
  next
    case (Some s)
    then have "length s mod 4 = 0" using assms(2) by simp
    with push_input_holds [OF ic(2), of s 99] ic(3) Some that show ?thesis by auto
  qed
  obtain ic3 where ic3: "push_input data 35 ic2 = Some ic3" "holds ic3 (sha_job_in st data)"
    using push_input_holds [OF ic2(2), of data 35] ic2(3) d4 by (cases st) (auto simp: sha_job_in_def)
  have "sha_job_in st data \<noteq> []" by (simp add: sha_job_in_def)
  from execute_dma_eq [OF ic3(2) this oc(2) _ assms(3,4), of hw d]
  show ?thesis using assms(1) oc ic ic2 ic3 by (simp add: nrf_sha_update_def)
qed

section \<open>The laws of the SHA engine, and the plumbing contract\<close>

definition words_of_bytes :: "bytes \<Rightarrow> u32 list" where
  "words_of_bytes b = map u32_from_be (as_chunks4 b)"

lemma words_of_words_be: "words_of_bytes (words_be ws) = ws"
proof (induction ws)
  case (Cons w ws)
  obtain a b c d where w: "u32_to_be w = [a, b, c, d]"
    using list_four [of "u32_to_be w" 0] by auto
  have "u32_from_be [a, b, c, d] = w" using u32_from_be_to_be [of w] by (simp add: w)
  with Cons w show ?case by (simp add: words_of_bytes_def words_be_def)
qed (simp add: words_of_bytes_def words_be_def)

text \<open>What the hash engine computes: the compression chained over the blocks of the data, from the given
  intermediate value or from the initial value of SHA-256.\<close>

definition sha_engine :: "bytes option \<Rightarrow> bytes \<Rightarrow> bytes" where
  "sha_engine st data =
     words_be (foldl sha256_compress (case st of None \<Rightarrow> sha256_init | Some s \<Rightarrow> words_of_bytes s)
       (blocks64 (length data div 64) data))"

text \<open>The documented behaviour of the engine for a SHA job: it ends, and the 32-byte output region holds
  the new intermediate value. \<open>dev\<close> is whatever invariant of the device this needs.\<close>

locale cracen_sha =
  fixes hw :: "'d cracen" and at_in at_out :: nat and dev :: "'d \<Rightarrow> bool"
  assumes aligned: "at_in mod 4 = 0" "at_out mod 4 = 0"
    and sha_job_law: "dev d \<Longrightarrow> length data mod 64 = 0 \<Longrightarrow> data \<noteq> [] \<Longrightarrow> (\<forall>s. st = Some s \<longrightarrow> length s = 32) \<Longrightarrow>
      \<exists>d'. dma_job hw at_in at_out (sha_job_in st data) [(32, sz_word 32, 32)] d = Some ([sha_engine st data], d') \<and> dev d'"

definition nrf_absorbed :: "nrf_hash_state \<Rightarrow> bytes \<Rightarrow> bool" where
  "nrf_absorbed st m \<longleftrightarrow> length m mod 64 = 0 \<and> st = (if m = [] then None else Some (words_be (sha256_blocks m)))"

lemma sha_engine_absorbed:
  assumes "nrf_absorbed st m" "length data = 64"
  shows "sha_engine st data = words_be (sha256_blocks (m @ data))"
  using assms sha256_blocks_snoc [of m data]
  by (auto simp: nrf_absorbed_def sha_engine_def words_of_words_be)

sublocale cracen_sha \<subseteq> nrf_sha: sha2short_contract "nrf_sha2 hw at_in at_out" dev nrf_absorbed sw_raw
proof
  fix d :: 'd and s :: nrf_hash_state and m data rest :: bytes
  let ?T = "nrf_sha2 hw at_in at_out"
  show "FIRST_CHUNK_SIZE ?T \<le> HASH_WRAPPER_MAX_BLOCKSIZE"
    "FIRST_CHUNK_SIZE ?T = 0 \<or> FIRST_CHUNK_SIZE ?T = SHA2SHORT_BLOCK_SIZE"
    by (simp_all add: nrf_sha2_def HASH_WRAPPER_MAX_BLOCKSIZE_def SHA2SHORT_BLOCK_SIZE_def)
  show "length (sw_raw m) = 32" by (simp add: sw_raw_def)
  assume d: "dev d"
  show "\<exists>s d'. s2_init ?T Sha256 d = Some (s, d') \<and> dev d' \<and> nrf_absorbed s []"
    using d by (simp add: nrf_sha2_def nrf_sha_init_def nrf_absorbed_def)
  assume s: "nrf_absorbed s m"
  show "\<exists>s' d'. s2_update ?T s data d = Some (s', d') \<and> dev d' \<and> nrf_absorbed s' (m @ data)"
    if "chunk_ok (FIRST_CHUNK_SIZE ?T) (length m) (length data)"
  proof -
    have l: "length data = 64"
      using that by (auto simp: chunk_ok_def nrf_sha2_def SHA2SHORT_BLOCK_SIZE_def split: if_splits)
    have s32: "\<forall>x. s = Some x \<longrightarrow> length x = 32" using s by (auto simp: nrf_absorbed_def)
    have m0: "length data mod 64 = 0" and ne: "data \<noteq> []" using l by auto
    obtain d' where "dma_job hw at_in at_out (sha_job_in s data) [(32, sz_word 32, 32)] d = Some ([sha_engine s data], d')"
      "dev d'" using sha_job_law [OF d m0 ne s32] by blast
    moreover have "nrf_absorbed (Some (sha_engine s data)) (m @ data)"
      using s l sha_engine_absorbed [OF s l] by (auto simp: nrf_absorbed_def)
    ultimately show ?thesis
      using nrf_sha_update_eq [OF m0 s32 aligned, of hw d] by (simp add: nrf_sha2_def)
  qed
  show "\<exists>d'. s2_finalize ?T s rest (replicate 32 0) d = Some (sw_raw (m @ rest), d') \<and> dev d'"
    if "rest_ok (SEND_PADDING ?T) (FIRST_CHUNK_SIZE ?T) (length m) (length rest)"
  proof -
    have "rest = []" "m \<noteq> []" using that by (auto simp: rest_ok_def nrf_sha2_def)
    with s d show ?thesis
      by (simp add: nrf_sha2_def nrf_sha_finalize_def nrf_absorbed_def sw_raw_def)
  qed
qed

section \<open>A concrete engine\<close>

text \<open>A device whose SHA engine is the software compression: the state is the content of the output
  regions. It shows that the laws can hold.\<close>

definition sim_dma :: "(bytes \<times> u32 \<times> u32) list \<Rightarrow> bytes list" where
  "sim_dma ins =
     (case map fst ins of
        [h, data] \<Rightarrow> [sha_engine None data]
      | [h, st, data] \<Rightarrow> [sha_engine (Some st) data]
      | _ \<Rightarrow> [])"

definition sim_cracen :: "bytes list cracen" where
  "sim_cracen =
     \<lparr> w_enable = (\<lambda>_ d. d), w_volatile = (\<lambda>_ _ d. d), m_rng_enable = (\<lambda>_ d. d), m_rng_softrst_ctest = (\<lambda>_ d. d),
       r_rng_state = (\<lambda>d. (FsmFILLFIFO, d)), r_fifolevel = (\<lambda>d. (1, d)), r_fifo0 = (\<lambda>d. (0, d)),
       w_fetchaddr = (\<lambda>_ d. d), w_pushaddr = (\<lambda>_ d. d), w_dma_config = (\<lambda>_ d. d),
       w_dma_start = (\<lambda>_ ins _ _. sim_dma ins), r_dma_status = (\<lambda>d. ((False, False, False), d)),
       dma_outputs = (\<lambda>d. d) \<rparr>"

interpretation sim: cracen_sha sim_cracen 4096 8192 "\<lambda>_. True"
proof
  fix d :: "bytes list" and data :: bytes and st :: "bytes option"
  show "\<exists>d'. dma_job sim_cracen 4096 8192 (sha_job_in st data) [(32, sz_word 32, 32)] d = Some ([sha_engine st data], d') \<and> True"
    by (cases st) (simp_all add: dma_job_def sim_cracen_def dma_wait.simps sim_dma_def sha_job_in_def)
qed simp_all

end
