(* ===== verification/Nrf_Aead.thy ===== *)
theory Nrf_Aead
  imports Nrf_Cracen Ccm
begin

text \<open>
  AES-CCM on the nRF54L15 (\<^verbatim>\<open>embedded-cal-nrf54l15/src/aead.rs\<close>): building the header buffer, the input
  and output chains of the BA411E engine, and the two operations. The block cipher and the engine
  are parameters; \<open>cracen_ccm\<close> states the engine's documented behaviour on a CCM job (CBC-MAC and
  counter mode over what the descriptors give it), and the result is RFC 3610.
\<close>

section \<open>Constants\<close>

definition DMATAG_BA411 :: u32 where "DMATAG_BA411 = 1"
definition DMATAG_AES_CFG :: u32 where "DMATAG_AES_CFG = DMATAG_BA411 OR push_bit 4 1"
definition DMATAG_AES_KEY :: u32 where "DMATAG_AES_KEY = DMATAG_BA411 OR push_bit 4 1 OR push_bit 8 0x08"
definition DMATAG_AES_AAD :: u32 where "DMATAG_AES_AAD = DMATAG_BA411 OR push_bit 6 1"
definition DMATAG_AES_DATA :: u32 where "DMATAG_AES_DATA = DMATAG_BA411"
definition AES_CCM_MODE :: u32 where "AES_CCM_MODE = push_bit 13 1"
definition AES_CMD_CCM_ENCRYPT :: u32 where "AES_CMD_CCM_ENCRYPT = AES_CCM_MODE"
definition AES_CMD_CCM_DECRYPT :: u32 where "AES_CMD_CCM_DECRYPT = AES_CCM_MODE OR 1"

definition TAG_LEN :: nat where "TAG_LEN = 8"

section \<open>Algorithms\<close>

datatype nrf_aead_algorithm = NrfCcm16_64_128 | NrfCcm16_64_256

fun nrf_key_length :: "nrf_aead_algorithm \<Rightarrow> nat" where
  "nrf_key_length NrfCcm16_64_128 = 16"
| "nrf_key_length NrfCcm16_64_256 = 32"

definition nrf_tag_length :: "nrf_aead_algorithm \<Rightarrow> nat" where
  "nrf_tag_length a = 8"

definition nrf_nonce_length :: "nrf_aead_algorithm \<Rightarrow> nat" where
  "nrf_nonce_length a = 13"

definition nrf_aead_from_cose_number :: "int \<Rightarrow> nrf_aead_algorithm option" where
  "nrf_aead_from_cose_number number =
     (if number = 10 then Some NrfCcm16_64_128 else if number = 11 then Some NrfCcm16_64_256 else None)"

datatype nrf_aead_key = KeyCcm16_64_128 bytes | KeyCcm16_64_256 bytes

datatype nrf_aead_tag = TagCcm16_64_128 bytes | TagCcm16_64_256 bytes

fun nrf_tag_as_ref :: "nrf_aead_tag \<Rightarrow> bytes" where
  "nrf_tag_as_ref (TagCcm16_64_128 r) = r"
| "nrf_tag_as_ref (TagCcm16_64_256 r) = r"

section \<open>The header buffer\<close>

text \<open>\<open>(n + 15) & !15\<close>\<close>

definition round_up16 :: "nat \<Rightarrow> nat" where
  "round_up16 n = 16 * ((n + 15) div 16)"

fun aad_fill :: "bytes \<Rightarrow> nat \<Rightarrow> bytes list \<Rightarrow> (bytes \<times> nat) option" where
  "aad_fill header_buf aad_len [] = Some (header_buf, aad_len)"
| "aad_fill header_buf aad_len (chunk # cs) = do {
     header_buf \<leftarrow> copy_at header_buf (18 + aad_len) chunk;
     aad_fill header_buf (aad_len + length chunk) cs
   }"

definition nrf_header :: "bytes \<Rightarrow> nat \<Rightarrow> bytes list \<Rightarrow> (bytes \<times> nat) option" where
  "nrf_header nonce msg_len aad = do {
     (header_buf, aad_len) \<leftarrow> aad_fill (replicate 288 0) 0 aad;
     b0 \<leftarrow> build_b0 nonce msg_len aad_len TAG_LEN;
     header_buf \<leftarrow> copy_at header_buf 0 b0;
     let (header_buf, header_data_len) =
       (if aad_len = 0 then (header_buf, 16)
        else (header_buf[16 := of_nat (drop_bit 8 aad_len), 17 := of_nat (aad_len AND 0xFF)], 18 + aad_len));
     let header_padded_len = round_up16 header_data_len;
     header \<leftarrow> slice header_buf 0 header_padded_len;
     Some (header, header_padded_len - header_data_len)
   }"

section \<open>Encryption and decryption\<close>

definition ccm_encrypt :: "'d cracen \<Rightarrow> nat \<Rightarrow> nat \<Rightarrow> bytes \<Rightarrow> bytes \<Rightarrow> bytes \<Rightarrow> bytes list \<Rightarrow> 'd
    \<Rightarrow> ((bytes \<times> bytes) \<times> 'd) option" where
  "ccm_encrypt hw at_in at_out key nonce message aad d = do {
     let cmd = u32_to_le AES_CMD_CCM_ENCRYPT;
     (header, header_ign) \<leftarrow> nrf_header nonce (length message) aad;
     let msg_padded_len = round_up16 (length message);
     let msg_ign = msg_padded_len - length message;
     msg_in_buf \<leftarrow> copy_at (replicate 256 0) 0 message;
     ic \<leftarrow> push_input cmd DMATAG_AES_CFG (chain_new MAX_DESCRIPTOR_CHAIN_LEN);
     ic \<leftarrow> push_input key DMATAG_AES_KEY ic;
     ic \<leftarrow> push_input header (DMATAG_AES_AAD OR dmatag_ign header_ign) ic;
     ic \<leftarrow> (if message \<noteq> [] then do {
              m \<leftarrow> slice msg_in_buf 0 msg_padded_len;
              push_input m (DMATAG_AES_DATA OR dmatag_ign msg_ign) ic
            } else Some ic);
     oc \<leftarrow> push_output (length header) 0 (chain_new MAX_DESCRIPTOR_CHAIN_LEN);
     oc \<leftarrow> (if message \<noteq> [] then push_output msg_padded_len 0 oc else Some oc);
     oc \<leftarrow> push_output 16 0 oc;
     (outs, d) \<leftarrow> execute_cryptomaster_dma hw at_in at_out ic oc d;
     ct_buf \<leftarrow> (if message \<noteq> [] then copy_at (replicate 256 0) 0 (outs ! 1) else Some (replicate 256 0));
     let tag_out_buf = last outs;
     ct \<leftarrow> slice ct_buf 0 (length message);
     tag \<leftarrow> slice tag_out_buf 0 TAG_LEN;
     Some ((tag, ct), d)
   }"

definition ccm_decrypt :: "'d cracen \<Rightarrow> nat \<Rightarrow> nat \<Rightarrow> bytes \<Rightarrow> bytes \<Rightarrow> bytes \<Rightarrow> bytes \<Rightarrow> bytes list \<Rightarrow> 'd
    \<Rightarrow> ((bool \<times> bytes) \<times> 'd) option" where
  "ccm_decrypt hw at_in at_out key nonce ciphertext tag_in aad d = do {
     let cmd = u32_to_le AES_CMD_CCM_DECRYPT;
     (header, header_ign) \<leftarrow> nrf_header nonce (length ciphertext) aad;
     let ct_padded_len = round_up16 (length ciphertext);
     let ct_ign = ct_padded_len - length ciphertext;
     ct_in_buf \<leftarrow> copy_at (replicate 256 0) 0 ciphertext;
     t \<leftarrow> slice tag_in 0 TAG_LEN;
     tag_in_buf \<leftarrow> copy_at (replicate 16 0) 0 t;
     ic \<leftarrow> push_input cmd DMATAG_AES_CFG (chain_new MAX_DESCRIPTOR_CHAIN_LEN);
     ic \<leftarrow> push_input key DMATAG_AES_KEY ic;
     ic \<leftarrow> push_input header (DMATAG_AES_AAD OR dmatag_ign header_ign) ic;
     ic \<leftarrow> (if ciphertext \<noteq> [] then do {
              m \<leftarrow> slice ct_in_buf 0 ct_padded_len;
              push_input m (DMATAG_AES_DATA OR dmatag_ign ct_ign) ic
            } else Some ic);
     ic \<leftarrow> push_input tag_in_buf (DMATAG_AES_DATA OR dmatag_ign (16 - TAG_LEN)) ic;
     oc \<leftarrow> push_output (length header) 0 (chain_new MAX_DESCRIPTOR_CHAIN_LEN);
     oc \<leftarrow> (if ciphertext \<noteq> [] then push_output ct_padded_len 0 oc else Some oc);
     oc \<leftarrow> push_output 16 0 oc;
     (outs, d) \<leftarrow> execute_cryptomaster_dma hw at_in at_out ic oc d;
     pt_buf \<leftarrow> (if ciphertext \<noteq> [] then copy_at (replicate 256 0) 0 (outs ! 1) else Some (replicate 256 0));
     let xor_tag_buf = last outs;
     x \<leftarrow> slice xor_tag_buf 0 TAG_LEN;
     let mac_ok = list_all (\<lambda>b. b = 0) x;
     if mac_ok then do { pt \<leftarrow> slice pt_buf 0 (length ciphertext); Some ((True, pt), d) }
     else Some ((False, ciphertext), d)
   }"

section \<open>The provider\<close>

text \<open>\<open>key.try_into().expect(..)\<close> panics on another length.\<close>

definition nrf_aead_load :: "nrf_aead_algorithm \<Rightarrow> bytes \<Rightarrow> 'd \<Rightarrow> (nrf_aead_key \<times> 'd) option" where
  "nrf_aead_load alg key d =
     (case alg of
        NrfCcm16_64_128 \<Rightarrow> if length key = 16 then Some (KeyCcm16_64_128 key, d) else None
      | NrfCcm16_64_256 \<Rightarrow> if length key = 32 then Some (KeyCcm16_64_256 key, d) else None)"

definition nrf_aead_encrypt :: "'d cracen \<Rightarrow> nat \<Rightarrow> nat \<Rightarrow> nrf_aead_key \<Rightarrow> bytes \<Rightarrow> bytes \<Rightarrow> bytes list \<Rightarrow> 'd
    \<Rightarrow> ((nrf_aead_tag \<times> bytes) \<times> 'd) option" where
  "nrf_aead_encrypt hw at_in at_out key nonce message aad d =
     (case key of
        KeyCcm16_64_128 k \<Rightarrow> do {
          ((t, m), d) \<leftarrow> ccm_encrypt hw at_in at_out k nonce message aad d;
          Some ((TagCcm16_64_128 t, m), d) }
      | KeyCcm16_64_256 k \<Rightarrow> do {
          ((t, m), d) \<leftarrow> ccm_encrypt hw at_in at_out k nonce message aad d;
          Some ((TagCcm16_64_256 t, m), d) })"

definition nrf_aead_decrypt :: "'d cracen \<Rightarrow> nat \<Rightarrow> nat \<Rightarrow> nrf_aead_key \<Rightarrow> bytes \<Rightarrow> bytes \<Rightarrow> bytes \<Rightarrow> bytes list \<Rightarrow> 'd
    \<Rightarrow> (((decryption_failed + unit) \<times> bytes) \<times> 'd) option" where
  "nrf_aead_decrypt hw at_in at_out key nonce cyphertext tag aad d = do {
     ((ok, m), d) \<leftarrow> (case key of
        KeyCcm16_64_128 k \<Rightarrow> ccm_decrypt hw at_in at_out k nonce cyphertext tag aad d
      | KeyCcm16_64_256 k \<Rightarrow> ccm_decrypt hw at_in at_out k nonce cyphertext tag aad d);
     Some ((if ok then Inr () else Inl DecryptionFailed, m), d)
   }"

definition nrf_aead :: "'d cracen \<Rightarrow> nat \<Rightarrow> nat \<Rightarrow> ('d, nrf_aead_algorithm, nrf_aead_key, nrf_aead_tag) aead_provider" where
  "nrf_aead hw at_in at_out =
     \<lparr> key_length = nrf_key_length, tag_length = nrf_tag_length, nonce_length = nrf_nonce_length,
       aead_from_cose_number = nrf_aead_from_cose_number, ap_load_from_keydata = nrf_aead_load,
       ap_encrypt_in_place = nrf_aead_encrypt hw at_in at_out,
       ap_decrypt_in_place = nrf_aead_decrypt hw at_in at_out, ap_tag_bytes = nrf_tag_as_ref \<rparr>"

section \<open>The header is RFC 3610's\<close>

lemma round_up16_bounds: "n \<le> round_up16 n" "round_up16 n < n + 16" "round_up16 n mod 16 = 0"
  unfolding round_up16_def by linarith+ simp

lemma pad16_round_up: "pad16 x = x @ replicate (round_up16 (length x) - length x) 0"
proof -
  have "(16 - length x mod 16) mod 16 = round_up16 (length x) - length x"
  proof -
    obtain q r where x: "length x = 16 * q + r" "r < 16" by (metis mod_less_divisor mult_div_mod_eq zero_less_numeral)
    show ?thesis
    proof (cases "r = 0")
      case True
      then show ?thesis using x by (simp add: round_up16_def)
    next
      case False
      then have "(length x + 15) div 16 = q + 1" "length x mod 16 = r" using x by auto
      then show ?thesis using x False by (simp add: round_up16_def)
    qed
  qed
  then show ?thesis by (simp add: pad16_def)
qed

lemma length_pad16_round_up: "length (pad16 x) = round_up16 (length x)"
  using round_up16_bounds(1) [of "length x"] by (simp add: pad16_round_up)

lemma aad_fill_eq:
  "18 + k + length (concat cs) \<le> n \<Longrightarrow> length pre = 18 + k \<Longrightarrow>
   aad_fill (pre @ replicate (n - (18 + k)) 0) k cs
     = Some (pre @ concat cs @ replicate (n - (18 + k + length (concat cs))) 0, k + length (concat cs))"
proof (induction cs arbitrary: pre k)
  case (Cons c cs)
  have "copy_at (pre @ replicate (n - (18 + k)) 0) (18 + k) c
      = Some ((pre @ c) @ replicate (n - (18 + (k + length c))) 0)"
    using Cons.prems by (simp add: copy_at_def)
  then show ?case using Cons.IH [of "k + length c" "pre @ c"] Cons.prems by (simp add: add.assoc)
qed simp

lemma aad_fill_too_long:
  "n < 18 + k + length (concat cs) \<Longrightarrow> length buf = n \<Longrightarrow> 18 + k \<le> n \<Longrightarrow> aad_fill buf k cs = None"
proof (induction cs arbitrary: buf k)
  case (Cons c cs)
  show ?case
  proof (cases "18 + k + length c \<le> n")
    case True
    then show ?thesis using Cons.IH [of "k + length c" "take (18 + k) buf @ c @ drop (18 + k + length c) buf"] Cons.prems
      by (simp add: copy_at_def)
  next
    case False
    then show ?thesis using Cons.prems by (simp add: copy_at_def)
  qed
qed simp

lemma build_b0_13: "length nonce = 13 \<Longrightarrow> build_b0 nonce ml al TAG_LEN = Some (ccm_b0 nonce ml al 8)"
proof -
  assume n: "length nonce = 13"
  have "14 - length nonce < 8" "(8 - 2) div 2 < (8 :: nat)" by (simp_all add: n)
  from flags_byte [OF this(2,1)] n show ?thesis
    by (auto simp: build_b0_eval ccm_b0_def ccm_flags_def Let_def TAG_LEN_def simp del: of_nat_add)
qed

lemma nrf_header_eq:
  assumes "length nonce = 13" "length (concat aad) \<le> 270"
  shows "\<exists>ign. nrf_header nonce ml aad = Some (ccm_header nonce ml (concat aad) 8, ign)"
proof -
  define a where "a = concat aad"
  define n where "n = length a"
  have na: "n \<le> 270" using assms(2) by (simp add: n_def a_def)
  let ?b0 = "ccm_b0 nonce ml n 8"
  have lb: "length ?b0 = 16" using assms(1) by (intro length_ccm_b0) simp
  have fill: "aad_fill (replicate 288 0) 0 aad = Some (replicate 18 0 @ a @ replicate (270 - n) 0, n)"
    using aad_fill_eq [of 0 aad 288 "replicate 18 0"] na
    by (simp add: a_def n_def replicate_add [symmetric])
  have cp: "copy_at (replicate 18 0 @ a @ replicate (270 - n) 0) 0 ?b0 = Some (?b0 @ [0, 0] @ a @ replicate (270 - n) 0)"
    using lb by (simp add: copy_at_def numeral_2_eq_2)
  show ?thesis
  proof (cases "n = 0")
    case True
    then have "a = []" by (simp add: n_def)
    then show ?thesis
      using fill cp lb True
      by (simp add: nrf_header_def build_b0_13 [OF assms(1)] round_up16_def slice_def ccm_header_def ccm_adata_def
          a_def [symmetric] Let_def)
  next
    case False
    then have ne: "a \<noteq> []" by (auto simp: n_def)
    let ?x = "be_bytes 2 n @ a"
    have upd: "(?b0 @ [0, 0] @ a @ replicate (270 - n) 0)[16 := of_nat (drop_bit 8 n), 17 := of_nat (n AND 0xFF)]
        = ?b0 @ ?x @ replicate (270 - n) 0"
      using lb by (simp add: be_bytes_2 list_update_append)
    define z where "z = round_up16 (2 + n)"
    have ru: "round_up16 (18 + n) = 16 + z"
    proof -
      have "18 + n + 15 = (2 + n + 15) + 16" by simp
      then show ?thesis by (simp only: round_up16_def z_def div_add_self2) simp
    qed
    have ge: "2 + n \<le> z" unfolding z_def by (rule round_up16_bounds)
    have le: "z \<le> 272"
    proof -
      have "(2 + n + 15) div 16 \<le> 287 div 16" by (rule div_le_mono) (use na in simp)
      then show ?thesis by (simp add: z_def round_up16_def)
    qed
    have lx: "length ?x = 2 + n" by (simp add: n_def)
    have px: "pad16 ?x = ?x @ replicate (z - (2 + n)) 0"
      unfolding pad16_round_up lx z_def [symmetric] ..
    have tk: "take (16 + z) (?b0 @ ?x @ replicate (270 - n) 0) = ?b0 @ pad16 ?x"
      unfolding px using lb le ge na lx by simp
    have sl: "slice (?b0 @ ?x @ replicate (270 - n) 0) 0 (16 + z) = Some (?b0 @ pad16 ?x)"
      using lb le ge na tk lx by (simp add: slice_def)
    have "nrf_header nonce ml aad = Some (?b0 @ pad16 ?x, 16 + z - (18 + n))"
      unfolding nrf_header_def using False
      by (simp only: fill cp build_b0_13 [OF assms(1)] upd ru sl Let_def bind.bind_lunit case_prod_conv if_False)
    then show ?thesis using ne by (simp add: ccm_header_def ccm_adata_def a_def [symmetric] n_def)
  qed
qed

section \<open>The jobs\<close>

definition ccm_job_in :: "bytes \<Rightarrow> bytes \<Rightarrow> bytes \<Rightarrow> nat \<Rightarrow> bytes \<Rightarrow> bytes list \<Rightarrow> (bytes \<times> u32 \<times> u32) list" where
  "ccm_job_in cmd key header header_ign m tags =
     [(cmd, sz_word 4, DMATAG_AES_CFG), (key, sz_word (length key), DMATAG_AES_KEY),
      (header, sz_word (length header), DMATAG_AES_AAD OR dmatag_ign header_ign)]
     @ (if m = [] then []
        else [(pad16 m, sz_word (length (pad16 m)), DMATAG_AES_DATA OR dmatag_ign (length (pad16 m) - length m))])
     @ map (\<lambda>t. (t, sz_word (length t), DMATAG_AES_DATA OR dmatag_ign (16 - TAG_LEN))) tags"

definition ccm_job_out :: "bytes \<Rightarrow> bytes \<Rightarrow> (nat \<times> u32 \<times> u32) list" where
  "ccm_job_out header m =
     [(length header, sz_word (length header), 0)]
     @ (if m = [] then [] else [(length (pad16 m), sz_word (length (pad16 m)), 0)]) @ [(16, sz_word 16, 0)]"

text \<open>The nonce and the tag as the engine derives them from the header it is fed.\<close>

definition engine_nonce :: "bytes \<Rightarrow> bytes" where
  "engine_nonce header = take (14 - unat (header ! 0 AND 7)) (drop 1 header)"

definition engine_tag :: "(bytes \<Rightarrow> bytes) \<Rightarrow> bytes \<Rightarrow> bytes \<Rightarrow> bytes" where
  "engine_tag E header m = xor_bytes (cbc_mac E (header @ pad16 m)) (E (ccm_ctr (engine_nonce header) 0))"

lemma engine_nonce_header: "length nonce = 13 \<Longrightarrow> engine_nonce (ccm_header nonce ml a 8) = nonce"
  by (simp add: engine_nonce_def ccm_header_def ccm_b0_def ccm_flags_def Let_def)

lemma engine_tag_header: "length nonce = 13 \<Longrightarrow> take 8 (engine_tag E (ccm_header nonce (length m) a 8) m) = ccm_tag E nonce a m 8"
  by (simp add: engine_tag_def engine_nonce_header ccm_tag_def)

lemma length_cbc_mac: "(\<And>b. length (E b) = 16) \<Longrightarrow> length (cbc_mac E x) = 16"
proof -
  assume E: "\<And>b. length (E b) = 16"
  have "length (foldl (\<lambda>s b. E (xor_bytes s b)) s bs) = 16" if "length s = 16" for s bs
    using that by (induction bs arbitrary: s) (simp_all add: E)
  then show ?thesis by (simp add: cbc_mac_def)
qed

lemma length_engine_tag: "(\<And>b. length (E b) = 16) \<Longrightarrow> length (engine_tag E h m) = 16"
  by (simp add: engine_tag_def length_cbc_mac)

lemma length_ccm_header: "length nonce = 13 \<Longrightarrow> length (ccm_header nonce ml a 8) mod 16 = 0"
  using length_pad16 (1) [of "be_bytes 2 (length a) @ a"]
  by (auto simp: ccm_header_def ccm_adata_def length_ccm_b0)

lemma msg_buffer: 
  assumes "length m \<le> 256"
  shows "\<exists>b. copy_at (replicate 256 0) 0 m = Some b \<and> slice b 0 (round_up16 (length m)) = Some (pad16 m)"
proof -
  let ?b = "m @ replicate (256 - length m) 0"
  have "(length m + 15) div 16 \<le> 271 div 16" by (rule div_le_mono) (use assms in simp)
  then have "round_up16 (length m) \<le> 256" by (simp add: round_up16_def)
  moreover have "length m \<le> round_up16 (length m)" by (rule round_up16_bounds)
  ultimately have "slice ?b 0 (round_up16 (length m)) = Some (pad16 m)"
    using assms by (simp add: slice_def pad16_round_up)
  moreover have "copy_at (replicate 256 0) 0 m = Some ?b" using assms by (simp add: copy_at_def)
  ultimately show ?thesis by blast
qed

text \<open>A chain that has been given some descriptors and has room for more.\<close>

definition room :: "'m descriptor_chain \<Rightarrow> ('m \<times> u32 \<times> u32) list \<Rightarrow> bool" where
  "room c xs \<longleftrightarrow> holds c xs \<and> length (descs c) = MAX_DESCRIPTOR_CHAIN_LEN"

lemma room_new: "room (chain_new MAX_DESCRIPTOR_CHAIN_LEN) []"
  by (simp add: room_def)

lemma push_input_room:
  assumes "room c xs" "length xs < 6" "length data mod 4 = 0"
  obtains c' where "push_input data tag c = Some c'" "room c' (xs @ [(data, sz_word (length data), tag)])"
  using push_input_holds [of c xs data tag] assms by (auto simp: room_def MAX_DESCRIPTOR_CHAIN_LEN_def)

lemma push_output_room:
  assumes "room c xs" "length xs < 6" "len mod 4 = 0"
  obtains c' where "push_output len tag c = Some c'" "room c' (xs @ [(len, sz_word len, tag)])"
  using push_output_holds [of c xs len tag] assms by (auto simp: room_def MAX_DESCRIPTOR_CHAIN_LEN_def)

lemma mod16_mod4: "(n :: nat) mod 16 = 0 \<Longrightarrow> n mod 4 = 0"
  by presburger

text \<open>The input chain up to the message, and the output chain, that both operations build.\<close>

lemma ccm_input_chain:
  assumes "length key mod 4 = 0" "length header mod 16 = 0" "length cmd = 4"
  obtains c1 c2 c3 ic where "push_input cmd DMATAG_AES_CFG (chain_new MAX_DESCRIPTOR_CHAIN_LEN) = Some c1"
    "push_input key DMATAG_AES_KEY c1 = Some c2"
    "push_input header (DMATAG_AES_AAD OR dmatag_ign hign) c2 = Some c3"
    "(if m \<noteq> [] then push_input (pad16 m) (DMATAG_AES_DATA OR dmatag_ign (length (pad16 m) - length m)) c3 else Some c3) = Some ic"
    "room ic (ccm_job_in cmd key header hign m [])"
proof -
  have "length cmd mod 4 = 0" using assms(3) by simp
  then obtain c1 where 1: "push_input cmd DMATAG_AES_CFG (chain_new MAX_DESCRIPTOR_CHAIN_LEN) = Some c1"
    "room c1 ([] @ [(cmd, sz_word (length cmd), DMATAG_AES_CFG)])"
    using push_input_room [OF room_new] by (metis length_greater_0_conv list.size(3) zero_less_numeral)
  obtain c2 where 2: "push_input key DMATAG_AES_KEY c1 = Some c2"
    "room c2 (([] @ [(cmd, sz_word (length cmd), DMATAG_AES_CFG)]) @ [(key, sz_word (length key), DMATAG_AES_KEY)])"
    using push_input_room [OF 1(2) _ assms(1)] by auto
  have h4: "length header mod 4 = 0" using assms(2) by (rule mod16_mod4)
  let ?l = "(([] @ [(cmd, sz_word (length cmd), DMATAG_AES_CFG)]) @ [(key, sz_word (length key), DMATAG_AES_KEY)])
      @ [(header, sz_word (length header), DMATAG_AES_AAD OR dmatag_ign hign)]"
  obtain c3 where 3: "push_input header (DMATAG_AES_AAD OR dmatag_ign hign) c2 = Some c3" "room c3 ?l"
    using push_input_room [OF 2(2) _ h4] by auto
  show ?thesis
  proof (cases "m = []")
    case True
    with that 1(1) 2(1) 3 assms(3) show ?thesis by (simp add: ccm_job_in_def)
  next
    case False
    have p4: "length (pad16 m) mod 4 = 0" using length_pad16(1) by (rule mod16_mod4)
    obtain c4 where "push_input (pad16 m) (DMATAG_AES_DATA OR dmatag_ign (length (pad16 m) - length m)) c3 = Some c4"
      "room c4 (?l @ [(pad16 m, sz_word (length (pad16 m)), DMATAG_AES_DATA OR dmatag_ign (length (pad16 m) - length m))])"
      using push_input_room [OF 3(2) _ p4] by auto
    with that 1(1) 2(1) 3 assms(3) False show ?thesis by (simp add: ccm_job_in_def)
  qed
qed

lemma ccm_output_chain:
  assumes "length header mod 16 = 0"
  obtains c1 c2 oc where "push_output (length header) 0 (chain_new MAX_DESCRIPTOR_CHAIN_LEN) = Some c1"
    "(if m \<noteq> [] then push_output (length (pad16 m)) 0 c1 else Some c1) = Some c2"
    "push_output 16 0 c2 = Some oc" "room oc (ccm_job_out header m)"
proof -
  have h4: "length header mod 4 = 0" using assms by (rule mod16_mod4)
  have p4: "length (pad16 m) mod 4 = 0" using length_pad16(1) by (rule mod16_mod4)
  obtain c1 where 1: "push_output (length header) 0 (chain_new MAX_DESCRIPTOR_CHAIN_LEN) = Some c1"
    "room c1 ([] @ [(length header, sz_word (length header), 0)])"
    using push_output_room [OF room_new _ h4] by auto
  obtain c2 where 2: "(if m \<noteq> [] then push_output (length (pad16 m)) 0 c1 else Some c1) = Some c2"
    "room c2 ([(length header, sz_word (length header), 0)] @ (if m = [] then [] else [(length (pad16 m), sz_word (length (pad16 m)), 0)]))"
  proof (cases "m = []")
    case True
    with that 1 show ?thesis by simp
  next
    case False
    obtain c2 where "push_output (length (pad16 m)) 0 c1 = Some c2"
      "room c2 (([] @ [(length header, sz_word (length header), 0)]) @ [(length (pad16 m), sz_word (length (pad16 m)), 0)])"
      using push_output_room [OF 1(2) _ p4] by auto
    with that False show ?thesis by simp
  qed
  obtain c3 where "push_output 16 0 c2 = Some c3"
    "room c3 (([(length header, sz_word (length header), 0)] @ (if m = [] then [] else [(length (pad16 m), sz_word (length (pad16 m)), 0)]))
      @ [(16, sz_word 16, 0)])"
    by (rule push_output_room [OF 2(2), where len = 16 and tag = 0]) simp_all
  with that 1(1) 2(1) show ?thesis by (simp add: ccm_job_out_def)
qed

lemma execute_room:
  assumes "room ic (ccm_job_in cmd key header hign m tags)" "room oc (ccm_job_out header m)" "at_in mod 4 = 0" "at_out mod 4 = 0"
  shows "execute_cryptomaster_dma hw at_in at_out ic oc d
    = dma_job hw at_in at_out (ccm_job_in cmd key header hign m tags) (ccm_job_out header m) d"
proof (rule execute_dma_eq)
  show "ccm_job_in cmd key header hign m tags \<noteq> []" "ccm_job_out header m \<noteq> []"
    by (simp_all add: ccm_job_in_def ccm_job_out_def)
qed (use assms in \<open>simp_all add: room_def\<close>)

lemma xor_eq_0_u8: "(a XOR b :: u8) = 0 \<longleftrightarrow> a = b"
  by (metis xor.assoc xor.right_neutral xor_self_eq)

lemma xor_bytes_zero: "length x = length y \<Longrightarrow> list_all (\<lambda>b. b = 0) (xor_bytes x y) \<longleftrightarrow> x = y"
  by (induction x y rule: list_induct2) (simp_all add: xor_bytes_def xor_eq_0_u8)

section \<open>The laws of the CCM engine\<close>

locale cracen_ccm =
  fixes hw :: "'d cracen" and at_in at_out :: nat and dev :: "'d \<Rightarrow> bool" and E :: "bytes \<Rightarrow> bytes \<Rightarrow> bytes"
  assumes aligned: "at_in mod 4 = 0" "at_out mod 4 = 0"
    and block: "length (E k b) = 16"
    and encrypt_job_law: "dev d \<Longrightarrow> length key = 16 \<or> length key = 32 \<Longrightarrow> length header mod 16 = 0 \<Longrightarrow>
      \<exists>scratch ct d'. dma_job hw at_in at_out (ccm_job_in (u32_to_le AES_CMD_CCM_ENCRYPT) key header hign m [])
          (ccm_job_out header m) d
        = Some ((scratch # (if m = [] then [] else [ct])) @ [engine_tag (E key) header m], d') \<and> dev d'
        \<and> length ct = length (pad16 m) \<and> take (length m) ct = ccm_crypt (E key) (engine_nonce header) m"
    and decrypt_job_law: "dev d \<Longrightarrow> length key = 16 \<or> length key = 32 \<Longrightarrow> length header mod 16 = 0 \<Longrightarrow> length tag = 16 \<Longrightarrow>
      \<exists>scratch pt x d'. dma_job hw at_in at_out (ccm_job_in (u32_to_le AES_CMD_CCM_DECRYPT) key header hign c [tag])
          (ccm_job_out header c) d
        = Some ((scratch # (if c = [] then [] else [pt])) @ [x], d') \<and> dev d'
        \<and> length pt = length (pad16 c) \<and> take (length c) pt = ccm_crypt (E key) (engine_nonce header) c
        \<and> length x = 16
        \<and> take TAG_LEN x = xor_bytes (take TAG_LEN (engine_tag (E key) header (ccm_crypt (E key) (engine_nonce header) c))) (take TAG_LEN tag)"
begin

lemma ccm_encrypt_law:
  assumes "dev d" "length key = 16 \<or> length key = 32" "length nonce = 13" "length m \<le> 256" "length (concat aad) \<le> 270"
  shows "\<exists>d'. ccm_encrypt hw at_in at_out key nonce m aad d
      = Some ((ccm_tag (E key) nonce (concat aad) m 8, ccm_crypt (E key) nonce m), d') \<and> dev d'"
proof -
  let ?h = "ccm_header nonce (length m) (concat aad) 8"
  obtain hign where h: "nrf_header nonce (length m) aad = Some (?h, hign)"
    using nrf_header_eq [OF assms(3,5)] by blast
  have hl: "length ?h mod 16 = 0" by (rule length_ccm_header [OF assms(3)])
  obtain b where b: "copy_at (replicate 256 0) 0 m = Some b" "slice b 0 (round_up16 (length m)) = Some (pad16 m)"
    using msg_buffer [OF assms(4)] by blast
  have k4: "length key mod 4 = 0" using assms(2) by auto
  obtain c1 c2 c3 ic where i: "push_input (u32_to_le AES_CMD_CCM_ENCRYPT) DMATAG_AES_CFG (chain_new MAX_DESCRIPTOR_CHAIN_LEN) = Some c1"
    "push_input key DMATAG_AES_KEY c1 = Some c2" "push_input ?h (DMATAG_AES_AAD OR dmatag_ign hign) c2 = Some c3"
    "(if m \<noteq> [] then push_input (pad16 m) (DMATAG_AES_DATA OR dmatag_ign (length (pad16 m) - length m)) c3 else Some c3) = Some ic"
    "room ic (ccm_job_in (u32_to_le AES_CMD_CCM_ENCRYPT) key ?h hign m [])"
    by (rule ccm_input_chain [OF k4 hl, where m = m and hign = hign and cmd = "u32_to_le AES_CMD_CCM_ENCRYPT"]) simp_all
  obtain o1 o2 oc where oc: "push_output (length ?h) 0 (chain_new MAX_DESCRIPTOR_CHAIN_LEN) = Some o1"
    "(if m \<noteq> [] then push_output (length (pad16 m)) 0 o1 else Some o1) = Some o2"
    "push_output 16 0 o2 = Some oc" "room oc (ccm_job_out ?h m)"
    by (rule ccm_output_chain [OF hl, where m = m])
  obtain scratch ct d' where j: "dma_job hw at_in at_out (ccm_job_in (u32_to_le AES_CMD_CCM_ENCRYPT) key ?h hign m []) (ccm_job_out ?h m) d
      = Some ((scratch # (if m = [] then [] else [ct])) @ [engine_tag (E key) ?h m], d')" "dev d'"
    "length ct = length (pad16 m)" "take (length m) ct = ccm_crypt (E key) (engine_nonce ?h) m"
    using encrypt_job_law [OF assms(1,2) hl] by blast
  have e: "execute_cryptomaster_dma hw at_in at_out ic oc d
      = Some ((scratch # (if m = [] then [] else [ct])) @ [engine_tag (E key) ?h m], d')"
    by (rule trans [OF execute_room [OF i(5) oc(4) aligned] j(1)])
  have tag: "slice (engine_tag (E key) ?h m) 0 TAG_LEN = Some (ccm_tag (E key) nonce (concat aad) m 8)"
    using engine_tag_header [OF assms(3)] by (simp add: slice_def TAG_LEN_def length_engine_tag block)
  have ru: "round_up16 (length m) = length (pad16 m)" by (simp add: length_pad16_round_up)
  show ?thesis
  proof (cases "m = []")
    case True
    then show ?thesis using h b i oc e tag j(2) ru
      by (simp add: ccm_encrypt_def slice_def [of "replicate 256 0"] ccm_crypt_def xor_bytes_def)
  next
    case False
    have l: "length (pad16 m) \<le> 256"
    proof -
      have "(length m + 15) div 16 \<le> 271 div 16" by (rule div_le_mono) (use assms(4) in simp)
      then show ?thesis by (simp add: length_pad16_round_up round_up16_def)
    qed
    obtain cb where cb: "copy_at (replicate 256 0) 0 ct = Some cb" "slice cb 0 (length m) = Some (ccm_crypt (E key) nonce m)"
    proof -
      have "length m \<le> length ct" using j(3) length_pad16(2) [of m] by simp
      then have "slice (ct @ drop (length ct) (replicate 256 0)) 0 (length m) = Some (ccm_crypt (E key) nonce m)"
        using j(4) by (simp add: slice_def engine_nonce_header [OF assms(3)])
      with that l j(3) show ?thesis by (simp add: copy_at_def)
    qed
    show ?thesis using False h b i oc e tag j(2) cb ru by (simp add: ccm_encrypt_def)
  qed
qed

lemma ccm_decrypt_law:
  assumes "dev d" "length key = 16 \<or> length key = 32" "length nonce = 13" "length c \<le> 256" "length (concat aad) \<le> 270"
    and "8 \<le> length tag"
  defines "p \<equiv> ccm_crypt (E key) nonce c"
  shows "\<exists>d'. ccm_decrypt hw at_in at_out key nonce c tag aad d
      = Some ((if take 8 tag = ccm_tag (E key) nonce (concat aad) p 8 then (True, p) else (False, c)), d') \<and> dev d'"
proof -
  let ?h = "ccm_header nonce (length c) (concat aad) 8"
  let ?t = "take 8 tag @ replicate 8 0"
  have tl: "length ?t = 16" using assms(6) by simp
  have lp: "length p = length c" by (simp add: p_def block)
  obtain hign where h: "nrf_header nonce (length c) aad = Some (?h, hign)"
    using nrf_header_eq [OF assms(3,5)] by blast
  have hl: "length ?h mod 16 = 0" by (rule length_ccm_header [OF assms(3)])
  obtain b where b: "copy_at (replicate 256 0) 0 c = Some b" "slice b 0 (round_up16 (length c)) = Some (pad16 c)"
    using msg_buffer [OF assms(4)] by blast
  have t: "slice tag 0 TAG_LEN = Some (take 8 tag)" "copy_at (replicate 16 0) 0 (take 8 tag) = Some ?t"
    using assms(6) by (simp_all add: slice_def TAG_LEN_def copy_at_def)
  have k4: "length key mod 4 = 0" using assms(2) by auto
  obtain c1 c2 c3 ic where i: "push_input (u32_to_le AES_CMD_CCM_DECRYPT) DMATAG_AES_CFG (chain_new MAX_DESCRIPTOR_CHAIN_LEN) = Some c1"
    "push_input key DMATAG_AES_KEY c1 = Some c2" "push_input ?h (DMATAG_AES_AAD OR dmatag_ign hign) c2 = Some c3"
    "(if c \<noteq> [] then push_input (pad16 c) (DMATAG_AES_DATA OR dmatag_ign (length (pad16 c) - length c)) c3 else Some c3) = Some ic"
    "room ic (ccm_job_in (u32_to_le AES_CMD_CCM_DECRYPT) key ?h hign c [])"
    by (rule ccm_input_chain [OF k4 hl, where m = c and hign = hign and cmd = "u32_to_le AES_CMD_CCM_DECRYPT"]) simp_all
  have jl: "length (ccm_job_in (u32_to_le AES_CMD_CCM_DECRYPT) key ?h hign c []) < 6" by (simp add: ccm_job_in_def)
  have t4: "length ?t mod 4 = 0" using tl by simp
  obtain ic2 where i2: "push_input ?t (DMATAG_AES_DATA OR dmatag_ign (16 - TAG_LEN)) ic = Some ic2"
    "room ic2 (ccm_job_in (u32_to_le AES_CMD_CCM_DECRYPT) key ?h hign c [] @ [(?t, sz_word (length ?t), DMATAG_AES_DATA OR dmatag_ign (16 - TAG_LEN))])"
    by (rule push_input_room [OF i(5) jl t4])
  have i3: "room ic2 (ccm_job_in (u32_to_le AES_CMD_CCM_DECRYPT) key ?h hign c [?t])"
    using i2(2) by (simp only: ccm_job_in_def list.map append_Nil2 append_assoc)
  obtain o1 o2 oc where oc: "push_output (length ?h) 0 (chain_new MAX_DESCRIPTOR_CHAIN_LEN) = Some o1"
    "(if c \<noteq> [] then push_output (length (pad16 c)) 0 o1 else Some o1) = Some o2"
    "push_output 16 0 o2 = Some oc" "room oc (ccm_job_out ?h c)"
    by (rule ccm_output_chain [OF hl, where m = c])
  obtain scratch pt x d' where j: "dma_job hw at_in at_out (ccm_job_in (u32_to_le AES_CMD_CCM_DECRYPT) key ?h hign c [?t]) (ccm_job_out ?h c) d
      = Some ((scratch # (if c = [] then [] else [pt])) @ [x], d')" "dev d'"
    "length pt = length (pad16 c)" "take (length c) pt = ccm_crypt (E key) (engine_nonce ?h) c" "length x = 16"
    "take TAG_LEN x = xor_bytes (take TAG_LEN (engine_tag (E key) ?h (ccm_crypt (E key) (engine_nonce ?h) c))) (take TAG_LEN ?t)"
    using decrypt_job_law [OF assms(1,2) hl tl] by blast
  have e: "execute_cryptomaster_dma hw at_in at_out ic2 oc d = Some ((scratch # (if c = [] then [] else [pt])) @ [x], d')"
    by (rule trans [OF execute_room [OF i3 oc(4) aligned] j(1)])
  have xs: "slice x 0 TAG_LEN = Some (xor_bytes (ccm_tag (E key) nonce (concat aad) p 8) (take 8 tag))"
    using j(5,6) engine_tag_header [OF assms(3), of "E key" p "concat aad"] assms(6)
    by (simp add: slice_def TAG_LEN_def engine_nonce_header [OF assms(3)] p_def [symmetric] lp)
  have ok: "list_all (\<lambda>b. b = 0) (xor_bytes (ccm_tag (E key) nonce (concat aad) p 8) (take 8 tag))
      \<longleftrightarrow> take 8 tag = ccm_tag (E key) nonce (concat aad) p 8"
  proof -
    have "length (ccm_tag (E key) nonce (concat aad) p 8) = length (take 8 tag)"
      using assms(6) by (simp add: ccm_tag_def length_cbc_mac block)
    then show ?thesis by (subst xor_bytes_zero) auto
  qed
  have ru: "round_up16 (length c) = length (pad16 c)" by (simp add: length_pad16_round_up)
  show ?thesis
  proof (cases "c = []")
    case True
    then have "p = []" using lp by simp
    with True show ?thesis using h b i(1-4) i2(1) oc e xs ok t j(2) ru
      by (auto simp: ccm_decrypt_def slice_def [of "replicate 256 0"])
  next
    case False
    have l: "length (pad16 c) \<le> 256"
    proof -
      have "(length c + 15) div 16 \<le> 271 div 16" by (rule div_le_mono) (use assms(4) in simp)
      then show ?thesis by (simp add: length_pad16_round_up round_up16_def)
    qed
    obtain cb where cb: "copy_at (replicate 256 0) 0 pt = Some cb" "slice cb 0 (length c) = Some p"
    proof -
      have "length c \<le> length pt" using j(3) length_pad16(2) [of c] by simp
      then have "slice (pt @ drop (length pt) (replicate 256 0)) 0 (length c) = Some p"
        using j(4) by (simp add: slice_def engine_nonce_header [OF assms(3)] p_def)
      with that l j(3) show ?thesis by (simp add: copy_at_def)
    qed
    show ?thesis using False h b i(1-4) i2(1) oc e xs ok t j(2) cb ru by (auto simp: ccm_decrypt_def)
  qed
qed

end

section \<open>A concrete engine\<close>

text \<open>A device that carries out CCM jobs over a toy block cipher. It reads the number of bytes to ignore
  back from the tag of the data descriptor, as the hardware does, and so shows that the laws can hold.\<close>

definition toy_cipher :: "bytes \<Rightarrow> bytes \<Rightarrow> bytes" where
  "toy_cipher k b = xor_bytes (take 16 (b @ replicate 16 0)) (take 16 (k @ replicate 16 0))"

definition tag_ign :: "u32 \<Rightarrow> nat" where
  "tag_ign t = unat (drop_bit 8 t)"

definition sim_data :: "bytes \<Rightarrow> bytes \<Rightarrow> bytes \<Rightarrow> u32 \<Rightarrow> bytes" where
  "sim_data key header m t = ccm_crypt (toy_cipher key) (engine_nonce header) (take (length m - tag_ign t) m)"

fun sim_ccm_dma :: "(bytes \<times> u32 \<times> u32) list \<Rightarrow> bytes list" where
  "sim_ccm_dma ((cmd, _) # (key, _) # (header, _) # rest) =
     (if cmd = u32_to_le AES_CMD_CCM_ENCRYPT then
        (case rest of
           [] \<Rightarrow> [header, engine_tag (toy_cipher key) header []]
         | (m, _, t) # _ \<Rightarrow> [header, pad16 (sim_data key header m t),
             engine_tag (toy_cipher key) header (take (length m - tag_ign t) m)])
      else
        (case rest of
           [(tg, _, _)] \<Rightarrow> [header, xor_bytes (engine_tag (toy_cipher key) header []) tg]
         | (m, _, t) # (tg, _, _) # _ \<Rightarrow> [header, pad16 (sim_data key header m t),
             xor_bytes (engine_tag (toy_cipher key) header (sim_data key header m t)) tg]
         | [] \<Rightarrow> []))"
| "sim_ccm_dma _ = []"

definition sim_ccm_cracen :: "bytes list cracen" where
  "sim_ccm_cracen = sim_cracen \<lparr> w_dma_start := (\<lambda>_ ins _ _. sim_ccm_dma ins) \<rparr>"

lemma length_toy_cipher: "length (toy_cipher k b) = 16"
  by (simp add: toy_cipher_def)

lemma tag_ign_all:
  "list_all (\<lambda>k. tag_ign (DMATAG_AES_DATA OR dmatag_ign k) = k \<and> tag_ign (DMATAG_AES_DATA OR dmatag_ign k OR push_bit 5 1) = k) [0..<16]"
  by code_simp

lemma tag_ign:
  assumes "k < 16"
  shows "tag_ign (DMATAG_AES_DATA OR dmatag_ign k) = k" "tag_ign ((DMATAG_AES_DATA OR dmatag_ign k) OR push_bit 5 1) = k"
proof -
  have "k \<in> set [0..<16]" using assms by simp
  from bspec [OF tag_ign_all [unfolded list_all_iff] this]
  show "tag_ign (DMATAG_AES_DATA OR dmatag_ign k) = k" "tag_ign ((DMATAG_AES_DATA OR dmatag_ign k) OR push_bit 5 1) = k"
    by (simp_all only: or.assoc)
qed

lemma pad16_ign: "length (pad16 m) - length m < 16" "take (length (pad16 m) - (length (pad16 m) - length m)) (pad16 m) = m"
proof -
  show "length (pad16 m) - length m < 16" using length_pad16(3) [of m] by simp
  have "length (pad16 m) - (length (pad16 m) - length m) = length m" using length_pad16(2) [of m] by simp
  then show "take (length (pad16 m) - (length (pad16 m) - length m)) (pad16 m) = m" by (simp add: pad16_def)
qed

lemma ccm_crypt_Nil [simp]: "ccm_crypt E nonce [] = []"
  by (simp add: ccm_crypt_def xor_bytes_def)

lemma cmds_differ: "u32_to_le AES_CMD_CCM_DECRYPT \<noteq> u32_to_le AES_CMD_CCM_ENCRYPT"
proof -
  have "AES_CMD_CCM_DECRYPT \<noteq> AES_CMD_CCM_ENCRYPT" by code_simp
  then show ?thesis by (metis u32_from_le_to_le)
qed

lemma sim_ccm_job:
  "dma_job sim_ccm_cracen a b ins outs d = Some (sim_ccm_dma (mark_last ins), sim_ccm_dma (mark_last ins))"
  by (simp add: dma_job_def sim_ccm_cracen_def sim_cracen_def dma_wait.simps)

lemma pad16_same_length: "length x = length y \<Longrightarrow> length (pad16 x) = length (pad16 y)"
  by (simp add: length_pad16_round_up)

definition data_tag :: "bytes \<Rightarrow> u32" where
  "data_tag m = DMATAG_AES_DATA OR dmatag_ign (length (pad16 m) - length m)"

lemma tag_ign_data: "tag_ign (data_tag m) = length (pad16 m) - length m"
  "tag_ign (data_tag m OR 32) = length (pad16 m) - length m"
proof -
  show "tag_ign (data_tag m) = length (pad16 m) - length m"
    unfolding data_tag_def by (rule tag_ign(1) [OF pad16_ign(1)])
  have "(push_bit 5 1 :: u32) = 32" by simp
  then show "tag_ign (data_tag m OR 32) = length (pad16 m) - length m"
    using tag_ign(2) [OF pad16_ign(1), of m] unfolding data_tag_def by (simp only:)
qed

lemma sim_data_pad: 
  "tag_ign t = length (pad16 m) - length m \<Longrightarrow> sim_data key header (pad16 m) t = ccm_crypt (toy_cipher key) (engine_nonce header) m"
  "tag_ign t = length (pad16 m) - length m \<Longrightarrow> take (length (pad16 m) - tag_ign t) (pad16 m) = m"
  unfolding sim_data_def by (simp_all only: pad16_ign(2))

lemma ccm_job_in_data: "m \<noteq> [] \<Longrightarrow> ccm_job_in cmd key header hign m tags =
     (cmd, sz_word 4, DMATAG_AES_CFG) # (key, sz_word (length key), DMATAG_AES_KEY)
     # (header, sz_word (length header), DMATAG_AES_AAD OR dmatag_ign hign)
     # (pad16 m, sz_word (length (pad16 m)), data_tag m)
     # map (\<lambda>t. (t, sz_word (length t), DMATAG_AES_DATA OR dmatag_ign (16 - TAG_LEN))) tags"
  by (simp add: ccm_job_in_def data_tag_def)

lemma sim_encrypt_data: "m \<noteq> [] \<Longrightarrow>
   sim_ccm_dma (mark_last (ccm_job_in (u32_to_le AES_CMD_CCM_ENCRYPT) key header hign m []))
     = [header, pad16 (ccm_crypt (toy_cipher key) (engine_nonce header) m), engine_tag (toy_cipher key) header m]"
  by (simp add: ccm_job_in_data sim_data_pad tag_ign_data pad16_ign(2))

lemma take_pad16: "length x = n \<Longrightarrow> take n (pad16 x) = x"
  by (simp add: pad16_def)

lemma sim_decrypt_data: "c \<noteq> [] \<Longrightarrow>
   sim_ccm_dma (mark_last (ccm_job_in (u32_to_le AES_CMD_CCM_DECRYPT) key header hign c [tag]))
     = [header, pad16 (ccm_crypt (toy_cipher key) (engine_nonce header) c),
        xor_bytes (engine_tag (toy_cipher key) header (ccm_crypt (toy_cipher key) (engine_nonce header) c)) tag]"
  using cmds_differ by (simp add: ccm_job_in_data sim_data_pad tag_ign_data pad16_ign(2))

interpretation sim_ccm: cracen_ccm sim_ccm_cracen 4096 8192 "\<lambda>_. True" toy_cipher
proof
  fix k b :: bytes
  show "length (toy_cipher k b) = 16" by (rule length_toy_cipher)
next
  fix d :: "bytes list" and key header m c tag :: bytes and hign :: nat
  note cr = length_ccm_crypt [of "toy_cipher key", OF length_toy_cipher]
  show "\<exists>scratch ct d'. dma_job sim_ccm_cracen 4096 8192
        (ccm_job_in (u32_to_le AES_CMD_CCM_ENCRYPT) key header hign m []) (ccm_job_out header m) d
      = Some ((scratch # (if m = [] then [] else [ct])) @ [engine_tag (toy_cipher key) header m], d') \<and> True
      \<and> length ct = length (pad16 m) \<and> take (length m) ct = ccm_crypt (toy_cipher key) (engine_nonce header) m"
  proof (cases "m = []")
    case True
    then show ?thesis
      by (simp add: sim_ccm_job ccm_job_in_def)
  next
    case False
    let ?ct = "pad16 (ccm_crypt (toy_cipher key) (engine_nonce header) m)"
    have "take (length m) ?ct = ccm_crypt (toy_cipher key) (engine_nonce header) m" "length ?ct = length (pad16 m)"
      by (rule take_pad16 [OF cr], rule pad16_same_length [OF cr])
    then show ?thesis using False by (simp add: sim_ccm_job sim_encrypt_data)
  qed
  show "\<exists>scratch pt x d'. dma_job sim_ccm_cracen 4096 8192
        (ccm_job_in (u32_to_le AES_CMD_CCM_DECRYPT) key header hign c [tag]) (ccm_job_out header c) d
      = Some ((scratch # (if c = [] then [] else [pt])) @ [x], d') \<and> True
      \<and> length pt = length (pad16 c) \<and> take (length c) pt = ccm_crypt (toy_cipher key) (engine_nonce header) c
      \<and> length x = 16
      \<and> take TAG_LEN x = xor_bytes (take TAG_LEN (engine_tag (toy_cipher key) header
            (ccm_crypt (toy_cipher key) (engine_nonce header) c))) (take TAG_LEN tag)"
    if t: "length tag = 16"
  proof -
    let ?pt = "pad16 (ccm_crypt (toy_cipher key) (engine_nonce header) c)"
    let ?x = "xor_bytes (engine_tag (toy_cipher key) header (ccm_crypt (toy_cipher key) (engine_nonce header) c)) tag"
    have p: "take (length c) ?pt = ccm_crypt (toy_cipher key) (engine_nonce header) c" "length ?pt = length (pad16 c)"
      by (rule take_pad16 [OF cr], rule pad16_same_length [OF cr])
    have x: "length ?x = 16" "take TAG_LEN ?x = xor_bytes (take TAG_LEN (engine_tag (toy_cipher key) header
            (ccm_crypt (toy_cipher key) (engine_nonce header) c))) (take TAG_LEN tag)"
      using t by (simp_all add: length_engine_tag length_toy_cipher, simp add: xor_bytes_def take_map take_zip)
    show ?thesis
    proof (cases "c = []")
      case True
      then have e: "ccm_crypt (toy_cipher key) (engine_nonce header) c = []" by simp
      show ?thesis using True p x cmds_differ unfolding e
        by (simp add: sim_ccm_job ccm_job_in_def)
    next
      case False
      show ?thesis using False p x by (simp add: sim_ccm_job sim_decrypt_data)
    qed
  qed
qed simp_all

end
