(* ===== verification/Nrf_Provider.thy ===== *)
theory Nrf_Provider
  imports Nrf_Aead Cal_Aead Extender_Direct Empty_Cal
begin

text \<open>
  The nRF54L15 as a user of the traits sees it: AES-CCM through \<open>AeadProvider\<close>, and SHA-256 through the
  extender on top of the plumbing. Each rests on the engine's documented behaviour, the locales
  \<open>cracen_ccm\<close> and \<open>cracen_sha\<close>.
\<close>

section \<open>AES-CCM\<close>

definition nrf_key_bytes :: "nrf_aead_key \<Rightarrow> bytes" where
  "nrf_key_bytes k = (case k of KeyCcm16_64_128 x \<Rightarrow> x | KeyCcm16_64_256 x \<Rightarrow> x)"

definition nrf_key_ok :: "nrf_aead_algorithm \<Rightarrow> nrf_aead_key \<Rightarrow> bytes \<Rightarrow> bool" where
  "nrf_key_ok alg k key \<longleftrightarrow> length key = nrf_key_length alg
     \<and> k = (case alg of NrfCcm16_64_128 \<Rightarrow> KeyCcm16_64_128 key | NrfCcm16_64_256 \<Rightarrow> KeyCcm16_64_256 key)"

text \<open>What the scratch buffers hold.\<close>

definition nrf_fits :: "bytes \<Rightarrow> bytes \<Rightarrow> nat \<Rightarrow> bool" where
  "nrf_fits nonce a n \<longleftrightarrow> n \<le> 256 \<and> length a \<le> 270"

lemma nrf_key_lengths: "nrf_key_ok alg k key \<Longrightarrow> length key = 16 \<or> length key = 32"
  by (cases alg) (auto simp: nrf_key_ok_def)

context cracen_ccm
begin

lemma nrf_aead_contract:
  "aead_contract (nrf_aead hw at_in at_out) alg dev (nrf_key_ok alg) nrf_fits
     (\<lambda>key. ccm_crypt (E key)) (\<lambda>key nonce a m. ccm_tag (E key) nonce a m 8) (\<lambda>c p. c)"
proof
  fix d :: 'd and k and key nonce m c tag :: bytes and aad and a
  let ?P = "nrf_aead hw at_in at_out"
  show "ccm_crypt (E key) nonce (ccm_crypt (E key) nonce m) = m" by (rule ccm_crypt_crypt) (rule block)
  show "length (ccm_crypt (E key) nonce m) = length m" by (simp add: block)
  show "length (ccm_tag (E key) nonce a m 8) = tag_length ?P alg"
    by (simp add: ccm_tag_def length_cbc_mac block nrf_aead_def nrf_tag_length_def)
  assume d: "dev d"
  show "\<exists>k d'. ap_load_from_keydata ?P alg key d = Some (k, d') \<and> dev d' \<and> nrf_key_ok alg k key"
    if "length key = key_length ?P alg"
    using that d by (cases alg) (simp_all add: nrf_aead_def nrf_aead_load_def nrf_key_ok_def)
  assume k: "nrf_key_ok alg k key" and n: "length nonce = nonce_length ?P alg"
  have n13: "length nonce = 13" using n by (simp add: nrf_aead_def nrf_nonce_length_def)
  show "\<exists>t d'. ap_encrypt_in_place ?P k nonce m aad d = Some ((t, ccm_crypt (E key) nonce m), d') \<and> dev d'
      \<and> ap_tag_bytes ?P t = ccm_tag (E key) nonce (concat aad) m 8"
    if f: "nrf_fits nonce (concat aad) (length m)"
  proof -
    obtain d' where "ccm_encrypt hw at_in at_out key nonce m aad d
        = Some ((ccm_tag (E key) nonce (concat aad) m 8, ccm_crypt (E key) nonce m), d')" "dev d'"
      using ccm_encrypt_law [OF d nrf_key_lengths [OF k] n13] f by (auto simp: nrf_fits_def)
    with k show ?thesis by (cases alg) (auto simp: nrf_aead_def nrf_aead_encrypt_def nrf_key_ok_def)
  qed
  show "\<exists>d'. ap_decrypt_in_place ?P k nonce c tag aad d =
      Some ((if tag = ccm_tag (E key) nonce (concat aad) (ccm_crypt (E key) nonce c) 8 then (Inr (), ccm_crypt (E key) nonce c)
             else (Inl DecryptionFailed, c)), d') \<and> dev d'"
    if t: "length tag = tag_length ?P alg" and f: "nrf_fits nonce (concat aad) (length c)"
  proof -
    have t8: "length tag = 8" using t by (simp add: nrf_aead_def nrf_tag_length_def)
    obtain d' where "ccm_decrypt hw at_in at_out key nonce c tag aad d
      = Some ((if tag = ccm_tag (E key) nonce (concat aad) (ccm_crypt (E key) nonce c) 8
               then (True, ccm_crypt (E key) nonce c) else (False, c)), d')" "dev d'"
      using ccm_decrypt_law [OF d nrf_key_lengths [OF k] n13, of c aad tag] f t8 by (auto simp: nrf_fits_def)
    with k show ?thesis by (cases alg) (auto simp: nrf_aead_def nrf_aead_decrypt_def nrf_key_ok_def)
  qed
qed

end



text \<open>What the nRF54L15 provider seals it opens again, whatever slices the additional data is given
  in, and the cipher text has the length of the message.\<close>

theorem nrf_round_trip:
  assumes "cracen_ccm hw at_in at_out dev E" "dev d" "length key = nrf_key_length alg" "length nonce = 13"
    and "length m \<le> 256" "length (concat aad) \<le> 270" "concat aad' = concat aad"
  shows "\<exists>t c d1 d2. aead_seal (nrf_aead hw at_in at_out) alg key nonce m aad d = Some ((t, c), d1) \<and> length c = length m
    \<and> aead_open (nrf_aead hw at_in at_out) alg key nonce c t aad' d1 = Some ((Inr (), m), d2)"
  using aead_contract.round_trip [OF cracen_ccm.nrf_aead_contract [OF assms(1)] assms(2), of key alg nonce aad m aad'] assms(3-)
  by (auto simp: nrf_aead_def nrf_nonce_length_def nrf_fits_def)

lemma nrf_round_trip_witness:
  "\<exists>t c d1 d2. aead_seal (nrf_aead sim_ccm_cracen 4096 8192) NrfCcm16_64_256 (replicate 32 1) (replicate 13 2) [3, 4] [[5], [6]] []
      = Some ((t, c), d1) \<and> length c = length [3, 4 :: u8]
    \<and> aead_open (nrf_aead sim_ccm_cracen 4096 8192) NrfCcm16_64_256 (replicate 32 1) (replicate 13 2) c t [[5, 6]] d1
      = Some ((Inr (), [3, 4]), d2)"
  by (rule nrf_round_trip [OF sim_ccm.cracen_ccm_axioms]) simp_all



lemma nrf_header_too_long:
  "270 < length (concat aad) \<Longrightarrow> nrf_header nonce n aad = None"
  using aad_fill_too_long [of 288 0 aad "replicate 288 0"] by (simp add: nrf_header_def)

text \<open>C30: Outside its buffers the nRF54L15 provider panics before it touches the engine: on a message of
  more than 256 bytes, on more than 270 bytes of additional data, on a tag of fewer than 8 bytes, and
  on key data of the wrong length.\<close>

theorem nrf_aead_panics:
  "(256 < length m \<or> 270 < length (concat aad) \<longrightarrow>
      ap_encrypt_in_place (nrf_aead hw at_in at_out) k nonce m aad d = None)
   \<and> (256 < length m \<or> 270 < length (concat aad) \<or> length tag < 8 \<longrightarrow>
      ap_decrypt_in_place (nrf_aead hw at_in at_out) k nonce m tag aad d = None)
   \<and> (ap_load_from_keydata (nrf_aead hw at_in at_out) alg key d = None \<longleftrightarrow> length key \<noteq> nrf_key_length alg)"
proof (intro conjI impI)
  assume a: "256 < length m \<or> 270 < length (concat aad)"
  have "ccm_encrypt hw at_in at_out x nonce m aad d = None" for x
    using a by (auto simp: ccm_encrypt_def copy_at_def nrf_header_too_long split: bind_splits)
  then show "ap_encrypt_in_place (nrf_aead hw at_in at_out) k nonce m aad d = None"
    by (simp add: nrf_aead_def nrf_aead_encrypt_def split: nrf_aead_key.split)
next
  assume a: "256 < length m \<or> 270 < length (concat aad) \<or> length tag < 8"
  have "ccm_decrypt hw at_in at_out x nonce m tag aad d = None" for x
    using a by (auto simp: ccm_decrypt_def copy_at_def slice_def [of tag] TAG_LEN_def nrf_header_too_long split: bind_splits)
  then show "ap_decrypt_in_place (nrf_aead hw at_in at_out) k nonce m tag aad d = None"
    by (simp add: nrf_aead_def nrf_aead_decrypt_def split: nrf_aead_key.split)
next
  show "ap_load_from_keydata (nrf_aead hw at_in at_out) alg key d = None \<longleftrightarrow> length key \<noteq> nrf_key_length alg"
    by (cases alg) (simp_all add: nrf_aead_def nrf_aead_load_def)
qed

lemma nrf_aead_panics_witness:
  "ap_encrypt_in_place (nrf_aead sim_ccm_cracen 4096 8192) (KeyCcm16_64_128 []) [] (replicate 257 0) [] [] = None"
  using nrf_aead_panics [of "replicate 257 0" "[]" sim_ccm_cracen 4096 8192 "KeyCcm16_64_128 []" "[]" "[]" "[]" NrfCcm16_64_128 "[]"]
  by simp

section \<open>SHA-256 through the extender\<close>

context cracen_sha
begin

lemma nrf_sha_contract: "sha2short_contract (nrf_sha2 hw at_in at_out) dev nrf_absorbed sw_raw"
  by (rule nrf_sha.sha2short_contract_axioms)

end

text \<open>The extender's base on this device: the CRACEN plumbing, and no hash provider.\<close>

definition nrf_base :: "'d cracen \<Rightarrow> nat \<Rightarrow> nat
    \<Rightarrow> ('d, nrf_hash_state, no_algorithms, no_algorithms, no_algorithms) extender_base" where
  "nrf_base hw at_in at_out = \<lparr> base_sha2 = nrf_sha2 hw at_in at_out, base_hash = empty_hash \<rparr>"

lemma nrf_plumbed: "plumbed_digest (nrf_sha2 hw at_in at_out) sw_raw = sha256"
  by (rule ext) (simp add: plumbed_digest_def nrf_sha2_def sw_raw_def sha256_def)

text \<open>The extender over the nRF54L15's plumbing computes SHA-256: on an engine that carries out SHA
  jobs as documented, feeding a message in any chunks gives the FIPS 180-4 digest.\<close>

theorem nrf_extender_sha256:
  assumes "cracen_sha hw at_in at_out dev" "dev d" "length (concat cs) \<le> max_message"
  shows "\<exists>d'. dev d' \<and> hash_chunks (extender_hash direct_config (nrf_base hw at_in at_out)) ExtSha256 cs d
    = Some (sha256 (concat cs), d')"
proof -
  have "sha2short_contract (base_sha2 (nrf_base hw at_in at_out)) dev nrf_absorbed sw_raw"
    using cracen_sha.nrf_sha_contract [OF assms(1)] by (simp add: nrf_base_def)
  from hash_contract.chunks [OF direct_hash_contract [OF this] assms(2,3)]
  show ?thesis by (auto simp: nrf_base_def nrf_plumbed)
qed

lemma nrf_extender_sha256_witness:
  "\<exists>d'. True \<and> hash_chunks (extender_hash direct_config (nrf_base sim_cracen 4096 8192)) ExtSha256 [[1, 2], [3]] []
    = Some (sha256 (concat [[1, 2], [3]]), d')"
  by (rule nrf_extender_sha256 [OF sim.cracen_sha_axioms]) (simp_all add: max_message_def usize_limit_def)

text \<open>And HMAC over it is RFC 2104 over SHA-256.\<close>

theorem nrf_extender_hmac:
  assumes "cracen_sha hw at_in at_out dev" "dev d" "length key \<le> max_message - 64" "length m \<le> max_message - 64"
  shows "\<exists>d'. dev d' \<and> hmac_with_keydata (extender_hmac (extender_hash direct_config (nrf_base hw at_in at_out))) HmacSha256 key m d
    = Some (ResultHmacSha256 (hmac_spec sha256 key m), d')"
proof -
  let ?H = "extender_hmac (extender_hash direct_config (nrf_base hw at_in at_out))"
  have "sha2short_contract (base_sha2 (nrf_base hw at_in at_out)) dev nrf_absorbed sw_raw"
    using cracen_sha.nrf_sha_contract [OF assms(1)] by (simp add: nrf_base_def)
  from hmac_contract.hmac_with_keydata_law [OF direct_hmac_contract [OF this] assms(2-4)]
  obtain o' d' where "hmac_with_keydata ?H HmacSha256 key m d = Some (o', d')" "dev d'"
    "mp_output ?H o' = hmac_spec sha256 key m" by (auto simp: nrf_base_def nrf_plumbed)
  then show ?thesis by (cases o') (simp add: extender_hmac_def)
qed

lemma nrf_extender_hmac_witness:
  "\<exists>d'. True \<and> hmac_with_keydata (extender_hmac (extender_hash direct_config (nrf_base sim_cracen 4096 8192))) HmacSha256 [7] [1, 2] []
    = Some (ResultHmacSha256 (hmac_spec sha256 [7] [1, 2]), d')"
  by (rule nrf_extender_hmac [OF sim.cracen_sha_axioms]) (simp_all add: max_message_def usize_limit_def)

end
