(* ===== verification/Nrf_Rng.thy ===== *)
theory Nrf_Rng
  imports Nrf_Cracen "HOL-Library.Stream"
begin

text \<open>
  The random-number generator of the nRF54L15 (\<^verbatim>\<open>embedded-cal-nrf54l15/src/try_rng.rs\<close>). A request is
  filled from the pop-on-read FIFO; when the noise source reports an error it is restarted, at most
  three times per call, and then the code panics.

  The outcome of a call is \<open>Some (Inr _)\<close> when it returns, \<open>Some (Inl _)\<close> when it panics and \<open>None\<close> when
  it never ends (a FIFO that stays empty). The value that counts the restarts is returned with the
  bytes; the public functions drop it.
\<close>

section \<open>The code\<close>

datatype rng_panic = RngHardwareFailure

definition MAX_TRNG_RESTARTS :: nat where
  "MAX_TRNG_RESTARTS = 3"

text \<open>\<open>for _ in 0..level\<close>: read words while bytes are wanted; the bytes written, and the device.\<close>

fun fifo_drain :: "'d cracen \<Rightarrow> nat \<Rightarrow> nat \<Rightarrow> 'd \<Rightarrow> bytes \<times> 'd" where
  "fifo_drain hw 0 n d = ([], d)"
| "fifo_drain hw (Suc level) n d =
     (if n = 0 then ([], d)
      else let (w, d) = r_fifo0 hw d;
               take_len = min n 4;
               (bs, d) = fifo_drain hw level (n - take_len) d
           in (take take_len (u32_to_le w) @ bs, d))"

text \<open>Pulse the soft reset and enable the generator again.\<close>

definition trng_restart :: "'d cracen \<Rightarrow> 'd \<Rightarrow> 'd" where
  "trng_restart hw d = m_rng_enable hw True (m_rng_softrst_ctest hw False (m_rng_softrst_ctest hw True d))"

partial_function (option) rng_fill :: "'d cracen \<Rightarrow> nat \<Rightarrow> nat \<Rightarrow> 'd \<Rightarrow> (rng_panic + bytes \<times> nat \<times> 'd) option" where
  "rng_fill hw restarts n d =
     (if n = 0 then Some (Inr ([], restarts, d))
      else let (fsm, d) = r_rng_state hw d
           in if fsm = FsmERROR then
                (if restarts + 1 > MAX_TRNG_RESTARTS then Some (Inl RngHardwareFailure)
                 else rng_fill hw (restarts + 1) n (trng_restart hw d))
              else do {
                (level, d) \<leftarrow> fifo_wait hw d;
                let (bs, d) = fifo_drain hw level n d;
                r \<leftarrow> rng_fill hw restarts (n - length bs) d;
                Some (case r of Inl p \<Rightarrow> Inl p | Inr (rest, k, d) \<Rightarrow> Inr (bs @ rest, k, d))
              })"

definition try_fill_bytes :: "'d cracen \<Rightarrow> nat \<Rightarrow> 'd \<Rightarrow> (rng_panic + bytes \<times> 'd) option" where
  "try_fill_bytes hw n d = do {
     r \<leftarrow> rng_fill hw 0 n d;
     Some (case r of Inl p \<Rightarrow> Inl p | Inr (bs, _, d) \<Rightarrow> Inr (bs, d))
   }"

definition try_next_u32 :: "'d cracen \<Rightarrow> 'd \<Rightarrow> (rng_panic + u32 \<times> 'd) option" where
  "try_next_u32 hw d = do {
     r \<leftarrow> try_fill_bytes hw 4 d;
     Some (case r of Inl p \<Rightarrow> Inl p | Inr (bs, d) \<Rightarrow> Inr (u32_from_le bs, d))
   }"

definition try_next_u64 :: "'d cracen \<Rightarrow> 'd \<Rightarrow> (rng_panic + u64 \<times> 'd) option" where
  "try_next_u64 hw d = do {
     r \<leftarrow> try_fill_bytes hw 8 d;
     Some (case r of Inl p \<Rightarrow> Inl p | Inr (bs, d) \<Rightarrow> Inr (of_nat (le_val bs), d))
   }"

section \<open>What holds on any device\<close>

lemma fifo_drain_length: "length (fst (fifo_drain hw level n d)) \<le> n"
proof (induction level arbitrary: n d)
  case (Suc level)
  obtain w d1 where w: "r_fifo0 hw d = (w, d1)" by (cases "r_fifo0 hw d")
  obtain bs d2 where b: "fifo_drain hw level (n - min n 4) d1 = (bs, d2)" by (cases "fifo_drain hw level (n - min n 4) d1")
  have "length bs \<le> n - min n 4" using Suc.IH [of "n - min n 4" d1] by (simp add: b)
  then show ?case by (cases "n = 0") (auto simp: w b)
qed simp

lemma rng_fill_partial:
  "rng_fill hw restarts n d = Some r \<Longrightarrow> restarts \<le> MAX_TRNG_RESTARTS \<Longrightarrow>
     (case r of Inl p \<Rightarrow> True | Inr (bs, k, d') \<Rightarrow> length bs = n \<and> restarts \<le> k \<and> k \<le> MAX_TRNG_RESTARTS)"
proof (induction rule: rng_fill.raw_induct [rotated, consumes 1])
  case (1 f hw restarts n d r)
  show ?case
  proof (cases "n = 0")
    case True
    then show ?thesis using "1.hyps" "1.prems" by auto
  next
    case n: False
    obtain fsm d1 where s: "r_rng_state hw d = (fsm, d1)" by (cases "r_rng_state hw d")
    show ?thesis
    proof (cases "fsm = FsmERROR")
      case True
      show ?thesis
      proof (cases "restarts + 1 > MAX_TRNG_RESTARTS")
        case True
        then have "r = Inl RngHardwareFailure" using n s \<open>fsm = FsmERROR\<close> "1.hyps" by simp
        then show ?thesis by simp
      next
        case False
        then have "f hw (restarts + 1) n (trng_restart hw d1) = Some r" using n s \<open>fsm = FsmERROR\<close> "1.hyps" by simp
        from "1.IH" [OF this] False show ?thesis by (auto split: sum.splits)
      qed
    next
      case False
      obtain level d2 where w: "fifo_wait hw d1 = Some (level, d2)"
        using "1.hyps" n s False by (auto split: bind_splits)
      obtain bs d3 where b: "fifo_drain hw level n d2 = (bs, d3)" by (cases "fifo_drain hw level n d2")
      obtain q where q: "f hw restarts (n - length bs) d3 = Some q"
        "r = (case q of Inl p \<Rightarrow> Inl p | Inr (rest, k, d) \<Rightarrow> Inr (bs @ rest, k, d))"
        using "1.hyps" n s False w b by (auto split: bind_splits)
      from fifo_drain_length [of hw level n d2] b have "length bs \<le> n" by simp
      then show ?thesis using "1.IH" [OF q(1) "1.prems"] q(2) by (auto split: sum.splits)
    qed
  qed
qed


lemma persistent_error:
  assumes "\<And>d. fst (r_rng_state hw d) = FsmERROR" "0 < n" "restarts \<le> MAX_TRNG_RESTARTS"
  shows "rng_fill hw restarts n d = Some (Inl RngHardwareFailure)"
  using assms(3)
proof (induction "MAX_TRNG_RESTARTS - restarts" arbitrary: restarts d)
  case 0
  then have "restarts = MAX_TRNG_RESTARTS" by simp
  moreover obtain d1 where "r_rng_state hw d = (FsmERROR, d1)" using assms(1) [of d] by (metis prod.collapse)
  ultimately show ?case using assms(2) by (simp add: rng_fill.simps)
next
  case (Suc k)
  obtain d1 where e: "r_rng_state hw d = (FsmERROR, d1)" using assms(1) [of d] by (metis prod.collapse)
  have "rng_fill hw (restarts + 1) n (trng_restart hw d1) = Some (Inl RngHardwareFailure)"
    using Suc by (intro Suc.hyps(1)) simp_all
  then show ?case using e assms(2) Suc.hyps(2) by (subst rng_fill.simps) simp
qed

text \<open>A noise source that stays in the error state makes every request for at least one byte panic:
  the call neither hangs nor returns bytes. A request for no bytes never touches the device.\<close>

theorem rng_faulty_source_panics:
  assumes "\<And>d. fst (r_rng_state hw d) = FsmERROR"
  shows "try_fill_bytes hw n d = Some (if n = 0 then Inr ([], d) else Inl RngHardwareFailure)
    \<and> try_next_u32 hw d = Some (Inl RngHardwareFailure) \<and> try_next_u64 hw d = Some (Inl RngHardwareFailure)"
proof -
  have f: "rng_fill hw 0 k d = Some (Inl RngHardwareFailure)" if "0 < k" for k
    by (rule persistent_error [OF assms that]) simp
  moreover have "rng_fill hw 0 0 d = Some (Inr ([], 0, d))" by (simp add: rng_fill.simps)
  ultimately show ?thesis by (simp add: try_fill_bytes_def try_next_u32_def try_next_u64_def)
qed

section \<open>A working device\<close>

text \<open>The documented behaviour of a healthy generator: it is not in the error state, the FIFO fills after
  finitely many polls, and while the FIFO is not empty a read pops the next word of the source.
  \<open>src\<close> is the word stream still to come, \<open>avail\<close> the words in the FIFO.\<close>

locale cracen_rng =
  fixes hw :: "'d cracen" and dev :: "'d \<Rightarrow> bool" and src :: "'d \<Rightarrow> u32 stream" and avail polls :: "'d \<Rightarrow> nat"
  assumes state_law: "dev d \<Longrightarrow> \<exists>s d'. r_rng_state hw d = (s, d') \<and> s \<noteq> FsmERROR \<and> dev d' \<and> src d' = src d"
    and level_law: "dev d \<Longrightarrow> \<exists>l d'. r_fifolevel hw d = (l, d') \<and> dev d' \<and> src d' = src d \<and> l \<le> avail d'
      \<and> (l = 0 \<longrightarrow> polls d' < polls d)"
    and fifo_law: "dev d \<Longrightarrow> 0 < avail d \<Longrightarrow>
      \<exists>d'. r_fifo0 hw d = (shd (src d), d') \<and> dev d' \<and> src d' = stl (src d) \<and> avail d \<le> avail d' + 1"
begin

lemma fifo_wait_ends:
  "dev d \<Longrightarrow> \<exists>l d'. fifo_wait hw d = Some (l, d') \<and> dev d' \<and> src d' = src d \<and> 0 < l \<and> l \<le> avail d'"
proof (induction "polls d" arbitrary: d rule: less_induct)
  case less
  obtain l d' where l: "r_fifolevel hw d = (l, d')" "dev d'" "src d' = src d" "l \<le> avail d'" "l = 0 \<longrightarrow> polls d' < polls d"
    using level_law [OF less.prems] by blast
  show ?case
  proof (cases "l = 0")
    case True
    then show ?thesis using less.hyps [of d'] l by (subst fifo_wait.simps) simp
  next
    case False
    then show ?thesis using l by (subst fifo_wait.simps) simp
  qed
qed

text \<open>The bytes of the next words: a request of \<open>n\<close> bytes uses up \<open>(n + 3) div 4\<close> of them.\<close>

lemma fifo_drain_law:
  assumes "dev d" "level \<le> avail d"
  shows "\<exists>d'. fifo_drain hw level n d
      = (take (min n (4 * level)) (concat (map u32_to_le (stake (min level ((n + 3) div 4)) (src d)))), d')
    \<and> dev d' \<and> src d' = sdrop (min level ((n + 3) div 4)) (src d)"
  using assms
proof (induction level arbitrary: n d)
  case (Suc level)
  show ?case
  proof (cases "n = 0")
    case True
    then show ?thesis using Suc.prems by simp
  next
    case False
    obtain d1 where r: "r_fifo0 hw d = (shd (src d), d1)" "dev d1" "src d1 = stl (src d)" "avail d \<le> avail d1 + 1"
      using fifo_law [OF Suc.prems(1)] Suc.prems(2) by auto
    define m where "m = n - min n 4"
    define q where "q = min level ((m + 3) div 4)"
    obtain d2 where i: "fifo_drain hw level m d1 = (take (min m (4 * level)) (concat (map u32_to_le (stake q (src d1)))), d2)"
        "dev d2" "src d2 = sdrop q (src d1)"
      using Suc.IH [OF r(2), of m] Suc.prems(2) r(4) unfolding q_def by auto
    have q: "min (Suc level) ((n + 3) div 4) = Suc q"
    proof (cases "n \<le> 4")
      case True
      then have "m = 0" "(n + 3) div 4 = 1" using False by (simp_all add: m_def)
      then show ?thesis by (simp add: q_def)
    next
      case False
      then have "n + 3 = (m + 3) + 4" by (simp add: m_def)
      then have "(n + 3) div 4 = Suc ((m + 3) div 4)" by (simp only: div_add_self2)
      then show ?thesis by (simp add: q_def)
    qed
    have t: "take (min n 4) (u32_to_le w) @ take (min m (4 * level)) xs = take (min n (4 * Suc level)) (u32_to_le w @ xs)" for w xs
    proof (cases "n \<le> 4")
      case False
      define j where "j = min m (4 * level)"
      have "min n (4 * Suc level) = 4 + j" "min n 4 = 4" using False by (simp_all add: m_def j_def)
      then show ?thesis by (simp only: j_def [symmetric] take_append) simp
    qed (simp add: m_def)
    show ?thesis
      unfolding q using False i r by (simp add: m_def [symmetric] t)
  qed
qed simp

lemma rng_fill_law:
  "dev d \<Longrightarrow> \<exists>d'. rng_fill hw k n d = Some (Inr (take n (concat (map u32_to_le (stake ((n + 3) div 4) (src d)))), k, d'))
     \<and> dev d' \<and> src d' = sdrop ((n + 3) div 4) (src d)"
proof (induction n arbitrary: d rule: less_induct)
  case (less n)
  show ?case
  proof (cases "n = 0")
    case True
    then show ?thesis using less.prems by (subst rng_fill.simps) simp
  next
    case False
    obtain s d1 where s: "r_rng_state hw d = (s, d1)" "s \<noteq> FsmERROR" "dev d1" "src d1 = src d"
      using state_law [OF less.prems] by blast
    obtain l d2 where w: "fifo_wait hw d1 = Some (l, d2)" "dev d2" "src d2 = src d" "0 < l" "l \<le> avail d2"
      using fifo_wait_ends [OF s(3)] s(4) by auto
    define q where "q = min l ((n + 3) div 4)"
    define bs where "bs = take (min n (4 * l)) (concat (map u32_to_le (stake q (src d))))"
    obtain d3 where b: "fifo_drain hw l n d2 = (bs, d3)" "dev d3" "src d3 = sdrop q (src d)"
      using fifo_drain_law [OF w(2,5), of n] w(3) unfolding bs_def q_def by auto
    have cl: "length (concat (map u32_to_le (stake j (src d)))) = 4 * j" for j
      by (simp add: length_concat comp_def sum_list_triv)
    have nq: "min n (4 * l) \<le> 4 * q" "q \<noteq> 0" using False w(4) unfolding q_def by (auto simp: min_def)
    have lb: "length bs = min n (4 * l)" using nq by (simp add: bs_def cl)
    define m where "m = n - length bs"
    have mn: "m < n" using False w(4) lb by (simp add: m_def)
    have j: "(n + 3) div 4 = q + (m + 3) div 4"
    proof (cases "n \<le> 4 * l")
      case True
      then have "(n + 3) div 4 \<le> l" by linarith
      with True lb show ?thesis by (simp add: q_def m_def)
    next
      case False
      then have "l \<le> (n + 3) div 4" by linarith
      moreover have "n + 3 = 4 * l + (m + 3)" using False lb by (simp add: m_def)
      ultimately show ?thesis by (simp add: q_def)
    qed
    obtain d' where i: "rng_fill hw k m d3 = Some (Inr (take m (concat (map u32_to_le (stake ((m + 3) div 4) (src d3)))), k, d'))"
      "dev d'" "src d' = sdrop ((m + 3) div 4) (src d3)"
      using less.IH [OF mn b(2)] by blast
    have e: "bs @ take m (concat (map u32_to_le (stake ((m + 3) div 4) (sdrop q (src d)))))
        = take n (concat (map u32_to_le (stake ((n + 3) div 4) (src d))))"
    proof (cases "n \<le> 4 * l")
      case True
      then have "m = 0" "q = (n + 3) div 4" using lb j by (simp_all add: m_def)
      then show ?thesis using True by (simp add: bs_def min_def)
    next
      case False
      then have "q = l" "length bs = 4 * l" using lb j by (auto simp: q_def min_def m_def)
      then have "bs = concat (map u32_to_le (stake q (src d)))" using False by (simp add: bs_def cl)
      then show ?thesis
        unfolding j stake_add [symmetric] map_append concat_append using \<open>length bs = 4 * l\<close> False
        by (simp add: cl m_def)
    qed
    have "rng_fill hw k n d = Some (Inr (bs @ take m (concat (map u32_to_le (stake ((m + 3) div 4) (src d3)))), k, d'))"
      using False s(2) by (subst rng_fill.simps)
        (simp only: s(1) w(1) b(1) i(1) m_def [symmetric] Let_def if_False bind.bind_lunit prod.case sum.case simp_thms)
    then have "rng_fill hw k n d = Some (Inr (take n (concat (map u32_to_le (stake ((n + 3) div 4) (src d)))), k, d'))"
      using e by (simp only: b(3))
    moreover have "src d' = sdrop ((n + 3) div 4) (src d)" unfolding j by (simp only: i(3) b(3) sdrop_add)
    ultimately show ?thesis using i(2) by blast
  qed
qed

end

text \<open>A healthy generator fills a request with the next words of its source in little-endian byte
  order, each word used once and the last one cut off; it never reads an empty FIFO, and it leaves
  the source at the first unused word. In particular the call ends.\<close>

theorem rng_healthy_fill:
  assumes "cracen_rng hw dev src avail polls" "dev d"
  shows "\<exists>d'. try_fill_bytes hw n d = Some (Inr (take n (concat (map u32_to_le (stake ((n + 3) div 4) (src d)))), d'))
    \<and> dev d' \<and> src d' = sdrop ((n + 3) div 4) (src d)"
  using cracen_rng.rng_fill_law [OF assms, of 0 n] by (auto simp: try_fill_bytes_def)

section \<open>A concrete generator\<close>

text \<open>A generator that counts: the state is the next word and the words left in a FIFO of four, which is
  refilled when it is polled empty.\<close>

definition sim_rng :: "(nat \<times> nat) cracen" where
  "sim_rng =
     \<lparr> w_enable = (\<lambda>_ d. d), w_volatile = (\<lambda>_ _ d. d), m_rng_enable = (\<lambda>_ d. d), m_rng_softrst_ctest = (\<lambda>_ d. d),
       r_rng_state = (\<lambda>d. (FsmFILLFIFO, d)),
       r_fifolevel = (\<lambda>(w, k). (k, (w, if k = 0 then 4 else k))),
       r_fifo0 = (\<lambda>(w, k). (of_nat w, (w + 1, k - 1))),
       w_fetchaddr = (\<lambda>_ d. d), w_pushaddr = (\<lambda>_ d. d), w_dma_config = (\<lambda>_ d. d),
       w_dma_start = (\<lambda>_ _ _ d. d), r_dma_status = (\<lambda>d. ((False, False, False), d)),
       dma_outputs = (\<lambda>_. []) \<rparr>"

definition sim_src :: "nat \<times> nat \<Rightarrow> u32 stream" where
  "sim_src d = smap of_nat (fromN (fst d))"

definition sim_polls :: "nat \<times> nat \<Rightarrow> nat" where
  "sim_polls d = (if snd d = 0 then 1 else 0)"

lemma sim_rng_sel:
  "r_rng_state sim_rng d = (FsmFILLFIFO, d)" "r_fifolevel sim_rng (w, k) = (k, (w, if k = 0 then 4 else k))"
  "r_fifo0 sim_rng (w, k) = (of_nat w, (w + 1, k - 1))"
  by (simp_all add: sim_rng_def)

interpretation sim_rng: cracen_rng sim_rng "\<lambda>_. True" sim_src snd sim_polls
proof
  fix d :: "nat \<times> nat"
  obtain w k where d: "d = (w, k)" by (cases d)
  show "\<exists>s d'. r_rng_state sim_rng d = (s, d') \<and> s \<noteq> FsmERROR \<and> True \<and> sim_src d' = sim_src d"
    by (simp add: sim_rng_sel)
  show "\<exists>l d'. r_fifolevel sim_rng d = (l, d') \<and> True \<and> sim_src d' = sim_src d \<and> l \<le> snd d'
      \<and> (l = 0 \<longrightarrow> sim_polls d' < sim_polls d)"
    by (simp add: sim_rng_sel d sim_src_def sim_polls_def)
  show "\<exists>d'. r_fifo0 sim_rng d = (shd (sim_src d), d') \<and> True \<and> sim_src d' = stl (sim_src d) \<and> snd d \<le> snd d' + 1"
    by (simp add: sim_rng_sel d sim_src_def)
qed

lemma rng_healthy_fill_witness:
  "\<exists>d'. try_fill_bytes sim_rng 6 (1, 0) = Some (Inr (take 6 (concat (map u32_to_le (stake ((6 + 3) div 4) (sim_src (1, 0))))), d'))
    \<and> True \<and> sim_src d' = sdrop ((6 + 3) div 4) (sim_src (1, 0))"
  by (rule rng_healthy_fill [OF sim_rng.cracen_rng_axioms]) simp


lemma rng_faulty_source_panics_witness:
  "try_fill_bytes (sim_rng \<lparr> r_rng_state := (\<lambda>d. (FsmERROR, d)) \<rparr>) 6 (1, 0)
     = Some (if (6 :: nat) = 0 then Inr ([], (1, 0)) else Inl RngHardwareFailure)
   \<and> try_next_u32 (sim_rng \<lparr> r_rng_state := (\<lambda>d. (FsmERROR, d)) \<rparr>) (1, 0) = Some (Inl RngHardwareFailure)
   \<and> try_next_u64 (sim_rng \<lparr> r_rng_state := (\<lambda>d. (FsmERROR, d)) \<rparr>) (1, 0) = Some (Inl RngHardwareFailure)"
  by (rule rng_faulty_source_panics) simp

end
