(* ===== verification/Nrf_Pke.thy ===== *)
theory Nrf_Pke
  imports Nrf_Cracen
begin

text \<open>
  The public-key engine of the nRF54L15 (\<^verbatim>\<open>embedded-cal-nrf54l15/src/dh.rs\<close>, the hardware half): operands
  are written into slots of the engine's RAM, the command and the operand pointers are set, the
  engine is started, the results are read back and the scalar is erased.

  The registers are the record \<open>pke\<close>; debug assertions are panics. \<open>cracen_pke\<close> states the documented
  behaviour of the engine and of its RAM.
\<close>

section \<open>Constants and addresses\<close>

definition CRACEN_PKE_RAM_BASE :: nat where "CRACEN_PKE_RAM_BASE = 0x51808000"
definition CRACEN_PKE_RAM_END :: nat where "CRACEN_PKE_RAM_END = MICROCODE_BASE"
definition SLOT_SIZE :: nat where "SLOT_SIZE = 0x200"
definition BYTES_M1 :: nat where "BYTES_M1 = 31"
definition P256_SLOT_OFFSET :: nat where "P256_SLOT_OFFSET = SLOT_SIZE - 32"
definition PKE_OPCODE_ECC_MULT :: nat where "PKE_OPCODE_ECC_MULT = 0x22"
definition SLOT_SCALAR :: nat where "SLOT_SCALAR = 8"
definition SLOT_POINT_X :: nat where "SLOT_POINT_X = 12"
definition SLOT_POINT_Y :: nat where "SLOT_POINT_Y = 13"
definition SLOT_RESULT_X :: nat where "SLOT_RESULT_X = 10"
definition SLOT_RESULT_Y :: nat where "SLOT_RESULT_Y = 11"
definition PKE_OPCODE_MONTGOMERY_PTMUL :: nat where "PKE_OPCODE_MONTGOMERY_PTMUL = 0x28"
definition MG_SLOT_U :: nat where "MG_SLOT_U = 6"
definition MG_SLOT_K :: nat where "MG_SLOT_K = 8"
definition MG_SLOT_OUT :: nat where "MG_SLOT_OUT = 10"
definition X448_BYTES_M1 :: nat where "X448_BYTES_M1 = 55"

lemmas pke_consts = CRACEN_PKE_RAM_BASE_def CRACEN_PKE_RAM_END_def SLOT_SIZE_def P256_SLOT_OFFSET_def MICROCODE_BASE_def

lemmas pke_slots = SLOT_SCALAR_def SLOT_POINT_X_def SLOT_POINT_Y_def SLOT_RESULT_X_def SLOT_RESULT_Y_def
  MG_SLOT_U_def MG_SLOT_K_def MG_SLOT_OUT_def

definition slot_addr :: "nat \<Rightarrow> nat" where
  "slot_addr slot = CRACEN_PKE_RAM_BASE + slot * SLOT_SIZE + P256_SLOT_OFFSET"

definition montgomery_slot_addr :: "nat \<Rightarrow> nat" where
  "montgomery_slot_addr slot = CRACEN_PKE_RAM_BASE + slot * SLOT_SIZE"

definition X448_PRIME_P :: bytes where
  "X448_PRIME_P = (replicate 56 0xFF)[28 := 0xFE]"

definition X448_COEFF_A :: bytes where
  "X448_COEFF_A = [0xA6, 0x62, 0x02] @ replicate 53 0"

section \<open>The registers\<close>

datatype selcurve = SelP256 | SelCURVE25519 | SelNOACCEL

datatype swapbytes = NATIVE | SWAPPED

record pke_command =
  opeaddr :: nat
  opbytesm1 :: nat
  selcurve :: selcurve
  edwards :: bool
  swapbytes :: swapbytes

record 'd pke =
  r_pkbusy :: "'d \<Rightarrow> bool \<times> 'd"
  r_ctrdrbgbusy :: "'d \<Rightarrow> bool \<times> 'd"
  w_command :: "pke_command \<Rightarrow> 'd \<Rightarrow> 'd"
  w_pointers :: "nat \<times> nat \<times> nat \<Rightarrow> 'd \<Rightarrow> 'd"
  w_start :: "bool \<times> bool \<Rightarrow> 'd \<Rightarrow> 'd"
  r_pk_status :: "'d \<Rightarrow> (nat \<times> nat) \<times> 'd"
  ram_write :: "nat \<Rightarrow> u32 \<Rightarrow> 'd \<Rightarrow> 'd"
  ram_read :: "nat \<Rightarrow> 'd \<Rightarrow> u32 \<times> 'd"

section \<open>The code\<close>

partial_function (option) poll_clear :: "('d \<Rightarrow> bool \<times> 'd) \<Rightarrow> 'd \<Rightarrow> 'd option" where
  "poll_clear r d = (let (b, d) = r d in if b then poll_clear r d else Some d)"

definition wait_pk_ready :: "'d pke \<Rightarrow> 'd \<Rightarrow> 'd option" where
  "wait_pk_ready hw d = do { d \<leftarrow> poll_clear (r_pkbusy hw) d; poll_clear (r_ctrdrbgbusy hw) d }"

text \<open>\<open>pke_ram_word\<close>: the two debug assertions on the address.\<close>

definition pke_ram_word :: "nat \<Rightarrow> nat option" where
  "pke_ram_word ad =
     (if ad \<ge> CRACEN_PKE_RAM_BASE \<and> ad + 4 \<le> CRACEN_PKE_RAM_END \<and> ad mod 4 = 0 then Some ad else None)"

fun write_pke_loop :: "'d pke \<Rightarrow> nat \<Rightarrow> nat \<Rightarrow> bytes list \<Rightarrow> 'd \<Rightarrow> 'd option" where
  "write_pke_loop hw ad i [] d = Some d"
| "write_pke_loop hw ad i (chunk # cs) d = do {
     a \<leftarrow> pke_ram_word (ad + i * 4);
     write_pke_loop hw ad (i + 1) cs (ram_write hw a (u32_from_le chunk) d)
   }"

definition write_pke_le :: "'d pke \<Rightarrow> nat \<Rightarrow> bytes \<Rightarrow> 'd \<Rightarrow> 'd option" where
  "write_pke_le hw ad data d = (if ad mod 4 = 0 then write_pke_loop hw ad 0 (as_chunks4 data) d else None)"

fun read_pke_loop :: "'d pke \<Rightarrow> nat \<Rightarrow> nat \<Rightarrow> nat \<Rightarrow> 'd \<Rightarrow> (bytes \<times> 'd) option" where
  "read_pke_loop hw ad i 0 d = Some ([], d)"
| "read_pke_loop hw ad i (Suc k) d = do {
     a \<leftarrow> pke_ram_word (ad + i * 4);
     let (w, d) = ram_read hw a d;
     (rest, d) \<leftarrow> read_pke_loop hw ad (i + 1) k d;
     Some (u32_to_le w @ rest, d)
   }"

text \<open>Reading into a zeroed buffer of \<open>n\<close> bytes.\<close>

definition read_pke_le :: "'d pke \<Rightarrow> nat \<Rightarrow> nat \<Rightarrow> 'd \<Rightarrow> (bytes \<times> 'd) option" where
  "read_pke_le hw ad n d = do {
     (bs, d) \<leftarrow> read_pke_loop hw ad 0 (n div 4) d;
     Some (bs @ replicate (n mod 4) 0, d)
   }"

fun zero_loop :: "'d pke \<Rightarrow> nat \<Rightarrow> nat list \<Rightarrow> 'd \<Rightarrow> 'd option" where
  "zero_loop hw ad [] d = Some d"
| "zero_loop hw ad (i # is) d = do {
     a \<leftarrow> pke_ram_word (ad + i * 4);
     zero_loop hw ad is (ram_write hw a 0 d)
   }"

definition cracen_p256_mult :: "'d pke \<Rightarrow> bytes \<Rightarrow> bytes \<Rightarrow> bytes \<Rightarrow> 'd \<Rightarrow> ((bytes \<times> bytes) \<times> 'd) option" where
  "cracen_p256_mult hw scalar px py d = do {
     d \<leftarrow> wait_pk_ready hw d;
     let d = w_command hw \<lparr> opeaddr = PKE_OPCODE_ECC_MULT, opbytesm1 = BYTES_M1, selcurve = SelP256,
       edwards = False, swapbytes = SWAPPED \<rparr> d;
     d \<leftarrow> wait_pk_ready hw d;
     d \<leftarrow> write_pke_le hw (slot_addr SLOT_SCALAR) scalar d;
     d \<leftarrow> write_pke_le hw (slot_addr SLOT_POINT_X) px d;
     d \<leftarrow> write_pke_le hw (slot_addr SLOT_POINT_Y) py d;
     let d = w_pointers hw (SLOT_POINT_X, SLOT_SCALAR, SLOT_RESULT_X) d;
     let d = w_start hw (True, True) d;
     d \<leftarrow> wait_pk_ready hw d;
     let ((errorflags, failptr), d) = r_pk_status hw d;
     if \<not> (errorflags = 0 \<and> failptr = 0) then None
     else do {
       (rx, d) \<leftarrow> read_pke_le hw (slot_addr SLOT_RESULT_X) 32 d;
       (ry, d) \<leftarrow> read_pke_le hw (slot_addr SLOT_RESULT_Y) 32 d;
       d \<leftarrow> zero_loop hw (slot_addr SLOT_SCALAR) [0..<8] d;
       Some ((rx, ry), d)
     }
   }"

definition cracen_montgomery_mult :: "'d pke \<Rightarrow> bytes \<Rightarrow> bytes \<Rightarrow> nat \<Rightarrow> selcurve \<Rightarrow> bool \<Rightarrow> (bytes \<times> bytes) option \<Rightarrow> 'd
    \<Rightarrow> (bytes \<times> 'd) option" where
  "cracen_montgomery_mult hw scalar u_coord bytes_m1 sel edw curve_params d = do {
     d \<leftarrow> wait_pk_ready hw d;
     let d = w_command hw \<lparr> opeaddr = PKE_OPCODE_MONTGOMERY_PTMUL, opbytesm1 = bytes_m1, selcurve = sel,
       edwards = edw, swapbytes = NATIVE \<rparr> d;
     d \<leftarrow> wait_pk_ready hw d;
     d \<leftarrow> (case curve_params of
             Some (prime, coeff_a) \<Rightarrow> do {
               d \<leftarrow> write_pke_le hw (montgomery_slot_addr 0) prime d;
               write_pke_le hw (montgomery_slot_addr 1) coeff_a d
             }
           | None \<Rightarrow> Some d);
     d \<leftarrow> write_pke_le hw (montgomery_slot_addr MG_SLOT_U) u_coord d;
     d \<leftarrow> write_pke_le hw (montgomery_slot_addr MG_SLOT_K) scalar d;
     let d = w_pointers hw (MG_SLOT_U, MG_SLOT_K, MG_SLOT_OUT) d;
     let d = w_start hw (True, True) d;
     d \<leftarrow> wait_pk_ready hw d;
     let ((errorflags, failptr), d) = r_pk_status hw d;
     if \<not> (errorflags = 0 \<and> failptr = 0) then None
     else do {
       (result, d) \<leftarrow> read_pke_le hw (montgomery_slot_addr MG_SLOT_OUT) (length scalar) d;
       d \<leftarrow> zero_loop hw (montgomery_slot_addr MG_SLOT_K) [0..<length scalar div 4] d;
       Some (result, d)
     }
   }"

definition cracen_x25519_mult :: "'d pke \<Rightarrow> bytes \<Rightarrow> bytes \<Rightarrow> 'd \<Rightarrow> (bytes \<times> 'd) option" where
  "cracen_x25519_mult hw scalar u_coord d =
     cracen_montgomery_mult hw scalar u_coord BYTES_M1 SelCURVE25519 False None d"

definition cracen_x448_mult :: "'d pke \<Rightarrow> bytes \<Rightarrow> bytes \<Rightarrow> 'd \<Rightarrow> (bytes \<times> 'd) option" where
  "cracen_x448_mult hw scalar u_coord d =
     cracen_montgomery_mult hw scalar u_coord X448_BYTES_M1 SelNOACCEL True (Some (X448_PRIME_P, X448_COEFF_A)) d"

section \<open>The contents of a slot\<close>

definition slot_bytes :: "(nat \<Rightarrow> u32) \<Rightarrow> nat \<Rightarrow> nat \<Rightarrow> bytes" where
  "slot_bytes ram a n = concat (map (\<lambda>i. u32_to_le (ram (a + i * 4))) [0..<n div 4])"

lemma length_slot_bytes: "length (slot_bytes ram a n) = 4 * (n div 4)"
  by (simp add: slot_bytes_def length_concat comp_def sum_list_triv)

lemma slot_bytes_cong:
  "(\<And>i. i < n div 4 \<Longrightarrow> ram' (a + i * 4) = ram (a + i * 4)) \<Longrightarrow> slot_bytes ram' a n = slot_bytes ram a n"
  unfolding slot_bytes_def by (intro arg_cong [where f = concat] map_cong) auto

lemma u32_to_le_0: "u32_to_le 0 = replicate 4 0"
  by (rule le_val_inj) (simp_all add: le_val_u32_to_le)

lemma concat_replicates: "concat (map (\<lambda>i. replicate k x) [0..<n]) = replicate (k * n) x"
  by (induction n) (simp_all add: replicate_add [symmetric] add.commute)

text \<open>A slot that lies inside the RAM and on a word boundary.\<close>

definition slot_ok :: "nat \<Rightarrow> nat \<Rightarrow> bool" where
  "slot_ok a n \<longleftrightarrow> CRACEN_PKE_RAM_BASE \<le> a \<and> a + n \<le> CRACEN_PKE_RAM_END \<and> a mod 4 = 0 \<and> n mod 4 = 0"

lemma pke_ram_word_ok:
  assumes "slot_ok a n" "i < n div 4"
  shows "pke_ram_word (a + i * 4) = Some (a + i * 4)"
proof -
  have "i * 4 + 4 \<le> n" using assms(2) by linarith
  moreover have "(a + i * 4) mod 4 = 0" using assms(1) by (simp add: slot_ok_def)
  ultimately show ?thesis using assms(1) by (simp add: pke_ram_word_def slot_ok_def)
qed

lemma as_chunks4_words:
  "length data mod 4 = 0 \<Longrightarrow> length (as_chunks4 data) = length data div 4 \<and> concat (as_chunks4 data) = data
     \<and> (\<forall>c \<in> set (as_chunks4 data). length c = 4)"
proof (induction data rule: as_chunks4.induct)
  case (1 a b c d xs)
  have "length (a # b # c # d # xs) = length xs + 4" by simp
  with "1.prems" have "length xs mod 4 = 0" by simp
  with "1.IH" show ?case by simp
qed simp_all

lemma slots_ok:
  "s < 16 \<Longrightarrow> slot_ok (slot_addr s) 32"
  "s < 16 \<Longrightarrow> slot_ok (montgomery_slot_addr s) 32" "s < 16 \<Longrightarrow> slot_ok (montgomery_slot_addr s) 56"
  by (simp_all add: slot_ok_def slot_addr_def montgomery_slot_addr_def pke_consts)

section \<open>The engine\<close>

text \<open>The documented behaviour. \<open>ram\<close>, \<open>cmd\<close>, \<open>ptrs\<close> and \<open>err\<close> are the contents of the RAM and of the
  registers, \<open>polls\<close> bounds the polls until the engine is ready. Starting a scalar multiplication puts
  the result into the slots the third pointer names; the three multiplications stay abstract.\<close>

locale cracen_pke =
  fixes hw :: "'d pke" and dev :: "'d \<Rightarrow> bool" and ram :: "'d \<Rightarrow> nat \<Rightarrow> u32" and cmd :: "'d \<Rightarrow> pke_command"
    and ptrs :: "'d \<Rightarrow> nat \<times> nat \<times> nat" and err :: "'d \<Rightarrow> nat \<times> nat" and polls :: "'d \<Rightarrow> nat"
    and mul_p256 :: "bytes \<Rightarrow> bytes \<times> bytes \<Rightarrow> bytes \<times> bytes" and mul_x25519 mul_x448 :: "bytes \<Rightarrow> bytes \<Rightarrow> bytes"
  assumes pkbusy_law: "dev d \<Longrightarrow> \<exists>b d'. r_pkbusy hw d = (b, d') \<and> dev d' \<and> ram d' = ram d \<and> cmd d' = cmd d
      \<and> ptrs d' = ptrs d \<and> err d' = err d \<and> (b \<longrightarrow> polls d' < polls d)"
    and ctrdrbgbusy_law: "dev d \<Longrightarrow> \<exists>b d'. r_ctrdrbgbusy hw d = (b, d') \<and> dev d' \<and> ram d' = ram d \<and> cmd d' = cmd d
      \<and> ptrs d' = ptrs d \<and> err d' = err d \<and> (b \<longrightarrow> polls d' < polls d)"
    and command_law: "dev d \<Longrightarrow> dev (w_command hw com d) \<and> ram (w_command hw com d) = ram d \<and> cmd (w_command hw com d) = com"
    and pointers_law: "dev d \<Longrightarrow> dev (w_pointers hw p d) \<and> ram (w_pointers hw p d) = ram d
      \<and> cmd (w_pointers hw p d) = cmd d \<and> ptrs (w_pointers hw p d) = p"
    and ram_write_law: "dev d \<Longrightarrow> pke_ram_word a = Some a \<Longrightarrow> dev (ram_write hw a v d)
      \<and> ram (ram_write hw a v d) = (ram d)(a := v) \<and> cmd (ram_write hw a v d) = cmd d"
    and ram_read_law: "dev d \<Longrightarrow> pke_ram_word a = Some a \<Longrightarrow>
      \<exists>d'. ram_read hw a d = (ram d a, d') \<and> dev d' \<and> ram d' = ram d"
    and status_law: "dev d \<Longrightarrow> \<exists>d'. r_pk_status hw d = (err d, d') \<and> dev d' \<and> ram d' = ram d"
    and start_p256: "dev d \<Longrightarrow> ptrs d = (a, b, c) \<Longrightarrow>
      cmd d = \<lparr> opeaddr = PKE_OPCODE_ECC_MULT, opbytesm1 = 31, selcurve = SelP256, edwards = False, swapbytes = SWAPPED \<rparr> \<Longrightarrow>
      dev (w_start hw (True, True) d) \<and> err (w_start hw (True, True) d) = (0, 0)
      \<and> (slot_bytes (ram (w_start hw (True, True) d)) (slot_addr c) 32, slot_bytes (ram (w_start hw (True, True) d)) (slot_addr (c + 1)) 32)
        = mul_p256 (slot_bytes (ram d) (slot_addr b) 32) (slot_bytes (ram d) (slot_addr a) 32, slot_bytes (ram d) (slot_addr (a + 1)) 32)"
    and start_x25519: "dev d \<Longrightarrow> ptrs d = (a, b, c) \<Longrightarrow>
      cmd d = \<lparr> opeaddr = PKE_OPCODE_MONTGOMERY_PTMUL, opbytesm1 = 31, selcurve = SelCURVE25519, edwards = False, swapbytes = NATIVE \<rparr> \<Longrightarrow>
      dev (w_start hw (True, True) d) \<and> err (w_start hw (True, True) d) = (0, 0)
      \<and> slot_bytes (ram (w_start hw (True, True) d)) (montgomery_slot_addr c) 32
        = mul_x25519 (slot_bytes (ram d) (montgomery_slot_addr b) 32) (slot_bytes (ram d) (montgomery_slot_addr a) 32)"
    and start_x448: "dev d \<Longrightarrow> ptrs d = (a, b, c) \<Longrightarrow>
      cmd d = \<lparr> opeaddr = PKE_OPCODE_MONTGOMERY_PTMUL, opbytesm1 = 55, selcurve = SelNOACCEL, edwards = True, swapbytes = NATIVE \<rparr> \<Longrightarrow>
      slot_bytes (ram d) (montgomery_slot_addr 0) 56 = X448_PRIME_P \<Longrightarrow>
      slot_bytes (ram d) (montgomery_slot_addr 1) 56 = X448_COEFF_A \<Longrightarrow>
      dev (w_start hw (True, True) d) \<and> err (w_start hw (True, True) d) = (0, 0)
      \<and> slot_bytes (ram (w_start hw (True, True) d)) (montgomery_slot_addr c) 56
        = mul_x448 (slot_bytes (ram d) (montgomery_slot_addr b) 56) (slot_bytes (ram d) (montgomery_slot_addr a) 56)"
    and mul_p256_length: "length k = 32 \<Longrightarrow> length x = 32 \<Longrightarrow> length y = 32 \<Longrightarrow>
      length (fst (mul_p256 k (x, y))) = 32 \<and> length (snd (mul_p256 k (x, y))) = 32"
    and mul_x25519_length: "length k = 32 \<Longrightarrow> length u = 32 \<Longrightarrow> length (mul_x25519 k u) = 32"
    and mul_x448_length: "length k = 56 \<Longrightarrow> length u = 56 \<Longrightarrow> length (mul_x448 k u) = 56"
begin

definition same :: "'d \<Rightarrow> 'd \<Rightarrow> bool" where
  "same d d' \<longleftrightarrow> ram d' = ram d \<and> cmd d' = cmd d \<and> ptrs d' = ptrs d \<and> err d' = err d"

lemma poll_ends:
  assumes "\<And>d. dev d \<Longrightarrow> \<exists>b d'. r d = (b, d') \<and> dev d' \<and> same d d' \<and> (b \<longrightarrow> polls d' < polls d)" "dev d"
  shows "\<exists>d'. poll_clear r d = Some d' \<and> dev d' \<and> same d d'"
  using assms(2)
proof (induction "polls d" arbitrary: d rule: less_induct)
  case less
  obtain b d1 where b: "r d = (b, d1)" "dev d1" "same d d1" "b \<longrightarrow> polls d1 < polls d"
    using assms(1) [OF less.prems] by blast
  show ?case
  proof (cases b)
    case True
    obtain d' where "poll_clear r d1 = Some d'" "dev d'" "same d1 d'" using less.hyps [of d1] b True by blast
    then show ?thesis using b True by (subst poll_clear.simps) (simp add: same_def)
  next
    case False
    then show ?thesis using b by (subst poll_clear.simps) simp
  qed
qed

lemma wait_ends:
  assumes "dev d"
  shows "\<exists>d'. wait_pk_ready hw d = Some d' \<and> dev d' \<and> ram d' = ram d \<and> cmd d' = cmd d \<and> ptrs d' = ptrs d \<and> err d' = err d"
proof -
  obtain d1 where 1: "poll_clear (r_pkbusy hw) d = Some d1" "dev d1" "same d d1"
    using poll_ends [of "r_pkbusy hw", OF _ assms] pkbusy_law unfolding same_def by blast
  obtain d2 where "poll_clear (r_ctrdrbgbusy hw) d1 = Some d2" "dev d2" "same d1 d2"
    using poll_ends [of "r_ctrdrbgbusy hw", OF _ 1(2)] ctrdrbgbusy_law unfolding same_def by blast
  with 1 show ?thesis by (simp add: wait_pk_ready_def same_def)
qed

lemma write_loop:
  assumes "slot_ok a n" "dev d" "i + length cs \<le> n div 4" "\<forall>c \<in> set cs. length c = 4"
  shows "\<exists>d'. write_pke_loop hw a i cs d = Some d' \<and> dev d' \<and> cmd d' = cmd d
    \<and> (\<forall>j < length cs. u32_to_le (ram d' (a + (i + j) * 4)) = cs ! j)
    \<and> (\<forall>x. (\<forall>j < length cs. x \<noteq> a + (i + j) * 4) \<longrightarrow> ram d' x = ram d x)"
  using assms(2-4)
proof (induction cs arbitrary: i d)
  case (Cons c cs)
  have w: "pke_ram_word (a + i * 4) = Some (a + i * 4)"
    using Cons.prems by (intro pke_ram_word_ok [OF assms(1)]) simp
  note l = ram_write_law [OF Cons.prems(1) w, of "u32_from_le c"]
  obtain d' where d': "write_pke_loop hw a (i + 1) cs (ram_write hw (a + i * 4) (u32_from_le c) d) = Some d'" "dev d'" "cmd d' = cmd d"
    "\<forall>j < length cs. u32_to_le (ram d' (a + (i + 1 + j) * 4)) = cs ! j"
    "\<forall>x. (\<forall>j < length cs. x \<noteq> a + (i + 1 + j) * 4) \<longrightarrow> ram d' x = ((ram d)(a + i * 4 := u32_from_le c)) x"
    using Cons.IH [of "ram_write hw (a + i * 4) (u32_from_le c) d" "i + 1"] l Cons.prems(2,3) by auto
  have "u32_to_le (ram d' (a + (i + j) * 4)) = (c # cs) ! j" if "j < length (c # cs)" for j
  proof (cases j)
    case 0
    have "ram d' (a + i * 4) = u32_from_le c" using d'(5) by simp
    then show ?thesis using 0 Cons.prems(3) by (simp add: u32_to_le_from_le)
  next
    case (Suc k)
    then show ?thesis using d'(4) that by (simp add: add.assoc)
  qed
  moreover have "ram d' x = ram d x" if x: "\<forall>j < length (c # cs). x \<noteq> a + (i + j) * 4" for x
  proof -
    have "x \<noteq> a + (i + 1 + j) * 4" if "j < length cs" for j
      using x [rule_format, of "Suc j"] that by simp
    moreover have "x \<noteq> a + i * 4" using x [rule_format, of 0] by simp
    ultimately show ?thesis using d'(5) by simp
  qed
  ultimately show ?case using d'(1-3) w by auto
qed auto

text \<open>Writing a slot sets it and leaves every other slot alone.\<close>

definition apart :: "nat \<Rightarrow> nat \<Rightarrow> nat \<Rightarrow> nat \<Rightarrow> bool" where
  "apart a n b m \<longleftrightarrow> a + n \<le> b \<or> b + m \<le> a"

lemma write_law:
  assumes "slot_ok a (length data)" "dev d"
  shows "\<exists>d'. write_pke_le hw a data d = Some d' \<and> dev d' \<and> cmd d' = cmd d
    \<and> slot_bytes (ram d') a (length data) = data
    \<and> (\<forall>b m. apart a (length data) b m \<longrightarrow> slot_bytes (ram d') b m = slot_bytes (ram d) b m)"
proof -
  note cs = as_chunks4_words [of data]
  have m: "length data mod 4 = 0" "a mod 4 = 0" using assms(1) by (simp_all add: slot_ok_def)
  let ?cs = "as_chunks4 data"
  obtain d' where d': "write_pke_loop hw a 0 ?cs d = Some d'" "dev d'" "cmd d' = cmd d"
    "\<forall>j < length ?cs. u32_to_le (ram d' (a + j * 4)) = ?cs ! j"
    "\<forall>x. (\<forall>j < length ?cs. x \<noteq> a + j * 4) \<longrightarrow> ram d' x = ram d x"
    using write_loop [OF assms, of 0 ?cs] cs m(1) by auto
  have "map (\<lambda>i. u32_to_le (ram d' (a + i * 4))) [0..<length data div 4] = ?cs"
    using d'(4) cs m(1) by (intro nth_equalityI) auto
  then have "slot_bytes (ram d') a (length data) = data" using cs m(1) by (simp add: slot_bytes_def)
  moreover have "slot_bytes (ram d') b k = slot_bytes (ram d) b k" if "apart a (length data) b k" for b k
  proof (rule slot_bytes_cong)
    fix i
    assume "i < k div 4"
    then have "i * 4 + 4 \<le> k" by linarith
    moreover have "j * 4 + 4 \<le> length data" if "j < length ?cs" for j using that cs m(1) by linarith
    ultimately have "\<forall>j < length ?cs. b + i * 4 \<noteq> a + j * 4" using that unfolding apart_def by fastforce
    then show "ram d' (b + i * 4) = ram d (b + i * 4)" using d'(5) by blast
  qed
  ultimately show ?thesis using d'(1-3) m by (auto simp: write_pke_le_def)
qed

lemma read_law:
  assumes "slot_ok a n" "dev d"
  shows "\<exists>d'. read_pke_le hw a n d = Some (slot_bytes (ram d) a n, d') \<and> dev d' \<and> ram d' = ram d"
proof -
  have "\<exists>d'. read_pke_loop hw a i k d = Some (concat (map (\<lambda>j. u32_to_le (ram d (a + j * 4))) [i..<i + k]), d') \<and> dev d' \<and> ram d' = ram d"
    if "dev d" "i + k \<le> n div 4" for i k d
    using that
  proof (induction k arbitrary: i d)
    case (Suc k)
    have w: "pke_ram_word (a + i * 4) = Some (a + i * 4)"
      using Suc.prems by (intro pke_ram_word_ok [OF assms(1)]) simp
    obtain d1 where 1: "ram_read hw (a + i * 4) d = (ram d (a + i * 4), d1)" "dev d1" "ram d1 = ram d"
      using ram_read_law [OF Suc.prems(1) w] by blast
    obtain d2 where 2: "read_pke_loop hw a (i + 1) k d1 = Some (concat (map (\<lambda>j. u32_to_le (ram d (a + j * 4))) [i + 1..<i + 1 + k]), d2)"
      "dev d2" "ram d2 = ram d"
      using Suc.IH [OF 1(2), of "i + 1"] Suc.prems(2) 1(3) by auto
    have "[i..<i + Suc k] = i # [i + 1..<i + 1 + k]" by (simp add: upt_conv_Cons)
    then show ?case using w 1(1) 2 by simp
  qed simp
  from this [OF assms(2), of 0 "n div 4"] assms(1) show ?thesis
    by (auto simp: read_pke_le_def slot_bytes_def slot_ok_def)
qed

lemma zero_law:
  assumes "slot_ok a n" "dev d"
  shows "\<exists>d'. zero_loop hw a [0..<n div 4] d = Some d' \<and> dev d' \<and> slot_bytes (ram d') a n = replicate n 0"
proof -
  have *: "\<exists>d'. zero_loop hw a is d = Some d' \<and> dev d' \<and> (\<forall>i \<in> set is. ram d' (a + i * 4) = 0)
      \<and> (\<forall>x. ram d x = 0 \<longrightarrow> ram d' x = 0)"
    if "dev d" "\<forall>i \<in> set is. i < n div 4" for "is" d
    using that
  proof (induction "is" arbitrary: d)
    case (Cons i "is")
    have w: "pke_ram_word (a + i * 4) = Some (a + i * 4)"
      using Cons.prems by (intro pke_ram_word_ok [OF assms(1)]) simp
    note l = ram_write_law [OF Cons.prems(1) w, of 0]
    from Cons.IH [OF l [THEN conjunct1]] Cons.prems(2) l
    obtain d' where "zero_loop hw a is (ram_write hw (a + i * 4) 0 d) = Some d'" "dev d'"
      "\<forall>i \<in> set is. ram d' (a + i * 4) = 0" "\<forall>x. ((ram d)(a + i * 4 := 0)) x = 0 \<longrightarrow> ram d' x = 0" by auto
    then show ?case using w by auto
  qed simp
  obtain d' where d': "zero_loop hw a [0..<n div 4] d = Some d'" "dev d'" "\<forall>i < n div 4. ram d' (a + i * 4) = 0"
    using * [OF assms(2), of "[0..<n div 4]"] by auto
  have "slot_bytes (ram d') a n = concat (map (\<lambda>i. replicate 4 0) [0..<n div 4])"
    unfolding slot_bytes_def using d'(3)
    by (intro arg_cong [where f = concat] map_cong) (simp_all add: u32_to_le_0)
  also have "\<dots> = replicate (4 * (n div 4)) 0" by (rule concat_replicates)
  also have "4 * (n div 4) = n" using assms(1) unfolding slot_ok_def by presburger
  finally show ?thesis using d' by blast
qed

text \<open>The slots used lie apart from each other.\<close>

lemma slots_apart:
  "s \<noteq> t \<Longrightarrow> apart (slot_addr s) 32 (slot_addr t) 32"
  "s \<noteq> t \<Longrightarrow> n \<le> 512 \<Longrightarrow> m \<le> 512 \<Longrightarrow> apart (montgomery_slot_addr s) n (montgomery_slot_addr t) m"
  by (auto simp: apart_def slot_addr_def montgomery_slot_addr_def pke_consts)

lemma p256_mult_law:
  assumes "dev d" "length k = 32" "length x = 32" "length y = 32"
  shows "\<exists>d'. cracen_p256_mult hw k x y d = Some (mul_p256 k (x, y), d') \<and> dev d'
    \<and> slot_bytes (ram d') (slot_addr SLOT_SCALAR) 32 = replicate 32 0"
proof -
  let ?c = "\<lparr> opeaddr = PKE_OPCODE_ECC_MULT, opbytesm1 = BYTES_M1, selcurve = SelP256, edwards = False, swapbytes = SWAPPED \<rparr>"
  have ok: "slot_ok (slot_addr 8) 32" "slot_ok (slot_addr 10) 32" "slot_ok (slot_addr 11) 32" "slot_ok (slot_addr 12) 32" "slot_ok (slot_addr 13) 32"
    by (simp_all add: slots_ok)
  obtain d1 where 1: "wait_pk_ready hw d = Some d1" "dev d1" using wait_ends [OF assms(1)] by blast
  note c = command_law [OF 1(2), of ?c]
  obtain d2 where 2: "wait_pk_ready hw (w_command hw ?c d1) = Some d2" "dev d2" "cmd d2 = ?c"
    using wait_ends [of "w_command hw ?c d1"] c by auto
  obtain d3 where 3: "write_pke_le hw (slot_addr 8) k d2 = Some d3" "dev d3" "cmd d3 = ?c" "slot_bytes (ram d3) (slot_addr 8) 32 = k"
    using write_law [of "slot_addr 8" k d2] ok(1) 2 assms(2) by auto
  obtain d4 where 4: "write_pke_le hw (slot_addr 12) x d3 = Some d4" "dev d4" "cmd d4 = ?c" "slot_bytes (ram d4) (slot_addr 12) 32 = x"
    "slot_bytes (ram d4) (slot_addr 8) 32 = k"
    using write_law [of "slot_addr 12" x d3] ok(4) 3 assms(3) slots_apart(1) [of 12 8] by auto
  obtain d5 where 5: "write_pke_le hw (slot_addr 13) y d4 = Some d5" "dev d5" "cmd d5 = ?c" "slot_bytes (ram d5) (slot_addr 13) 32 = y"
    "slot_bytes (ram d5) (slot_addr 12) 32 = x" "slot_bytes (ram d5) (slot_addr 8) 32 = k"
    using write_law [of "slot_addr 13" y d4] ok(5) 4 assms(4) slots_apart(1) [of 13 8] slots_apart(1) [of 13 12] by auto
  let ?d6 = "w_pointers hw (12, 8, 10) d5"
  have 6: "dev ?d6" "ram ?d6 = ram d5" "cmd ?d6 = ?c" "ptrs ?d6 = (12, 8, 10)" using pointers_law [OF 5(2)] 5(3) by auto
  let ?d7 = "w_start hw (True, True) ?d6"
  have 7: "dev ?d7" "err ?d7 = (0, 0)"
    "(slot_bytes (ram ?d7) (slot_addr 10) 32, slot_bytes (ram ?d7) (slot_addr 11) 32) = mul_p256 k (x, y)"
    using start_p256 [OF 6(1,4)] 6(2,3) 5(4-6) by (auto simp: BYTES_M1_def)
  obtain d8 where 8: "wait_pk_ready hw ?d7 = Some d8" "dev d8" "ram d8 = ram ?d7" "err d8 = (0, 0)"
    using wait_ends [OF 7(1)] 7(2) by auto
  obtain d9 where 9: "r_pk_status hw d8 = ((0, 0), d9)" "dev d9" "ram d9 = ram ?d7"
    using status_law [OF 8(2)] 8(3,4) by auto
  obtain d10 where 10: "read_pke_le hw (slot_addr 10) 32 d9 = Some (slot_bytes (ram ?d7) (slot_addr 10) 32, d10)" "dev d10" "ram d10 = ram ?d7"
    using read_law [OF ok(2) 9(2)] 9(3) by auto
  obtain d11 where 11: "read_pke_le hw (slot_addr 11) 32 d10 = Some (slot_bytes (ram ?d7) (slot_addr 11) 32, d11)" "dev d11"
    using read_law [OF ok(3) 10(2)] 10(3) by auto
  obtain d12 where 12: "zero_loop hw (slot_addr 8) [0..<8] d11 = Some d12" "dev d12" "slot_bytes (ram d12) (slot_addr 8) 32 = replicate 32 0"
    using zero_law [OF ok(1) 11(2)] by auto
  show ?thesis
    unfolding cracen_p256_mult_def pke_slots using 12(2,3)
    by (simp only: 1(1) 2(1) 3(1) 4(1) 5(1) 8(1) 9(1) 10(1) 11(1) 12(1) 7(3) Let_def bind.bind_lunit prod.case
        simp_thms if_False if_True) simp
qed

text \<open>The Montgomery multiplication, for a start law of either curve.\<close>

lemma montgomery_law:
  assumes "dev d" "length k = n" "length u = n" "n = 32 \<or> n = 56" "\<forall>p a. params = Some (p, a) \<longrightarrow> length p = 56 \<and> length a = 56"
    and start: "\<And>d. dev d \<Longrightarrow> ptrs d = (6, 8, 10) \<Longrightarrow>
      cmd d = \<lparr> opeaddr = PKE_OPCODE_MONTGOMERY_PTMUL, opbytesm1 = m1, selcurve = sel, edwards = edw, swapbytes = NATIVE \<rparr> \<Longrightarrow>
      (\<forall>p a. params = Some (p, a) \<longrightarrow> slot_bytes (ram d) (montgomery_slot_addr 0) 56 = p \<and> slot_bytes (ram d) (montgomery_slot_addr 1) 56 = a) \<Longrightarrow>
      dev (w_start hw (True, True) d) \<and> err (w_start hw (True, True) d) = (0, 0)
      \<and> slot_bytes (ram (w_start hw (True, True) d)) (montgomery_slot_addr 10) n
        = mul (slot_bytes (ram d) (montgomery_slot_addr 8) n) (slot_bytes (ram d) (montgomery_slot_addr 6) n)"
  shows "\<exists>d'. cracen_montgomery_mult hw k u m1 sel edw params d = Some (mul k u, d') \<and> dev d'
    \<and> slot_bytes (ram d') (montgomery_slot_addr MG_SLOT_K) n = replicate n 0"
proof -
  let ?M = montgomery_slot_addr
  let ?c = "\<lparr> opeaddr = PKE_OPCODE_MONTGOMERY_PTMUL, opbytesm1 = m1, selcurve = sel, edwards = edw, swapbytes = NATIVE \<rparr>"
  have ok: "slot_ok (?M 6) n" "slot_ok (?M 8) n" "slot_ok (?M 10) n" "slot_ok (?M 0) 56" "slot_ok (?M 1) 56"
    using assms(4) by (auto simp: slots_ok)
  have n512: "n \<le> 512" using assms(4) by auto
  obtain d1 where 1: "wait_pk_ready hw d = Some d1" "dev d1" using wait_ends [OF assms(1)] by blast
  note c = command_law [OF 1(2), of ?c]
  obtain d2 where 2: "wait_pk_ready hw (w_command hw ?c d1) = Some d2" "dev d2" "cmd d2 = ?c"
    using wait_ends [of "w_command hw ?c d1"] c by auto
  define loaded where "loaded d \<longleftrightarrow> (\<forall>p a. params = Some (p, a) \<longrightarrow> slot_bytes (ram d) (?M 0) 56 = p \<and> slot_bytes (ram d) (?M 1) 56 = a)" for d
  have "\<exists>d3. (case params of Some (p, a) \<Rightarrow> do { d \<leftarrow> write_pke_le hw (?M 0) p d2; write_pke_le hw (?M 1) a d } | None \<Rightarrow> Some d2)
      = Some d3 \<and> dev d3 \<and> cmd d3 = ?c \<and> loaded d3"
  proof (cases params)
    case None
    then show ?thesis using 2 by (simp add: loaded_def)
  next
    case (Some pa)
    obtain p a where pa: "params = Some (p, a)" using Some by (cases pa) simp
    have l: "length p = 56" "length a = 56" using assms(5) pa by auto
    obtain e1 where e1: "write_pke_le hw (?M 0) p d2 = Some e1" "dev e1" "cmd e1 = ?c" "slot_bytes (ram e1) (?M 0) 56 = p"
      using write_law [of "?M 0" p d2] ok(4) 2 l by auto
    obtain e2 where e2: "write_pke_le hw (?M 1) a e1 = Some e2" "dev e2" "cmd e2 = ?c" "slot_bytes (ram e2) (?M 1) 56 = a"
      "slot_bytes (ram e2) (?M 0) 56 = p"
      using write_law [of "?M 1" a e1] ok(5) e1 l slots_apart(2) [of 1 0 56 56] by auto
    show ?thesis using e1(1) e2 pa by (auto simp: loaded_def)
  qed
  then obtain d3 where 3: "(case params of Some (p, a) \<Rightarrow> do { d \<leftarrow> write_pke_le hw (?M 0) p d2; write_pke_le hw (?M 1) a d } | None \<Rightarrow> Some d2)
      = Some d3" "dev d3" "cmd d3 = ?c" "loaded d3" by blast
  obtain d4 where 4: "write_pke_le hw (?M 6) u d3 = Some d4" "dev d4" "cmd d4 = ?c" "slot_bytes (ram d4) (?M 6) n = u"
    "\<forall>b m. apart (?M 6) n b m \<longrightarrow> slot_bytes (ram d4) b m = slot_bytes (ram d3) b m"
    using write_law [of "?M 6" u d3] ok(1) 3(2,3) assms(3) by auto
  have l4: "loaded d4" using 3(4) 4(5) slots_apart(2) [of 6 0 n 56] slots_apart(2) [of 6 1 n 56] n512 by (simp add: loaded_def)
  obtain d5 where 5: "write_pke_le hw (?M 8) k d4 = Some d5" "dev d5" "cmd d5 = ?c" "slot_bytes (ram d5) (?M 8) n = k"
    "\<forall>b m. apart (?M 8) n b m \<longrightarrow> slot_bytes (ram d5) b m = slot_bytes (ram d4) b m"
    using write_law [of "?M 8" k d4] ok(2) 4(2,3) assms(2) by auto
  have l5: "loaded d5" using l4 5(5) slots_apart(2) [of 8 0 n 56] slots_apart(2) [of 8 1 n 56] n512 by (simp add: loaded_def)
  have u5: "slot_bytes (ram d5) (?M 6) n = u" using 5(5) 4(4) slots_apart(2) [of 8 6 n n] n512 by simp
  let ?d6 = "w_pointers hw (6, 8, 10) d5"
  have 6: "dev ?d6" "ram ?d6 = ram d5" "cmd ?d6 = ?c" "ptrs ?d6 = (6, 8, 10)" using pointers_law [OF 5(2)] 5(3) by auto
  let ?d7 = "w_start hw (True, True) ?d6"
  have 7: "dev ?d7" "err ?d7 = (0, 0)" "slot_bytes (ram ?d7) (?M 10) n = mul k u"
    using start [OF 6(1,4,3)] l5 u5 5(4) unfolding 6(2) loaded_def by auto
  obtain d8 where 8: "wait_pk_ready hw ?d7 = Some d8" "dev d8" "ram d8 = ram ?d7" "err d8 = (0, 0)"
    using wait_ends [OF 7(1)] 7(2) by auto
  obtain d9 where 9: "r_pk_status hw d8 = ((0, 0), d9)" "dev d9" "ram d9 = ram ?d7"
    using status_law [OF 8(2)] 8(3,4) by auto
  obtain d10 where 10: "read_pke_le hw (?M 10) (length k) d9 = Some (mul k u, d10)" "dev d10"
    using read_law [OF ok(3) 9(2)] 9(3) 7(3) assms(2) by auto
  obtain d11 where 11: "zero_loop hw (?M 8) [0..<length k div 4] d10 = Some d11" "dev d11" "slot_bytes (ram d11) (?M 8) n = replicate n 0"
    using zero_law [OF ok(2) 10(2)] assms(2) by auto
  show ?thesis
    unfolding cracen_montgomery_mult_def pke_slots using 11(2,3)
    by (simp only: 1(1) 2(1) 3(1) 4(1) 5(1) 8(1) 9(1) 10(1) 11(1) Let_def bind.bind_lunit prod.case simp_thms if_False if_True) simp
qed

lemma x25519_mult_law:
  assumes "dev d" "length k = 32" "length u = 32"
  shows "\<exists>d'. cracen_x25519_mult hw k u d = Some (mul_x25519 k u, d') \<and> dev d'
    \<and> slot_bytes (ram d') (montgomery_slot_addr MG_SLOT_K) 32 = replicate 32 0"
  unfolding cracen_x25519_mult_def BYTES_M1_def
  by (rule montgomery_law [OF assms]) (use start_x25519 in auto)

lemma x448_mult_law:
  assumes "dev d" "length k = 56" "length u = 56"
  shows "\<exists>d'. cracen_x448_mult hw k u d = Some (mul_x448 k u, d') \<and> dev d'
    \<and> slot_bytes (ram d') (montgomery_slot_addr MG_SLOT_K) 56 = replicate 56 0"
  unfolding cracen_x448_mult_def X448_BYTES_M1_def
  by (rule montgomery_law [OF assms]) (use start_x448 in \<open>auto simp: X448_PRIME_P_def X448_COEFF_A_def\<close>)

end

section \<open>A concrete engine\<close>

text \<open>An engine that ``multiplies'' by adding scalars bytewise to the coordinates; it shows that the laws
  can hold.\<close>

record sim_pke_state =
  sim_ram :: "nat \<Rightarrow> u32"
  sim_cmd :: pke_command
  sim_ptrs :: "nat \<times> nat \<times> nat"

definition poke :: "nat \<Rightarrow> bytes \<Rightarrow> (nat \<Rightarrow> u32) \<Rightarrow> nat \<Rightarrow> u32" where
  "poke a bs m x = (if a \<le> x \<and> x < a + length bs then u32_from_le (take 4 (drop (x - a) bs)) else m x)"

definition toy_mul :: "bytes \<Rightarrow> bytes \<Rightarrow> bytes" where
  "toy_mul k u = map2 (+) k u"

definition sim_start :: "sim_pke_state \<Rightarrow> sim_pke_state" where
  "sim_start s =
     (case sim_ptrs s of (a, b, c) \<Rightarrow>
        if opeaddr (sim_cmd s) = PKE_OPCODE_ECC_MULT then
          (let sl = (\<lambda>i. slot_bytes (sim_ram s) (slot_addr i) 32)
           in s \<lparr> sim_ram := poke (slot_addr (c + 1)) (toy_mul (sl b) (sl (a + 1))) (poke (slot_addr c) (toy_mul (sl b) (sl a)) (sim_ram s)) \<rparr>)
        else
          (let n = opbytesm1 (sim_cmd s) + 1; sl = (\<lambda>i. slot_bytes (sim_ram s) (montgomery_slot_addr i) n)
           in s \<lparr> sim_ram := poke (montgomery_slot_addr c) (toy_mul (sl b) (sl a)) (sim_ram s) \<rparr>))"

definition sim_pke :: "sim_pke_state pke" where
  "sim_pke =
     \<lparr> r_pkbusy = Pair False, r_ctrdrbgbusy = Pair False, w_command = (\<lambda>c s. s \<lparr> sim_cmd := c \<rparr>),
       w_pointers = (\<lambda>p s. s \<lparr> sim_ptrs := p \<rparr>), w_start = (\<lambda>_. sim_start), r_pk_status = Pair (0, 0),
       ram_write = (\<lambda>a v s. s \<lparr> sim_ram := (sim_ram s)(a := v) \<rparr>), ram_read = (\<lambda>a s. (sim_ram s a, s)) \<rparr>"

lemma concat_takes: "concat (map (\<lambda>i. take 4 (drop (i * 4) bs)) [0..<k]) = take (k * 4) bs"
proof (induction k)
  case (Suc k)
  have "take (k * 4 + 4) bs = take (k * 4) bs @ take 4 (drop (k * 4) bs)" by (rule take_add)
  moreover have "Suc k * 4 = k * 4 + 4" by simp
  ultimately show ?case using Suc.IH by (simp only: upt_Suc_append le0 map_append concat_append list.map concat.simps append_Nil2)
qed simp

lemma slot_bytes_poke:
  assumes "length bs mod 4 = 0"
  shows "slot_bytes (poke a bs m) a (length bs) = bs"
proof -
  have "slot_bytes (poke a bs m) a (length bs) = concat (map (\<lambda>i. take 4 (drop (i * 4) bs)) [0..<length bs div 4])"
    unfolding slot_bytes_def
  proof (intro arg_cong [where f = concat] map_cong refl)
    fix i
    assume "i \<in> set [0..<length bs div 4]"
    then have "i * 4 + 4 \<le> length bs" by simp
    then show "u32_to_le (poke a bs m (a + i * 4)) = take 4 (drop (i * 4) bs)"
      by (simp add: poke_def u32_to_le_from_le)
  qed
  also have "\<dots> = take (length bs div 4 * 4) bs" by (rule concat_takes)
  also have "length bs div 4 * 4 = length bs" using assms by presburger
  finally show ?thesis by simp
qed

lemma slot_bytes_poke_apart:
  assumes "b + n \<le> a \<or> a + length bs \<le> b"
  shows "slot_bytes (poke a bs m) b n = slot_bytes m b n"
proof (rule slot_bytes_cong)
  fix i
  assume "i < n div 4"
  then have "i * 4 + 4 \<le> n" by linarith
  with assms show "poke a bs m (b + i * 4) = m (b + i * 4)" by (auto simp: poke_def)
qed

lemma Ex_Not: "\<exists>b. \<not> b"
  by blast

interpretation sim_pke: cracen_pke sim_pke "\<lambda>_. True" sim_ram sim_cmd sim_ptrs "\<lambda>_. (0, 0)" "\<lambda>_. 0"
  "\<lambda>k (x, y). (toy_mul k x, toy_mul k y)" toy_mul toy_mul
proof
  fix d :: sim_pke_state and a b c :: nat
  have l: "length (toy_mul (slot_bytes m x n) (slot_bytes m y n)) = 4 * (n div 4)" for m x y n
    by (simp add: toy_mul_def length_slot_bytes)
  have po: "slot_bytes (poke q (toy_mul (slot_bytes m x n) (slot_bytes m y n)) w) q n = toy_mul (slot_bytes m x n) (slot_bytes m y n)"
    if "n mod 4 = 0" for q m x y n w
  proof -
    have "4 * (n div 4) = n" using that by presburger
    then show ?thesis using slot_bytes_poke [of "toy_mul (slot_bytes m x n) (slot_bytes m y n)" q w] that unfolding l by simp
  qed
  have P: "slot_addr c + 32 \<le> slot_addr (Suc c) \<or> slot_addr (Suc c) + 32 \<le> slot_addr c"
    by (simp add: slot_addr_def SLOT_SIZE_def)
  assume p: "sim_ptrs d = (a, b, c)"
  show "True \<and> (0 :: nat, 0 :: nat) = (0, 0)
      \<and> (slot_bytes (sim_ram (w_start sim_pke (True, True) d)) (slot_addr c) 32,
         slot_bytes (sim_ram (w_start sim_pke (True, True) d)) (slot_addr (c + 1)) 32)
      = (case (slot_bytes (sim_ram d) (slot_addr a) 32, slot_bytes (sim_ram d) (slot_addr (a + 1)) 32) of
           (x, y) \<Rightarrow> (toy_mul (slot_bytes (sim_ram d) (slot_addr b) 32) x, toy_mul (slot_bytes (sim_ram d) (slot_addr b) 32) y))"
    if "sim_cmd d = \<lparr> opeaddr = PKE_OPCODE_ECC_MULT, opbytesm1 = 31, selcurve = SelP256, edwards = False, swapbytes = SWAPPED \<rparr>"
    using that p P
    by (simp add: po sim_pke_def sim_start_def Let_def slot_bytes_poke_apart l)
  show "True \<and> (0 :: nat, 0 :: nat) = (0, 0)
      \<and> slot_bytes (sim_ram (w_start sim_pke (True, True) d)) (montgomery_slot_addr c) 32
        = toy_mul (slot_bytes (sim_ram d) (montgomery_slot_addr b) 32) (slot_bytes (sim_ram d) (montgomery_slot_addr a) 32)"
    if "sim_cmd d = \<lparr> opeaddr = PKE_OPCODE_MONTGOMERY_PTMUL, opbytesm1 = 31, selcurve = SelCURVE25519, edwards = False, swapbytes = NATIVE \<rparr>"
    using that p
    by (simp add: po sim_pke_def sim_start_def Let_def PKE_OPCODE_MONTGOMERY_PTMUL_def PKE_OPCODE_ECC_MULT_def)
  show "True \<and> (0 :: nat, 0 :: nat) = (0, 0)
      \<and> slot_bytes (sim_ram (w_start sim_pke (True, True) d)) (montgomery_slot_addr c) 56
        = toy_mul (slot_bytes (sim_ram d) (montgomery_slot_addr b) 56) (slot_bytes (sim_ram d) (montgomery_slot_addr a) 56)"
    if "sim_cmd d = \<lparr> opeaddr = PKE_OPCODE_MONTGOMERY_PTMUL, opbytesm1 = 55, selcurve = SelNOACCEL, edwards = True, swapbytes = NATIVE \<rparr>"
    using that p
    by (simp add: po sim_pke_def sim_start_def Let_def PKE_OPCODE_MONTGOMERY_PTMUL_def PKE_OPCODE_ECC_MULT_def)
qed (simp_all add: sim_pke_def Ex_Not toy_mul_def)

section \<open>The multiplications\<close>


definition sim_pke_start :: sim_pke_state where
  "sim_pke_start = \<lparr> sim_ram = (\<lambda>_. 0),
     sim_cmd = \<lparr> opeaddr = 0, opbytesm1 = 0, selcurve = SelP256, edwards = False, swapbytes = NATIVE \<rparr>, sim_ptrs = (0, 0, 0) \<rparr>"


text \<open>The X448 parameters loaded for the engine are the field prime \<open>2^448 - 2^224 - 1\<close> and the
  coefficient A = 156326 of the curve equation (not (A - 2) / 4, which RFC 7748 calls a24).\<close>

theorem x448_parameters:
  "length X448_PRIME_P = 56 \<and> length X448_COEFF_A = 56
   \<and> le_val X448_PRIME_P = 2 ^ 448 - 2 ^ 224 - 1 \<and> le_val X448_COEFF_A = 156326"
proof -
  have p: "X448_PRIME_P = replicate 28 255 @ [254] @ replicate 27 255"
    by (simp add: X448_PRIME_P_def numeral_eq_Suc)
  have r: "le_val (replicate n 255) = 256 ^ n - 1" for n
  proof (induction n)
    case (Suc n)
    obtain x where "(256 :: nat) ^ n = Suc x" by (metis not0_implies_Suc power_not_zero zero_neq_numeral)
    then show ?case using Suc by simp
  qed simp
  have "le_val X448_PRIME_P = 2 ^ 448 - 2 ^ 224 - 1"
    unfolding p by (simp add: le_val_append r)
  then show ?thesis by (simp add: p X448_COEFF_A_def)
qed

end
