(* ===== verification/Nrf_Dh.thy ===== *)
theory Nrf_Dh
  imports Nrf_Rng Nrf_Pke P256_Curve Montgomery Cal_Traits
begin

text \<open>
  Diffie-Hellman on the nRF54L15: the curve primitives of \<^verbatim>\<open>embedded-cal-nrf54l15/src/dh_plumbing.rs\<close>
  and the provider of \<^verbatim>\<open>embedded-cal-nrf54l15/src/dh.rs\<close>. Scalars of all curves share one layout, 56
  bytes of which a curve uses the first \<open>SCALAR_SIZE\<close>.
\<close>

section \<open>The primitives\<close>

datatype nrf_curve = CurveP256 | CurveX25519 | CurveX448

definition NRF_MAX_SCALAR_LENGTH :: nat where
  "NRF_MAX_SCALAR_LENGTH = 56"

fun SCALAR_SIZE :: "nrf_curve \<Rightarrow> nat" where
  "SCALAR_SIZE CurveP256 = 32"
| "SCALAR_SIZE CurveX25519 = 32"
| "SCALAR_SIZE CurveX448 = 56"

type_synonym nrf_scalar = bytes

record nrf_point =
  pt_x :: nrf_scalar
  pt_y :: nrf_scalar

text \<open>\<open>From<[u8; N]> for NrfScalar\<close> and \<open>From<&NrfScalar> for [u8; N]\<close>.\<close>

definition scalar_from :: "bytes \<Rightarrow> nrf_scalar" where
  "scalar_from value = value @ replicate (NRF_MAX_SCALAR_LENGTH - length value) 0"

definition scalar_first :: "nat \<Rightarrow> nrf_scalar \<Rightarrow> bytes" where
  "scalar_first n s = take n s"

fun nrf_multiply_scalar_point :: "'d pke \<Rightarrow> nrf_curve \<Rightarrow> nrf_scalar \<Rightarrow> nrf_point \<Rightarrow> 'd \<Rightarrow> (nrf_point \<times> 'd) option" where
  "nrf_multiply_scalar_point hw CurveP256 a b d = do {
     ((x, y), d) \<leftarrow> cracen_p256_mult hw (scalar_first 32 a) (scalar_first 32 (pt_x b)) (scalar_first 32 (pt_y b)) d;
     Some (\<lparr> pt_x = scalar_from x, pt_y = scalar_from y \<rparr>, d)
   }"
| "nrf_multiply_scalar_point hw CurveX25519 a b d = do {
     (x, d) \<leftarrow> cracen_x25519_mult hw (scalar_first 32 a) (scalar_first 32 (pt_x b)) d;
     Some (\<lparr> pt_x = scalar_from x, pt_y = scalar_from (replicate 32 0) \<rparr>, d)
   }"
| "nrf_multiply_scalar_point hw CurveX448 a b d = do {
     (x, d) \<leftarrow> cracen_x448_mult hw (scalar_first 56 a) (scalar_first 56 (pt_x b)) d;
     Some (\<lparr> pt_x = scalar_from x, pt_y = scalar_from (replicate 56 0) \<rparr>, d)
   }"

definition nrf_point_new :: "nrf_scalar \<Rightarrow> nrf_scalar \<Rightarrow> 'd \<Rightarrow> (nrf_point \<times> 'd) option" where
  "nrf_point_new x y d = Some (\<lparr> pt_x = x, pt_y = y \<rparr>, d)"

definition nrf_import_scalar_bytes :: "nrf_curve \<Rightarrow> bytes \<Rightarrow> 'd \<Rightarrow> ((import_error + nrf_scalar) \<times> 'd) option" where
  "nrf_import_scalar_bytes C scalar d =
     (if length scalar \<noteq> SCALAR_SIZE C then Some (Inl ImportError, d)
      else do { data \<leftarrow> copy_at (replicate NRF_MAX_SCALAR_LENGTH 0) 0 scalar; Some (Inr data, d) })"

definition nrf_export_scalar_bytes :: "nrf_curve \<Rightarrow> nrf_scalar \<Rightarrow> 'd \<Rightarrow> (bytes \<times> 'd) option" where
  "nrf_export_scalar_bytes C s d = do { b \<leftarrow> slice s 0 (SCALAR_SIZE C); Some (b, d) }"

definition nrf_ec_primitives :: "'d pke \<Rightarrow> nrf_curve \<Rightarrow> ('d, nrf_scalar, nrf_point) ec_primitives" where
  "nrf_ec_primitives hw C =
     \<lparr> HAS_MULTIPLY_SCALAR_POINT = True, ep_multiply_scalar_point = nrf_multiply_scalar_point hw C,
       ep_import_scalar_bytes = nrf_import_scalar_bytes C, ep_point = nrf_point_new,
       ep_export_scalar_bytes = nrf_export_scalar_bytes C,
       ep_x_coord = (\<lambda>p d. Some (pt_x p, d)), ep_y_coord = (\<lambda>p d. Some (pt_y p, d)) \<rparr>"

definition nrf_ec :: "'d pke \<Rightarrow> ('d, nrf_scalar, nrf_point, nrf_scalar, nrf_point, nrf_scalar, nrf_point) ec" where
  "nrf_ec hw = \<lparr> MAX_SCALAR_LENGTH = NRF_MAX_SCALAR_LENGTH, ec_p256 = nrf_ec_primitives hw CurveP256,
     ec_x25519 = nrf_ec_primitives hw CurveX25519, ec_x448 = nrf_ec_primitives hw CurveX448 \<rparr>"

section \<open>Types of the provider\<close>

datatype nrf_dh_algorithm = NrfEcdhP256 | NrfX25519 | NrfX448

fun nrf_dh_output_length :: "nrf_dh_algorithm \<Rightarrow> nat" where
  "nrf_dh_output_length NrfEcdhP256 = 32"
| "nrf_dh_output_length NrfX25519 = 32"
| "nrf_dh_output_length NrfX448 = 56"

definition nrf_dh_from_cose_ecdh :: "int \<Rightarrow> nrf_dh_algorithm option" where
  "nrf_dh_from_cose_ecdh curve =
     (if curve = 1 then Some NrfEcdhP256 else if curve = 4 then Some NrfX25519
      else if curve = 5 then Some NrfX448 else None)"

datatype nrf_secret_key = SkEcdhP256 nrf_scalar | SkX25519 nrf_scalar | SkX448 nrf_scalar

datatype nrf_visible_key = VisibleSecretKey nrf_secret_key

fun nrf_into_secret :: "nrf_visible_key \<Rightarrow> nrf_secret_key" where
  "nrf_into_secret (VisibleSecretKey k) = k"

datatype nrf_public_key = PkEcdhP256 nrf_point | PkX25519 nrf_point | PkX448 nrf_point

record nrf_shared_secret =
  ss_bytes :: bytes
  ss_len :: nat

definition from_x_coordinate :: "('d, nrf_scalar, nrf_point) ec_primitives \<Rightarrow> nat \<Rightarrow> nrf_point \<Rightarrow> 'd
    \<Rightarrow> (nrf_shared_secret \<times> 'd) option" where
  "from_x_coordinate plumbing scalar_size point d = do {
     (x, d) \<leftarrow> ep_x_coord plumbing point d;
     (x, d) \<leftarrow> ep_export_scalar_bytes plumbing x d;
     if length x = scalar_size then do {
       bytes \<leftarrow> copy_at (replicate NRF_MAX_SCALAR_LENGTH 0) 0 x;
       Some (\<lparr> ss_bytes = bytes, ss_len = scalar_size \<rparr>, d)
     } else None
   }"

definition shared_as_ref :: "nrf_shared_secret \<Rightarrow> bytes option" where
  "shared_as_ref s = slice (ss_bytes s) 0 (ss_len s)"

section \<open>The provider\<close>

text \<open>\<open>fill_bytes\<close>: the generator's error type has no values, so the call returns or panics.\<close>

definition nrf_fill_bytes :: "'d cracen \<Rightarrow> nat \<Rightarrow> 'd \<Rightarrow> (bytes \<times> 'd) option" where
  "nrf_fill_bytes rng n d = do { r \<leftarrow> try_fill_bytes rng n d; case r of Inl _ \<Rightarrow> None | Inr x \<Rightarrow> Some x }"

partial_function (option) generate_p256 :: "('d \<Rightarrow> (bytes \<times> 'd) option) \<Rightarrow> 'd \<Rightarrow> (bytes \<times> 'd) option" where
  "generate_p256 fill d = do {
     (scalar, d) \<leftarrow> fill d;
     let w = bytes_to_words scalar;
     if w \<noteq> replicate 8 0 \<and> \<not> ge w P256_ORDER then Some (scalar, d) else generate_p256 fill d
   }"

definition nrf_generate_visible :: "'d cracen \<Rightarrow> nrf_dh_algorithm \<Rightarrow> 'd \<Rightarrow> (nrf_visible_key \<times> 'd) option" where
  "nrf_generate_visible rng alg d =
     (case alg of
        NrfEcdhP256 \<Rightarrow> do {
          (scalar, d) \<leftarrow> generate_p256 (nrf_fill_bytes rng 32) d;
          Some (VisibleSecretKey (SkEcdhP256 (scalar_from scalar)), d) }
      | NrfX25519 \<Rightarrow> do {
          (scalar, d) \<leftarrow> nrf_fill_bytes rng 32 d;
          Some (VisibleSecretKey (SkX25519 (scalar_from (clamp_x25519 scalar))), d) }
      | NrfX448 \<Rightarrow> do {
          (scalar, d) \<leftarrow> nrf_fill_bytes rng 56 d;
          Some (VisibleSecretKey (SkX448 (scalar_from (clamp_x448 scalar))), d) })"

fun nrf_export_secretkey_bytes :: "nrf_visible_key \<Rightarrow> 'd \<Rightarrow> (bytes \<times> 'd) option" where
  "nrf_export_secretkey_bytes (VisibleSecretKey (SkEcdhP256 s)) d = Some (scalar_first 32 s, d)"
| "nrf_export_secretkey_bytes (VisibleSecretKey (SkX25519 s)) d = Some (scalar_first 32 s, d)"
| "nrf_export_secretkey_bytes (VisibleSecretKey (SkX448 s)) d = Some (scalar_first 56 s, d)"

text \<open>\<open><[u8; N]>::try_from(secret).map_err(..)?\<close>\<close>

definition try_array :: "nat \<Rightarrow> bytes \<Rightarrow> import_error + bytes" where
  "try_array n b = (if length b = n then Inr b else Inl ImportError)"

definition nrf_import_secretkey_bytes :: "nrf_dh_algorithm \<Rightarrow> bytes \<Rightarrow> 'd \<Rightarrow> ((import_error + nrf_visible_key) \<times> 'd) option" where
  "nrf_import_secretkey_bytes alg secret d =
     Some (case alg of
        NrfEcdhP256 \<Rightarrow> map_sum id (\<lambda>s. VisibleSecretKey (SkEcdhP256 (scalar_from s))) (try_array 32 secret)
      | NrfX25519 \<Rightarrow> map_sum id (\<lambda>s. VisibleSecretKey (SkX25519 (scalar_from (clamp_x25519 s)))) (try_array 32 secret)
      | NrfX448 \<Rightarrow> map_sum id (\<lambda>s. VisibleSecretKey (SkX448 (scalar_from (clamp_x448 s)))) (try_array 56 secret), d)"

definition nrf_export_publickey_bytes :: "'d pke \<Rightarrow> nrf_public_key \<Rightarrow> 'd \<Rightarrow> (bytes \<times> 'd) option" where
  "nrf_export_publickey_bytes hw public d = do {
     (s, d) \<leftarrow> (case public of
        PkEcdhP256 point \<Rightarrow> from_x_coordinate (ec_p256 (nrf_ec hw)) (SCALAR_SIZE CurveP256) point d
      | PkX25519 point \<Rightarrow> from_x_coordinate (ec_x25519 (nrf_ec hw)) (SCALAR_SIZE CurveX25519) point d
      | PkX448 point \<Rightarrow> from_x_coordinate (ec_x448 (nrf_ec hw)) (SCALAR_SIZE CurveX448) point d);
     b \<leftarrow> shared_as_ref s;
     Some (b, d)
   }"

definition nrf_import_publickey_bytes :: "'d pke \<Rightarrow> nrf_dh_algorithm \<Rightarrow> bytes \<Rightarrow> 'd \<Rightarrow> ((import_error + nrf_public_key) \<times> 'd) option" where
  "nrf_import_publickey_bytes hw alg data d =
     (case alg of
        NrfEcdhP256 \<Rightarrow>
          (case try_array 32 data of Inl e \<Rightarrow> Some (Inl e, d)
           | Inr x \<Rightarrow> (case p256_recover_y x of Inl e \<Rightarrow> Some (Inl e, d)
               | Inr y \<Rightarrow> do { (p, d) \<leftarrow> ep_point (ec_p256 (nrf_ec hw)) (scalar_from x) (scalar_from y) d;
                             Some (Inr (PkEcdhP256 p), d) }))
      | NrfX25519 \<Rightarrow>
          (case try_array 32 data of Inl e \<Rightarrow> Some (Inl e, d)
           | Inr x \<Rightarrow> do { (p, d) \<leftarrow> ep_point (ec_x25519 (nrf_ec hw)) (scalar_from (mask_u_x25519 x)) (scalar_from (replicate 32 0)) d;
                          Some (Inr (PkX25519 p), d) })
      | NrfX448 \<Rightarrow>
          (case try_array 56 data of Inl e \<Rightarrow> Some (Inl e, d)
           | Inr x \<Rightarrow> do { (p, d) \<leftarrow> ep_point (ec_x448 (nrf_ec hw)) (scalar_from x) (scalar_from (replicate 56 0)) d;
                          Some (Inr (PkX448 p), d) }))"

definition nrf_dh_shared :: "('d, nrf_scalar, nrf_point) ec_primitives \<Rightarrow> nrf_curve \<Rightarrow> nrf_scalar \<Rightarrow> nrf_point \<Rightarrow> 'd
    \<Rightarrow> ((incompatible_keys + nrf_shared_secret) \<times> 'd) option" where
  "nrf_dh_shared P C private public d = do {
     (result, d) \<leftarrow> ep_multiply_scalar_point P private public d;
     (s, d) \<leftarrow> from_x_coordinate P (SCALAR_SIZE C) result d;
     Some (Inr s, d)
   }"

fun nrf_shared_secret_op :: "'d pke \<Rightarrow> nrf_secret_key \<Rightarrow> nrf_public_key \<Rightarrow> 'd
    \<Rightarrow> ((incompatible_keys + nrf_shared_secret) \<times> 'd) option" where
  "nrf_shared_secret_op hw (SkEcdhP256 k) (PkEcdhP256 p) d = nrf_dh_shared (ec_p256 (nrf_ec hw)) CurveP256 k p d"
| "nrf_shared_secret_op hw (SkX25519 k) (PkX25519 p) d = nrf_dh_shared (ec_x25519 (nrf_ec hw)) CurveX25519 k p d"
| "nrf_shared_secret_op hw (SkX448 k) (PkX448 p) d = nrf_dh_shared (ec_x448 (nrf_ec hw)) CurveX448 k p d"
| "nrf_shared_secret_op hw _ _ d = Some (Inl IncompatibleKeys, d)"

definition x25519_base :: bytes where
  "x25519_base = (replicate 32 0)[0 := 9]"

definition x448_base :: bytes where
  "x448_base = (replicate 56 0)[0 := 5]"

fun nrf_public_key_op :: "'d pke \<Rightarrow> nrf_secret_key \<Rightarrow> 'd \<Rightarrow> (nrf_public_key \<times> 'd) option" where
  "nrf_public_key_op hw (SkEcdhP256 scalar) d = do {
     (base, d) \<leftarrow> ep_point (ec_p256 (nrf_ec hw)) (scalar_from P256_GX_BYTES) (scalar_from P256_GY_BYTES) d;
     (p, d) \<leftarrow> ep_multiply_scalar_point (ec_p256 (nrf_ec hw)) scalar base d;
     Some (PkEcdhP256 p, d)
   }"
| "nrf_public_key_op hw (SkX25519 k) d = do {
     (base, d) \<leftarrow> ep_point (ec_x25519 (nrf_ec hw)) (scalar_from x25519_base) (scalar_from (replicate 32 0)) d;
     (p, d) \<leftarrow> ep_multiply_scalar_point (ec_x25519 (nrf_ec hw)) k base d;
     Some (PkX25519 p, d)
   }"
| "nrf_public_key_op hw (SkX448 k) d = do {
     (base, d) \<leftarrow> ep_point (ec_x448 (nrf_ec hw)) (scalar_from x448_base) (scalar_from (replicate 56 0)) d;
     (p, d) \<leftarrow> ep_multiply_scalar_point (ec_x448 (nrf_ec hw)) k base d;
     Some (PkX448 p, d)
   }"

definition nrf_dh :: "'d cracen \<Rightarrow> 'd pke
    \<Rightarrow> ('d, nrf_dh_algorithm, nrf_visible_key, nrf_secret_key, nrf_public_key, nrf_shared_secret) dh_provider" where
  "nrf_dh rng hw =
     \<lparr> output_length = nrf_dh_output_length, dh_from_cose_ecdh = nrf_dh_from_cose_ecdh,
       dp_generate_visible = nrf_generate_visible rng, dp_into_secret = nrf_into_secret,
       dp_export_secretkey_bytes = nrf_export_secretkey_bytes,
       dp_import_secretkey_bytes = nrf_import_secretkey_bytes,
       dp_export_publickey_bytes = nrf_export_publickey_bytes hw,
       dp_import_publickey_bytes = nrf_import_publickey_bytes hw,
       dp_shared_secret = nrf_shared_secret_op hw, dp_public_key = nrf_public_key_op hw,
       dp_raw_secret_bytes = (\<lambda>s d. do { b \<leftarrow> shared_as_ref s; Some (b, d) }) \<rparr>"

section \<open>Keys\<close>

lemma take_scalar_from [simp]: "length k = n \<Longrightarrow> scalar_first n (scalar_from k) = k"
  by (simp add: scalar_first_def scalar_from_def)

lemma length_scalar_from [simp]: "length k \<le> 56 \<Longrightarrow> length (scalar_from k) = 56"
  by (simp add: scalar_from_def NRF_MAX_SCALAR_LENGTH_def)

lemma clamp_bytes:
  "(((z OR 0x40) AND 0x7F) OR 0x40) AND 0x7F = ((z OR 0x40) AND 0x7F :: u8)" "(a AND 0xF8) AND 0xF8 = (a AND 0xF8 :: u8)"
  "(z OR 0x80) OR 0x80 = (z OR 0x80 :: u8)" "(a AND 0xFC) AND 0xFC = (a AND 0xFC :: u8)"
  by (simp_all only: word_unat_eq_iff or_40 and.assoc and.idem or.assoc or.idem) simp

lemma clamps_idem:
  "length k = 32 \<Longrightarrow> clamp_x25519 (clamp_x25519 k) = clamp_x25519 k"
  "length k = 56 \<Longrightarrow> clamp_x448 (clamp_x448 k) = clamp_x448 k"
  by (rule nth_equalityI; simp add: clamp_x25519_def clamp_x448_def Let_def nth_list_update clamp_bytes)+

lemma P256_ORDER_length: "length P256_ORDER = 8"
  by (simp add: P256_ORDER_def)

text \<open>The invariant the source states of \<open>SecretKey\<close>: the scalar of an RFC 7748 curve is clamped.\<close>

fun nrf_key_inv :: "nrf_secret_key \<Rightarrow> bool" where
  "nrf_key_inv (SkEcdhP256 s) \<longleftrightarrow> (\<exists>k. length k = 32 \<and> s = scalar_from k)"
| "nrf_key_inv (SkX25519 s) \<longleftrightarrow> (\<exists>k. length k = 32 \<and> s = scalar_from k \<and> clamp_x25519 k = k)"
| "nrf_key_inv (SkX448 s) \<longleftrightarrow> (\<exists>k. length k = 56 \<and> s = scalar_from k \<and> clamp_x448 k = k)"

fun secret_alg :: "nrf_secret_key \<Rightarrow> nrf_dh_algorithm" where
  "secret_alg (SkEcdhP256 _) = NrfEcdhP256"
| "secret_alg (SkX25519 _) = NrfX25519"
| "secret_alg (SkX448 _) = NrfX448"

fun public_alg :: "nrf_public_key \<Rightarrow> nrf_dh_algorithm" where
  "public_alg (PkEcdhP256 _) = NrfEcdhP256"
| "public_alg (PkX25519 _) = NrfX25519"
| "public_alg (PkX448 _) = NrfX448"

lemma try_fill_length: "try_fill_bytes rng n d = Some (Inr (bs, d')) \<Longrightarrow> length bs = n"
proof -
  assume "try_fill_bytes rng n d = Some (Inr (bs, d'))"
  then obtain k d2 where "rng_fill rng 0 n d = Some (Inr (bs, k, d2))"
    by (auto simp: try_fill_bytes_def split: bind_splits sum.splits)
  from rng_fill_partial [OF this] show ?thesis by simp
qed

lemma nrf_fill_length: "nrf_fill_bytes rng n d = Some (bs, d') \<Longrightarrow> length bs = n"
  by (auto simp: nrf_fill_bytes_def split: bind_splits sum.splits dest: try_fill_length)

lemma generate_p256_partial:
  "generate_p256 fill d = Some y \<Longrightarrow> \<forall>d s d'. fill d = Some (s, d') \<longrightarrow> length s = 32 \<Longrightarrow>
     length (fst y) = 32 \<and> 0 < be_val (fst y) \<and> be_val (fst y) < wval P256_ORDER"
proof (induction rule: generate_p256.raw_induct [rotated, consumes 1])
  case (1 g fill d y)
  obtain s d1 where f: "fill d = Some (s, d1)" using "1.hyps" by (cases "fill d") auto
  have l: "length s = 32" using "1.prems" f by blast
  show ?case
  proof (cases "bytes_to_words s \<noteq> replicate 8 0 \<and> \<not> ge (bytes_to_words s) P256_ORDER")
    case True
    then have y: "y = (s, d1)" using "1.hyps" f by simp
    have "be_val s \<noteq> 0"
    proof
      assume "be_val s = 0"
      then have "wval (bytes_to_words s) = wval (replicate 8 0)" using l by (simp only: wval_bytes_to_words wval_replicate0)
      then have "bytes_to_words s = replicate 8 0" by (rule wval_inj [rotated]) simp
      with True show False by simp
    qed
    moreover have "be_val s < wval P256_ORDER"
      using True l by (simp add: ge_iff P256_ORDER_length wval_bytes_to_words)
    ultimately show ?thesis using y l by simp
  next
    case False
    then have "g fill d1 = Some y" using "1.hyps" f by (simp add: Let_def split: if_splits)
    from "1.IH" [OF this "1.prems"] show ?thesis .
  qed
qed

text \<open>C28: A generated P-256 secret is a scalar between 1 and the group order minus 1, whatever the random
  number generator delivers.\<close>

theorem nrf_generated_p256_in_range:
  assumes "dh_generate (nrf_dh rng hw) NrfEcdhP256 d = Some (k, d')"
  shows "\<exists>b. k = SkEcdhP256 (scalar_from b) \<and> length b = 32 \<and> 1 \<le> be_val b
    \<and> be_val b < 0xFFFFFFFF00000000FFFFFFFFFFFFFFFFBCE6FAADA7179E84F3B9CAC2FC632551"
proof -
  obtain b d1 where b: "generate_p256 (nrf_fill_bytes rng 32) d = Some (b, d1)" "k = SkEcdhP256 (scalar_from b)"
    using assms by (auto simp: dh_generate_def nrf_dh_def nrf_generate_visible_def split: bind_splits)
  have "wval P256_ORDER = 0xFFFFFFFF00000000FFFFFFFFFFFFFFFFBCE6FAADA7179E84F3B9CAC2FC632551"
    by (simp add: P256_ORDER_def)
  with generate_p256_partial [OF b(1)] nrf_fill_length b(2) show ?thesis by fastforce
qed


text \<open>C26: Importing secret key bytes fails exactly when they have not the algorithm's length, and exporting an
  imported key returns the bytes, clamped for the RFC 7748 curves; importing what was exported gives
  the same key again. No P-256 scalar of the right length is refused, zero and values above the group
  order included.\<close>

theorem nrf_secret_import_export:
  "dp_import_secretkey_bytes (nrf_dh rng hw) alg secret d
     = Some (if length secret = nrf_dh_output_length alg
             then Inr (VisibleSecretKey (case alg of NrfEcdhP256 \<Rightarrow> SkEcdhP256 (scalar_from secret)
               | NrfX25519 \<Rightarrow> SkX25519 (scalar_from (clamp_x25519 secret)) | NrfX448 \<Rightarrow> SkX448 (scalar_from (clamp_x448 secret))))
             else Inl ImportError, d)
   \<and> (dp_import_secretkey_bytes (nrf_dh rng hw) alg secret d = Some (Inr v, d1) \<longrightarrow>
       (\<exists>b. dp_export_secretkey_bytes (nrf_dh rng hw) v d1 = Some (b, d1)
         \<and> b = (case alg of NrfEcdhP256 \<Rightarrow> secret | NrfX25519 \<Rightarrow> clamp_x25519 secret | NrfX448 \<Rightarrow> clamp_x448 secret)
         \<and> dp_import_secretkey_bytes (nrf_dh rng hw) alg b d1 = Some (Inr v, d1)))"
  by (cases alg)
    (auto simp: nrf_dh_def nrf_import_secretkey_bytes_def try_array_def clamps_idem split: if_splits)

text \<open>Importing a public key fails exactly on a wrong length or, for P-256, on an x coordinate the
  recovery refuses; the key that is imported has the given x coordinate (masked to 255 bits for
  X25519) and, for P-256, the recovered y coordinate. Exporting it returns the x coordinate.\<close>

theorem nrf_public_import_export:
  "dp_import_publickey_bytes (nrf_dh rng hw) alg data d
     = Some (if length data \<noteq> nrf_dh_output_length alg then Inl ImportError
             else case alg of
               NrfEcdhP256 \<Rightarrow> map_sum id (\<lambda>y. PkEcdhP256 \<lparr> pt_x = scalar_from data, pt_y = scalar_from y \<rparr>) (p256_recover_y data)
             | NrfX25519 \<Rightarrow> Inr (PkX25519 \<lparr> pt_x = scalar_from (mask_u_x25519 data), pt_y = scalar_from (replicate 32 0) \<rparr>)
             | NrfX448 \<Rightarrow> Inr (PkX448 \<lparr> pt_x = scalar_from data, pt_y = scalar_from (replicate 56 0) \<rparr>), d)
   \<and> (dp_import_publickey_bytes (nrf_dh rng hw) alg data d = Some (Inr p, d1) \<longrightarrow>
       dp_export_publickey_bytes (nrf_dh rng hw) p d1
         = Some (case alg of NrfX25519 \<Rightarrow> mask_u_x25519 data | _ \<Rightarrow> data, d1))"
proof (intro conjI impI)
  show *: "dp_import_publickey_bytes (nrf_dh rng hw) alg data d
     = Some (if length data \<noteq> nrf_dh_output_length alg then Inl ImportError
             else case alg of
               NrfEcdhP256 \<Rightarrow> map_sum id (\<lambda>y. PkEcdhP256 \<lparr> pt_x = scalar_from data, pt_y = scalar_from y \<rparr>) (p256_recover_y data)
             | NrfX25519 \<Rightarrow> Inr (PkX25519 \<lparr> pt_x = scalar_from (mask_u_x25519 data), pt_y = scalar_from (replicate 32 0) \<rparr>)
             | NrfX448 \<Rightarrow> Inr (PkX448 \<lparr> pt_x = scalar_from data, pt_y = scalar_from (replicate 56 0) \<rparr>), d)"
    by (cases alg) (auto simp: nrf_dh_def nrf_import_publickey_bytes_def try_array_def nrf_ec_def nrf_ec_primitives_def
        nrf_point_new_def split: sum.splits)
  assume "dp_import_publickey_bytes (nrf_dh rng hw) alg data d = Some (Inr p, d1)"
  then show "dp_export_publickey_bytes (nrf_dh rng hw) p d1
         = Some (case alg of NrfX25519 \<Rightarrow> mask_u_x25519 data | _ \<Rightarrow> data, d1)"
    unfolding * by (cases alg; cases "p256_recover_y data")
      (auto simp: nrf_dh_def nrf_export_publickey_bytes_def nrf_ec_def nrf_ec_primitives_def from_x_coordinate_def
        nrf_export_scalar_bytes_def slice_def copy_at_def scalar_from_def NRF_MAX_SCALAR_LENGTH_def shared_as_ref_def
        split: if_splits)
qed

section \<open>The key agreement\<close>

lemma scalar_first_length: "length k = 32 \<Longrightarrow> length (scalar_first 32 (scalar_from k)) = 32"
  by simp

lemma from_x_coordinate_eq:
  "length x = SCALAR_SIZE C \<Longrightarrow> from_x_coordinate (nrf_ec_primitives hw C) (SCALAR_SIZE C) \<lparr> pt_x = scalar_from x, pt_y = y \<rparr> d
     = Some (\<lparr> ss_bytes = scalar_from x, ss_len = SCALAR_SIZE C \<rparr>, d)"
  by (cases C) (simp_all add: from_x_coordinate_def nrf_ec_primitives_def nrf_export_scalar_bytes_def slice_def copy_at_def
      scalar_from_def NRF_MAX_SCALAR_LENGTH_def)

lemma shared_as_ref_eq: "length x = n \<Longrightarrow> n \<le> 56 \<Longrightarrow> shared_as_ref \<lparr> ss_bytes = scalar_from x, ss_len = n \<rparr> = Some x"
  by (simp add: shared_as_ref_def slice_def scalar_from_def NRF_MAX_SCALAR_LENGTH_def)

text \<open>Public keys of the right shape, and the secret both sides compute.\<close>

fun nrf_public_inv :: "nrf_public_key \<Rightarrow> bool" where
  "nrf_public_inv (PkEcdhP256 p) \<longleftrightarrow> (\<exists>x y. length x = 32 \<and> length y = 32 \<and> p = \<lparr> pt_x = scalar_from x, pt_y = scalar_from y \<rparr>)"
| "nrf_public_inv (PkX25519 p) \<longleftrightarrow> (\<exists>x y. length x = 32 \<and> p = \<lparr> pt_x = scalar_from x, pt_y = y \<rparr>)"
| "nrf_public_inv (PkX448 p) \<longleftrightarrow> (\<exists>x y. length x = 56 \<and> p = \<lparr> pt_x = scalar_from x, pt_y = y \<rparr>)"

text \<open>The values of the operations, over the engine's multiplications.\<close>

fun dh_public :: "(bytes \<Rightarrow> bytes \<times> bytes \<Rightarrow> bytes \<times> bytes) \<Rightarrow> (bytes \<Rightarrow> bytes \<Rightarrow> bytes) \<Rightarrow> (bytes \<Rightarrow> bytes \<Rightarrow> bytes)
    \<Rightarrow> nrf_secret_key \<Rightarrow> nrf_public_key" where
  "dh_public M X Y (SkEcdhP256 s) = (case M (take 32 s) (P256_GX_BYTES, P256_GY_BYTES) of (x, y) \<Rightarrow>
     PkEcdhP256 \<lparr> pt_x = scalar_from x, pt_y = scalar_from y \<rparr>)"
| "dh_public M X Y (SkX25519 s) = PkX25519 \<lparr> pt_x = scalar_from (X (take 32 s) x25519_base), pt_y = scalar_from (replicate 32 0) \<rparr>"
| "dh_public M X Y (SkX448 s) = PkX448 \<lparr> pt_x = scalar_from (Y (take 56 s) x448_base), pt_y = scalar_from (replicate 56 0) \<rparr>"

fun dh_value :: "(bytes \<Rightarrow> bytes \<times> bytes \<Rightarrow> bytes \<times> bytes) \<Rightarrow> (bytes \<Rightarrow> bytes \<Rightarrow> bytes) \<Rightarrow> (bytes \<Rightarrow> bytes \<Rightarrow> bytes)
    \<Rightarrow> nrf_secret_key \<Rightarrow> nrf_public_key \<Rightarrow> bytes" where
  "dh_value M X Y (SkEcdhP256 s) (PkEcdhP256 p) = fst (M (take 32 s) (take 32 (pt_x p), take 32 (pt_y p)))"
| "dh_value M X Y (SkX25519 s) (PkX25519 p) = X (take 32 s) (take 32 (pt_x p))"
| "dh_value M X Y (SkX448 s) (PkX448 p) = Y (take 56 s) (take 56 (pt_x p))"
| "dh_value M X Y _ _ = []"

lemma take_scalar [simp]: "length k = n \<Longrightarrow> take n (scalar_from k) = k"
  by (simp add: scalar_from_def)

lemma scalar_from_56 [simp]: "length k = 56 \<Longrightarrow> scalar_from k = k"
  by (simp add: scalar_from_def NRF_MAX_SCALAR_LENGTH_def)

lemma scalar_first_all [simp]: "length k = n \<Longrightarrow> scalar_first n k = k"
  by (simp add: scalar_first_def)

lemma base_lengths [simp]:
  "length P256_GX_BYTES = 32" "length P256_GY_BYTES = 32" "length x25519_base = 32" "length x448_base = 56"
  by (simp_all add: P256_GX_BYTES_def P256_GY_BYTES_def x25519_base_def x448_base_def)

lemma nrf_dh_shared_eq:
  assumes "nrf_multiply_scalar_point hw C k p d = Some (\<lparr> pt_x = scalar_from r, pt_y = y \<rparr>, d')" "length r = SCALAR_SIZE C"
  shows "\<exists>s. nrf_dh_shared (nrf_ec_primitives hw C) C k p d = Some (Inr s, d') \<and> shared_as_ref s = Some r"
proof -
  have "SCALAR_SIZE C \<le> 56" by (cases C) simp_all
  then have "shared_as_ref \<lparr> ss_bytes = scalar_from r, ss_len = SCALAR_SIZE C \<rparr> = Some r"
    using assms(2) by (intro shared_as_ref_eq)
  moreover have "ep_multiply_scalar_point (nrf_ec_primitives hw C) k p d = Some (\<lparr> pt_x = scalar_from r, pt_y = y \<rparr>, d')"
    using assms(1) by (simp add: nrf_ec_primitives_def)
  ultimately show ?thesis using from_x_coordinate_eq [OF assms(2), of hw y d'] by (simp add: nrf_dh_shared_def)
qed

context cracen_pke
begin

lemma nrf_public_law:
  assumes "dev d" "nrf_key_inv k"
  shows "\<exists>d'. nrf_public_key_op hw k d = Some (dh_public mul_p256 mul_x25519 mul_x448 k, d') \<and> dev d'
    \<and> nrf_public_inv (dh_public mul_p256 mul_x25519 mul_x448 k)"
proof (cases k)
  case (SkEcdhP256 s)
  then obtain b where b: "length b = 32" "s = scalar_from b" using assms(2) by auto
  obtain x y where m: "mul_p256 b (P256_GX_BYTES, P256_GY_BYTES) = (x, y)" by (cases "mul_p256 b (P256_GX_BYTES, P256_GY_BYTES)")
  then have "length x = 32" "length y = 32" using mul_p256_length [of b P256_GX_BYTES P256_GY_BYTES] b(1) by simp_all
  then have "nrf_public_inv (PkEcdhP256 \<lparr> pt_x = scalar_from x, pt_y = scalar_from y \<rparr>)" unfolding nrf_public_inv.simps by blast
  then show ?thesis using p256_mult_law [OF assms(1) b(1), of P256_GX_BYTES P256_GY_BYTES] SkEcdhP256 b m
    by (auto simp del: nrf_public_inv.simps simp: nrf_ec_def nrf_ec_primitives_def nrf_point_new_def)
next
  case (SkX25519 s)
  then obtain b where b: "length b = 32" "s = scalar_from b" using assms(2) by auto
  show ?thesis using x25519_mult_law [OF assms(1) b(1), of x25519_base] mul_x25519_length [OF b(1), of x25519_base] SkX25519 b
    by (auto simp: nrf_ec_def nrf_ec_primitives_def nrf_point_new_def)
next
  case (SkX448 s)
  then obtain b where b: "length b = 56" "s = scalar_from b" using assms(2) by auto
  have "length (mul_x448 b x448_base) = 56" by (rule mul_x448_length [OF b(1)]) simp
  then have "nrf_public_inv (PkX448 \<lparr> pt_x = scalar_from (mul_x448 b x448_base), pt_y = scalar_from (replicate 56 0) \<rparr>)"
    unfolding nrf_public_inv.simps by blast
  then show ?thesis using x448_mult_law [OF assms(1) b(1), of x448_base] SkX448 b
    by (auto simp del: nrf_public_inv.simps simp: nrf_ec_def nrf_ec_primitives_def nrf_point_new_def)
qed

lemma nrf_shared_law:
  assumes "dev d" "nrf_key_inv k" "nrf_public_inv p" "secret_alg k = public_alg p"
  shows "\<exists>s d'. nrf_shared_secret_op hw k p d = Some (Inr s, d') \<and> dev d'
    \<and> shared_as_ref s = Some (dh_value mul_p256 mul_x25519 mul_x448 k p)"
proof (cases k)
  case (SkEcdhP256 s)
  then obtain q where p: "p = PkEcdhP256 q" using assms(4) by (cases p) auto
  obtain b where b: "length b = 32" "s = scalar_from b" using assms(2) SkEcdhP256 by auto
  obtain x y where q: "length x = 32" "length y = 32" "q = \<lparr> pt_x = scalar_from x, pt_y = scalar_from y \<rparr>" using assms(3) p by auto
  obtain u v where m: "mul_p256 b (x, y) = (u, v)" by (cases "mul_p256 b (x, y)")
  then have "length u = 32" using mul_p256_length [OF b(1) q(1,2)] by simp
  with p256_mult_law [OF assms(1) b(1) q(1,2)] b q m
  obtain d' where "nrf_multiply_scalar_point hw CurveP256 s q d = Some (\<lparr> pt_x = scalar_from u, pt_y = scalar_from v \<rparr>, d')" "dev d'"
    by auto
  with nrf_dh_shared_eq [OF this(1)] \<open>length u = 32\<close> show ?thesis
    using SkEcdhP256 p b q m by (auto simp: nrf_ec_def)
next
  case (SkX25519 s)
  then obtain q where p: "p = PkX25519 q" using assms(4) by (cases p) auto
  obtain b where b: "length b = 32" "s = scalar_from b" using assms(2) SkX25519 by auto
  obtain x y where q: "length x = 32" "q = \<lparr> pt_x = scalar_from x, pt_y = y \<rparr>" using assms(3) p by auto
  have "length (mul_x25519 b x) = 32" by (rule mul_x25519_length [OF b(1) q(1)])
  moreover from x25519_mult_law [OF assms(1) b(1) q(1)] b q
  obtain d' where m: "nrf_multiply_scalar_point hw CurveX25519 s q d
      = Some (\<lparr> pt_x = scalar_from (mul_x25519 b x), pt_y = scalar_from (replicate 32 0) \<rparr>, d')" "dev d'"
    by auto
  ultimately show ?thesis using nrf_dh_shared_eq [OF m(1)] SkX25519 p b q m(2) by (auto simp: nrf_ec_def)
next
  case (SkX448 s)
  then obtain q where p: "p = PkX448 q" using assms(4) by (cases p) auto
  obtain b where b: "length b = 56" "s = scalar_from b" using assms(2) SkX448 by auto
  obtain x y where q: "length x = 56" "q = \<lparr> pt_x = scalar_from x, pt_y = y \<rparr>" using assms(3) p by auto
  have "length (mul_x448 b x) = 56" by (rule mul_x448_length [OF b(1) q(1)])
  moreover from x448_mult_law [OF assms(1) b(1) q(1)] b q
  obtain d' where m: "nrf_multiply_scalar_point hw CurveX448 s q d
      = Some (\<lparr> pt_x = scalar_from (mul_x448 b x), pt_y = scalar_from (replicate 56 0) \<rparr>, d')" "dev d'"
    by auto
  ultimately show ?thesis using nrf_dh_shared_eq [OF m(1)] SkX448 p b q m(2) by (auto simp: nrf_ec_def)
qed

end

text \<open>Both sides compute the same secret when the multiplications commute on multiples of the base point.\<close>

definition dh_commutes :: "(bytes \<Rightarrow> bytes \<times> bytes \<Rightarrow> bytes \<times> bytes) \<Rightarrow> (bytes \<Rightarrow> bytes \<Rightarrow> bytes) \<Rightarrow> (bytes \<Rightarrow> bytes \<Rightarrow> bytes) \<Rightarrow> bool" where
  "dh_commutes M X Y \<longleftrightarrow>
     (\<forall>a b. length a = 32 \<longrightarrow> length b = 32 \<longrightarrow>
        fst (M a (M b (P256_GX_BYTES, P256_GY_BYTES))) = fst (M b (M a (P256_GX_BYTES, P256_GY_BYTES)))
        \<and> X a (X b x25519_base) = X b (X a x25519_base))
   \<and> (\<forall>a b. length a = 56 \<longrightarrow> length b = 56 \<longrightarrow> Y a (Y b x448_base) = Y b (Y a x448_base))"

lemma nrf_public_alg [simp]: "public_alg (dh_public M X Y k) = secret_alg k"
  by (cases k) (simp_all split: prod.splits)

lemma dh_value_agrees:
  assumes c: "dh_commutes M X Y" and inv: "nrf_key_inv a" "nrf_key_inv b" "secret_alg a = secret_alg b"
    and pub: "nrf_public_inv (dh_public M X Y a)" "nrf_public_inv (dh_public M X Y b)"
    and l: "\<And>k. length k = 32 \<Longrightarrow> length (fst (M k (P256_GX_BYTES, P256_GY_BYTES))) = 32 \<and> length (snd (M k (P256_GX_BYTES, P256_GY_BYTES))) = 32"
      "\<And>k. length k = 32 \<Longrightarrow> length (X k x25519_base) = 32" "\<And>k. length k = 56 \<Longrightarrow> length (Y k x448_base) = 56"
  shows "dh_value M X Y a (dh_public M X Y b) = dh_value M X Y b (dh_public M X Y a)"
proof (cases a)
  case (SkEcdhP256 s)
  then obtain k k' where k: "length k = 32" "length k' = 32" "a = SkEcdhP256 (scalar_from k)" "b = SkEcdhP256 (scalar_from k')"
    using inv by (cases b) auto
  obtain x y x' y' where m: "M k (P256_GX_BYTES, P256_GY_BYTES) = (x, y)" "M k' (P256_GX_BYTES, P256_GY_BYTES) = (x', y')"
    by (metis prod.collapse)
  have "fst (M k (M k' (P256_GX_BYTES, P256_GY_BYTES))) = fst (M k' (M k (P256_GX_BYTES, P256_GY_BYTES)))"
    using c k(1,2) by (simp add: dh_commutes_def)
  then show ?thesis using k l(1) [OF k(1)] l(1) [OF k(2)] by (simp add: m)
next
  case (SkX25519 s)
  then obtain k k' where k: "length k = 32" "length k' = 32" "a = SkX25519 (scalar_from k)" "b = SkX25519 (scalar_from k')"
    using inv by (cases b) auto
  then show ?thesis using c l(2) [OF k(1)] l(2) [OF k(2)] by (auto simp: dh_commutes_def)
next
  case (SkX448 s)
  then obtain k k' where k: "length k = 56" "length k' = 56" "a = SkX448 (scalar_from k)" "b = SkX448 (scalar_from k')"
    using inv by (cases b) auto
  then show ?thesis using c l(3) [OF k(1)] l(3) [OF k(2)] by (auto simp: dh_commutes_def)
qed

lemma generated_key:
  assumes "dh_generate (nrf_dh rng hw) alg d = Some (k, d')"
  shows "nrf_key_inv k \<and> secret_alg k = alg"
proof -
  obtain v where v: "nrf_generate_visible rng alg d = Some (v, d')" "k = nrf_into_secret v"
    using assms by (auto simp: dh_generate_def nrf_dh_def split: bind_splits)
  show ?thesis
  proof (cases alg)
    case NrfEcdhP256
    with v obtain b d1 where b: "generate_p256 (nrf_fill_bytes rng 32) d = Some (b, d1)" "k = SkEcdhP256 (scalar_from b)"
      by (auto simp: nrf_generate_visible_def split: bind_splits)
    have "length b = 32" using generate_p256_partial [OF b(1)] nrf_fill_length by fastforce
    then show ?thesis using b NrfEcdhP256 by auto
  next
    case NrfX25519
    with v obtain b d1 where "nrf_fill_bytes rng 32 d = Some (b, d1)" "k = SkX25519 (scalar_from (clamp_x25519 b))"
      by (auto simp: nrf_generate_visible_def split: bind_splits)
    then show ?thesis using NrfX25519 nrf_fill_length [of rng 32 d b d1] clamps_idem(1) [of b]
      by (auto intro!: exI [of _ "clamp_x25519 b"])
  next
    case NrfX448
    with v obtain b d1 where "nrf_fill_bytes rng 56 d = Some (b, d1)" "k = SkX448 (scalar_from (clamp_x448 b))"
      by (auto simp: nrf_generate_visible_def split: bind_splits)
    then show ?thesis using NrfX448 nrf_fill_length [of rng 56 d b d1] clamps_idem(2) [of b]
      by (auto intro!: exI [of _ "clamp_x448 b"])
  qed
qed

text \<open>The crate's Diffie-Hellman self-test passes on the nRF54L15 for all three algorithms: on an engine
  behaving as documented, whose multiplications commute on the base point, two generated keys give
  both sides the same raw secret, and none of the operations reports an error or panics.\<close>

theorem nrf_selftest_passes:
  assumes "cracen_pke hw dev ram cmd ptrs err polls M X Y" "dh_commutes M X Y"
    and "dh_generate (nrf_dh rng hw) alg d = Some (a, d1)" "dh_generate (nrf_dh rng hw) alg d1 = Some (b, d2)" "dev d2"
  shows "\<exists>d'. test_dh_selftest (nrf_dh rng hw) alg d = Some ((), d') \<and> dev d'"
proof -
  note pub = cracen_pke.nrf_public_law [OF assms(1)] and sh = cracen_pke.nrf_shared_law [OF assms(1)]
  have inv: "nrf_key_inv a" "nrf_key_inv b" "secret_alg a = secret_alg b"
    using generated_key [OF assms(3)] generated_key [OF assms(4)] by simp_all
  let ?P = "dh_public M X Y" and ?V = "dh_value M X Y"
  obtain d3 where 3: "nrf_public_key_op hw a d2 = Some (?P a, d3)" "dev d3" "nrf_public_inv (?P a)" using pub [OF assms(5) inv(1)] by blast
  obtain d4 where 4: "nrf_public_key_op hw b d3 = Some (?P b, d4)" "dev d4" "nrf_public_inv (?P b)" using pub [OF 3(2) inv(2)] by blast
  obtain s d5 where 5: "nrf_shared_secret_op hw a (?P b) d4 = Some (Inr s, d5)" "dev d5" "shared_as_ref s = Some (?V a (?P b))"
    using sh [OF 4(2) inv(1) 4(3)] inv(3) by auto
  obtain t d6 where 6: "nrf_shared_secret_op hw b (?P a) d5 = Some (Inr t, d6)" "dev d6" "shared_as_ref t = Some (?V b (?P a))"
    using sh [OF 5(2) inv(2) 3(3)] inv(3) by auto
  have "?V a (?P b) = ?V b (?P a)"
    by (rule dh_value_agrees [OF assms(2) inv 3(3) 4(3)])
      (use cracen_pke.mul_p256_length [OF assms(1)] cracen_pke.mul_x25519_length [OF assms(1)]
         cracen_pke.mul_x448_length [OF assms(1)] in simp_all)
  then show ?thesis using 3(1) 4(1) 5(1,3) 6 assms(3,4)
    by (simp add: test_dh_selftest_def nrf_dh_def)
qed

text \<open>A shared secret is refused, as \<open>IncompatibleKeys\<close> and without touching the engine, exactly when
  the two keys belong to different algorithms; otherwise it is the engine's product of the secret
  scalar and the public coordinate.\<close>

theorem nrf_shared_secret_value:
  assumes "cracen_pke hw dev ram cmd ptrs err polls M X Y" "dev d" "nrf_key_inv k" "nrf_public_inv p"
  shows "if secret_alg k = public_alg p
    then \<exists>s d'. dp_shared_secret (nrf_dh rng hw) k p d = Some (Inr s, d')
      \<and> dp_raw_secret_bytes (nrf_dh rng hw) s d' = Some (dh_value M X Y k p, d')
    else dp_shared_secret (nrf_dh rng hw) k p d = Some (Inl IncompatibleKeys, d)"
proof (cases "secret_alg k = public_alg p")
  case True
  with cracen_pke.nrf_shared_law [OF assms True] show ?thesis by (auto simp: nrf_dh_def)
next
  case False
  then show ?thesis by (cases k; cases p) (simp_all add: nrf_dh_def)
qed

section \<open>Witnesses\<close>

text \<open>A generator that always delivers the word 5, on the device of the simulated engine.\<close>

definition const_rng :: "'d cracen" where
  "const_rng =
     \<lparr> w_enable = (\<lambda>_ d. d), w_volatile = (\<lambda>_ _ d. d), m_rng_enable = (\<lambda>_ d. d), m_rng_softrst_ctest = (\<lambda>_ d. d),
       r_rng_state = Pair FsmFILLFIFO, r_fifolevel = Pair 16, r_fifo0 = Pair 5,
       w_fetchaddr = (\<lambda>_ d. d), w_pushaddr = (\<lambda>_ d. d), w_dma_config = (\<lambda>_ d. d),
       w_dma_start = (\<lambda>_ _ _ d. d), r_dma_status = (\<lambda>d. ((False, False, False), d)), dma_outputs = (\<lambda>_. []) \<rparr>"

interpretation const_rng: cracen_rng const_rng "\<lambda>_. True" "\<lambda>_. sconst 5" "\<lambda>_. 16" "\<lambda>_. 0"
  by unfold_locales (simp_all add: const_rng_def)

definition const_key :: bytes where
  "const_key = take 32 (concat (map u32_to_le (stake 8 (sconst 5))))"

lemma const_fill: "\<exists>d'. nrf_fill_bytes const_rng 32 d = Some (const_key, d')"
  using const_rng.rng_fill_law [where n = 32 and k = 0 and d = d] by (auto simp: const_key_def nrf_fill_bytes_def try_fill_bytes_def)

lemma const_key_eq: "const_key = concat (replicate 8 [5, 0, 0, 0])"
proof -
  have "u32_to_le 5 = [5, 0, 0, 0]" by (rule le_val_inj) (simp_all add: le_val_u32_to_le)
  then show ?thesis by (simp add: const_key_def numeral_eq_Suc)
qed

lemma const_key_list: "const_key = [5, 0, 0, 0, 5, 0, 0, 0, 5, 0, 0, 0, 5, 0, 0, 0, 5, 0, 0, 0, 5, 0, 0, 0, 5, 0, 0, 0, 5, 0, 0, 0]"
  unfolding const_key_eq by code_simp

lemma length_const_key: "length const_key = 32"
  by (simp add: const_key_list)

lemma const_generate: "\<exists>d'. dh_generate (nrf_dh const_rng hw) NrfX25519 d = Some (SkX25519 (scalar_from (clamp_x25519 const_key)), d')"
  using const_fill [of d] by (auto simp: dh_generate_def nrf_dh_def nrf_generate_visible_def)

lemma toy_commutes: "dh_commutes (\<lambda>k (x, y). (toy_mul k x, toy_mul k y)) toy_mul toy_mul"
proof -
  have c: "toy_mul a (toy_mul b u) = toy_mul b (toy_mul a u)" if "length a = n" "length b = n" "length u = n" for a b u n
    using that by (intro nth_equalityI) (simp_all add: toy_mul_def add.left_commute)
  show ?thesis unfolding dh_commutes_def by (auto intro!: c)
qed

lemma nrf_selftest_passes_witness:
  "\<exists>d'. test_dh_selftest (nrf_dh const_rng sim_pke) NrfX25519 sim_pke_start = Some ((), d') \<and> True"
proof -
  obtain d1 where 1: "dh_generate (nrf_dh const_rng sim_pke) NrfX25519 sim_pke_start = Some (SkX25519 (scalar_from (clamp_x25519 const_key)), d1)"
    using const_generate [of sim_pke sim_pke_start] by blast
  obtain d2 where "dh_generate (nrf_dh const_rng sim_pke) NrfX25519 d1 = Some (SkX25519 (scalar_from (clamp_x25519 const_key)), d2)"
    using const_generate [of sim_pke d1] by blast
  from nrf_selftest_passes [OF sim_pke.cracen_pke_axioms toy_commutes 1 this] show ?thesis by simp
qed

lemma nrf_shared_secret_value_witness:
  "dp_shared_secret (nrf_dh const_rng sim_pke) (SkX448 (replicate 56 0x80))
     (PkX25519 \<lparr> pt_x = scalar_from (replicate 32 9), pt_y = scalar_from (replicate 32 0) \<rparr>) sim_pke_start
   = Some (Inl IncompatibleKeys, sim_pke_start)"
proof -
  have "nrf_key_inv (SkX448 (replicate 56 0x80))"
    by (auto simp: clamp_x448_def numeral_eq_Suc intro!: exI [of _ "replicate 56 0x80"])
  moreover have "nrf_public_inv (PkX25519 \<lparr> pt_x = scalar_from (replicate 32 9), pt_y = scalar_from (replicate 32 0) \<rparr>)"
    unfolding nrf_public_inv.simps by (rule exI [of _ "replicate 32 9"]) simp
  ultimately show ?thesis
    using nrf_shared_secret_value [OF sim_pke.cracen_pke_axioms, where d = sim_pke_start and k = "SkX448 (replicate 56 0x80)"
        and p = "PkX25519 \<lparr> pt_x = scalar_from (replicate 32 9), pt_y = scalar_from (replicate 32 0) \<rparr>" and rng = const_rng]
    by simp
qed

lemma const_key_accepted: "bytes_to_words const_key \<noteq> replicate 8 0 \<and> \<not> ge (bytes_to_words const_key) P256_ORDER"
proof -
  have b: "wval (bytes_to_words const_key) = be_val const_key" by (simp add: wval_bytes_to_words length_const_key)
  have v: "be_val const_key = 0x0500000005000000050000000500000005000000050000000500000005000000"
    unfolding const_key_list by (simp add: be_val_def)
  have o: "wval P256_ORDER = 0xFFFFFFFF00000000FFFFFFFFFFFFFFFFBCE6FAADA7179E84F3B9CAC2FC632551" by (simp add: P256_ORDER_def)
  have "wval (bytes_to_words const_key) = be_val const_key" "wval P256_ORDER > be_val const_key" "be_val const_key \<noteq> 0"
    using b by (simp_all only: v o)
  then show ?thesis
    by (auto simp: ge_iff P256_ORDER_length)
qed

lemma nrf_generated_p256_in_range_witness:
  "\<exists>b. SkEcdhP256 (scalar_from const_key) = SkEcdhP256 (scalar_from b) \<and> length b = 32 \<and> 1 \<le> be_val b
    \<and> be_val b < 0xFFFFFFFF00000000FFFFFFFFFFFFFFFFBCE6FAADA7179E84F3B9CAC2FC632551"
proof -
  obtain d' where f: "nrf_fill_bytes const_rng 32 sim_pke_start = Some (const_key, d')"
    using const_fill [of sim_pke_start] by (elim exE) 
  have "dh_generate (nrf_dh const_rng sim_pke) NrfEcdhP256 sim_pke_start = Some (SkEcdhP256 (scalar_from const_key), d')"
    using f const_key_accepted by (subst dh_generate_def) (simp add: nrf_dh_def nrf_generate_visible_def generate_p256.simps)
  then show ?thesis by (rule nrf_generated_p256_in_range)
qed


lemma nrf_secret_import_export_witness:
  "dp_import_secretkey_bytes (nrf_dh const_rng sim_pke) NrfX25519 (replicate 32 255) sim_pke_start
    = Some (Inr (VisibleSecretKey (SkX25519 (scalar_from (clamp_x25519 (replicate 32 255))))), sim_pke_start)"
  using nrf_secret_import_export [of const_rng sim_pke NrfX25519 "replicate 32 255" sim_pke_start] by simp

lemma nrf_public_import_export_witness:
  "dp_export_publickey_bytes (nrf_dh const_rng sim_pke)
      (PkX25519 \<lparr> pt_x = scalar_from (mask_u_x25519 (replicate 32 255)), pt_y = scalar_from (replicate 32 0) \<rparr>) sim_pke_start
    = Some (mask_u_x25519 (replicate 32 255), sim_pke_start)"
  using nrf_public_import_export [of const_rng sim_pke NrfX25519 "replicate 32 255" sim_pke_start] by simp

end
