(* ===== verification/Stm_Aead.thy ===== *)
theory Stm_Aead
  imports Ccm
begin

text \<open>
  AES-CCM on the STM32WBA55 (\<^verbatim>\<open>embedded-cal-stm32wba55/src/aead.rs\<close>). The driver walks the AES peripheral
  through the four CCM phases of the reference manual; the registers are a record of accesses, and
  the peripheral's documented behaviour is the locale \<open>stm_ccm\<close>, over the block cipher \<open>E\<close>.
\<close>

section \<open>The peripheral's registers\<close>

datatype aes_gcmph = INIT_PHASE | HEADER_PHASE | PAYLOAD_PHASE | FINAL_PHASE

datatype aes_mode = MODE1 | MODE3

datatype aes_chmod = ChmodCCM | ChmodOther

datatype aes_datatype = DatatypeNONE | DatatypeOther

text \<open>The control register, and the accesses the driver makes. \<open>modify\<close> is a read followed by a write.\<close>

record aes_cr =
  ac_en :: bool
  ac_chmod :: aes_chmod
  ac_datatype :: aes_datatype
  ac_keysize :: bool
  ac_mode :: aes_mode
  ac_kmod :: nat
  ac_gcmph :: aes_gcmph
  ac_npblb :: nat

record 'd stm_aes =
  aes_r_cr :: "'d \<Rightarrow> aes_cr \<times> 'd"
  aes_w_cr :: "aes_cr \<Rightarrow> 'd \<Rightarrow> 'd"
  aes_w_din :: "u32 \<Rightarrow> 'd \<Rightarrow> 'd"
  aes_r_dout :: "'d \<Rightarrow> u32 \<times> 'd"
  aes_r_ccf :: "'d \<Rightarrow> bool \<times> 'd"
  aes_clear_ccf :: "'d \<Rightarrow> 'd"
  aes_w_ivr :: "nat \<Rightarrow> u32 \<Rightarrow> 'd \<Rightarrow> 'd"
  aes_w_keyr :: "nat \<Rightarrow> u32 \<Rightarrow> 'd \<Rightarrow> 'd"
  aes_r_keyvalid :: "'d \<Rightarrow> bool \<times> 'd"

definition aes_modify :: "'d stm_aes \<Rightarrow> (aes_cr \<Rightarrow> aes_cr) \<Rightarrow> 'd \<Rightarrow> 'd" where
  "aes_modify hw f d = (let (c, d) = aes_r_cr hw d in aes_w_cr hw (f c) d)"

text \<open>\<open>while !flag {}\<close>.\<close>

partial_function (option) poll_set :: "('d \<Rightarrow> bool \<times> 'd) \<Rightarrow> 'd \<Rightarrow> 'd option" where
  "poll_set r d = (let (b, d) = r d in if b then Some d else poll_set r d)"

section \<open>The algorithms, keys and tags\<close>

datatype stm_aead_algorithm = StmCcm16_64_128 | StmCcm16_64_256

fun stm_key_length :: "stm_aead_algorithm \<Rightarrow> nat" where
  "stm_key_length StmCcm16_64_128 = 16"
| "stm_key_length StmCcm16_64_256 = 32"

definition stm_tag_length :: "stm_aead_algorithm \<Rightarrow> nat" where
  "stm_tag_length alg = 8"

definition stm_nonce_length :: "stm_aead_algorithm \<Rightarrow> nat" where
  "stm_nonce_length alg = 13"

definition stm_aead_from_cose_number :: "int \<Rightarrow> stm_aead_algorithm option" where
  "stm_aead_from_cose_number number =
     (if number = 10 then Some StmCcm16_64_128 else if number = 11 then Some StmCcm16_64_256 else None)"

datatype stm_aead_key = StmKey_128 bytes | StmKey_256 bytes

datatype stm_aead_tag = StmTag_128 bytes | StmTag_256 bytes

fun stm_tag_as_ref :: "stm_aead_tag \<Rightarrow> bytes" where
  "stm_tag_as_ref (StmTag_128 r) = r"
| "stm_tag_as_ref (StmTag_256 r) = r"

section \<open>The phases\<close>

definition block_word :: "bytes \<Rightarrow> nat \<Rightarrow> u32" where
  "block_word block i = u32_from_be [block ! i, block ! (i + 1), block ! (i + 2), block ! (i + 3)]"

fun din_loop :: "'d stm_aes \<Rightarrow> bytes \<Rightarrow> nat list \<Rightarrow> 'd \<Rightarrow> 'd" where
  "din_loop hw block [] d = d"
| "din_loop hw block (i # is) d = din_loop hw block is (aes_w_din hw (block_word block (i * 4)) d)"

fun dout_loop :: "'d stm_aes \<Rightarrow> nat list \<Rightarrow> bytes \<Rightarrow> 'd \<Rightarrow> (bytes \<times> 'd) option" where
  "dout_loop hw [] out d = Some (out, d)"
| "dout_loop hw (i # is) out d = (let (word, d) = aes_r_dout hw d in do {
     out \<leftarrow> copy_at out (i * 4) (u32_to_be word);
     dout_loop hw is out d
   })"

definition feed_block :: "'d stm_aes \<Rightarrow> bytes \<Rightarrow> 'd \<Rightarrow> 'd option" where
  "feed_block hw block d = do {
     let d = din_loop hw block [0, 1, 2, 3] d;
     d \<leftarrow> poll_set (aes_r_ccf hw) d;
     Some (aes_clear_ccf hw d)
   }"

definition write_ivr :: "'d stm_aes \<Rightarrow> bytes \<Rightarrow> 'd \<Rightarrow> 'd" where
  "write_ivr hw block d =
     (let d = aes_w_ivr hw 3 (block_word block 0) d;
          d = aes_w_ivr hw 2 (block_word block 4) d;
          d = aes_w_ivr hw 1 (block_word block 8) d
      in aes_w_ivr hw 0 (block_word block 12) d)"

definition write_key_128 :: "'d stm_aes \<Rightarrow> bytes \<Rightarrow> 'd \<Rightarrow> 'd" where
  "write_key_128 hw key d =
     (let d = aes_w_keyr hw 3 (block_word key 0) d;
          d = aes_w_keyr hw 2 (block_word key 4) d;
          d = aes_w_keyr hw 1 (block_word key 8) d
      in aes_w_keyr hw 0 (block_word key 12) d)"

definition write_key_256 :: "'d stm_aes \<Rightarrow> bytes \<Rightarrow> 'd \<Rightarrow> 'd" where
  "write_key_256 hw key d =
     (let d = aes_w_keyr hw 7 (block_word key 0) d;
          d = aes_w_keyr hw 6 (block_word key 4) d;
          d = aes_w_keyr hw 5 (block_word key 8) d;
          d = aes_w_keyr hw 4 (block_word key 12) d;
          d = aes_w_keyr hw 3 (block_word key 16) d;
          d = aes_w_keyr hw 2 (block_word key 20) d;
          d = aes_w_keyr hw 1 (block_word key 24) d
      in aes_w_keyr hw 0 (block_word key 28) d)"

definition run_final_phase :: "'d stm_aes \<Rightarrow> 'd \<Rightarrow> (bytes \<times> 'd) option" where
  "run_final_phase hw d = do {
     let d = aes_modify hw (\<lambda>c. c\<lparr> ac_gcmph := FINAL_PHASE \<rparr>) d;
     d \<leftarrow> poll_set (aes_r_ccf hw) d;
     (tag_full, d) \<leftarrow> dout_loop hw [0, 1, 2, 3] (replicate 16 0) d;
     let d = aes_clear_ccf hw d;
     Some (tag_full, aes_modify hw (\<lambda>c. c\<lparr> ac_en := False \<rparr>) d)
   }"

definition exchange_block :: "'d stm_aes \<Rightarrow> bytes \<Rightarrow> 'd \<Rightarrow> (bytes \<times> 'd) option" where
  "exchange_block hw block d = do {
     let d = din_loop hw block [0, 1, 2, 3] d;
     d \<leftarrow> poll_set (aes_r_ccf hw) d;
     (out, d) \<leftarrow> dout_loop hw [0, 1, 2, 3] (replicate 16 0) d;
     Some (out, aes_clear_ccf hw d)
   }"

function payload_loop :: "'d stm_aes \<Rightarrow> bool \<Rightarrow> nat \<Rightarrow> nat \<Rightarrow> bytes \<Rightarrow> 'd \<Rightarrow> (bytes \<times> 'd) option" where
  "payload_loop hw with_npblb msg_len msg_offset message d =
     (if msg_offset < msg_len then do {
        let chunk = min (msg_len - msg_offset) 16;
        part \<leftarrow> slice message msg_offset (msg_offset + chunk);
        block \<leftarrow> copy_at (replicate 16 0) 0 part;
        let d = (if with_npblb \<and> msg_offset + chunk \<ge> msg_len \<and> chunk < 16
                 then aes_modify hw (\<lambda>c. c\<lparr> ac_npblb := 16 - chunk \<rparr>) d else d);
        (out, d) \<leftarrow> exchange_block hw block d;
        part \<leftarrow> slice out 0 chunk;
        message \<leftarrow> copy_at message msg_offset part;
        payload_loop hw with_npblb msg_len (msg_offset + chunk) message d
      } else Some (message, d))"
  by pat_completeness auto
termination
  by (relation "measure (\<lambda>(hw, wn, msg_len, msg_offset, message, d). msg_len - msg_offset)") auto

declare payload_loop.simps [simp del]

definition run_payload_phase :: "'d stm_aes \<Rightarrow> bytes \<Rightarrow> bool \<Rightarrow> 'd \<Rightarrow> (bytes \<times> 'd) option" where
  "run_payload_phase hw message with_npblb d =
     (let d = aes_modify hw (\<lambda>c. c\<lparr> ac_gcmph := PAYLOAD_PHASE \<rparr>) d;
          d = aes_modify hw (\<lambda>c. c\<lparr> ac_en := True \<rparr>) d
      in payload_loop hw with_npblb (length message) 0 message d)"

text \<open>The two init phases differ in the key size.\<close>

definition run_init_phase_256 :: "'d stm_aes \<Rightarrow> aes_mode \<Rightarrow> bytes \<Rightarrow> nat \<Rightarrow> nat \<Rightarrow> nat \<Rightarrow> bytes \<Rightarrow> 'd \<Rightarrow> 'd option" where
  "run_init_phase_256 hw mode nonce msg_len a_len tag_len key d = do {
     let d = aes_modify hw (\<lambda>c. c\<lparr> ac_en := False \<rparr>) d;
     let d = aes_modify hw (\<lambda>c. c\<lparr> ac_chmod := ChmodCCM, ac_datatype := DatatypeNONE, ac_keysize := True,
                 ac_mode := mode, ac_kmod := 0, ac_gcmph := INIT_PHASE, ac_npblb := 0 \<rparr>) d;
     b0 \<leftarrow> build_b0 nonce msg_len a_len tag_len;
     let d = write_ivr hw b0 d;
     let d = write_key_256 hw key d;
     d \<leftarrow> poll_set (aes_r_keyvalid hw) d;
     let d = aes_modify hw (\<lambda>c. c\<lparr> ac_en := True \<rparr>) d;
     d \<leftarrow> poll_set (aes_r_ccf hw) d;
     Some (aes_clear_ccf hw d)
   }"

definition run_init_phase_128 :: "'d stm_aes \<Rightarrow> aes_mode \<Rightarrow> bytes \<Rightarrow> nat \<Rightarrow> nat \<Rightarrow> nat \<Rightarrow> bytes \<Rightarrow> 'd \<Rightarrow> 'd option" where
  "run_init_phase_128 hw mode nonce msg_len a_len tag_len key d = do {
     let d = aes_modify hw (\<lambda>c. c\<lparr> ac_en := False \<rparr>) d;
     let d = aes_modify hw (\<lambda>c. c\<lparr> ac_chmod := ChmodCCM, ac_datatype := DatatypeNONE, ac_keysize := False,
                 ac_mode := mode, ac_kmod := 0, ac_gcmph := INIT_PHASE, ac_npblb := 0 \<rparr>) d;
     b0 \<leftarrow> build_b0 nonce msg_len a_len tag_len;
     let d = write_ivr hw b0 d;
     let d = write_key_128 hw key d;
     d \<leftarrow> poll_set (aes_r_keyvalid hw) d;
     let d = aes_modify hw (\<lambda>c. c\<lparr> ac_en := True \<rparr>) d;
     d \<leftarrow> poll_set (aes_r_ccf hw) d;
     Some (aes_clear_ccf hw d)
   }"

text \<open>The header phase: \<open>header_slice\<close> is the inner loop, over one item of the additional data.\<close>

function header_slice :: "'d stm_aes \<Rightarrow> bytes \<Rightarrow> nat \<Rightarrow> bytes \<Rightarrow> nat \<Rightarrow> 'd \<Rightarrow> ((bytes \<times> nat) \<times> 'd) option" where
  "header_slice hw sl slice_offset block pos d =
     (if slice_offset < length sl then do {
        room \<leftarrow> usize_sub 16 pos;
        let n = min (length sl - slice_offset) room;
        part \<leftarrow> slice sl slice_offset (slice_offset + n);
        block \<leftarrow> copy_at block pos part;
        if pos + n = 16 then do {
          d \<leftarrow> feed_block hw block d;
          header_slice hw sl (slice_offset + n) (replicate 16 0) 0 d
        } else header_slice hw sl (slice_offset + n) block (pos + n) d
      } else Some ((block, pos), d))"
  by pat_completeness auto
termination
  by (relation "measures [\<lambda>(hw, sl, slice_offset, block, pos, d). length sl - slice_offset,
      \<lambda>(hw, sl, slice_offset, block, pos, d). pos]") (auto simp: usize_sub_def split: if_splits)

declare header_slice.simps [simp del]

fun header_items :: "'d stm_aes \<Rightarrow> bytes list \<Rightarrow> bytes \<Rightarrow> nat \<Rightarrow> 'd \<Rightarrow> ((bytes \<times> nat) \<times> 'd) option" where
  "header_items hw [] block pos d = Some ((block, pos), d)"
| "header_items hw (sl # items) block pos d = do {
     ((block, pos), d) \<leftarrow> header_slice hw sl 0 block pos d;
     header_items hw items block pos d
   }"

definition run_header_phase :: "'d stm_aes \<Rightarrow> bytes list \<Rightarrow> nat \<Rightarrow> 'd \<Rightarrow> 'd option" where
  "run_header_phase hw aad a_len d = do {
     let d = aes_modify hw (\<lambda>c. c\<lparr> ac_gcmph := HEADER_PHASE \<rparr>) d;
     let d = aes_modify hw (\<lambda>c. c\<lparr> ac_en := True \<rparr>) d;
     let block = (replicate 16 0)[0 := of_nat (drop_bit 8 a_len), 1 := of_nat (a_len AND 0xFF)];
     ((block, pos), d) \<leftarrow> header_items hw aad block 2 d;
     if pos > 0 then feed_block hw block d else Some d
   }"

section \<open>The provider\<close>

text \<open>\<open>aad.items().map(|s| s.len()).sum()\<close>.\<close>

fun sum_lens :: "bytes list \<Rightarrow> nat \<Rightarrow> nat option" where
  "sum_lens [] acc = Some acc"
| "sum_lens (s # items) acc = do { acc \<leftarrow> usize_add acc (length s); sum_lens items acc }"

definition stm_aead_load :: "stm_aead_algorithm \<Rightarrow> bytes \<Rightarrow> 'd \<Rightarrow> (stm_aead_key \<times> 'd) option" where
  "stm_aead_load alg key d =
     (case alg of
        StmCcm16_64_128 \<Rightarrow> if length key = 16 then Some (StmKey_128 key, d) else None
      | StmCcm16_64_256 \<Rightarrow> if length key = 32 then Some (StmKey_256 key, d) else None)"

fun stm_aead_encrypt :: "'d stm_aes \<Rightarrow> stm_aead_key \<Rightarrow> bytes \<Rightarrow> bytes \<Rightarrow> bytes list \<Rightarrow> 'd \<Rightarrow> ((stm_aead_tag \<times> bytes) \<times> 'd) option" where
  "stm_aead_encrypt hw (StmKey_128 key_bytes) nonce message aad d = do {
     a_len \<leftarrow> sum_lens aad 0;
     d \<leftarrow> run_init_phase_128 hw MODE1 nonce (length message) a_len 8 key_bytes d;
     d \<leftarrow> (if a_len > 0 then run_header_phase hw aad a_len d else Some d);
     (message, d) \<leftarrow> run_payload_phase hw message False d;
     (tag_full, d) \<leftarrow> run_final_phase hw d;
     tag \<leftarrow> slice tag_full 0 8;
     Some ((StmTag_128 tag, message), d)
   }"
| "stm_aead_encrypt hw (StmKey_256 key_bytes) nonce message aad d = do {
     a_len \<leftarrow> sum_lens aad 0;
     d \<leftarrow> run_init_phase_256 hw MODE1 nonce (length message) a_len 8 key_bytes d;
     d \<leftarrow> (if a_len > 0 then run_header_phase hw aad a_len d else Some d);
     (message, d) \<leftarrow> run_payload_phase hw message False d;
     (tag_full, d) \<leftarrow> run_final_phase hw d;
     tag \<leftarrow> slice tag_full 0 8;
     Some ((StmTag_256 tag, message), d)
   }"

text \<open>The comparison of the tags: all bytes are folded, in time independent of where they differ.\<close>

definition tags_match :: "bytes \<Rightarrow> bytes \<Rightarrow> bool" where
  "tags_match computed tag \<longleftrightarrow> length computed = length tag
     \<and> foldl (\<lambda>acc (a, b). acc OR (a XOR b)) 0 (zip computed tag) = 0"

fun stm_aead_decrypt :: "'d stm_aes \<Rightarrow> stm_aead_key \<Rightarrow> bytes \<Rightarrow> bytes \<Rightarrow> bytes \<Rightarrow> bytes list \<Rightarrow> 'd
    \<Rightarrow> (((decryption_failed + unit) \<times> bytes) \<times> 'd) option" where
  "stm_aead_decrypt hw (StmKey_128 key_bytes) nonce message tag aad d = do {
     a_len \<leftarrow> sum_lens aad 0;
     d \<leftarrow> run_init_phase_128 hw MODE3 nonce (length message) a_len 8 key_bytes d;
     d \<leftarrow> (if a_len > 0 then run_header_phase hw aad a_len d else Some d);
     (message, d) \<leftarrow> run_payload_phase hw message True d;
     (tag_full, d) \<leftarrow> run_final_phase hw d;
     computed \<leftarrow> slice tag_full 0 8;
     Some ((if tags_match computed tag then Inr () else Inl DecryptionFailed, message), d)
   }"
| "stm_aead_decrypt hw (StmKey_256 key_bytes) nonce message tag aad d = do {
     a_len \<leftarrow> sum_lens aad 0;
     d \<leftarrow> run_init_phase_256 hw MODE3 nonce (length message) a_len 8 key_bytes d;
     d \<leftarrow> (if a_len > 0 then run_header_phase hw aad a_len d else Some d);
     (message, d) \<leftarrow> run_payload_phase hw message True d;
     (tag_full, d) \<leftarrow> run_final_phase hw d;
     computed \<leftarrow> slice tag_full 0 8;
     Some ((if tags_match computed tag then Inr () else Inl DecryptionFailed, message), d)
   }"

definition stm_aead :: "'d stm_aes \<Rightarrow> ('d, stm_aead_algorithm, stm_aead_key, stm_aead_tag) aead_provider" where
  "stm_aead hw =
     \<lparr> key_length = stm_key_length, tag_length = stm_tag_length, nonce_length = stm_nonce_length,
       aead_from_cose_number = stm_aead_from_cose_number, ap_load_from_keydata = stm_aead_load,
       ap_encrypt_in_place = stm_aead_encrypt hw, ap_decrypt_in_place = stm_aead_decrypt hw,
       ap_tag_bytes = stm_tag_as_ref \<rparr>"

section \<open>The documented peripheral\<close>

text \<open>
  What the reference manual says a CCM run does, as a function of the visible registers and of three
  internal values: the CBC-MAC so far, the counter, and the words queued at the data registers. The
  init phase takes \<open>B0\<close> from the \<open>IVR\<close> registers, absorbs it and clears \<open>EN\<close>; the header phase
  absorbs blocks; the payload phase encrypts or decrypts blocks and absorbs the plain text, the last
  \<open>NPBLB\<close> bytes of it as zeros when decrypting; entering the final phase yields the full tag.
\<close>

record aes_view =
  av_cr :: aes_cr
  av_iv :: "nat \<Rightarrow> u32"
  av_key :: "nat \<Rightarrow> u32"
  av_in :: bytes
  av_out :: bytes
  av_ccf :: bool
  av_i :: nat
  av_mac :: bytes

definition av_b0 :: "aes_view \<Rightarrow> bytes" where
  "av_b0 v = u32_to_be (av_iv v 3) @ u32_to_be (av_iv v 2) @ u32_to_be (av_iv v 1) @ u32_to_be (av_iv v 0)"

definition av_keyb :: "aes_view \<Rightarrow> bytes" where
  "av_keyb v = concat (map (\<lambda>i. u32_to_be (av_key v i)) (if ac_keysize (av_cr v) then [7, 6, 5, 4, 3, 2, 1, 0] else [3, 2, 1, 0]))"

text \<open>The counter block of \<open>B0\<close>: its flags reduced to the length field, its nonce, and the counter.\<close>

definition hw_ctr :: "bytes \<Rightarrow> nat \<Rightarrow> bytes" where
  "hw_ctr b0 i = (let l = unat (b0 ! 0 AND 7) + 1 in (b0 ! 0 AND 7) # take (15 - l) (drop 1 b0) @ be_bytes l i)"

definition aes_cr_step :: "(bytes \<Rightarrow> bytes \<Rightarrow> bytes) \<Rightarrow> aes_cr \<Rightarrow> aes_view \<Rightarrow> aes_view" where
  "aes_cr_step E c v =
     (let v' = v\<lparr> av_cr := c \<rparr>
      in if ac_en c \<and> ac_gcmph c = INIT_PHASE \<and> ac_chmod c = ChmodCCM
         then v\<lparr> av_cr := c\<lparr> ac_en := False \<rparr>, av_in := [], av_out := [], av_ccf := True, av_i := 1,
                 av_mac := E (av_keyb v') (av_b0 v) \<rparr>
         else if ac_en c \<and> ac_gcmph c = FINAL_PHASE \<and> ac_gcmph (av_cr v) \<noteq> FINAL_PHASE
         then v'\<lparr> av_ccf := True, av_out := xor_bytes (av_mac v) (E (av_keyb v') (hw_ctr (av_b0 v) 0)) \<rparr>
         else v')"

definition aes_din_step :: "(bytes \<Rightarrow> bytes \<Rightarrow> bytes) \<Rightarrow> u32 \<Rightarrow> aes_view \<Rightarrow> aes_view" where
  "aes_din_step E w v =
     (let b = av_in v @ u32_to_be w; K = E (av_keyb v)
      in if length b < 16 then v\<lparr> av_in := b \<rparr>
         else case ac_gcmph (av_cr v) of
           HEADER_PHASE \<Rightarrow> v\<lparr> av_in := [], av_ccf := True, av_mac := K (xor_bytes (av_mac v) b) \<rparr>
         | PAYLOAD_PHASE \<Rightarrow>
             (let c = xor_bytes b (K (hw_ctr (av_b0 v) (av_i v)));
                  p = (case ac_mode (av_cr v) of MODE1 \<Rightarrow> b
                       | MODE3 \<Rightarrow> take (16 - ac_npblb (av_cr v)) c @ replicate (ac_npblb (av_cr v)) 0)
              in v\<lparr> av_in := [], av_out := c, av_ccf := True, av_i := av_i v + 1, av_mac := K (xor_bytes (av_mac v) p) \<rparr>)
         | _ \<Rightarrow> v\<lparr> av_in := [] \<rparr>)"

locale stm_ccm =
  fixes hw :: "'d stm_aes" and dev :: "'d \<Rightarrow> bool" and view :: "'d \<Rightarrow> aes_view" and polls :: "'d \<Rightarrow> nat"
    and E :: "bytes \<Rightarrow> bytes \<Rightarrow> bytes"
  assumes cr_read: "dev d \<Longrightarrow> \<exists>d'. aes_r_cr hw d = (av_cr (view d), d') \<and> dev d' \<and> view d' = view d"
    and cr_write: "dev d \<Longrightarrow> dev (aes_w_cr hw c d) \<and> view (aes_w_cr hw c d) = aes_cr_step E c (view d)"
    and din: "dev d \<Longrightarrow> dev (aes_w_din hw w d) \<and> view (aes_w_din hw w d) = aes_din_step E w (view d)"
    and dout: "dev d \<Longrightarrow> \<exists>d'. aes_r_dout hw d = (u32_from_be (take 4 (av_out (view d))), d') \<and> dev d'
        \<and> view d' = (view d)\<lparr> av_out := drop 4 (av_out (view d)) \<rparr>"
    and ccf_read: "dev d \<Longrightarrow> \<exists>b d'. aes_r_ccf hw d = (b, d') \<and> dev d' \<and> view d' = view d
        \<and> (av_ccf (view d) \<longrightarrow> b \<or> polls d' < polls d)"
    and clear_ccf: "dev d \<Longrightarrow> dev (aes_clear_ccf hw d) \<and> view (aes_clear_ccf hw d) = (view d)\<lparr> av_ccf := False \<rparr>"
    and ivr: "dev d \<Longrightarrow> dev (aes_w_ivr hw i w d) \<and> view (aes_w_ivr hw i w d) = (view d)\<lparr> av_iv := (av_iv (view d))(i := w) \<rparr>"
    and keyr: "dev d \<Longrightarrow> dev (aes_w_keyr hw i w d) \<and> view (aes_w_keyr hw i w d) = (view d)\<lparr> av_key := (av_key (view d))(i := w) \<rparr>"
    and keyvalid: "dev d \<Longrightarrow> \<exists>b d'. aes_r_keyvalid hw d = (b, d') \<and> dev d' \<and> view d' = view d \<and> (b \<or> polls d' < polls d)"
    and block: "length (E k b) = 16"
begin

lemma modify_law: "dev d \<Longrightarrow> dev (aes_modify hw f d) \<and> view (aes_modify hw f d) = aes_cr_step E (f (av_cr (view d))) (view d)"
  using cr_read [of d] cr_write by (auto simp: aes_modify_def)

lemma poll_ccf: "dev d \<Longrightarrow> av_ccf (view d) \<Longrightarrow> \<exists>d'. poll_set (aes_r_ccf hw) d = Some d' \<and> dev d' \<and> view d' = view d"
proof (induction "polls d" arbitrary: d rule: less_induct)
  case less
  obtain b d1 where r: "aes_r_ccf hw d = (b, d1)" "dev d1" "view d1 = view d" "b \<or> polls d1 < polls d"
    using ccf_read [OF less.prems(1)] less.prems(2) by blast
  show ?case
  proof (cases b)
    case False
    with r less.hyps [of d1] less.prems show ?thesis by (subst poll_set.simps) auto
  qed (use r in \<open>subst poll_set.simps, auto\<close>)
qed

lemma poll_keyvalid: "dev d \<Longrightarrow> \<exists>d'. poll_set (aes_r_keyvalid hw) d = Some d' \<and> dev d' \<and> view d' = view d"
proof (induction "polls d" arbitrary: d rule: less_induct)
  case less
  obtain b d1 where r: "aes_r_keyvalid hw d = (b, d1)" "dev d1" "view d1 = view d" "b \<or> polls d1 < polls d"
    using keyvalid [OF less.prems(1)] by blast
  show ?case
  proof (cases b)
    case False
    with r less.hyps [of d1] less.prems show ?thesis by (subst poll_set.simps) auto
  qed (use r in \<open>subst poll_set.simps, auto\<close>)
qed

end

text \<open>Cutting a block into words and back.\<close>

lemma u32_to_be_block_word: "i + 3 < length b \<Longrightarrow> u32_to_be (block_word b i) = take 4 (drop i b)"
proof -
  assume i: "i + 3 < length b"
  have "take 4 (drop i b) = [b ! i, b ! (i + 1), b ! (i + 2), b ! (i + 3)]"
    using i by (simp add: Cons_nth_drop_Suc [symmetric] numeral_eq_Suc)
  then show ?thesis by (simp add: block_word_def u32_to_be_from_be)
qed

lemma block_of_words:
  "length b = 16 \<Longrightarrow> u32_to_be (block_word b 0) @ u32_to_be (block_word b 4) @ u32_to_be (block_word b 8) @ u32_to_be (block_word b 12) = b"
proof -
  assume l: "length b = 16"
  have "take 4 b @ take 4 (drop 4 b) @ take 4 (drop 8 b) @ take 4 (drop 12 b) = b"
    using l by (intro nth_equalityI) (auto simp: nth_append)
  with l show ?thesis by (simp add: u32_to_be_block_word)
qed

section \<open>Blocks\<close>

lemma view_parts [simp]:
  "av_b0 (v\<lparr> av_in := i \<rparr>) = av_b0 v" "av_b0 (v\<lparr> av_out := i \<rparr>) = av_b0 v" "av_b0 (v\<lparr> av_ccf := c \<rparr>) = av_b0 v"
  "av_b0 (v\<lparr> av_i := n \<rparr>) = av_b0 v" "av_b0 (v\<lparr> av_mac := i \<rparr>) = av_b0 v" "av_b0 (v\<lparr> av_cr := r \<rparr>) = av_b0 v"
  "av_b0 (v\<lparr> av_key := k \<rparr>) = av_b0 v"
  "av_keyb (v\<lparr> av_in := i \<rparr>) = av_keyb v" "av_keyb (v\<lparr> av_out := i \<rparr>) = av_keyb v" "av_keyb (v\<lparr> av_ccf := c \<rparr>) = av_keyb v"
  "av_keyb (v\<lparr> av_i := n \<rparr>) = av_keyb v" "av_keyb (v\<lparr> av_mac := i \<rparr>) = av_keyb v" "av_keyb (v\<lparr> av_iv := k \<rparr>) = av_keyb v"
  by (simp_all add: av_b0_def av_keyb_def)

lemma keyb_cr [simp]: "ac_keysize r = ac_keysize (av_cr v) \<Longrightarrow> av_keyb (v\<lparr> av_cr := r \<rparr>) = av_keyb v"
  by (simp add: av_keyb_def)

lemma settle: "av_in v = [] \<Longrightarrow> av_out v = [] \<Longrightarrow> \<not> av_ccf v \<Longrightarrow>
  v\<lparr> av_cr := c \<rparr>\<lparr> av_in := [], av_out := [], av_ccf := False, av_i := i, av_mac := m \<rparr> = v\<lparr> av_cr := c, av_i := i, av_mac := m \<rparr>"
  by (cases v) simp

lemma view_simps:
  "av_in (v\<lparr> av_cr := c, av_i := i, av_mac := m \<rparr>) = av_in v" "av_out (v\<lparr> av_cr := c, av_i := i, av_mac := m \<rparr>) = av_out v"
  "av_ccf (v\<lparr> av_cr := c, av_i := i, av_mac := m \<rparr>) = av_ccf v" "av_cr (v\<lparr> av_cr := c, av_i := i, av_mac := m \<rparr>) = c"
  "av_i (v\<lparr> av_cr := c, av_i := i, av_mac := m \<rparr>) = i" "av_mac (v\<lparr> av_cr := c, av_i := i, av_mac := m \<rparr>) = m"
  "av_b0 (v\<lparr> av_cr := c, av_i := i, av_mac := m \<rparr>) = av_b0 v"
  "av_keyb (v\<lparr> av_cr := (av_cr v)\<lparr> ac_npblb := n \<rparr>, av_i := i, av_mac := m \<rparr>) = av_keyb v"
  "ac_npblb (r\<lparr> ac_npblb := n \<rparr>) = n" "ac_en (r\<lparr> ac_npblb := n \<rparr>) = ac_en r" "ac_gcmph (r\<lparr> ac_npblb := n \<rparr>) = ac_gcmph r"
  "ac_mode (r\<lparr> ac_npblb := n \<rparr>) = ac_mode r"
  "v\<lparr> av_cr := c, av_i := i, av_mac := m \<rparr>\<lparr> av_cr := c', av_i := i', av_mac := m' \<rparr> = v\<lparr> av_cr := c', av_i := i', av_mac := m' \<rparr>"
  "r\<lparr> ac_npblb := n \<rparr>\<lparr> ac_npblb := n' \<rparr> = r\<lparr> ac_npblb := n' \<rparr>"
  by simp_all

lemma din_step_short:
  "length (av_in v) < 12 \<Longrightarrow> aes_din_step E w v = v\<lparr> av_in := av_in v @ u32_to_be w \<rparr>"
  by (simp add: aes_din_step_def)

lemma din_step_full:
  "length (av_in v) = 12 \<Longrightarrow> ac_gcmph (av_cr v) = HEADER_PHASE \<Longrightarrow>
    aes_din_step E w v = v\<lparr> av_in := [], av_ccf := True, av_mac := E (av_keyb v) (xor_bytes (av_mac v) (av_in v @ u32_to_be w)) \<rparr>"
  by (simp add: aes_din_step_def)

definition plain_of :: "aes_cr \<Rightarrow> bytes \<Rightarrow> bytes \<Rightarrow> bytes" where
  "plain_of cr b c = (case ac_mode cr of MODE1 \<Rightarrow> b | MODE3 \<Rightarrow> take (16 - ac_npblb cr) c @ replicate (ac_npblb cr) 0)"

lemma din_step_payload:
  "length (av_in v) = 12 \<Longrightarrow> ac_gcmph (av_cr v) = PAYLOAD_PHASE \<Longrightarrow>
    aes_din_step E w v = (let b = av_in v @ u32_to_be w; c = xor_bytes b (E (av_keyb v) (hw_ctr (av_b0 v) (av_i v)))
      in v\<lparr> av_in := [], av_out := c, av_ccf := True, av_i := av_i v + 1,
            av_mac := E (av_keyb v) (xor_bytes (av_mac v) (plain_of (av_cr v) b c)) \<rparr>)"
  by (simp add: aes_din_step_def plain_of_def Let_def)

lemma block_parts:
  "length b = 16 \<Longrightarrow> ((u32_to_be (block_word b 0) @ u32_to_be (block_word b 4)) @ u32_to_be (block_word b 8)) @ u32_to_be (block_word b 12) = b"
  using block_of_words [of b] by simp

context stm_ccm
begin

lemma din_loop_view:
  assumes "dev d" "av_in (view d) = []"
  shows "dev (din_loop hw b [0, 1, 2, 3] d) \<and> view (din_loop hw b [0, 1, 2, 3] d)
    = aes_din_step E (block_word b 12) ((view d)\<lparr> av_in := (u32_to_be (block_word b 0) @ u32_to_be (block_word b 4)) @ u32_to_be (block_word b 8) \<rparr>)"
  using assms din by (simp add: din_step_short)

lemma feed_block_law:
  assumes "dev d" "av_in (view d) = []" "ac_gcmph (av_cr (view d)) = HEADER_PHASE" "length b = 16"
  shows "\<exists>d'. feed_block hw b d = Some d' \<and> dev d' \<and> view d' = (view d)\<lparr> av_in := [], av_ccf := False,
    av_mac := E (av_keyb (view d)) (xor_bytes (av_mac (view d)) b) \<rparr>"
proof -
  let ?d = "din_loop hw b [0, 1, 2, 3] d"
  have 1: "dev ?d" "view ?d = (view d)\<lparr> av_in := [], av_ccf := True, av_mac := E (av_keyb (view d)) (xor_bytes (av_mac (view d)) b) \<rparr>"
    using din_loop_view [OF assms(1,2), of b] assms(3) block_parts [OF assms(4)] by (simp_all add: din_step_full del: din_loop.simps)
  then obtain d1 where 2: "poll_set (aes_r_ccf hw) ?d = Some d1" "dev d1" "view d1 = view ?d" using poll_ccf [of ?d] by auto
  with clear_ccf [OF 2(2)] 1 show ?thesis by (simp add: feed_block_def del: din_loop.simps)
qed

lemma dout_step:
  assumes "dev d" "i + 4 \<le> length out"
  shows "\<exists>d'. dout_loop hw ((i div 4) # is) out d
      = dout_loop hw is (take (i div 4 * 4) out @ u32_to_be (u32_from_be (take 4 (av_out (view d)))) @ drop (i div 4 * 4 + 4) out) d'
    \<and> dev d' \<and> view d' = (view d)\<lparr> av_out := drop 4 (av_out (view d)) \<rparr>"
proof -
  obtain d' where d': "aes_r_dout hw d = (u32_from_be (take 4 (av_out (view d))), d')" "dev d'"
    "view d' = (view d)\<lparr> av_out := drop 4 (av_out (view d)) \<rparr>" using dout [OF assms(1)] by blast
  have "i div 4 * 4 + 4 \<le> length out" using assms(2) by (metis add_le_mono1 div_mult_self1_is_m le_trans div_times_less_eq_dividend)
  with d' show ?thesis by (auto simp: copy_at_def)
qed

lemma dout_loop_law:
  assumes "dev d" "length (av_out (view d)) = 16"
  shows "\<exists>d'. dout_loop hw [0, 1, 2, 3] (replicate 16 0) d = Some (av_out (view d), d') \<and> dev d' \<and> view d' = (view d)\<lparr> av_out := [] \<rparr>"
proof -
  let ?o = "av_out (view d)"
  obtain d1 where 1: "dout_loop hw [0, 1, 2, 3] (replicate 16 0) d = dout_loop hw [1, 2, 3] (u32_to_be (u32_from_be (take 4 ?o)) @ replicate 12 0) d1"
    "dev d1" "view d1 = (view d)\<lparr> av_out := drop 4 ?o \<rparr>" using dout_step [OF assms(1), of 0 "replicate 16 0" "[1, 2, 3]"] by auto
  obtain d2 where 2: "dout_loop hw [1, 2, 3] (u32_to_be (u32_from_be (take 4 ?o)) @ replicate 12 0) d1
      = dout_loop hw [2, 3] (u32_to_be (u32_from_be (take 4 ?o)) @ u32_to_be (u32_from_be (take 4 (drop 4 ?o))) @ replicate 8 0) d2"
    "dev d2" "view d2 = (view d)\<lparr> av_out := drop 8 ?o \<rparr>"
    using dout_step [OF 1(2), of 4 "u32_to_be (u32_from_be (take 4 ?o)) @ replicate 12 0" "[2, 3]"] 1(3) by auto
  obtain d3 where 3: "dout_loop hw [2, 3] (u32_to_be (u32_from_be (take 4 ?o)) @ u32_to_be (u32_from_be (take 4 (drop 4 ?o))) @ replicate 8 0) d2
      = dout_loop hw [3] (u32_to_be (u32_from_be (take 4 ?o)) @ u32_to_be (u32_from_be (take 4 (drop 4 ?o))) @ u32_to_be (u32_from_be (take 4 (drop 8 ?o))) @ replicate 4 0) d3"
    "dev d3" "view d3 = (view d)\<lparr> av_out := drop 12 ?o \<rparr>"
    using dout_step [OF 2(2), of 8 "u32_to_be (u32_from_be (take 4 ?o)) @ u32_to_be (u32_from_be (take 4 (drop 4 ?o))) @ replicate 8 0" "[3]"] 2(3) by auto
  obtain d4 where 4: "dout_loop hw [3] (u32_to_be (u32_from_be (take 4 ?o)) @ u32_to_be (u32_from_be (take 4 (drop 4 ?o))) @ u32_to_be (u32_from_be (take 4 (drop 8 ?o))) @ replicate 4 0) d3
      = Some (u32_to_be (u32_from_be (take 4 ?o)) @ u32_to_be (u32_from_be (take 4 (drop 4 ?o))) @ u32_to_be (u32_from_be (take 4 (drop 8 ?o))) @ u32_to_be (u32_from_be (take 4 (drop 12 ?o))), d4)"
    "dev d4" "view d4 = (view d)\<lparr> av_out := [] \<rparr>"
    using dout_step [OF 3(2), of 12 "u32_to_be (u32_from_be (take 4 ?o)) @ u32_to_be (u32_from_be (take 4 (drop 4 ?o))) @ u32_to_be (u32_from_be (take 4 (drop 8 ?o))) @ replicate 4 0" "[]"] 3(3) assms(2) by auto
  have "u32_to_be (u32_from_be (take 4 ?o)) @ u32_to_be (u32_from_be (take 4 (drop 4 ?o))) @ u32_to_be (u32_from_be (take 4 (drop 8 ?o))) @ u32_to_be (u32_from_be (take 4 (drop 12 ?o))) = ?o"
    using assms(2) by (simp add: u32_to_be_from_be) (intro nth_equalityI, auto simp: nth_append)
  with 1 2 3 4 show ?thesis by simp
qed

lemma exchange_block_law:
  assumes "dev d" "av_in (view d) = []" "ac_gcmph (av_cr (view d)) = PAYLOAD_PHASE" "length b = 16"
    and "c = xor_bytes b (E (av_keyb (view d)) (hw_ctr (av_b0 (view d)) (av_i (view d))))"
  shows "\<exists>d'. exchange_block hw b d = Some (c, d') \<and> dev d' \<and> view d' = (view d)\<lparr> av_in := [], av_out := [], av_ccf := False,
    av_i := av_i (view d) + 1, av_mac := E (av_keyb (view d)) (xor_bytes (av_mac (view d)) (plain_of (av_cr (view d)) b c)) \<rparr>"
proof -
  let ?d = "din_loop hw b [0, 1, 2, 3] d"
  have 1: "dev ?d" "view ?d = (view d)\<lparr> av_in := [], av_out := c, av_ccf := True, av_i := av_i (view d) + 1,
      av_mac := E (av_keyb (view d)) (xor_bytes (av_mac (view d)) (plain_of (av_cr (view d)) b c)) \<rparr>"
    using din_loop_view [OF assms(1,2), of b] assms(3,5) block_parts [OF assms(4)] by (simp_all add: din_step_payload Let_def del: din_loop.simps)
  then obtain d1 where 2: "poll_set (aes_r_ccf hw) ?d = Some d1" "dev d1" "view d1 = view ?d" using poll_ccf [of ?d] by auto
  have "length c = 16" using assms(4,5) by (simp add: block)
  then obtain d2 where 3: "dout_loop hw [0, 1, 2, 3] (replicate 16 0) d1 = Some (c, d2)" "dev d2" "view d2 = (view d1)\<lparr> av_out := [] \<rparr>"
    using dout_loop_law [OF 2(2)] 1 2(3) by auto
  with 1 2 clear_ccf [OF 3(2)] show ?thesis by (simp add: exchange_block_def del: din_loop.simps dout_loop.simps)
qed

end

section \<open>The header phase\<close>

text \<open>The CBC-MAC continued from a given state.\<close>

definition cbc_from :: "(bytes \<Rightarrow> bytes) \<Rightarrow> bytes \<Rightarrow> bytes \<Rightarrow> bytes" where
  "cbc_from E s x = foldl (\<lambda>s b. E (xor_bytes s b)) s (blocks16 (length x div 16) x)"

lemma cbc_mac_from: "cbc_mac E x = cbc_from E (replicate 16 0) x"
  by (simp add: cbc_mac_def cbc_from_def)

lemma blocks16_append: "length x = 16 * a \<Longrightarrow> blocks16 (a + b) (x @ y) = blocks16 a x @ blocks16 b y"
  by (induction a arbitrary: x) simp_all

lemma cbc_from_append: "length x mod 16 = 0 \<Longrightarrow> cbc_from E s (x @ y) = cbc_from E (cbc_from E s x) y"
proof -
  assume "length x mod 16 = 0"
  then obtain a where a: "length x = 16 * a" by (auto simp: mod_eq_0_iff_dvd)
  then have "length (x @ y) div 16 = a + length y div 16" by simp
  with blocks16_append [OF a] a show ?thesis by (simp add: cbc_from_def)
qed

lemma cbc_from_block: "length b = 16 \<Longrightarrow> cbc_from E s b = E (xor_bytes s b)"
  by (simp add: cbc_from_def)

lemma cbc_from_Nil [simp]: "cbc_from E s [] = s"
  by (simp add: cbc_from_def)

lemma pad16_append: "length x mod 16 = 0 \<Longrightarrow> pad16 (x @ y) = x @ pad16 y"
proof -
  assume "length x mod 16 = 0"
  then have "(length x + length y) mod 16 = length y mod 16" by (metis add_0 mod_add_left_eq)
  then show ?thesis by (simp add: pad16_def)
qed

lemma pad16_short: "x \<noteq> [] \<Longrightarrow> length x < 16 \<Longrightarrow> pad16 x = x @ replicate (16 - length x) 0"
  by (cases x) (auto simp: pad16_def)

context stm_ccm
begin

lemma feed_block_header:
  assumes "dev d" "av_in (view d) = []" "\<not> av_ccf (view d)" "ac_gcmph (av_cr (view d)) = HEADER_PHASE" "length b = 16"
  shows "\<exists>d'. feed_block hw b d = Some d' \<and> dev d'
    \<and> view d' = (view d)\<lparr> av_mac := cbc_from (E (av_keyb (view d))) (av_mac (view d)) b \<rparr>"
proof -
  have "(view d)\<lparr> av_in := [], av_ccf := False, av_mac := m \<rparr> = (view d)\<lparr> av_mac := m \<rparr>" for m
    using assms(2,3) by (cases "view d") simp
  with feed_block_law [OF assms(1,2,4,5)] show ?thesis by (simp add: cbc_from_block [OF assms(5)])
qed

lemma header_slice_law:
  assumes "dev d" "av_in (view d) = []" "\<not> av_ccf (view d)" "ac_gcmph (av_cr (view d)) = HEADER_PHASE"
    and "length p < 16" "off \<le> length sl"
  shows "\<exists>whole p' d'. header_slice hw sl off (p @ replicate (16 - length p) 0) (length p) d
      = Some ((p' @ replicate (16 - length p') 0, length p'), d') \<and> dev d'
    \<and> p @ drop off sl = whole @ p' \<and> length whole mod 16 = 0 \<and> length p' < 16
    \<and> view d' = (view d)\<lparr> av_mac := cbc_from (E (av_keyb (view d))) (av_mac (view d)) whole \<rparr>"
  using assms
proof (induction "length sl - off" arbitrary: off p d rule: less_induct)
  case less
  show ?case
  proof (cases "off < length sl")
    case False
    with less.prems show ?thesis by (subst header_slice.simps) (rule exI [of _ "[]"], rule exI [of _ p], simp)
  next
    case True
    let ?n = "min (length sl - off) (16 - length p)"
    let ?part = "take ?n (drop off sl)"
    let ?q = "p @ ?part"
    have room: "usize_sub 16 (length p) = Some (16 - length p)" using less.prems(5) by (simp add: usize_sub_def)
    have part: "slice sl off (off + ?n) = Some ?part" using True by (simp add: slice_def)
    have lq: "length ?q = length p + ?n" "length p + ?n \<le> 16" using less.prems(5) by auto
    have copy: "copy_at (p @ replicate (16 - length p) 0) (length p) ?part = Some (?q @ replicate (16 - length ?q) 0)"
      using lq(2) by (simp add: copy_at_def)
    have step: "header_slice hw sl off (p @ replicate (16 - length p) 0) (length p) d =
        (if length ?q = 16 then do { d \<leftarrow> feed_block hw (?q @ replicate (16 - length ?q) 0) d;
                                   header_slice hw sl (off + ?n) (replicate 16 0) 0 d }
         else header_slice hw sl (off + ?n) (?q @ replicate (16 - length ?q) 0) (length ?q) d)"
      using True lq(1) by (subst header_slice.simps) (simp only: room part copy bind.bind_lunit Let_def if_True)
    have smaller: "length sl - (off + ?n) < length sl - off" "off + ?n \<le> length sl" using True less.prems(5) by auto
    have rest: "?q @ drop (off + ?n) sl = p @ drop off sl"
      using append_take_drop_id [of ?n "drop off sl"] by (simp add: add.commute)
    show ?thesis
    proof (cases "length ?q = 16")
      case False
      with lq have "length ?q < 16" by simp
      from less.hyps [OF smaller(1) less.prems(1-4) this smaller(2)] rest step False show ?thesis by simp
    next
      case full: True
      obtain d1 where 1: "feed_block hw ?q d = Some d1" "dev d1"
          "view d1 = (view d)\<lparr> av_mac := cbc_from (E (av_keyb (view d))) (av_mac (view d)) ?q \<rparr>"
        using feed_block_header [OF less.prems(1-4) full] by blast
      obtain whole p' d' where 2: "header_slice hw sl (off + ?n) ([] @ replicate (16 - length ([] :: bytes)) 0) (length ([] :: bytes)) d1
            = Some ((p' @ replicate (16 - length p') 0, length p'), d')" "dev d'"
          "[] @ drop (off + ?n) sl = whole @ p'" "length whole mod 16 = 0" "length p' < 16"
          "view d' = (view d1)\<lparr> av_mac := cbc_from (E (av_keyb (view d1))) (av_mac (view d1)) whole \<rparr>"
        using less.hyps [OF smaller(1) 1(2) _ _ _ _ smaller(2), of "[]"] 1(3) less.prems(2-4) by auto
      have m: "length ?q mod 16 = 0" "length (?q @ whole) mod 16 = 0"
        using full 2(4) by (simp_all only: length_append mod_add_self1) simp
      have "header_slice hw sl off (p @ replicate (16 - length p) 0) (length p) d
          = Some ((p' @ replicate (16 - length p') 0, length p'), d')"
        using step full 1(1) 2(1) by simp
      moreover have "p @ drop off sl = (?q @ whole) @ p'" using rest 2(3) by (metis append.assoc append_Nil)
      moreover have "view d' = (view d)\<lparr> av_mac := cbc_from (E (av_keyb (view d))) (av_mac (view d)) (?q @ whole) \<rparr>"
        unfolding cbc_from_append [OF m(1)] using 1(3) 2(6) by simp
      moreover note 2(2,5) m(2)
      ultimately show ?thesis by (intro exI conjI) assumption+
    qed
  qed
qed

lemma header_items_law:
  assumes "dev d" "av_in (view d) = []" "\<not> av_ccf (view d)" "ac_gcmph (av_cr (view d)) = HEADER_PHASE" "length p < 16"
  shows "\<exists>whole p' d'. header_items hw aad (p @ replicate (16 - length p) 0) (length p) d
      = Some ((p' @ replicate (16 - length p') 0, length p'), d') \<and> dev d'
    \<and> p @ concat aad = whole @ p' \<and> length whole mod 16 = 0 \<and> length p' < 16
    \<and> view d' = (view d)\<lparr> av_mac := cbc_from (E (av_keyb (view d))) (av_mac (view d)) whole \<rparr>"
  using assms
proof (induction aad arbitrary: p d)
  case Nil
  then show ?case by (rule_tac exI [of _ "[]"], rule_tac exI [of _ p]) simp
next
  case (Cons sl aad)
  obtain w1 p1 d1 where 1: "header_slice hw sl 0 (p @ replicate (16 - length p) 0) (length p) d
      = Some ((p1 @ replicate (16 - length p1) 0, length p1), d1)" "dev d1" "p @ sl = w1 @ p1"
      "length w1 mod 16 = 0" "length p1 < 16"
      "view d1 = (view d)\<lparr> av_mac := cbc_from (E (av_keyb (view d))) (av_mac (view d)) w1 \<rparr>"
    using header_slice_law [OF Cons.prems, of 0 sl] by auto
  obtain w2 p2 d2 where 2: "header_items hw aad (p1 @ replicate (16 - length p1) 0) (length p1) d1
      = Some ((p2 @ replicate (16 - length p2) 0, length p2), d2)" "dev d2" "p1 @ concat aad = w2 @ p2"
      "length w2 mod 16 = 0" "length p2 < 16"
      "view d2 = (view d1)\<lparr> av_mac := cbc_from (E (av_keyb (view d1))) (av_mac (view d1)) w2 \<rparr>"
    using Cons.IH [OF 1(2) _ _ _ 1(5)] 1(6) Cons.prems(2-4) by auto
  have "p @ concat (sl # aad) = w1 @ p1 @ concat aad" using 1(3) by (metis append.assoc concat.simps(2))
  also have "\<dots> = (w1 @ w2) @ p2" by (simp add: 2(3))
  finally have split: "p @ concat (sl # aad) = (w1 @ w2) @ p2" .
  have m: "length (w1 @ w2) mod 16 = 0" using 1(4) 2(4) by (metis add_0 length_append mod_add_left_eq)
  show ?case using 1 2 split m
    by (intro exI [of _ "w1 @ w2"] exI [of _ p2] exI [of _ d2]) (simp add: cbc_from_append)
qed

end

section \<open>The payload phase\<close>

text \<open>The key stream from counter \<open>i\<close> on, applied to a message.\<close>

definition crypt_from :: "(bytes \<Rightarrow> bytes) \<Rightarrow> (nat \<Rightarrow> bytes) \<Rightarrow> nat \<Rightarrow> bytes \<Rightarrow> bytes" where
  "crypt_from E ctr i m = xor_bytes m (concat (map (\<lambda>j. E (ctr j)) [i..<i + (length m + 15) div 16]))"

lemma xor_bytes_append: "length x = length u \<Longrightarrow> xor_bytes (x @ y) (u @ v) = xor_bytes x u @ xor_bytes y v"
  by (simp add: xor_bytes_def zip_append)

lemma crypt_from_Nil [simp]: "crypt_from E ctr i [] = []"
  by (simp add: crypt_from_def xor_bytes_def)

lemma crypt_from_step:
  assumes "\<And>b. length (E b) = 16" "m \<noteq> []"
  shows "crypt_from E ctr i m = xor_bytes (take 16 m) (E (ctr i)) @ crypt_from E ctr (i + 1) (drop 16 m)"
proof -
  have n: "(length m + 15) div 16 = Suc ((length (drop 16 m) + 15) div 16)"
  proof (cases "16 \<le> length m")
    case True
    then obtain k where "length m = 16 + k" using le_Suc_ex by blast
    then show ?thesis by simp
  next
    case False
    then have "length m \<in> {1..15}" using assms(2) by (cases m) auto
    then have "(length m + 15) div 16 = 1" by (simp add: div_nat_eqI)
    with False show ?thesis by simp
  qed
  let ?R = "concat (map (\<lambda>j. E (ctr j)) [i + 1..<i + 1 + (length (drop 16 m) + 15) div 16])"
  have "[i..<i + (length m + 15) div 16] = i # [i + 1..<i + 1 + (length (drop 16 m) + 15) div 16]"
    unfolding n by (simp add: upt_conv_Cons del: upt_Suc)
  then have "crypt_from E ctr i m = xor_bytes m (E (ctr i) @ ?R)" by (simp add: crypt_from_def)
  also have "\<dots> = xor_bytes (take 16 m) (E (ctr i)) @ crypt_from E ctr (i + 1) (drop 16 m)"
  proof (cases "16 \<le> length m")
    case True
    then have "xor_bytes (take 16 m @ drop 16 m) (E (ctr i) @ ?R) = xor_bytes (take 16 m) (E (ctr i)) @ xor_bytes (drop 16 m) ?R"
      by (intro xor_bytes_append) (simp add: assms(1))
    then show ?thesis by (simp add: crypt_from_def)
  next
    case False
    then have "xor_bytes m (E (ctr i) @ ?R) = xor_bytes m (E (ctr i))"
      by (simp add: xor_bytes_def zip_append2 assms(1))
    with False show ?thesis by simp
  qed
  finally show ?thesis .
qed

lemma length_crypt_from: "(\<And>b. length (E b) = 16) \<Longrightarrow> length (crypt_from E ctr i m) = length m"
proof -
  assume E: "\<And>b. length (E b) = 16"
  have "length (concat (map (\<lambda>j. E (ctr j)) [i..<i + (length m + 15) div 16])) = 16 * length [i..<i + (length m + 15) div 16]"
    by (rule length_concat_blocks) (rule E)
  moreover have "length m \<le> 16 * ((length m + 15) div 16)" by linarith
  ultimately show ?thesis by (simp add: crypt_from_def)
qed

lemma mac_step:
  assumes "length p \<le> 16" "p \<noteq> []" "length p = 16 \<or> r = []"
  shows "cbc_from K s (pad16 (p @ r)) = cbc_from K (K (xor_bytes s (p @ replicate (16 - length p) 0))) (pad16 r)"
proof (cases "length p = 16")
  case True
  then have "length p mod 16 = 0" by simp
  with True show ?thesis by (simp add: pad16_append cbc_from_append cbc_from_block)
next
  case False
  with assms show ?thesis by (simp add: pad16_short cbc_from_block)
qed

text \<open>One block of the payload, padded with zeros: the cipher bytes that are kept and what the MAC absorbs.\<close>

lemma xor_bytes_pad: "length c \<le> n \<Longrightarrow> length s = n \<Longrightarrow> take (length c) (xor_bytes (c @ replicate (n - length c) 0) s) = xor_bytes c s"
proof -
  assume l: "length c \<le> n" "length s = n"
  have "xor_bytes (c @ replicate (n - length c) 0) (take (length c) s @ drop (length c) s) = xor_bytes c (take (length c) s) @ xor_bytes (replicate (n - length c) 0) (drop (length c) s)"
    by (rule xor_bytes_append) (use l in simp)
  moreover have "xor_bytes c (take (length c) s) = xor_bytes c s"
  proof -
    have "zip c s = zip (take (length c) c) (take (length c) s)" using take_zip [of "length c" c s] by simp
    then show ?thesis by (simp add: xor_bytes_def)
  qed
  ultimately show ?thesis using l by simp
qed


context stm_ccm
begin

lemma modify_npblb:
  "dev d \<Longrightarrow> ac_gcmph (av_cr (view d)) = PAYLOAD_PHASE \<Longrightarrow> dev (aes_modify hw (\<lambda>c. c\<lparr> ac_npblb := k \<rparr>) d)
    \<and> view (aes_modify hw (\<lambda>c. c\<lparr> ac_npblb := k \<rparr>) d) = (view d)\<lparr> av_cr := (av_cr (view d))\<lparr> ac_npblb := k \<rparr> \<rparr>"
  using modify_law [of d "\<lambda>c. c\<lparr> ac_npblb := k \<rparr>"] by (simp add: aes_cr_step_def)

text \<open>What one round of the loop does to the MAC: the plain text, padded.\<close>

lemma plain_of_block:
  assumes "length c \<le> 16" "length s = 16" "ac_mode cr = MODE3 \<longrightarrow> ac_npblb cr = 16 - length c"
  shows "plain_of cr (c @ replicate (16 - length c) 0) (xor_bytes (c @ replicate (16 - length c) 0) s)
    = (case ac_mode cr of MODE1 \<Rightarrow> c | MODE3 \<Rightarrow> xor_bytes c s) @ replicate (16 - length c) 0"
proof (cases "ac_mode cr")
  case MODE3
  have "16 - (16 - length c) = length c" using assms(1) by simp
  with MODE3 assms(3) show ?thesis by (simp add: plain_of_def xor_bytes_pad [OF assms(1,2)])
qed (simp add: plain_of_def)

text \<open>Cutting the next block off the message.\<close>

lemma next_block:
  assumes "off < length msg" "c = take 16 (drop off msg)" "n = length c"
  shows "min (length msg - off) 16 = n" "n = 16 \<or> off + n = length msg \<and> n < 16" "0 < n" "off + n \<le> length msg" "n \<le> 16"
    "drop 16 (drop off msg) = drop (off + n) msg" "drop off msg = c @ drop (off + n) msg" "take n (drop off msg) = c"
proof -
  show nm: "min (length msg - off) 16 = n" using assms(2,3) by simp
  show n4: "n = 16 \<or> off + n = length msg \<and> n < 16" and "0 < n" "off + n \<le> length msg" "n \<le> 16"
    using assms(1) nm by arith+
  show d16: "drop 16 (drop off msg) = drop (off + n) msg" using n4 by (auto simp: add.commute)
  show "drop off msg = c @ drop (off + n) msg" using append_take_drop_id [of 16 "drop off msg"] d16 assms(2) by simp
  then show "take n (drop off msg) = c" using assms(3) by simp
qed

text \<open>What the loop needs of the peripheral.\<close>

definition payload_ready :: "aes_view \<Rightarrow> bool" where
  "payload_ready v \<longleftrightarrow> av_in v = [] \<and> av_out v = [] \<and> \<not> av_ccf v \<and> ac_gcmph (av_cr v) = PAYLOAD_PHASE \<and> ac_en (av_cr v)"

lemma payload_npblb:
  assumes "dev d" "payload_ready (view d)" "0 < n" "n = 16 \<or> off + n = l \<and> n < 16" "ac_npblb (av_cr (view d)) = 0"
  obtains d1 where "(if wn \<and> off + n \<ge> l \<and> n < 16 then aes_modify hw (\<lambda>r. r\<lparr> ac_npblb := 16 - n \<rparr>) d else d) = d1"
    "dev d1" "view d1 = (view d)\<lparr> av_cr := (av_cr (view d))\<lparr> ac_npblb := (if wn then 16 - n else 0) \<rparr> \<rparr>"
proof (cases "wn \<and> off + n \<ge> l \<and> n < 16")
  case True
  then show ?thesis
    using modify_npblb [OF assms(1), of "16 - n"] assms(2) that by (simp add: payload_ready_def)
next
  case False
  then have "wn \<Longrightarrow> n = 16" using assms(4) by (metis order_refl)
  then have "(if wn then 16 - n else 0) = ac_npblb (av_cr (view d))" using assms(5) by simp
  then have "view d = (view d)\<lparr> av_cr := (av_cr (view d))\<lparr> ac_npblb := (if wn then 16 - n else 0) \<rparr> \<rparr>" by simp
  with False assms(1) show ?thesis by (intro that [of d]) (simp_all only: if_False)
qed

text \<open>One round of the loop.\<close>

lemma payload_round:
  assumes "dev d" "payload_ready (view d)" "ac_npblb (av_cr (view d)) = 0" "wn = (ac_mode (av_cr (view d)) = MODE3)"
    and "off < length msg" "c = take 16 (drop off msg)" "n = length c"
    and "s = E (av_keyb (view d)) (hw_ctr (av_b0 (view d)) (av_i (view d)))"
    and "p = (case ac_mode (av_cr (view d)) of MODE1 \<Rightarrow> c | MODE3 \<Rightarrow> xor_bytes c s)"
  shows "\<exists>d2 q. payload_loop hw wn (length msg) off msg d
      = payload_loop hw wn (length msg) (off + n) (take off msg @ xor_bytes c s @ drop (off + n) msg) d2 \<and> dev d2
    \<and> view d2 = (view d)\<lparr> av_cr := (av_cr (view d))\<lparr> ac_npblb := q \<rparr>, av_i := av_i (view d) + 1,
        av_mac := E (av_keyb (view d)) (xor_bytes (av_mac (view d)) (p @ replicate (16 - n) 0)) \<rparr>
    \<and> (off + n < length msg \<longrightarrow> q = 0)"
proof -
  note n = next_block [OF assms(5-7)]
  let ?v = "view d" and ?b = "c @ replicate (16 - n) 0"
  let ?K = "E (av_keyb ?v)"
  have part: "slice msg off (off + n) = Some c" using n(4,8) by (simp add: slice_def)
  have blk: "copy_at (replicate 16 0) 0 c = Some ?b" using n(5) assms(7) by (simp add: copy_at_def)
  obtain d1 where d1: "(if wn \<and> off + n \<ge> length msg \<and> n < 16 then aes_modify hw (\<lambda>r. r\<lparr> ac_npblb := 16 - n \<rparr>) d else d) = d1"
    "dev d1" "view d1 = ?v\<lparr> av_cr := (av_cr ?v)\<lparr> ac_npblb := (if wn then 16 - n else 0) \<rparr> \<rparr>"
    using payload_npblb [OF assms(1,2) n(3) n(2)] assms(3) by blast
  have ls: "length s = 16" unfolding assms(8) by (rule block)
  let ?o = "xor_bytes ?b s"
  have pl: "plain_of (av_cr (view d1)) ?b ?o = p @ replicate (16 - n) 0"
  proof -
    have "ac_mode (av_cr (view d1)) = MODE3 \<longrightarrow> ac_npblb (av_cr (view d1)) = 16 - length c" "ac_mode (av_cr (view d1)) = ac_mode (av_cr ?v)"
      using assms(4,7) by (simp_all add: d1(3))
    with plain_of_block [OF n(5) [unfolded assms(7)] ls, of "av_cr (view d1)"] assms(7,9) show ?thesis by metis
  qed
  have lb: "length ?b = 16" using n(5) assms(7) by simp
  have k1: "av_in (view d1) = []" "ac_gcmph (av_cr (view d1)) = PAYLOAD_PHASE" "av_keyb (view d1) = av_keyb ?v"
    "av_b0 (view d1) = av_b0 ?v" "av_i (view d1) = av_i ?v" "av_mac (view d1) = av_mac ?v"
    using assms(2) by (simp_all add: d1(3) payload_ready_def)
  obtain d2 where d2: "exchange_block hw ?b d1 = Some (?o, d2)" "dev d2"
    "view d2 = (view d1)\<lparr> av_in := [], av_out := [], av_ccf := False, av_i := av_i ?v + 1,
       av_mac := ?K (xor_bytes (av_mac ?v) (p @ replicate (16 - n) 0)) \<rparr>"
    using exchange_block_law [OF d1(2) k1(1,2) lb refl, unfolded k1(3-6) assms(8) [symmetric] pl] by blast
  have out: "slice ?o 0 n = Some (xor_bytes c s)"
    using xor_bytes_pad [of c 16 s] ls n(5) assms(7) by (simp add: slice_def)
  have msg: "copy_at msg off (xor_bytes c s) = Some (take off msg @ xor_bytes c s @ drop (off + n) msg)"
    using n(4,5) ls assms(7) by (simp add: copy_at_def)
  have "payload_loop hw wn (length msg) off msg d
      = payload_loop hw wn (length msg) (off + n) (take off msg @ xor_bytes c s @ drop (off + n) msg) d2"
    using assms(5) by (subst payload_loop.simps) (simp only: Let_def n(1) part blk d1(1) d2(1) out msg bind.bind_lunit prod.case if_True)
  moreover have "off + n < length msg \<longrightarrow> (if wn then 16 - n else 0) = 0" using n(2) by (metis diff_self_eq_0 nat_neq_iff)
  moreover have "view d2 = ?v\<lparr> av_cr := (av_cr ?v)\<lparr> ac_npblb := (if wn then 16 - n else 0) \<rparr>, av_i := av_i ?v + 1,
      av_mac := ?K (xor_bytes (av_mac ?v) (p @ replicate (16 - n) 0)) \<rparr>"
    unfolding d2(3) d1(3) by (rule settle) (use assms(2) in \<open>simp_all add: payload_ready_def\<close>)
  ultimately show ?thesis using d2(2) by blast
qed

lemma payload_loop_law:
  assumes "dev d" "payload_ready (view d)" "off < length msg \<longrightarrow> ac_npblb (av_cr (view d)) = 0"
    and "wn = (ac_mode (av_cr (view d)) = MODE3)" "off \<le> length msg"
    and "C = crypt_from (E (av_keyb (view d))) (hw_ctr (av_b0 (view d))) (av_i (view d)) (drop off msg)"
    and "P = (case ac_mode (av_cr (view d)) of MODE1 \<Rightarrow> drop off msg | MODE3 \<Rightarrow> C)"
  shows "\<exists>d' i k. payload_loop hw wn (length msg) off msg d = Some (take off msg @ C, d') \<and> dev d'
    \<and> view d' = (view d)\<lparr> av_cr := (av_cr (view d))\<lparr> ac_npblb := k \<rparr>, av_i := i,
        av_mac := cbc_from (E (av_keyb (view d))) (av_mac (view d)) (pad16 P) \<rparr>"
  using assms
proof (induction "length msg - off" arbitrary: off msg d C P rule: less_induct)
  case less
  let ?v = "view d"
  let ?K = "E (av_keyb ?v)" and ?ctr = "hw_ctr (av_b0 ?v)"
  show ?case
  proof (cases "off < length msg")
    case False
    with less.prems have "C = []" "P = []" by (simp_all split: aes_mode.splits)
    with False less.prems show ?thesis
      by (subst payload_loop.simps) (cases "view d", cases "av_cr (view d)", auto)
  next
    case True
    define c where "c = take 16 (drop off msg)"
    define n where "n = length c"
    note n = next_block [OF True c_def n_def]
    let ?s = "?K (?ctr (av_i ?v))"
    let ?PC = "case ac_mode (av_cr ?v) of MODE1 \<Rightarrow> c | MODE3 \<Rightarrow> xor_bytes c ?s"
    let ?M = "?K (xor_bytes (av_mac ?v) (?PC @ replicate (16 - n) 0))"
    let ?m = "take off msg @ xor_bytes c ?s @ drop (off + n) msg"
    obtain d2 q where d2: "payload_loop hw wn (length msg) off msg d = payload_loop hw wn (length msg) (off + n) ?m d2" "dev d2"
      "view d2 = ?v\<lparr> av_cr := (av_cr ?v)\<lparr> ac_npblb := q \<rparr>, av_i := av_i ?v + 1, av_mac := ?M \<rparr>" "off + n < length msg \<longrightarrow> q = 0"
      using payload_round [OF less.prems(1,2) less.prems(3) [rule_format, OF True] less.prems(4) True c_def n_def refl refl] by blast
    have ls: "length ?s = 16" by (rule block)
    have lm: "length ?m = length msg" "off + n \<le> length ?m" using n(3-5) n_def ls by simp_all
    have dm: "drop (off + n) ?m = drop (off + n) msg" "take (off + n) ?m = take off msg @ xor_bytes c ?s"
      using n(3-5) n_def ls by simp_all
    let ?C2 = "crypt_from ?K ?ctr (av_i ?v + 1) (drop (off + n) msg)"
    let ?P2 = "case ac_mode (av_cr ?v) of MODE1 \<Rightarrow> drop (off + n) msg | MODE3 \<Rightarrow> ?C2"
    have "\<exists>d' i k. payload_loop hw wn (length ?m) (off + n) ?m d2 = Some (take (off + n) ?m @ ?C2, d') \<and> dev d'
      \<and> view d' = (view d2)\<lparr> av_cr := (av_cr (view d2))\<lparr> ac_npblb := k \<rparr>, av_i := i,
          av_mac := cbc_from (E (av_keyb (view d2))) (av_mac (view d2)) (pad16 ?P2) \<rparr>"
    proof (rule less.hyps)
      show "length ?m - (off + n) < length msg - off" unfolding lm(1) using True n(3) by linarith
      show "dev d2" "off + n \<le> length ?m" by (fact d2(2), fact lm(2))
      show "off + n < length ?m \<longrightarrow> ac_npblb (av_cr (view d2)) = 0" using d2(4) by (simp only: lm(1) d2(3) view_simps)
      show "payload_ready (view d2)" using less.prems(2) unfolding payload_ready_def d2(3) view_simps by simp
    qed (simp_all only: d2(3) view_simps less.prems dm)
    then obtain d' i k where ih: "payload_loop hw wn (length msg) (off + n) ?m d2 = Some ((take off msg @ xor_bytes c ?s) @ ?C2, d')" "dev d'"
      "view d' = ?v\<lparr> av_cr := (av_cr ?v)\<lparr> ac_npblb := k \<rparr>, av_i := i, av_mac := cbc_from ?K ?M (pad16 ?P2) \<rparr>"
      unfolding d2(3) view_simps dm lm(1) by (elim exE conjE)
    have "drop off msg \<noteq> []" using True by simp
    from crypt_from_step [where E = ?K and ctr = ?ctr and i = "av_i ?v", OF block this]
    have C: "C = xor_bytes c ?s @ ?C2" unfolding less.prems(6) n(6) c_def by simp
    have P: "P = ?PC @ ?P2"
      unfolding less.prems(7) using C n(7) by (cases "ac_mode (av_cr ?v)") simp_all
    have lp: "length ?PC = n" using n_def n(5) ls by (cases "ac_mode (av_cr ?v)") simp_all
    have "n = 16 \<or> ?P2 = []" using n(2) by (cases "ac_mode (av_cr ?v)") auto
    then have "cbc_from ?K (av_mac ?v) (pad16 P) = cbc_from ?K ?M (pad16 ?P2)"
      unfolding P using mac_step [of ?PC ?P2 ?K "av_mac ?v", unfolded lp] n(3,5) lp by (metis length_0_conv less_numeral_extra(3))
    with ih C d2(1) show ?thesis by (intro exI conjI) (assumption | simp)+
  qed
qed

end

end
