(* ===== verification/Stm_Ccm.thy ===== *)
theory Stm_Ccm
  imports Stm_Aead Cal_Aead
begin

text \<open>
  The four phases of the STM32WBA55 driver put together: on a peripheral behaving as documented
  (locale \<open>stm_ccm\<close> of \<open>Stm_Aead\<close>) the provider keeps the AEAD contract with the cipher and the tag of
  RFC 3610. A simulated peripheral, with delays, shows that the locale has models.
\<close>

section \<open>The init phase\<close>

lemma cr_step_plain:
  "\<not> ac_en c \<or> ac_gcmph c = HEADER_PHASE \<or> ac_gcmph c = PAYLOAD_PHASE \<Longrightarrow> aes_cr_step E c v = v\<lparr> av_cr := c \<rparr>"
  by (auto simp: aes_cr_step_def Let_def)

lemma key_of_words:
  "length k = 32 \<Longrightarrow> u32_to_be (block_word k 0) @ u32_to_be (block_word k 4) @ u32_to_be (block_word k 8) @ u32_to_be (block_word k 12)
    @ u32_to_be (block_word k 16) @ u32_to_be (block_word k 20) @ u32_to_be (block_word k 24) @ u32_to_be (block_word k 28) = k"
proof -
  assume l: "length k = 32"
  have "take 4 k @ take 4 (drop 4 k) @ take 4 (drop 8 k) @ take 4 (drop 12 k) = take 16 k"
    using l by (intro nth_equalityI) (auto simp: nth_append)
  moreover have "take 4 (drop 16 k) @ take 4 (drop 20 k) @ take 4 (drop 24 k) @ take 4 (drop 28 k) = drop 16 k"
    using l by (intro nth_equalityI) (auto simp: nth_append add.commute)
  ultimately have "take 4 k @ take 4 (drop 4 k) @ take 4 (drop 8 k) @ take 4 (drop 12 k)
      @ take 4 (drop 16 k) @ take 4 (drop 20 k) @ take 4 (drop 24 k) @ take 4 (drop 28 k) = k"
    by (metis append.assoc append_take_drop_id)
  with l show ?thesis by (simp add: u32_to_be_block_word)
qed

text \<open>The state between two phases: nothing queued, the counter at 1, and the MAC so far.\<close>

definition between :: "aes_mode \<Rightarrow> bytes \<Rightarrow> bytes \<Rightarrow> bytes \<Rightarrow> aes_view \<Rightarrow> bool" where
  "between mode key b0 mac v \<longleftrightarrow> av_in v = [] \<and> av_out v = [] \<and> \<not> av_ccf v \<and> av_i v = 1 \<and> av_b0 v = b0 \<and> av_keyb v = key
    \<and> ac_mode (av_cr v) = mode \<and> ac_npblb (av_cr v) = 0 \<and> av_mac v = mac"

context stm_ccm
begin

lemma write_ivr_law:
  assumes "dev d"
  shows "dev (write_ivr hw b d) \<and> (\<exists>iv. view (write_ivr hw b d) = (view d)\<lparr> av_iv := iv \<rparr>)
    \<and> (length b = 16 \<longrightarrow> av_b0 (view (write_ivr hw b d)) = b)"
  using assms ivr by (simp add: write_ivr_def Let_def av_b0_def block_of_words) (metis aes_view.unfold_congs(2))

lemma write_key_128_law:
  assumes "dev d"
  shows "dev (write_key_128 hw k d) \<and> (\<exists>kk. view (write_key_128 hw k d) = (view d)\<lparr> av_key := kk \<rparr>)
    \<and> (length k = 16 \<longrightarrow> \<not> ac_keysize (av_cr (view d)) \<longrightarrow> av_keyb (view (write_key_128 hw k d)) = k)"
  using assms keyr by (simp add: write_key_128_def Let_def av_keyb_def block_of_words) (metis aes_view.unfold_congs(3))

lemma write_key_256_law:
  assumes "dev d"
  shows "dev (write_key_256 hw k d) \<and> (\<exists>kk. view (write_key_256 hw k d) = (view d)\<lparr> av_key := kk \<rparr>)
    \<and> (length k = 32 \<longrightarrow> ac_keysize (av_cr (view d)) \<longrightarrow> av_keyb (view (write_key_256 hw k d)) = k)"
  using assms keyr by (simp add: write_key_256_def Let_def av_keyb_def key_of_words) (metis aes_view.unfold_congs(3))

text \<open>From the moment \<open>B0\<close> and the key are in their registers.\<close>

lemma init_start:
  assumes "dev d" "av_cr (view d) = c" "ac_chmod c = ChmodCCM" "ac_gcmph c = INIT_PHASE" "ac_npblb c = 0"
  shows "\<exists>d1 d2 d'. poll_set (aes_r_keyvalid hw) d = Some d1
      \<and> poll_set (aes_r_ccf hw) (aes_modify hw (\<lambda>c. c\<lparr> ac_en := True \<rparr>) d1) = Some d2
      \<and> aes_clear_ccf hw d2 = d' \<and> dev d'
      \<and> between (ac_mode c) (av_keyb (view d)) (av_b0 (view d)) (E (av_keyb (view d)) (av_b0 (view d))) (view d')"
proof -
  obtain d1 where 1: "poll_set (aes_r_keyvalid hw) d = Some d1" "dev d1" "view d1 = view d"
    using poll_keyvalid [OF assms(1)] by blast
  let ?d = "aes_modify hw (\<lambda>c. c\<lparr> ac_en := True \<rparr>) d1"
  have 2: "dev ?d" "view ?d = (view d)\<lparr> av_cr := c\<lparr> ac_en := False \<rparr>, av_in := [], av_out := [], av_ccf := True, av_i := 1,
      av_mac := E (av_keyb (view d)) (av_b0 (view d)) \<rparr>"
    using modify_law [OF 1(2), of "\<lambda>c. c\<lparr> ac_en := True \<rparr>"] 1(3) assms(2-5) by (simp_all add: aes_cr_step_def Let_def)
  then obtain d2 where 3: "poll_set (aes_r_ccf hw) ?d = Some d2" "dev d2" "view d2 = view ?d"
    using poll_ccf [OF 2(1)] by auto
  have "between (ac_mode c) (av_keyb (view d)) (av_b0 (view d)) (E (av_keyb (view d)) (av_b0 (view d))) (view (aes_clear_ccf hw d2))"
    using clear_ccf [OF 3(2)] 3(3) 2(2) assms(2,5) by (simp add: between_def)
  with 1(1) 3(1) clear_ccf [OF 3(2)] show ?thesis by blast
qed

lemma init_config:
  assumes "dev d"
  shows "\<exists>d1. aes_modify hw (\<lambda>c. c\<lparr> ac_chmod := ChmodCCM, ac_datatype := DatatypeNONE, ac_keysize := s,
      ac_mode := mode, ac_kmod := 0, ac_gcmph := INIT_PHASE, ac_npblb := 0 \<rparr>) (aes_modify hw (\<lambda>c. c\<lparr> ac_en := False \<rparr>) d) = d1
    \<and> dev d1 \<and> av_cr (view d1) = \<lparr> ac_en = False, ac_chmod = ChmodCCM, ac_datatype = DatatypeNONE, ac_keysize = s,
      ac_mode = mode, ac_kmod = 0, ac_gcmph = INIT_PHASE, ac_npblb = 0 \<rparr>"
  using modify_law [OF assms, of "\<lambda>c. c\<lparr> ac_en := False \<rparr>"] modify_law by (simp add: cr_step_plain)

lemma init_phase_law:
  assumes "dev d" "length nonce = 13"
  shows "length key = 16 \<Longrightarrow> \<exists>d'. run_init_phase_128 hw mode nonce ml al 8 key d = Some d' \<and> dev d'
      \<and> between mode key (ccm_b0 nonce ml al 8) (E key (ccm_b0 nonce ml al 8)) (view d')"
    and "length key = 32 \<Longrightarrow> \<exists>d'. run_init_phase_256 hw mode nonce ml al 8 key d = Some d' \<and> dev d'
      \<and> between mode key (ccm_b0 nonce ml al 8) (E key (ccm_b0 nonce ml al 8)) (view d')"
proof -
  have b0: "build_b0 nonce ml al 8 = Some (ccm_b0 nonce ml al 8)" "length (ccm_b0 nonce ml al 8) = 16"
    using build_b0_eval [of nonce ml al 8] flags_byte [of 3 1] assms(2)
    by (simp_all add: length_ccm_b0 ccm_b0_def ccm_flags_def Let_def)
  {
    assume k: "length key = 16"
    obtain d1 where 1: "aes_modify hw (\<lambda>c. c\<lparr> ac_chmod := ChmodCCM, ac_datatype := DatatypeNONE, ac_keysize := False,
          ac_mode := mode, ac_kmod := 0, ac_gcmph := INIT_PHASE, ac_npblb := 0 \<rparr>) (aes_modify hw (\<lambda>c. c\<lparr> ac_en := False \<rparr>) d) = d1"
        "dev d1" "av_cr (view d1) = \<lparr> ac_en = False, ac_chmod = ChmodCCM, ac_datatype = DatatypeNONE, ac_keysize = False,
          ac_mode = mode, ac_kmod = 0, ac_gcmph = INIT_PHASE, ac_npblb = 0 \<rparr>"
      using init_config [OF assms(1), where s = False and mode = mode] by blast
    let ?d2 = "write_ivr hw (ccm_b0 nonce ml al 8) d1"
    obtain iv where 2: "dev ?d2" "view ?d2 = (view d1)\<lparr> av_iv := iv \<rparr>" "av_b0 (view ?d2) = ccm_b0 nonce ml al 8"
      using write_ivr_law [OF 1(2), of "ccm_b0 nonce ml al 8"] b0(2) by blast
    let ?d3 = "write_key_128 hw key ?d2"
    obtain kk where 3: "dev ?d3" "view ?d3 = (view ?d2)\<lparr> av_key := kk \<rparr>" "av_keyb (view ?d3) = key"
      using write_key_128_law [OF 2(1), of key] k 2(2) 1(3) by auto
    have v: "av_cr (view ?d3) = av_cr (view d1)" "av_b0 (view ?d3) = ccm_b0 nonce ml al 8" using 2 3(2) by simp_all
    show "\<exists>d'. run_init_phase_128 hw mode nonce ml al 8 key d = Some d' \<and> dev d'
      \<and> between mode key (ccm_b0 nonce ml al 8) (E key (ccm_b0 nonce ml al 8)) (view d')"
      using init_start [OF 3(1) refl] v 1(3) 3(3) by (auto simp: run_init_phase_128_def b0(1) 1(1))
  next
    assume k: "length key = 32"
    obtain d1 where 1: "aes_modify hw (\<lambda>c. c\<lparr> ac_chmod := ChmodCCM, ac_datatype := DatatypeNONE, ac_keysize := True,
          ac_mode := mode, ac_kmod := 0, ac_gcmph := INIT_PHASE, ac_npblb := 0 \<rparr>) (aes_modify hw (\<lambda>c. c\<lparr> ac_en := False \<rparr>) d) = d1"
        "dev d1" "av_cr (view d1) = \<lparr> ac_en = False, ac_chmod = ChmodCCM, ac_datatype = DatatypeNONE, ac_keysize = True,
          ac_mode = mode, ac_kmod = 0, ac_gcmph = INIT_PHASE, ac_npblb = 0 \<rparr>"
      using init_config [OF assms(1), where s = True and mode = mode] by blast
    let ?d2 = "write_ivr hw (ccm_b0 nonce ml al 8) d1"
    obtain iv where 2: "dev ?d2" "view ?d2 = (view d1)\<lparr> av_iv := iv \<rparr>" "av_b0 (view ?d2) = ccm_b0 nonce ml al 8"
      using write_ivr_law [OF 1(2), of "ccm_b0 nonce ml al 8"] b0(2) by blast
    let ?d3 = "write_key_256 hw key ?d2"
    obtain kk where 3: "dev ?d3" "view ?d3 = (view ?d2)\<lparr> av_key := kk \<rparr>" "av_keyb (view ?d3) = key"
      using write_key_256_law [OF 2(1), of key] k 2(2) 1(3) by auto
    have v: "av_cr (view ?d3) = av_cr (view d1)" "av_b0 (view ?d3) = ccm_b0 nonce ml al 8" using 2 3(2) by simp_all
    show "\<exists>d'. run_init_phase_256 hw mode nonce ml al 8 key d = Some d' \<and> dev d'
      \<and> between mode key (ccm_b0 nonce ml al 8) (E key (ccm_b0 nonce ml al 8)) (view d')"
      using init_start [OF 3(1) refl] v 1(3) 3(3) by (auto simp: run_init_phase_256_def b0(1) 1(1))
  }
qed

end

section \<open>The other phases\<close>

lemma sum_lens_eq: "acc + length (concat aad) < usize_limit \<Longrightarrow> sum_lens aad acc = Some (acc + length (concat aad))"
  by (induction aad arbitrary: acc) (auto simp: usize_add_def add.assoc)

context stm_ccm
begin

text \<open>Entering the header or the payload phase changes nothing but the control register.\<close>

lemma enter_phase:
  assumes "dev d" "ph = HEADER_PHASE \<or> ph = PAYLOAD_PHASE" "between mode key b0 mac (view d)"
  defines "d' \<equiv> aes_modify hw (\<lambda>c. c\<lparr> ac_en := True \<rparr>) (aes_modify hw (\<lambda>c. c\<lparr> ac_gcmph := ph \<rparr>) d)"
  shows "dev d' \<and> between mode key b0 mac (view d') \<and> ac_gcmph (av_cr (view d')) = ph \<and> ac_en (av_cr (view d'))"
proof -
  let ?d = "aes_modify hw (\<lambda>c. c\<lparr> ac_gcmph := ph \<rparr>) d"
  have 1: "dev ?d" "view ?d = (view d)\<lparr> av_cr := (av_cr (view d))\<lparr> ac_gcmph := ph \<rparr> \<rparr>"
    using modify_law [OF assms(1), of "\<lambda>c. c\<lparr> ac_gcmph := ph \<rparr>"] assms(2) by (auto simp: cr_step_plain)
  have "dev d'" "view d' = (view d)\<lparr> av_cr := (av_cr (view d))\<lparr> ac_gcmph := ph, ac_en := True \<rparr> \<rparr>"
    using modify_law [OF 1(1), of "\<lambda>c. c\<lparr> ac_en := True \<rparr>"] assms(2) unfolding d'_def by (auto simp: 1(2) cr_step_plain)
  with assms(3) show ?thesis by (simp add: between_def)
qed

lemma header_phase_law:
  assumes "dev d" "between mode key b0 mac (view d)" "concat aad \<noteq> []"
  shows "\<exists>d'. run_header_phase hw aad (length (concat aad)) d = Some d' \<and> dev d'
    \<and> between mode key b0 (cbc_from (E key) mac (ccm_adata (concat aad))) (view d') \<and> ac_gcmph (av_cr (view d')) = HEADER_PHASE"
proof -
  let ?n = "length (concat aad)"
  let ?d = "aes_modify hw (\<lambda>c. c\<lparr> ac_en := True \<rparr>) (aes_modify hw (\<lambda>c. c\<lparr> ac_gcmph := HEADER_PHASE \<rparr>) d)"
  have d: "dev ?d" "between mode key b0 mac (view ?d)" "ac_gcmph (av_cr (view ?d)) = HEADER_PHASE" "ac_en (av_cr (view ?d))"
    using enter_phase [OF assms(1) _ assms(2), of HEADER_PHASE] by simp_all
  have blk: "(replicate 16 0)[0 := of_nat (drop_bit 8 ?n), 1 := of_nat (?n AND 0xFF)] = be_bytes 2 ?n @ replicate 14 (0 :: u8)"
    unfolding be_bytes_2 by (simp add: numeral_eq_Suc)
  obtain whole p d1 where 1: "header_items hw aad (be_bytes 2 ?n @ replicate 14 0) 2 ?d
      = Some ((p @ replicate (16 - length p) 0, length p), d1)" "dev d1" "be_bytes 2 ?n @ concat aad = whole @ p"
      "length whole mod 16 = 0" "length p < 16"
      "view d1 = (view ?d)\<lparr> av_mac := cbc_from (E (av_keyb (view ?d))) (av_mac (view ?d)) whole \<rparr>"
    using header_items_law [OF d(1) _ _ d(3), of "be_bytes 2 ?n" aad] d(2) by (auto simp: between_def)
  have b1: "between mode key b0 (cbc_from (E key) mac whole) (view d1)" "ac_gcmph (av_cr (view d1)) = HEADER_PHASE"
    using d(2,3) 1(6) by (auto simp: between_def)
  have ad: "ccm_adata (concat aad) = whole @ pad16 p"
    unfolding ccm_adata_def 1(3) pad16_append [OF 1(4)] using assms(3) by (simp only: if_False)
  have run: "run_header_phase hw aad ?n d = (if p = [] then Some d1 else feed_block hw (p @ replicate (16 - length p) 0) d1)"
    unfolding run_header_phase_def Let_def blk 1(1) by simp
  show ?thesis
  proof (cases "p = []")
    case True
    with run 1(2) b1 ad show ?thesis by simp
  next
    case False
    from False 1(5) have pp: "pad16 p = p @ replicate (16 - length p) 0" by (rule pad16_short)
    obtain d2 where 2: "feed_block hw (pad16 p) d1 = Some d2" "dev d2"
        "view d2 = (view d1)\<lparr> av_mac := cbc_from (E (av_keyb (view d1))) (av_mac (view d1)) (pad16 p) \<rparr>"
      using feed_block_header [OF 1(2) _ _ b1(2), of "pad16 p"] b1(1) pp 1(5) by (auto simp: between_def)
    have "between mode key b0 (cbc_from (E key) mac (ccm_adata (concat aad))) (view d2)"
      using 2(3) b1(1) unfolding ad cbc_from_append [OF 1(4)] by (simp add: between_def)
    with run 2 b1(2) pp False show ?thesis by simp
  qed
qed

lemma payload_phase_law:
  assumes "dev d" "between mode key b0 mac (view d)"
    and "C = crypt_from (E key) (hw_ctr b0) 1 msg" "P = (case mode of MODE1 \<Rightarrow> msg | MODE3 \<Rightarrow> C)"
  shows "\<exists>d'. run_payload_phase hw msg (mode = MODE3) d = Some (C, d') \<and> dev d' \<and> \<not> av_ccf (view d')
    \<and> av_b0 (view d') = b0 \<and> av_keyb (view d') = key \<and> av_mac (view d') = cbc_from (E key) mac (pad16 P)
    \<and> ac_gcmph (av_cr (view d')) = PAYLOAD_PHASE \<and> ac_en (av_cr (view d'))"
proof -
  let ?d = "aes_modify hw (\<lambda>c. c\<lparr> ac_en := True \<rparr>) (aes_modify hw (\<lambda>c. c\<lparr> ac_gcmph := PAYLOAD_PHASE \<rparr>) d)"
  have d: "dev ?d" "between mode key b0 mac (view ?d)" "ac_gcmph (av_cr (view ?d)) = PAYLOAD_PHASE" "ac_en (av_cr (view ?d))"
    using enter_phase [OF assms(1) _ assms(2), of PAYLOAD_PHASE] by simp_all
  have r: "payload_ready (view ?d)" using d(2-4) by (simp add: payload_ready_def between_def)
  have b: "0 < length msg \<longrightarrow> ac_npblb (av_cr (view ?d)) = 0" "(mode = MODE3) = (ac_mode (av_cr (view ?d)) = MODE3)"
    "C = crypt_from (E (av_keyb (view ?d))) (hw_ctr (av_b0 (view ?d))) (av_i (view ?d)) (drop 0 msg)"
    "P = (case ac_mode (av_cr (view ?d)) of MODE1 \<Rightarrow> drop 0 msg | MODE3 \<Rightarrow> C)"
    using d(2) assms(3,4) unfolding between_def by (simp_all only: drop_0 simp_thms)
  have m: "av_mac (view ?d) = mac" "av_b0 (view ?d) = b0" "av_keyb (view ?d) = key" "\<not> av_ccf (view ?d)"
    using d(2) unfolding between_def by blast+
  obtain d' i k where p: "payload_loop hw (mode = MODE3) (length msg) 0 msg ?d = Some (take 0 msg @ C, d')" "dev d'"
      "view d' = (view ?d)\<lparr> av_cr := (av_cr (view ?d))\<lparr> ac_npblb := k \<rparr>, av_i := i,
        av_mac := cbc_from (E (av_keyb (view ?d))) (av_mac (view ?d)) (pad16 P) \<rparr>"
    using payload_loop_law [OF d(1) r b(1,2) _ b(3,4)] by blast
  have "\<not> av_ccf (view d') \<and> av_b0 (view d') = b0 \<and> av_keyb (view d') = key
      \<and> av_mac (view d') = cbc_from (E key) mac (pad16 P) \<and> ac_gcmph (av_cr (view d')) = PAYLOAD_PHASE \<and> ac_en (av_cr (view d'))"
    using d(3,4) m unfolding p(3) view_simps by (simp only: simp_thms)
  with p(1,2) show ?thesis by (simp add: run_payload_phase_def)
qed

lemma final_phase_law:
  assumes "dev d" "ac_gcmph (av_cr (view d)) = PAYLOAD_PHASE" "ac_en (av_cr (view d))" "length (av_mac (view d)) = 16"
  shows "\<exists>d'. run_final_phase hw d = Some (xor_bytes (av_mac (view d)) (E (av_keyb (view d)) (hw_ctr (av_b0 (view d)) 0)), d') \<and> dev d'"
proof -
  let ?d = "aes_modify hw (\<lambda>c. c\<lparr> ac_gcmph := FINAL_PHASE \<rparr>) d"
  let ?t = "xor_bytes (av_mac (view d)) (E (av_keyb (view d)) (hw_ctr (av_b0 (view d)) 0))"
  have 1: "dev ?d" "av_ccf (view ?d)" "av_out (view ?d) = ?t"
    using modify_law [OF assms(1), of "\<lambda>c. c\<lparr> ac_gcmph := FINAL_PHASE \<rparr>"] assms(2,3) by (simp_all add: aes_cr_step_def Let_def)
  obtain d1 where 2: "poll_set (aes_r_ccf hw) ?d = Some d1" "dev d1" "view d1 = view ?d" using poll_ccf [OF 1(1,2)] by blast
  obtain d2 where 3: "dout_loop hw [0, 1, 2, 3] (replicate 16 0) d1 = Some (?t, d2)" "dev d2"
    using dout_loop_law [OF 2(2)] 1(3) 2(3) assms(4) by (auto simp: block)
  show ?thesis using 2 3 modify_law clear_ccf by (simp add: run_final_phase_def del: dout_loop.simps)
qed

end

section \<open>The whole run\<close>

text \<open>The peripheral's counter blocks are those of RFC 3610 for 13-byte nonces and 8-byte tags.\<close>

lemma hw_ctr_b0:
  assumes "length nonce = 13"
  shows "hw_ctr (ccm_b0 nonce ml al 8) i = ccm_ctr nonce i"
proof -
  have f: "(of_nat (ccm_flags (0 < al) 8 2) AND 7 :: u8) = 1" by (simp add: ccm_flags_def)
  have "ccm_b0 nonce ml al 8 ! 0 AND 7 = 1" using assms f by (simp add: ccm_b0_def Let_def)
  moreover have "take 13 (drop 1 (ccm_b0 nonce ml al 8)) = nonce" using assms by (simp add: ccm_b0_def Let_def)
  ultimately show ?thesis using assms by (simp add: hw_ctr_def ccm_ctr_def Let_def numeral_2_eq_2)
qed

lemma xor_bytes_take: "xor_bytes x (take (length x) y) = xor_bytes x y"
proof -
  have "zip x y = zip (take (length x) x) (take (length x) y)" using take_zip [of "length x" x y] by simp
  then show ?thesis by (simp add: xor_bytes_def)
qed

lemma crypt_from_ccm: "crypt_from E (ccm_ctr nonce) 1 m = ccm_crypt E nonce m"
proof -
  have "map (\<lambda>j. E (ccm_ctr nonce j)) [1..<1 + k] = map (\<lambda>i. E (ccm_ctr nonce (Suc i))) [0..<k]" for k
  proof -
    have "[1..<1 + k] = map Suc [0..<k]" by (simp add: map_Suc_upt del: upt_Suc)
    then show ?thesis by (simp add: comp_def)
  qed
  then show ?thesis by (simp add: crypt_from_def ccm_crypt_def ccm_stream_def xor_bytes_take)
qed

lemma length_cbc_from:
  assumes "length s = 16" "\<And>b. length (K b) = 16"
  shows "length (cbc_from K s x) = 16"
proof -
  have "length (foldl (\<lambda>s b. K (xor_bytes s b)) s bs) = 16" for bs
    using assms(1) by (induction bs arbitrary: s) (simp_all add: assms(2))
  then show ?thesis by (simp add: cbc_from_def)
qed


lemma xor_bytes_zeros: "xor_bytes (replicate (length b) 0) b = b"
  by (induction b) (simp_all add: xor_bytes_def)

text \<open>The comparison is equality.\<close>

lemma fold_or_zero: "foldl (\<lambda>acc (a, b). acc OR (a XOR b)) (acc :: u8) xs = 0 \<longleftrightarrow> acc = 0 \<and> (\<forall>(a, b) \<in> set xs. a = b)"
proof (induction xs arbitrary: acc)
  case (Cons x xs)
  obtain a b where x: "x = (a, b)" by (cases x)
  have "a XOR b = 0 \<longleftrightarrow> a = b" by (metis xor.right_neutral xor_self_eq xor.left_commute)
  moreover have "acc OR (a XOR b) = 0 \<longleftrightarrow> acc = 0 \<and> a XOR b = 0" by (simp add: or_eq_0_iff)
  ultimately show ?case using Cons by (simp add: x)
qed simp

lemma tags_match_eq: "tags_match x y \<longleftrightarrow> x = y"
proof
  assume "tags_match x y"
  then have "length x = length y" "\<forall>(a, b) \<in> set (zip x y). a = b" by (simp_all add: tags_match_def fold_or_zero)
  then show "x = y" by (induction x y rule: list_induct2) auto
qed (auto simp: tags_match_def fold_or_zero zip_same_conv_map)

context stm_ccm
begin

lemma ccm_phases:
  assumes "dev d" "length nonce = 13" "between mode key (ccm_b0 nonce (length m) (length (concat aad)) 8)
      (E key (ccm_b0 nonce (length m) (length (concat aad)) 8)) (view d)"
    and "P = (case mode of MODE1 \<Rightarrow> m | MODE3 \<Rightarrow> ccm_crypt (E key) nonce m)"
  shows "\<exists>d2 d3 d4 full. (if length (concat aad) > 0 then run_header_phase hw aad (length (concat aad)) d else Some d) = Some d2
    \<and> run_payload_phase hw m (mode = MODE3) d2 = Some (ccm_crypt (E key) nonce m, d3) \<and> run_final_phase hw d3 = Some (full, d4)
    \<and> slice full 0 8 = Some (ccm_tag (E key) nonce (concat aad) P 8) \<and> dev d4"
proof -
  let ?b0 = "ccm_b0 nonce (length m) (length (concat aad)) 8"
  let ?mac = "cbc_from (E key) (E key ?b0) (ccm_adata (concat aad))"
  have l0: "length ?b0 = 16" using assms(2) by (simp add: length_ccm_b0)
  obtain d2 where 2: "(if length (concat aad) > 0 then run_header_phase hw aad (length (concat aad)) d else Some d) = Some d2"
      "dev d2" "between mode key ?b0 ?mac (view d2)"
  proof (cases "concat aad = []")
    case True
    then have "ccm_adata (concat aad) = []" by (simp add: ccm_adata_def)
    with True assms(1,3) that [of d] show ?thesis by (simp del: concat_eq_Nil_conv)
  next
    case False
    then have "0 < length (concat aad)" by blast
    with header_phase_law [OF assms(1,3) False] that show ?thesis by auto
  qed
  have C: "crypt_from (E key) (hw_ctr ?b0) 1 m = ccm_crypt (E key) nonce m"
    using hw_ctr_b0 [OF assms(2)] by (simp add: crypt_from_ccm [symmetric] crypt_from_def)
  obtain d3 where 3: "run_payload_phase hw m (mode = MODE3) d2 = Some (ccm_crypt (E key) nonce m, d3)" "dev d3"
      "av_b0 (view d3) = ?b0" "av_keyb (view d3) = key" "av_mac (view d3) = cbc_from (E key) ?mac (pad16 P)"
      "ac_gcmph (av_cr (view d3)) = PAYLOAD_PHASE" "ac_en (av_cr (view d3))"
    using payload_phase_law [OF 2(2,3) C [symmetric] assms(4)] by blast
  have m16: "length (av_mac (view d3)) = 16" unfolding 3(5) by (intro length_cbc_from block)
  obtain d4 where 4: "run_final_phase hw d3 = Some (xor_bytes (av_mac (view d3)) (E key (hw_ctr ?b0 0)), d4)" "dev d4"
    using final_phase_law [OF 3(2,6,7) m16] 3(3,4) by auto
  have lP: "length P = length m" using assms(4) by (simp add: block split: aes_mode.split)
  have h: "?b0 @ ccm_adata (concat aad) @ pad16 P = ccm_header nonce (length P) (concat aad) 8 @ pad16 P"
    by (simp add: ccm_header_def lP)
  have "cbc_mac (E key) (?b0 @ ccm_adata (concat aad) @ pad16 P) = av_mac (view d3)"
  proof -
    have m: "length ?b0 mod 16 = 0" "length (ccm_adata (concat aad)) mod 16 = 0" using l0 by (simp_all add: ccm_adata_def length_pad16)
    have "xor_bytes (replicate 16 0) ?b0 = ?b0" using xor_bytes_zeros [of ?b0] l0 by simp
    then show ?thesis unfolding cbc_mac_from cbc_from_append [OF m(1)] cbc_from_append [OF m(2)] 3(5) cbc_from_block [OF l0] by simp
  qed
  then have "take 8 (xor_bytes (av_mac (view d3)) (E key (hw_ctr ?b0 0))) = ccm_tag (E key) nonce (concat aad) P 8"
    unfolding ccm_tag_def hw_ctr_b0 [OF assms(2)] h by simp
  then have "slice (xor_bytes (av_mac (view d3)) (E key (hw_ctr ?b0 0))) 0 8 = Some (ccm_tag (E key) nonce (concat aad) P 8)"
    using m16 by (simp add: slice_def block)
  with 2(1) 3(1) 4 show ?thesis by blast
qed

end

section \<open>The AEAD contract\<close>

definition stm_key_ok :: "stm_aead_algorithm \<Rightarrow> stm_aead_key \<Rightarrow> bytes \<Rightarrow> bool" where
  "stm_key_ok alg k key \<longleftrightarrow> length key = stm_key_length alg
     \<and> k = (case alg of StmCcm16_64_128 \<Rightarrow> StmKey_128 key | StmCcm16_64_256 \<Rightarrow> StmKey_256 key)"

text \<open>What the two-byte length field and the two-byte length encoding hold.\<close>

definition stm_fits :: "bytes \<Rightarrow> bytes \<Rightarrow> nat \<Rightarrow> bool" where
  "stm_fits nonce a n \<longleftrightarrow> n < 0x10000 \<and> length a < 0xFF00"

lemma stm_sum_lens: "length (concat aad) < 0xFF00 \<Longrightarrow> sum_lens aad 0 = Some (length (concat aad))"
  using sum_lens_eq [of 0 aad] by (simp add: usize_limit_def)

context stm_ccm
begin

text \<open>What follows the init phase, for any use of the tag and the message.\<close>

lemma ccm_rest:
  assumes "dev d" "length nonce = 13" "between mode key (ccm_b0 nonce (length m) (length (concat aad)) 8)
      (E key (ccm_b0 nonce (length m) (length (concat aad)) 8)) (view d)"
    and "wn = (mode = MODE3)" "P = (case mode of MODE1 \<Rightarrow> m | MODE3 \<Rightarrow> ccm_crypt (E key) nonce m)"
  shows "\<exists>d'. dev d' \<and> do {
      d \<leftarrow> (if length (concat aad) > 0 then run_header_phase hw aad (length (concat aad)) d else Some d);
      (message, d) \<leftarrow> run_payload_phase hw m wn d;
      (tag_full, d) \<leftarrow> run_final_phase hw d;
      tag \<leftarrow> slice tag_full 0 8;
      f tag message d
    } = f (ccm_tag (E key) nonce (concat aad) P 8) (ccm_crypt (E key) nonce m) d'"
proof -
  obtain d2 d3 d4 full where "(if length (concat aad) > 0 then run_header_phase hw aad (length (concat aad)) d else Some d) = Some d2"
    "run_payload_phase hw m wn d2 = Some (ccm_crypt (E key) nonce m, d3)" "run_final_phase hw d3 = Some (full, d4)"
    "slice full 0 8 = Some (ccm_tag (E key) nonce (concat aad) P 8)" "dev d4"
    using ccm_phases [OF assms(1-3,5)] unfolding assms(4) by blast
  then show ?thesis by (intro exI [of _ d4] conjI) (simp_all only: bind.bind_lunit prod.case)
qed

lemma stm_encrypt_law:
  assumes "dev d" "stm_key_ok alg k key" "length nonce = 13" "length (concat aad) < 0xFF00"
  shows "\<exists>t d'. stm_aead_encrypt hw k nonce m aad d = Some ((t, ccm_crypt (E key) nonce m), d') \<and> dev d'
    \<and> stm_tag_as_ref t = ccm_tag (E key) nonce (concat aad) m 8"
proof -
  have w: "False = (MODE1 = MODE3)" "m = (case MODE1 of MODE1 \<Rightarrow> m | MODE3 \<Rightarrow> ccm_crypt (E key) nonce m)" by simp_all
  show ?thesis
  proof (cases alg)
    case StmCcm16_64_128
    with assms(2) have k: "k = StmKey_128 key" "length key = 16" by (simp_all add: stm_key_ok_def)
    obtain d1 where 1: "run_init_phase_128 hw MODE1 nonce (length m) (length (concat aad)) 8 key d = Some d1" "dev d1"
        "between MODE1 key (ccm_b0 nonce (length m) (length (concat aad)) 8) (E key (ccm_b0 nonce (length m) (length (concat aad)) 8)) (view d1)"
      using init_phase_law(1) [OF assms(1,3) k(2)] by blast
    from ccm_rest [OF 1(2) assms(3) 1(3) w, where f = "\<lambda>tag message d. Some ((StmTag_128 tag, message), d)"]
    show ?thesis by (elim exE conjE) (simp only: k(1) stm_aead_encrypt.simps stm_sum_lens [OF assms(4)] bind.bind_lunit 1(1), simp)
  next
    case StmCcm16_64_256
    with assms(2) have k: "k = StmKey_256 key" "length key = 32" by (simp_all add: stm_key_ok_def)
    obtain d1 where 1: "run_init_phase_256 hw MODE1 nonce (length m) (length (concat aad)) 8 key d = Some d1" "dev d1"
        "between MODE1 key (ccm_b0 nonce (length m) (length (concat aad)) 8) (E key (ccm_b0 nonce (length m) (length (concat aad)) 8)) (view d1)"
      using init_phase_law(2) [OF assms(1,3) k(2)] by blast
    from ccm_rest [OF 1(2) assms(3) 1(3) w, where f = "\<lambda>tag message d. Some ((StmTag_256 tag, message), d)"]
    show ?thesis by (elim exE conjE) (simp only: k(1) stm_aead_encrypt.simps stm_sum_lens [OF assms(4)] bind.bind_lunit 1(1), simp)
  qed
qed

lemma stm_decrypt_law:
  assumes "dev d" "stm_key_ok alg k key" "length nonce = 13" "length (concat aad) < 0xFF00"
  shows "\<exists>d'. stm_aead_decrypt hw k nonce c tag aad d =
      Some ((if tag = ccm_tag (E key) nonce (concat aad) (ccm_crypt (E key) nonce c) 8 then Inr () else Inl DecryptionFailed,
             ccm_crypt (E key) nonce c), d') \<and> dev d'"
proof -
  have w: "True = (MODE3 = MODE3)" "ccm_crypt (E key) nonce c = (case MODE3 of MODE1 \<Rightarrow> c | MODE3 \<Rightarrow> ccm_crypt (E key) nonce c)" by simp_all
  show ?thesis
  proof (cases alg)
    case StmCcm16_64_128
    with assms(2) have k: "k = StmKey_128 key" "length key = 16" by (simp_all add: stm_key_ok_def)
    obtain d1 where 1: "run_init_phase_128 hw MODE3 nonce (length c) (length (concat aad)) 8 key d = Some d1" "dev d1"
        "between MODE3 key (ccm_b0 nonce (length c) (length (concat aad)) 8) (E key (ccm_b0 nonce (length c) (length (concat aad)) 8)) (view d1)"
      using init_phase_law(1) [OF assms(1,3) k(2)] by blast
    from ccm_rest [OF 1(2) assms(3) 1(3) w, where f = "\<lambda>tag' message d. Some ((if tags_match tag' tag then Inr () else Inl DecryptionFailed, message), d)"]
    show ?thesis by (elim exE conjE) (simp only: k(1) stm_aead_decrypt.simps stm_sum_lens [OF assms(4)] bind.bind_lunit 1(1), simp add: tags_match_eq)
  next
    case StmCcm16_64_256
    with assms(2) have k: "k = StmKey_256 key" "length key = 32" by (simp_all add: stm_key_ok_def)
    obtain d1 where 1: "run_init_phase_256 hw MODE3 nonce (length c) (length (concat aad)) 8 key d = Some d1" "dev d1"
        "between MODE3 key (ccm_b0 nonce (length c) (length (concat aad)) 8) (E key (ccm_b0 nonce (length c) (length (concat aad)) 8)) (view d1)"
      using init_phase_law(2) [OF assms(1,3) k(2)] by blast
    from ccm_rest [OF 1(2) assms(3) 1(3) w, where f = "\<lambda>tag' message d. Some ((if tags_match tag' tag then Inr () else Inl DecryptionFailed, message), d)"]
    show ?thesis by (elim exE conjE) (simp only: k(1) stm_aead_decrypt.simps stm_sum_lens [OF assms(4)] bind.bind_lunit 1(1), simp add: tags_match_eq)
  qed
qed

lemma stm_aead_contract:
  "aead_contract (stm_aead hw) alg dev (stm_key_ok alg) stm_fits
     (\<lambda>key. ccm_crypt (E key)) (\<lambda>key nonce a m. ccm_tag (E key) nonce a m 8) (\<lambda>c p. p)"
proof
  fix d :: 'd and k and key nonce m c tag :: bytes and aad and a
  show "ccm_crypt (E key) nonce (ccm_crypt (E key) nonce m) = m" by (rule ccm_crypt_crypt) (rule block)
  show "length (ccm_crypt (E key) nonce m) = length m" by (simp add: block)
  show "length (ccm_tag (E key) nonce a m 8) = tag_length (stm_aead hw) alg"
    by (simp add: ccm_tag_def cbc_mac_from length_cbc_from block stm_aead_def stm_tag_length_def)
  assume d: "dev d"
  show "\<exists>k d'. ap_load_from_keydata (stm_aead hw) alg key d = Some (k, d') \<and> dev d' \<and> stm_key_ok alg k key"
    if "length key = key_length (stm_aead hw) alg"
    using that d by (cases alg) (simp_all add: stm_aead_def stm_aead_load_def stm_key_ok_def)
  assume k: "stm_key_ok alg k key" and "length nonce = nonce_length (stm_aead hw) alg"
  then have n: "length nonce = 13" by (simp add: stm_aead_def stm_nonce_length_def)
  show "\<exists>t d'. ap_encrypt_in_place (stm_aead hw) k nonce m aad d = Some ((t, ccm_crypt (E key) nonce m), d') \<and> dev d'
      \<and> ap_tag_bytes (stm_aead hw) t = ccm_tag (E key) nonce (concat aad) m 8"
    if "stm_fits nonce (concat aad) (length m)"
    using stm_encrypt_law [OF d k n, of aad m] that by (simp add: stm_aead_def stm_fits_def)
  show "\<exists>d'. ap_decrypt_in_place (stm_aead hw) k nonce c tag aad d =
      Some ((if tag = ccm_tag (E key) nonce (concat aad) (ccm_crypt (E key) nonce c) 8 then (Inr (), ccm_crypt (E key) nonce c)
             else (Inl DecryptionFailed, ccm_crypt (E key) nonce c)), d') \<and> dev d'"
    if "stm_fits nonce (concat aad) (length c)"
    using stm_decrypt_law [OF d k n, of aad c tag] that by (auto simp: stm_aead_def stm_fits_def)
qed

end

section \<open>A simulated peripheral\<close>

text \<open>The documented peripheral itself, made slow: a flag that is polled comes up at the fourth read.\<close>

type_synonym sim_aes_state = "aes_view \<times> nat"

definition slow_flag :: "(aes_view \<Rightarrow> bool) \<Rightarrow> sim_aes_state \<Rightarrow> bool \<times> sim_aes_state" where
  "slow_flag f s = (case s of (v, 0) \<Rightarrow> (f v, (v, 3)) | (v, Suc n) \<Rightarrow> (False, (v, n)))"

definition sim_aes :: "(bytes \<Rightarrow> bytes \<Rightarrow> bytes) \<Rightarrow> sim_aes_state stm_aes" where
  "sim_aes E =
     \<lparr> aes_r_cr = (\<lambda>(v, n). (av_cr v, (v, n))), aes_w_cr = (\<lambda>c (v, n). (aes_cr_step E c v, n)),
       aes_w_din = (\<lambda>w (v, n). (aes_din_step E w v, n)),
       aes_r_dout = (\<lambda>(v, n). (u32_from_be (take 4 (av_out v)), (v\<lparr> av_out := drop 4 (av_out v) \<rparr>, n))),
       aes_r_ccf = slow_flag av_ccf, aes_clear_ccf = (\<lambda>(v, n). (v\<lparr> av_ccf := False \<rparr>, n)),
       aes_w_ivr = (\<lambda>i w (v, n). (v\<lparr> av_iv := (av_iv v)(i := w) \<rparr>, n)),
       aes_w_keyr = (\<lambda>i w (v, n). (v\<lparr> av_key := (av_key v)(i := w) \<rparr>, n)),
       aes_r_keyvalid = slow_flag (\<lambda>_. True) \<rparr>"

definition sim_aes_start :: sim_aes_state where
  "sim_aes_start = (\<lparr> av_cr = \<lparr> ac_en = True, ac_chmod = ChmodOther, ac_datatype = DatatypeOther, ac_keysize = True, ac_mode = MODE3,
      ac_kmod = 2, ac_gcmph = FINAL_PHASE, ac_npblb = 5 \<rparr>, av_iv = (\<lambda>_. 1), av_key = (\<lambda>_. 2), av_in = [3], av_out = [4],
      av_ccf = True, av_i = 7, av_mac = [] \<rparr>, 2)"

definition sum_cipher :: "bytes \<Rightarrow> bytes \<Rightarrow> bytes" where
  "sum_cipher key b = replicate 15 0 @ [sum_list key + sum_list b]"

lemma slow_flag_law:
  "\<exists>b d'. slow_flag f d = (b, d') \<and> fst d' = fst d \<and> (f (fst d) \<longrightarrow> b \<or> snd d' < snd d)"
  by (cases d; cases "snd d") (auto simp: slow_flag_def)

interpretation sim_aes: stm_ccm "sim_aes sum_cipher" "\<lambda>_. True" fst snd sum_cipher
proof
  fix d :: sim_aes_state
  show "\<exists>b d'. aes_r_ccf (sim_aes sum_cipher) d = (b, d') \<and> True \<and> fst d' = fst d \<and> (av_ccf (fst d) \<longrightarrow> b \<or> snd d' < snd d)"
    using slow_flag_law [of av_ccf d] by (simp add: sim_aes_def)
  show "\<exists>b d'. aes_r_keyvalid (sim_aes sum_cipher) d = (b, d') \<and> True \<and> fst d' = fst d \<and> (b \<or> snd d' < snd d)"
    using slow_flag_law [of "\<lambda>_. True" d] by (simp add: sim_aes_def)
qed (simp_all add: sim_aes_def sum_cipher_def split_beta)

section \<open>Properties\<close>





text \<open>What the STM32WBA55 provider seals it opens again, whatever slices the additional data is given in,
  and the cipher text has the length of the message.\<close>

theorem stm_round_trip:
  assumes "stm_ccm hw dev view polls E" "dev d" "length key = stm_key_length alg" "length nonce = 13"
    and "length m < 0x10000" "length (concat aad) < 0xFF00" "concat aad' = concat aad"
  shows "\<exists>t c d1 d2. aead_seal (stm_aead hw) alg key nonce m aad d = Some ((t, c), d1) \<and> length c = length m
    \<and> aead_open (stm_aead hw) alg key nonce c t aad' d1 = Some ((Inr (), m), d2)"
  using aead_contract.round_trip [OF stm_ccm.stm_aead_contract [OF assms(1)] assms(2), of key alg nonce aad m aad'] assms(3-)
  by (auto simp: stm_aead_def stm_nonce_length_def stm_fits_def)

lemma stm_round_trip_witness:
  "\<exists>t c d1 d2. aead_seal (stm_aead (sim_aes sum_cipher)) StmCcm16_64_128 (replicate 16 1) (replicate 13 2) [3, 4] [[5], [6]] sim_aes_start
      = Some ((t, c), d1) \<and> length c = length [3, 4 :: u8]
    \<and> aead_open (stm_aead (sim_aes sum_cipher)) StmCcm16_64_128 (replicate 16 1) (replicate 13 2) c t [[5, 6]] d1
      = Some ((Inr (), [3, 4]), d2)"
  by (rule stm_round_trip [OF sim_aes.stm_ccm_axioms]) simp_all

end
