(* ===== verification/Stm_Rng.thy ===== *)
theory Stm_Rng
  imports Cal_Prelude "HOL-Library.Stream"
begin

text \<open>
  The random-number generator of the STM32WBA55: its conditioning sequence and the bounded waits of
  \<^verbatim>\<open>embedded-cal-stm32wba55/src/lib.rs\<close>, and the requests of \<^verbatim>\<open>embedded-cal-stm32wba55/src/try_rng.rs\<close>. A step that may
  panic returns a sum with the panic on the left; the request loop, which may also never end, an
  option of one.
\<close>

section \<open>Registers\<close>

datatype stm_rng_panic = StmRngFailure | StmRngError

datatype rng_nistc = NistcCUSTOM | NistcOther
datatype rng_config1 = Config1_A | Config1_Other
datatype rng_clkdiv = NO_DIV | ClkdivOther
datatype rng_config2 = Config2_A_B | Config2_Other
datatype rng_config3 = Config3_A | Config3_Other
datatype rng_htcfg = HtcfgMAGIC | HtcfgRECOMMENDED

record rng_cr =
  rc_condrst :: bool
  rc_nistc :: rng_nistc
  rc_config1 :: rng_config1
  rc_clkdiv :: rng_clkdiv
  rc_config2 :: rng_config2
  rc_config3 :: rng_config3
  rc_ced :: bool
  rc_ie :: bool
  rc_rngen :: bool

record rng_sr =
  rs_seis :: bool
  rs_ceis :: bool
  rs_drdy :: bool

record 'd stm_rng =
  rng_r_cr :: "'d \<Rightarrow> rng_cr \<times> 'd"
  rng_w_cr :: "rng_cr \<Rightarrow> 'd \<Rightarrow> 'd"
  rng_w_htcr :: "rng_htcfg \<Rightarrow> 'd \<Rightarrow> 'd"
  rng_r_sr :: "'d \<Rightarrow> rng_sr \<times> 'd"
  rng_w_sr :: "rng_sr \<Rightarrow> 'd \<Rightarrow> 'd"
  rng_r_dr :: "'d \<Rightarrow> u32 \<times> 'd"

definition rng_m_cr :: "'d stm_rng \<Rightarrow> (rng_cr \<Rightarrow> rng_cr) \<Rightarrow> 'd \<Rightarrow> 'd" where
  "rng_m_cr hw f d = (let (c, d) = rng_r_cr hw d in rng_w_cr hw (f c) d)"

definition rng_m_sr :: "'d stm_rng \<Rightarrow> (rng_sr \<Rightarrow> rng_sr) \<Rightarrow> 'd \<Rightarrow> 'd" where
  "rng_m_sr hw f d = (let (s, d) = rng_r_sr hw d in rng_w_sr hw (f s) d)"

text \<open>Sequencing of steps that may panic.\<close>

fun and_then :: "'p + 'a \<Rightarrow> ('a \<Rightarrow> 'p + 'b) \<Rightarrow> 'p + 'b" where
  "and_then (Inl p) f = Inl p"
| "and_then (Inr x) f = f x"

section \<open>Conditioning\<close>

text \<open>\<open>wait_for\<close>: a condition is tried a bounded number of times, 1000 in the code.\<close>

fun wait_loop :: "nat \<Rightarrow> ('d \<Rightarrow> bool \<times> 'd) \<Rightarrow> 'd \<Rightarrow> stm_rng_panic + 'd" where
  "wait_loop 0 condition d = Inl StmRngFailure"
| "wait_loop (Suc n) condition d = (let (b, d) = condition d in if b then Inr d else wait_loop n condition d)"

definition wait_for :: "('d \<Rightarrow> bool \<times> 'd) \<Rightarrow> 'd \<Rightarrow> stm_rng_panic + 'd" where
  "wait_for condition d = wait_loop 1000 condition d"

definition init_rng :: "'d stm_rng \<Rightarrow> 'd \<Rightarrow> stm_rng_panic + 'd" where
  "init_rng hw d =
     (let d = rng_w_cr hw \<lparr> rc_condrst = True, rc_nistc = NistcCUSTOM, rc_config1 = Config1_A, rc_clkdiv = NO_DIV,
                rc_config2 = Config2_A_B, rc_config3 = Config3_A, rc_ced = True, rc_ie = False, rc_rngen = True \<rparr> d
      in and_then (wait_for (\<lambda>d. let (c, d) = rng_r_cr hw d in (rc_condrst c, d)) d) (\<lambda>d.
      let d = rng_w_htcr hw HtcfgMAGIC d;
          d = rng_w_htcr hw HtcfgRECOMMENDED d;
          d = rng_m_cr hw (\<lambda>c. c\<lparr> rc_condrst := False, rc_ced := False \<rparr>) d
      in and_then (wait_for (\<lambda>d. let (c, d) = rng_r_cr hw d in (\<not> rc_condrst c, d)) d) (\<lambda>d.
      let d = rng_m_sr hw (\<lambda>s. s\<lparr> rs_seis := False \<rparr>) d
      in and_then (wait_for (\<lambda>d. let (s, d) = rng_r_sr hw d in (rs_drdy s \<or> rs_seis s, d)) d) (\<lambda>d.
      let (s, d) = rng_r_sr hw d
      in if rs_seis s then Inl StmRngError
         else let (w, d) = rng_r_dr hw d in Inr d))))"

section \<open>Requests\<close>

definition MAX_SEED_RETRIES :: nat where
  "MAX_SEED_RETRIES = 3"

partial_function (option) stm_fill :: "'d stm_rng \<Rightarrow> nat \<Rightarrow> nat \<Rightarrow> 'd \<Rightarrow> (stm_rng_panic + bytes \<times> 'd) option" where
  "stm_fill hw seed_errors n d =
     (if n = 0 then Some (Inr ([], d))
      else let (sr, d) = rng_r_sr hw d
           in if rs_seis sr then
                (if seed_errors + 1 > MAX_SEED_RETRIES then Some (Inl StmRngFailure)
                 else case init_rng hw (rng_m_sr hw (\<lambda>s. s\<lparr> rs_seis := False \<rparr>) d) of
                        Inl p \<Rightarrow> Some (Inl p)
                      | Inr d \<Rightarrow> stm_fill hw (seed_errors + 1) n d)
              else if rs_ceis sr then stm_fill hw seed_errors n (rng_m_sr hw (\<lambda>s. s\<lparr> rs_ceis := False \<rparr>) d)
              else if rs_drdy sr then
                (let (w, d) = rng_r_dr hw d;
                     take_len = min n 4
                 in do {
                   r \<leftarrow> stm_fill hw 0 (n - take_len) d;
                   Some (case r of Inl p \<Rightarrow> Inl p | Inr (rest, d) \<Rightarrow> Inr (take take_len (u32_to_le w) @ rest, d))
                 })
              else stm_fill hw seed_errors n d)"

definition stm_try_fill_bytes :: "'d stm_rng \<Rightarrow> nat \<Rightarrow> 'd \<Rightarrow> (stm_rng_panic + bytes \<times> 'd) option" where
  "stm_try_fill_bytes hw n d = stm_fill hw 0 n d"

definition stm_try_next_u32 :: "'d stm_rng \<Rightarrow> 'd \<Rightarrow> (stm_rng_panic + u32 \<times> 'd) option" where
  "stm_try_next_u32 hw d = do {
     r \<leftarrow> stm_try_fill_bytes hw 4 d;
     Some (case r of Inl p \<Rightarrow> Inl p | Inr (bs, d) \<Rightarrow> Inr (u32_from_le bs, d))
   }"

definition stm_try_next_u64 :: "'d stm_rng \<Rightarrow> 'd \<Rightarrow> (stm_rng_panic + u64 \<times> 'd) option" where
  "stm_try_next_u64 hw d = do {
     r \<leftarrow> stm_try_fill_bytes hw 8 d;
     Some (case r of Inl p \<Rightarrow> Inl p | Inr (bs, d) \<Rightarrow> Inr (of_nat (le_val bs), d))
   }"

section \<open>Start-up and shutdown\<close>

text \<open>The clock gates and the switch of the public key accelerator.\<close>

record ahb2enr =
  hashen :: bool
  rngen :: bool
  aesen :: bool
  pkaen :: bool

record 'd stm_sys =
  sys_rngsel_hsi :: "'d \<Rightarrow> 'd"
  sys_r_ahb2enr :: "'d \<Rightarrow> ahb2enr \<times> 'd"
  sys_w_ahb2enr :: "ahb2enr \<Rightarrow> 'd \<Rightarrow> 'd"
  sys_pka_en :: "bool \<Rightarrow> 'd \<Rightarrow> 'd"
  sys_pka_initok :: "'d \<Rightarrow> bool \<times> 'd"

partial_function (option) wait_initok :: "'d stm_sys \<Rightarrow> 'd \<Rightarrow> 'd option" where
  "wait_initok sys d = (let (b, d) = sys_pka_initok sys d in if b then Some d else wait_initok sys d)"

definition stm_new :: "'d stm_sys \<Rightarrow> 'd stm_rng \<Rightarrow> 'd \<Rightarrow> (stm_rng_panic + 'd) option" where
  "stm_new sys hw d =
     (let d = sys_rngsel_hsi sys d;
          (c, d) = sys_r_ahb2enr sys d;
          d = sys_w_ahb2enr sys (c\<lparr> hashen := True, rngen := True, aesen := True, pkaen := True \<rparr>) d
      in case init_rng hw d of
           Inl p \<Rightarrow> Some (Inl p)
         | Inr d \<Rightarrow> do { d \<leftarrow> wait_initok sys (sys_pka_en sys True (sys_pka_en sys False d)); Some (Inr d) })"

definition stm_drop :: "'d stm_sys \<Rightarrow> 'd stm_rng \<Rightarrow> 'd \<Rightarrow> 'd" where
  "stm_drop sys hw d =
     (let d = rng_m_cr hw (\<lambda>c. c\<lparr> rc_rngen := False \<rparr>) d;
          d = sys_pka_en sys False d;
          (c, d) = sys_r_ahb2enr sys d
      in sys_w_ahb2enr sys (c\<lparr> hashen := False, rngen := False, aesen := False, pkaen := False \<rparr>) d)"

section \<open>A broken source\<close>

lemma wait_loop_returns: "wait_loop n c d = Inr d' \<Longrightarrow> \<exists>d0. c d0 = (True, d')"
  by (induction n c d rule: wait_loop.induct) (auto split: prod.splits if_splits)

lemma and_then_Inr: "and_then x f = Inr y \<longleftrightarrow> (\<exists>a. x = Inr a \<and> f a = Inr y)"
  by (cases x) auto

lemma init_rng_Inr:
  "init_rng hw d = Inr d' \<Longrightarrow> \<exists>d1. \<not> rs_seis (fst (rng_r_sr hw d1)) \<and> d' = snd (rng_r_dr hw (snd (rng_r_sr hw d1)))"
  by (auto simp: init_rng_def Let_def and_then_Inr split_beta split: if_splits)

text \<open>A noise source that keeps reporting a seed error never makes a request hang and never hands out a
  byte: initialization panics, and so does every request for at least one byte, when it tries to
  initialize the generator again.\<close>

theorem stm_rng_faulty_source_panics:
  assumes "\<And>d. rs_seis (fst (rng_r_sr hw d))"
  shows "(\<exists>p. init_rng hw d = Inl p) \<and> (\<exists>p. stm_try_fill_bytes hw (Suc n) d = Some (Inl p))"
proof -
  have i: "\<exists>p. init_rng hw d = Inl p" for d
    using init_rng_Inr [of hw d] assms by (cases "init_rng hw d") auto
  obtain sr d1 where sr: "rng_r_sr hw d = (sr, d1)" "rs_seis sr" using assms [of d] by (cases "rng_r_sr hw d") auto
  obtain p where "init_rng hw (rng_m_sr hw (\<lambda>s. s\<lparr> rs_seis := False \<rparr>) d1) = Inl p" using i by blast
  with sr have "stm_try_fill_bytes hw (Suc n) d = Some (Inl p)"
    unfolding stm_try_fill_bytes_def by (subst stm_fill.simps) (simp add: MAX_SEED_RETRIES_def)
  with i show ?thesis by blast
qed

section \<open>A working source\<close>

text \<open>The bytes of the next words of the source.\<close>

definition source_bytes :: "nat \<Rightarrow> u32 stream \<Rightarrow> bytes" where
  "source_bytes n s = take n (concat (map u32_to_le (stake ((n + 3) div 4) s)))"

lemma source_words: "0 < n \<Longrightarrow> (n + 3) div 4 = Suc ((n - min n 4 + 3) div 4)"
proof -
  assume n: "0 < n"
  show ?thesis
  proof (cases "n \<le> 4")
    case True
    then have "(n + 3) div 4 = 1" using n by simp
    with True show ?thesis by simp
  next
    case False
    then have "n + 3 = (n - min n 4 + 3) + 4" by simp
    then show ?thesis by (simp only: div_add_self2)
  qed
qed

lemma source_bytes_step:
  assumes "0 < n"
  shows "source_bytes n s = take (min n 4) (u32_to_le (shd s)) @ source_bytes (n - min n 4) (stl s)"
  by (cases "n \<le> 4") (simp_all add: source_bytes_def source_words [OF assms] min_def)

definition RNG_CONFIG_A :: rng_cr where
  "RNG_CONFIG_A = \<lparr> rc_condrst = False, rc_nistc = NistcCUSTOM, rc_config1 = Config1_A, rc_clkdiv = NO_DIV,
     rc_config2 = Config2_A_B, rc_config3 = Config3_A, rc_ced = False, rc_ie = False, rc_rngen = True \<rparr>"

text \<open>
  The documented behaviour of a healthy generator. \<open>crv\<close> is the configuration last written: the
  conditioning bit reads back after a delay, the other fields at once. \<open>armed\<close> holds directly after the
  magic number was written, and only then does the recommended health configuration take effect
  (\<open>health\<close>). \<open>seis\<close> is the latched seed error, which resetting may set and clearing clears for good;
  clock errors come and go. \<open>src\<close> are the words still to be read, and \<open>polls\<close> bounds the delays below
  the 1000 polls the code allows.
\<close>

locale stm_trng =
  fixes hw :: "'d stm_rng" and dev :: "'d \<Rightarrow> bool" and crv :: "'d \<Rightarrow> rng_cr" and armed health seis :: "'d \<Rightarrow> bool"
    and src :: "'d \<Rightarrow> u32 stream" and polls :: "'d \<Rightarrow> nat"
  assumes bound: "dev d \<Longrightarrow> polls d < 1000"
    and cr_read: "dev d \<Longrightarrow> \<exists>b d'. rng_r_cr hw d = ((crv d)\<lparr> rc_condrst := b \<rparr>, d') \<and> dev d' \<and> crv d' = crv d
        \<and> health d' = health d \<and> seis d' = seis d \<and> src d' = src d \<and> (b = rc_condrst (crv d) \<or> polls d' < polls d)"
    and cr_write: "dev d \<Longrightarrow> dev (rng_w_cr hw c d) \<and> crv (rng_w_cr hw c d) = c \<and> health (rng_w_cr hw c d) = health d
        \<and> src (rng_w_cr hw c d) = src d"
    and htcr_magic: "dev d \<Longrightarrow> dev (rng_w_htcr hw HtcfgMAGIC d) \<and> armed (rng_w_htcr hw HtcfgMAGIC d)
        \<and> crv (rng_w_htcr hw HtcfgMAGIC d) = crv d \<and> src (rng_w_htcr hw HtcfgMAGIC d) = src d"
    and htcr_value: "dev d \<Longrightarrow> armed d \<Longrightarrow> dev (rng_w_htcr hw HtcfgRECOMMENDED d) \<and> health (rng_w_htcr hw HtcfgRECOMMENDED d)
        \<and> crv (rng_w_htcr hw HtcfgRECOMMENDED d) = crv d \<and> src (rng_w_htcr hw HtcfgRECOMMENDED d) = src d"
    and sr_read: "dev d \<Longrightarrow> \<exists>s d'. rng_r_sr hw d = (s, d') \<and> dev d' \<and> rs_seis s = seis d \<and> crv d' = crv d
        \<and> health d' = health d \<and> seis d' = seis d \<and> src d' = src d
        \<and> polls d' \<le> polls d \<and> (rs_drdy s \<and> \<not> rs_ceis s \<or> polls d' < polls d)"
    and sr_write: "dev d \<Longrightarrow> dev (rng_w_sr hw s d) \<and> crv (rng_w_sr hw s d) = crv d \<and> health (rng_w_sr hw s d) = health d
        \<and> seis (rng_w_sr hw s d) = (seis d \<and> rs_seis s) \<and> src (rng_w_sr hw s d) = src d \<and> polls (rng_w_sr hw s d) \<le> polls d"
    and dr_read: "dev d \<Longrightarrow> \<exists>d'. rng_r_dr hw d = (shd (src d), d') \<and> dev d' \<and> crv d' = crv d \<and> health d' = health d
        \<and> seis d' = seis d \<and> src d' = stl (src d)"
begin

lemma wait_loop_ends:
  assumes "\<And>d. I d \<Longrightarrow> \<exists>b d'. c d = (b, d') \<and> I d' \<and> (b \<or> polls d' < polls d)"
  shows "I d \<Longrightarrow> polls d < n \<Longrightarrow> \<exists>d'. wait_loop n c d = Inr d' \<and> I d'"
proof (induction n arbitrary: d)
  case (Suc n)
  obtain b d1 where 1: "c d = (b, d1)" "I d1" "b \<or> polls d1 < polls d" using assms [OF Suc.prems(1)] by blast
  with Suc show ?case by (cases b) auto
qed simp

lemma wait_for_ends:
  assumes "\<And>d. I d \<Longrightarrow> dev d \<and> (\<exists>b d'. c d = (b, d') \<and> I d' \<and> (b \<or> polls d' < polls d))" "I d"
  shows "\<exists>d'. wait_for c d = Inr d' \<and> I d'"
  unfolding wait_for_def using wait_loop_ends [of I c d 1000] assms bound by blast

text \<open>What a poll leaves alone.\<close>

definition same :: "'d \<Rightarrow> 'd \<Rightarrow> bool" where
  "same d d' \<longleftrightarrow> dev d' \<and> crv d' = crv d \<and> health d' = health d \<and> seis d' = seis d \<and> src d' = src d"

lemma wait_cr:
  assumes "dev d" "p (rc_condrst (crv d))"
  shows "\<exists>d'. wait_for (\<lambda>d. let (c, d) = rng_r_cr hw d in (p (rc_condrst c), d)) d = Inr d' \<and> same d d'"
proof (rule wait_for_ends)
  show "same d d" using assms by (simp add: same_def)
  fix x assume x: "same d x"
  then obtain b d' where "rng_r_cr hw x = ((crv x)\<lparr> rc_condrst := b \<rparr>, d')" "same d d'" "b = rc_condrst (crv x) \<or> polls d' < polls x"
    using cr_read [of x] by (auto simp: same_def)
  with x assms(2) show "dev x \<and> (\<exists>b d'. (let (c, d) = rng_r_cr hw x in (p (rc_condrst c), d)) = (b, d') \<and> same d d' \<and> (b \<or> polls d' < polls x))"
    by (auto simp: same_def)
qed

lemma wait_sr:
  assumes "dev d"
  shows "\<exists>d'. wait_for (\<lambda>d. let (s, d) = rng_r_sr hw d in (rs_drdy s \<or> rs_seis s, d)) d = Inr d' \<and> same d d'"
proof (rule wait_for_ends)
  show "same d d" using assms by (simp add: same_def)
  fix x assume x: "same d x"
  then obtain s d' where "rng_r_sr hw x = (s, d')" "same d d'" "rs_drdy s \<or> polls d' < polls x"
    using sr_read [of x] by (auto simp: same_def)
  with x show "dev x \<and> (\<exists>b d'. (let (s, d) = rng_r_sr hw x in (rs_drdy s \<or> rs_seis s, d)) = (b, d') \<and> same d d' \<and> (b \<or> polls d' < polls x))"
    by (auto simp: same_def)
qed

lemma m_cr_law:
  assumes "dev d"
  shows "\<exists>b. dev (rng_m_cr hw f d) \<and> crv (rng_m_cr hw f d) = f ((crv d)\<lparr> rc_condrst := b \<rparr>)
    \<and> health (rng_m_cr hw f d) = health d \<and> src (rng_m_cr hw f d) = src d"
proof -
  obtain b d' where "rng_r_cr hw d = ((crv d)\<lparr> rc_condrst := b \<rparr>, d')" "same d d'" using cr_read [OF assms] by (auto simp: same_def)
  with cr_write [of d'] show ?thesis by (auto simp: rng_m_cr_def same_def)
qed

lemma m_sr_law:
  assumes "dev d"
  shows "\<exists>s. rs_seis s = seis d \<and> dev (rng_m_sr hw f d) \<and> crv (rng_m_sr hw f d) = crv d
    \<and> health (rng_m_sr hw f d) = health d \<and> src (rng_m_sr hw f d) = src d \<and> seis (rng_m_sr hw f d) = (seis d \<and> rs_seis (f s))
    \<and> polls (rng_m_sr hw f d) \<le> polls d"
proof -
  obtain s d' where "rng_r_sr hw d = (s, d')" "rs_seis s = seis d" "same d d'" "polls d' \<le> polls d"
    using sr_read [OF assms] by (auto simp: same_def)
  with sr_write [of d' "f s"] show ?thesis by (auto simp: rng_m_sr_def same_def)
qed

lemma init_rng_law:
  assumes "dev d"
  shows "\<exists>d'. init_rng hw d = Inr d' \<and> dev d' \<and> crv d' = RNG_CONFIG_A \<and> health d' \<and> \<not> seis d' \<and> src d' = stl (src d)"
proof -
  let ?c = "\<lparr> rc_condrst = True, rc_nistc = NistcCUSTOM, rc_config1 = Config1_A, rc_clkdiv = NO_DIV,
      rc_config2 = Config2_A_B, rc_config3 = Config3_A, rc_ced = True, rc_ie = False, rc_rngen = True \<rparr>"
  let ?d0 = "rng_w_cr hw ?c d"
  have 0: "dev ?d0" "rc_condrst (crv ?d0)" "crv ?d0 = ?c" "src ?d0 = src d" using cr_write [OF assms] by simp_all
  obtain d1 where 1: "wait_for (\<lambda>d. let (c, d) = rng_r_cr hw d in (rc_condrst c, d)) ?d0 = Inr d1" "same ?d0 d1"
    using wait_cr [where p = "\<lambda>x. x", OF 0(1,2)] by blast
  then have d1: "dev d1" "crv d1 = ?c" "src d1 = src d" using 0 by (simp_all add: same_def)
  let ?d2 = "rng_w_htcr hw HtcfgRECOMMENDED (rng_w_htcr hw HtcfgMAGIC d1)"
  have d2: "dev ?d2" "crv ?d2 = ?c" "src ?d2 = src d" "health ?d2" using htcr_magic [OF d1(1)] htcr_value d1 by simp_all
  let ?d3 = "rng_m_cr hw (\<lambda>c. c\<lparr> rc_condrst := False, rc_ced := False \<rparr>) ?d2"
  have d3: "dev ?d3" "crv ?d3 = RNG_CONFIG_A" "src ?d3 = src d" "health ?d3" "\<not> rc_condrst (crv ?d3)"
    using m_cr_law [OF d2(1), of "\<lambda>c. c\<lparr> rc_condrst := False, rc_ced := False \<rparr>"] d2 by (auto simp: RNG_CONFIG_A_def)
  obtain d4 where 4: "wait_for (\<lambda>d. let (c, d) = rng_r_cr hw d in (\<not> rc_condrst c, d)) ?d3 = Inr d4" "same ?d3 d4"
    using wait_cr [where p = Not, OF d3(1,5)] by blast
  let ?d5 = "rng_m_sr hw (\<lambda>s. s\<lparr> rs_seis := False \<rparr>) d4"
  have d5: "dev ?d5" "crv ?d5 = RNG_CONFIG_A" "src ?d5 = src d" "health ?d5" "\<not> seis ?d5"
    using m_sr_law [of d4 "\<lambda>s. s\<lparr> rs_seis := False \<rparr>"] 4(2) d3 by (auto simp: same_def)
  obtain d6 where 6: "wait_for (\<lambda>d. let (s, d) = rng_r_sr hw d in (rs_drdy s \<or> rs_seis s, d)) ?d5 = Inr d6" "same ?d5 d6"
    using wait_sr [OF d5(1)] by blast
  obtain s d7 where 7: "rng_r_sr hw d6 = (s, d7)" "same d6 d7" "\<not> rs_seis s"
    using sr_read [of d6] 6(2) d5 by (auto simp: same_def)
  obtain d8 where 8: "rng_r_dr hw d7 = (shd (src d), d8)" "dev d8" "crv d8 = RNG_CONFIG_A" "health d8" "\<not> seis d8" "src d8 = stl (src d)"
    using dr_read [of d7] 7(2) 6(2) d5 by (auto simp: same_def)
  have "init_rng hw d = Inr d8"
    unfolding init_rng_def Let_def using 1(1) 4(1) 6(1) 7(1,3) 8(1) by (simp add: Let_def)
  with 8 show ?thesis by blast
qed

lemma fill_law:
  assumes "dev d" "\<not> seis d"
  shows "\<exists>d'. stm_fill hw k n d = Some (Inr (source_bytes n (src d), d')) \<and> dev d' \<and> \<not> seis d' \<and> crv d' = crv d
    \<and> health d' = health d \<and> src d' = sdrop ((n + 3) div 4) (src d)"
  using assms
proof (induction "n * 1000 + polls d" arbitrary: n k d rule: less_induct)
  case less
  show ?case
  proof (cases "n = 0")
    case True
    with less.prems show ?thesis by (subst stm_fill.simps) (simp add: source_bytes_def)
  next
    case False
    obtain s d1 where 1: "rng_r_sr hw d = (s, d1)" "\<not> rs_seis s" "same d d1" "rs_drdy s \<and> \<not> rs_ceis s \<or> polls d1 < polls d"
      using sr_read [OF less.prems(1)] less.prems(2) by (auto simp: same_def)
    then have d1: "dev d1" "\<not> seis d1" using less.prems by (simp_all add: same_def)
    have retry: ?thesis if "stm_fill hw k n d = stm_fill hw k n d2" "same d1 d2" "polls d2 < polls d" for d2
      using less.hyps [of n d2 k] that d1 1(3) by (auto simp: same_def)
    consider "rs_ceis s" | "\<not> rs_ceis s" "\<not> rs_drdy s" | "\<not> rs_ceis s" "rs_drdy s" by blast
    then show ?thesis
    proof cases
      case 1
      have "same d1 (rng_m_sr hw (\<lambda>s. s\<lparr> rs_ceis := False \<rparr>) d1)" "polls (rng_m_sr hw (\<lambda>s. s\<lparr> rs_ceis := False \<rparr>) d1) < polls d"
        using m_sr_law [OF d1(1), of "\<lambda>s. s\<lparr> rs_ceis := False \<rparr>"] d1(2) \<open>_ \<or> polls d1 < polls d\<close> 1 by (auto simp: same_def)
      then show ?thesis using False \<open>rng_r_sr hw d = _\<close> \<open>\<not> rs_seis s\<close> 1 by (intro retry) (subst stm_fill.simps, simp)
    next
      case 2
      then show ?thesis using False \<open>rng_r_sr hw d = _\<close> \<open>\<not> rs_seis s\<close> \<open>_ \<or> polls d1 < polls d\<close> d1
        by (intro retry [of d1]) (subst stm_fill.simps, simp_all add: same_def)
    next
      case 3
      define m where "m = n - min n 4"
      obtain d2 where 2: "rng_r_dr hw d1 = (shd (src d), d2)" "dev d2" "\<not> seis d2" "crv d2 = crv d" "health d2 = health d" "src d2 = stl (src d)"
        using dr_read [OF d1(1)] d1 \<open>same d d1\<close> by (auto simp: same_def)
      have "m * 1000 + polls d2 < n * 1000 + polls d" using False bound [OF 2(2)] unfolding m_def by linarith
      from less.hyps [OF this 2(2,3), of 0]
      obtain d' where i: "stm_fill hw 0 m d2 = Some (Inr (source_bytes m (stl (src d)), d'))" "dev d'" "\<not> seis d'" "crv d' = crv d"
          "health d' = health d" "src d' = sdrop ((m + 3) div 4) (stl (src d))" using 2(4-6) by auto
      have "stm_fill hw k n d = Some (Inr (take (min n 4) (u32_to_le (shd (src d))) @ source_bytes m (stl (src d)), d'))"
        using False 3 \<open>\<not> rs_seis s\<close> by (subst stm_fill.simps) (simp add: \<open>rng_r_sr hw d = _\<close> 2(1) i(1) m_def [symmetric])
      then show ?thesis using i source_bytes_step [of n "src d"] source_words [of n] False by (simp add: m_def)
    qed
  qed
qed

end

text \<open>Initializing a healthy generator always succeeds, within the bounded waits and whatever state it was
  in: it ends up with NIST configuration A, clock error detection on and conditioning finished, the
  recommended health tests in force, no seed error latched, and its first word thrown away.\<close>

theorem stm_init_rng_configures:
  assumes "stm_trng hw dev crv armed health seis src polls" "dev d"
  shows "\<exists>d'. init_rng hw d = Inr d' \<and> dev d' \<and> crv d' = RNG_CONFIG_A \<and> health d' \<and> \<not> seis d' \<and> src d' = stl (src d)"
  by (rule stm_trng.init_rng_law [OF assms])

text \<open>A request on a healthy generator ends and delivers the next words of the source in little-endian
  order, the last one cut off, over any number of clock errors; when a seed error is latched, the
  generator is initialized first and that throws one word away.\<close>

theorem stm_rng_healthy_fill:
  assumes "stm_trng hw dev crv armed health seis src polls" "dev d"
  shows "\<exists>d'. stm_try_fill_bytes hw n d
      = Some (Inr (source_bytes n (if seis d then stl (src d) else src d), d')) \<and> dev d'"
proof (cases "seis d \<and> n \<noteq> 0")
  case True
  note law = assms(1)
  let ?m = "\<lambda>d. rng_m_sr hw (\<lambda>s. s\<lparr> rs_seis := False \<rparr>) d"
  obtain s d1 where 1: "rng_r_sr hw d = (s, d1)" "rs_seis s" "dev d1" "src d1 = src d"
    using stm_trng.sr_read [OF law assms(2)] True by auto
  have 2: "dev (?m d1)" "src (?m d1) = src d" using stm_trng.m_sr_law [OF law 1(3)] 1(4) by auto
  obtain d2 where 3: "init_rng hw (?m d1) = Inr d2" "dev d2" "\<not> seis d2" "src d2 = stl (src d)"
    using stm_trng.init_rng_law [OF law 2(1)] 2(2) by auto
  have "stm_fill hw 0 n d = stm_fill hw 1 n d2"
    using True 1(1,2) 3(1) by (subst stm_fill.simps) (simp add: MAX_SEED_RETRIES_def)
  with stm_trng.fill_law [OF law 3(2,3), of 1 n] True 3(4) show ?thesis by (auto simp: stm_try_fill_bytes_def)
next
  case False
  show ?thesis
  proof (cases "n = 0")
    case True
    with assms(2) show ?thesis
      unfolding stm_try_fill_bytes_def by (subst stm_fill.simps) (simp add: source_bytes_def)
  next
    case n: False
    with False stm_trng.fill_law [OF assms(1,2), of 0 n] show ?thesis by (auto simp: stm_try_fill_bytes_def)
  qed
qed

section \<open>A concrete generator\<close>

text \<open>It counts, is busy for a few reads after every write to its control register and every word read,
  reports a clock error while busy, and latches a seed error on reset.\<close>

record sim_trng =
  sg_cr :: rng_cr
  sg_armed :: bool
  sg_health :: bool
  sg_seis :: bool
  sg_next :: nat
  sg_delay :: nat

definition sim_trng :: "sim_trng stm_rng" where
  "sim_trng =
     \<lparr> rng_r_cr = (\<lambda>d. if 0 < sg_delay d then ((sg_cr d)\<lparr> rc_condrst := \<not> rc_condrst (sg_cr d) \<rparr>, d\<lparr> sg_delay := sg_delay d - 1 \<rparr>)
                     else (sg_cr d, d)),
       rng_w_cr = (\<lambda>c d. d\<lparr> sg_cr := c, sg_seis := sg_seis d \<or> rc_condrst c, sg_delay := 5 \<rparr>),
       rng_w_htcr = (\<lambda>h d. case h of HtcfgMAGIC \<Rightarrow> d\<lparr> sg_armed := True \<rparr>
                       | HtcfgRECOMMENDED \<Rightarrow> d\<lparr> sg_health := sg_health d \<or> sg_armed d, sg_armed := False \<rparr>),
       rng_r_sr = (\<lambda>d. (\<lparr> rs_seis = sg_seis d, rs_ceis = (sg_delay d = 2), rs_drdy = (sg_delay d = 0) \<rparr>, d\<lparr> sg_delay := sg_delay d - 1 \<rparr>)),
       rng_w_sr = (\<lambda>s d. d\<lparr> sg_seis := sg_seis d \<and> rs_seis s \<rparr>),
       rng_r_dr = (\<lambda>d. (of_nat (sg_next d), d\<lparr> sg_next := Suc (sg_next d), sg_delay := 3 \<rparr>)) \<rparr>"

definition sim_words :: "sim_trng \<Rightarrow> u32 stream" where
  "sim_words d = smap of_nat (siterate Suc (sg_next d))"

interpretation sim_trng: stm_trng sim_trng "\<lambda>d. sg_delay d < 10" sg_cr sg_armed sg_health sg_seis sim_words sg_delay
  by unfold_locales (auto simp: sim_trng_def sim_words_def)

definition sim_trng_start :: sim_trng where
  "sim_trng_start = \<lparr> sg_cr = RNG_CONFIG_A\<lparr> rc_ced := True \<rparr>, sg_armed = False, sg_health = False, sg_seis = True, sg_next = 40, sg_delay = 4 \<rparr>"

lemma stm_init_rng_configures_witness:
  "\<exists>d'. init_rng sim_trng sim_trng_start = Inr d' \<and> sg_delay d' < 10 \<and> sg_cr d' = RNG_CONFIG_A \<and> sg_health d' \<and> \<not> sg_seis d'
    \<and> sim_words d' = stl (sim_words sim_trng_start)"
  by (rule stm_init_rng_configures [OF sim_trng.stm_trng_axioms]) (simp add: sim_trng_start_def)

lemma stm_rng_healthy_fill_witness:
  "\<exists>d'. stm_try_fill_bytes sim_trng 10 sim_trng_start = Some (Inr (source_bytes 10
      (if sg_seis sim_trng_start then stl (sim_words sim_trng_start) else sim_words sim_trng_start), d')) \<and> sg_delay d' < 10"
  by (rule stm_rng_healthy_fill [OF sim_trng.stm_trng_axioms]) (simp add: sim_trng_start_def)

lemma stm_rng_faulty_source_panics_witness:
  "(\<exists>p. init_rng (sim_trng\<lparr> rng_r_sr := \<lambda>d. (\<lparr> rs_seis = True, rs_ceis = False, rs_drdy = True \<rparr>, d) \<rparr>) sim_trng_start = Inl p)
    \<and> (\<exists>p. stm_try_fill_bytes (sim_trng\<lparr> rng_r_sr := \<lambda>d. (\<lparr> rs_seis = True, rs_ceis = False, rs_drdy = True \<rparr>, d) \<rparr>) (Suc 3) sim_trng_start
        = Some (Inl p))"
  by (rule stm_rng_faulty_source_panics) simp

end
