(* ===== verification/Stm_Hash.thy ===== *)
theory Stm_Hash
  imports Stm_Aead Extender_Direct
begin

text \<open>
  The HASH peripheral of the STM32WBA55 (\<^verbatim>\<open>embedded-cal-stm32wba55/src/lib.rs\<close>): saving and restoring its
  context, the SHA-256 plumbing and the HMAC provider. \<open>debug\<close> tells whether debug assertions are
  compiled in. The registers are a record of accesses; the documented peripheral is the locale
  \<open>stm_hasher\<close>.
\<close>

section \<open>Registers\<close>

record hash_cr =
  hcr_mode :: bool
  hcr_dmae :: bool
  hcr_algo :: nat
  hcr_datatype :: nat
  hcr_lkey :: bool
  hcr_init :: bool

record hash_str =
  hstr_nblw :: nat
  hstr_dcal :: bool

record hash_sr =
  hsr_nbwe :: nat
  hsr_busy :: bool
  hsr_dcis :: bool
  hsr_dinis :: bool

record 'd stm_hash =
  h_r_cr :: "'d \<Rightarrow> hash_cr \<times> 'd"
  h_w_cr :: "hash_cr \<Rightarrow> 'd \<Rightarrow> 'd"
  h_w_din :: "u32 \<Rightarrow> 'd \<Rightarrow> 'd"
  h_r_str :: "'d \<Rightarrow> hash_str \<times> 'd"
  h_w_str :: "hash_str \<Rightarrow> 'd \<Rightarrow> 'd"
  h_r_imr :: "'d \<Rightarrow> u32 \<times> 'd"
  h_w_imr :: "u32 \<Rightarrow> 'd \<Rightarrow> 'd"
  h_r_sr :: "'d \<Rightarrow> hash_sr \<times> 'd"
  h_r_csr :: "nat \<Rightarrow> 'd \<Rightarrow> u32 \<times> 'd"
  h_w_csr :: "nat \<Rightarrow> u32 \<Rightarrow> 'd \<Rightarrow> 'd"
  h_r_hr :: "nat \<Rightarrow> 'd \<Rightarrow> u32 \<times> 'd"

text \<open>The value a \<open>write\<close> closure starts from.\<close>

definition hash_cr_default :: hash_cr where
  "hash_cr_default = \<lparr> hcr_mode = False, hcr_dmae = False, hcr_algo = 0, hcr_datatype = 0, hcr_lkey = False, hcr_init = False \<rparr>"

definition WORD_SIZE :: nat where "WORD_SIZE = 4"
definition CSR_REGS_LEN :: nat where "CSR_REGS_LEN = 54"
definition HMAC_MAX_BLOCK_SIZE :: nat where "HMAC_MAX_BLOCK_SIZE = 68"
definition SHA256_OUT_BYTES :: nat where "SHA256_OUT_BYTES = 32"

section \<open>Waiting\<close>

definition wait_init_clear :: "'d stm_hash \<Rightarrow> 'd \<Rightarrow> 'd option" where
  "wait_init_clear hw d = poll_set (\<lambda>d. let (c, d) = h_r_cr hw d in (\<not> hcr_init c, d)) d"

definition wait_not_busy :: "'d stm_hash \<Rightarrow> 'd \<Rightarrow> 'd option" where
  "wait_not_busy hw d = poll_set (\<lambda>d. let (s, d) = h_r_sr hw d in (\<not> hsr_busy s, d)) d"

definition wait_dcis :: "'d stm_hash \<Rightarrow> 'd \<Rightarrow> 'd option" where
  "wait_dcis hw d = poll_set (\<lambda>d. let (s, d) = h_r_sr hw d in (hsr_dcis s, d)) d"

definition wait_dinis :: "'d stm_hash \<Rightarrow> 'd \<Rightarrow> 'd option" where
  "wait_dinis hw d = poll_set (\<lambda>d. let (s, d) = h_r_sr hw d in (hsr_dinis s, d)) d"

definition wait_busy :: "'d stm_hash \<Rightarrow> 'd \<Rightarrow> 'd option" where
  "wait_busy hw d = do { d \<leftarrow> wait_not_busy hw d; wait_dcis hw d }"

section \<open>Contexts\<close>

record hash_context =
  cx_csr :: "u32 list"
  cx_str :: hash_str
  cx_imr :: u32

fun csr_read_loop :: "'d stm_hash \<Rightarrow> nat list \<Rightarrow> 'd \<Rightarrow> u32 list \<times> 'd" where
  "csr_read_loop hw [] d = ([], d)"
| "csr_read_loop hw (i # is) d =
     (let (w, d) = h_r_csr hw i d; (ws, d) = csr_read_loop hw is d in (w # ws, d))"

fun csr_write_loop :: "'d stm_hash \<Rightarrow> u32 list \<Rightarrow> nat list \<Rightarrow> 'd \<Rightarrow> 'd" where
  "csr_write_loop hw csr [] d = d"
| "csr_write_loop hw csr (i # is) d = csr_write_loop hw csr is (h_w_csr hw i (csr ! i) d)"

definition read_context :: "'d stm_hash \<Rightarrow> 'd \<Rightarrow> (hash_context \<times> 'd) option" where
  "read_context hw d = do {
     d \<leftarrow> wait_not_busy hw d;
     let (imr, d) = h_r_imr hw d;
     let (str, d) = h_r_str hw d;
     let (csr, d) = csr_read_loop hw [0..<CSR_REGS_LEN] d;
     Some (\<lparr> cx_csr = csr, cx_str = str, cx_imr = imr \<rparr>, d)
   }"

definition hash_m_init :: "'d stm_hash \<Rightarrow> 'd \<Rightarrow> 'd" where
  "hash_m_init hw d = (let (c, d) = h_r_cr hw d in h_w_cr hw (c\<lparr> hcr_init := True \<rparr>) d)"

definition restore_context :: "'d stm_hash \<Rightarrow> hash_context \<Rightarrow> 'd \<Rightarrow> 'd option" where
  "restore_context hw ctx d = do {
     let d = h_w_cr hw (hash_cr_default\<lparr> hcr_init := False \<rparr>) d;
     let d = h_w_imr hw (cx_imr ctx) d;
     let d = h_w_str hw (cx_str ctx) d;
     let d = h_w_cr hw (hash_cr_default\<lparr> hcr_mode := False, hcr_dmae := False, hcr_algo := 3, hcr_datatype := 0 \<rparr>) d;
     let d = hash_m_init hw d;
     d \<leftarrow> wait_init_clear hw d;
     Some (csr_write_loop hw (cx_csr ctx) [0..<CSR_REGS_LEN] d)
   }"

definition restore_context_hmac :: "'d stm_hash \<Rightarrow> hash_context \<Rightarrow> 'd \<Rightarrow> 'd option" where
  "restore_context_hmac hw ctx d = do {
     let d = h_w_cr hw (hash_cr_default\<lparr> hcr_init := False \<rparr>) d;
     let d = h_w_imr hw (cx_imr ctx) d;
     let d = h_w_str hw (cx_str ctx) d;
     let d = h_w_cr hw (hash_cr_default\<lparr> hcr_mode := True, hcr_dmae := False, hcr_algo := 3, hcr_datatype := 0,
                          hcr_lkey := False \<rparr>) d;
     let d = hash_m_init hw d;
     d \<leftarrow> wait_init_clear hw d;
     Some (csr_write_loop hw (cx_csr ctx) [0..<CSR_REGS_LEN] d)
   }"

definition configure_and_reset_context :: "'d stm_hash \<Rightarrow> 'd \<Rightarrow> 'd" where
  "configure_and_reset_context hw d =
     h_w_cr hw (hash_cr_default\<lparr> hcr_mode := False, hcr_dmae := False, hcr_algo := 3, hcr_datatype := 0, hcr_init := True \<rparr>) d"

definition reinit_and_restore :: "'d stm_hash \<Rightarrow> hash_context option \<Rightarrow> 'd \<Rightarrow> 'd option" where
  "reinit_and_restore hw context d = do {
     let d = h_w_cr hw (hash_cr_default\<lparr> hcr_init := True \<rparr>) d;
     d \<leftarrow> wait_init_clear hw d;
     let d = configure_and_reset_context hw d;
     case context of Some ctx \<Rightarrow> restore_context hw ctx d | None \<Rightarrow> Some d
   }"

section \<open>SHA-256 plumbing\<close>

record stm_hash_state =
  hst_variant :: sha2_variant
  hst_context :: "hash_context option"

text \<open>\<open>as_chunks::<4>\<close> drops what does not fill a word, \<open>chunks(4)\<close> keeps it as a shorter chunk.\<close>

fun whole_words :: "bytes \<Rightarrow> bytes list" where
  "whole_words (a # b # c # d # xs) = [a, b, c, d] # whole_words xs"
| "whole_words xs = []"

fun word_chunks :: "bytes \<Rightarrow> bytes list" where
  "word_chunks [] = []"
| "word_chunks (x # xs) = take 4 (x # xs) # word_chunks (drop 3 xs)"

fun din_words :: "'d stm_hash \<Rightarrow> bytes list \<Rightarrow> 'd \<Rightarrow> 'd" where
  "din_words hw [] d = d"
| "din_words hw (chunk # cs) d = din_words hw cs (h_w_din hw (u32_from_be chunk) d)"

text \<open>The last words: each chunk is copied into a zeroed word.\<close>

fun din_padded :: "'d stm_hash \<Rightarrow> bytes list \<Rightarrow> 'd \<Rightarrow> 'd option" where
  "din_padded hw [] d = Some d"
| "din_padded hw (chunk # cs) d = do {
     bytes \<leftarrow> copy_at (replicate WORD_SIZE 0) 0 chunk;
     din_padded hw cs (h_w_din hw (u32_from_be bytes) d)
   }"

definition save_context :: "'d stm_hash \<Rightarrow> stm_hash_state \<Rightarrow> 'd \<Rightarrow> (stm_hash_state \<times> 'd) option" where
  "save_context hw inst d = do {
     (ctx, d) \<leftarrow> read_context hw d;
     Some (inst\<lparr> hst_context := Some ctx \<rparr>, d)
   }"

fun hr_read_loop :: "'d stm_hash \<Rightarrow> nat list \<Rightarrow> 'd \<Rightarrow> u32 list \<times> 'd" where
  "hr_read_loop hw [] d = ([], d)"
| "hr_read_loop hw (i # is) d =
     (let (w, d) = h_r_hr hw i d; (ws, d) = hr_read_loop hw is d in (w # ws, d))"

definition read_digest :: "'d stm_hash \<Rightarrow> 'd \<Rightarrow> u32 list \<times> 'd" where
  "read_digest hw d = hr_read_loop hw [0..<8] d"

text \<open>The words of the digest, big-endian, in the result array.\<close>

fun digest_bytes :: "nat \<Rightarrow> u32 list \<Rightarrow> bytes \<Rightarrow> bytes option" where
  "digest_bytes i [] out = Some out"
| "digest_bytes i (w # ws) out = do {
     out \<leftarrow> copy_at out (i * WORD_SIZE) (u32_to_be w);
     digest_bytes (i + 1) ws out
   }"

definition write_nblw :: "'d stm_hash \<Rightarrow> nat \<Rightarrow> 'd \<Rightarrow> 'd" where
  "write_nblw hw n d = h_w_str hw \<lparr> hstr_nblw = n, hstr_dcal = False \<rparr> d"

definition write_dcal :: "'d stm_hash \<Rightarrow> 'd \<Rightarrow> 'd" where
  "write_dcal hw d = h_w_str hw \<lparr> hstr_nblw = 0, hstr_dcal = True \<rparr> d"

definition stm_sha_init :: "sha2_variant \<Rightarrow> 'd \<Rightarrow> (stm_hash_state \<times> 'd) option" where
  "stm_sha_init variant d = Some (\<lparr> hst_variant = variant, hst_context = None \<rparr>, d)"

definition stm_sha_update :: "bool \<Rightarrow> 'd stm_hash \<Rightarrow> stm_hash_state \<Rightarrow> bytes \<Rightarrow> 'd \<Rightarrow> (stm_hash_state \<times> 'd) option" where
  "stm_sha_update debug hw inst data d = do {
     d \<leftarrow> (if debug then (let (s, d) = h_r_sr hw d in if length data = hsr_nbwe s * WORD_SIZE then Some d else None)
          else Some d);
     d \<leftarrow> reinit_and_restore hw (hst_context inst) d;
     let d = din_words hw (whole_words data) d;
     save_context hw inst d
   }"

definition stm_sha_finalize :: "'d stm_hash \<Rightarrow> stm_hash_state \<Rightarrow> bytes \<Rightarrow> bytes \<Rightarrow> 'd \<Rightarrow> (bytes \<times> 'd) option" where
  "stm_sha_finalize hw inst last_chunk target d = do {
     d \<leftarrow> reinit_and_restore hw (hst_context inst) d;
     d \<leftarrow> din_padded hw (word_chunks last_chunk) d;
     let number_bytes_last_chunk = length last_chunk mod WORD_SIZE;
     let d = write_nblw hw (number_bytes_last_chunk * 8) d;
     let d = write_dcal hw d;
     d \<leftarrow> wait_busy hw d;
     let (words, d) = read_digest hw d;
     hash_result \<leftarrow> digest_bytes 0 words (replicate 32 0);
     if length target = 32 then Some (hash_result, d) else None
   }"

definition stm_sha2 :: "bool \<Rightarrow> 'd stm_hash \<Rightarrow> ('d, stm_hash_state) sha2short" where
  "stm_sha2 debug hw =
     \<lparr> SUPPORTED = True, SEND_PADDING = False, FIRST_CHUNK_SIZE = 68, UPDATE_MULTICHUNK = True,
       s2_init = stm_sha_init, s2_update = stm_sha_update debug hw, s2_finalize = stm_sha_finalize hw \<rparr>"

text \<open>\<open>sha256_of\<close>, used for long HMAC keys.\<close>

function sha256_of_loop :: "bool \<Rightarrow> 'd stm_hash \<Rightarrow> bool \<Rightarrow> bytes \<Rightarrow> stm_hash_state \<Rightarrow> 'd \<Rightarrow> ((bytes \<times> stm_hash_state) \<times> 'd) option" where
  "sha256_of_loop debug hw is_first remaining inst d =
     (let chunk_size = (if is_first then FIRST_CHUNK_SIZE (stm_sha2 debug hw) else SHA2SHORT_BLOCK_SIZE)
      in if length remaining \<le> chunk_size then Some ((remaining, inst), d)
         else do {
           (inst, d) \<leftarrow> stm_sha_update debug hw inst (take chunk_size remaining) d;
           sha256_of_loop debug hw False (drop chunk_size remaining) inst d
         })"
  by pat_completeness auto
termination
  by (relation "measure (\<lambda>(debug, hw, is_first, remaining, inst, d). length remaining)")
    (auto simp: stm_sha2_def SHA2SHORT_BLOCK_SIZE_def split: if_splits)

declare sha256_of_loop.simps [simp del]

definition sha256_of :: "bool \<Rightarrow> 'd stm_hash \<Rightarrow> bytes \<Rightarrow> 'd \<Rightarrow> (bytes \<times> 'd) option" where
  "sha256_of debug hw data d = do {
     (inst, d) \<leftarrow> stm_sha_init Sha256 d;
     ((remaining, inst), d) \<leftarrow> sha256_of_loop debug hw True data inst d;
     stm_sha_finalize hw inst remaining (replicate 32 0) d
   }"

section \<open>HMAC\<close>

datatype stm_hmac_algorithm = StmHmacSha256

definition stm_hmac_MAX_LEN :: nat where
  "stm_hmac_MAX_LEN = 32"

fun stm_hmac_len :: "stm_hmac_algorithm \<Rightarrow> nat" where
  "stm_hmac_len StmHmacSha256 = 32"

definition stm_hmac_from_cose_number :: "int \<Rightarrow> stm_hmac_algorithm option" where
  "stm_hmac_from_cose_number number = (if number = 5 then Some StmHmacSha256 else None)"

record stm_hmac_state =
  ms_context :: "hash_context option"
  ms_buf :: bytes
  ms_buf_len :: nat
  ms_key_block :: bytes

datatype stm_hmac_result = StmHmacResult bytes

fun stm_hmac_as_ref :: "stm_hmac_result \<Rightarrow> bytes" where
  "stm_hmac_as_ref (StmHmacResult r) = r"

definition stm_hmac_load :: "bool \<Rightarrow> 'd stm_hash \<Rightarrow> stm_hmac_algorithm \<Rightarrow> bytes \<Rightarrow> 'd \<Rightarrow> (stm_hmac_state \<times> 'd) option" where
  "stm_hmac_load debug hw algorithm key d = do {
     (key_block, d) \<leftarrow> (if length key > SHA2SHORT_BLOCK_SIZE then do {
          (hashed, d) \<leftarrow> sha256_of debug hw key d;
          key_block \<leftarrow> copy_at (replicate SHA2SHORT_BLOCK_SIZE 0) 0 hashed;
          Some (key_block, d)
        } else do { key_block \<leftarrow> copy_at (replicate SHA2SHORT_BLOCK_SIZE 0) 0 key; Some (key_block, d) });
     let d = h_w_cr hw (hash_cr_default\<lparr> hcr_mode := True, hcr_dmae := False, hcr_algo := 3, hcr_datatype := 0,
                          hcr_lkey := False, hcr_init := True \<rparr>) d;
     d \<leftarrow> wait_init_clear hw d;
     let d = din_words hw (whole_words key_block) d;
     let d = write_nblw hw 0 d;
     let d = write_dcal hw d;
     d \<leftarrow> wait_dinis hw d;
     (ctx, d) \<leftarrow> read_context hw d;
     Some (\<lparr> ms_context = Some ctx, ms_buf = replicate HMAC_MAX_BLOCK_SIZE 0, ms_buf_len = 0, ms_key_block = key_block \<rparr>, d)
   }"

definition stm_hmac_init :: "stm_hmac_state \<Rightarrow> 'd \<Rightarrow> (stm_hmac_state \<times> 'd) option" where
  "stm_hmac_init key d = Some (key, d)"

text \<open>The loop of \<open>update\<close>. When the peripheral reports no expected words at all, it never ends.\<close>

partial_function (option) hmac_update_loop :: "'d stm_hash \<Rightarrow> bytes \<Rightarrow> bool \<Rightarrow> stm_hmac_state \<Rightarrow> 'd
    \<Rightarrow> ((bool \<times> stm_hmac_state) \<times> 'd) option" where
  "hmac_update_loop hw remaining wrote_blocks state d =
     (if remaining = [] then Some ((wrote_blocks, state), d)
      else let (s, d) = h_r_sr hw d; hmac_block_size = hsr_nbwe s * WORD_SIZE
      in do {
        space \<leftarrow> usize_sub hmac_block_size (ms_buf_len state);
        let take_len = min (length remaining) space;
        buf \<leftarrow> copy_at (ms_buf state) (ms_buf_len state) (take take_len remaining);
        let state = state\<lparr> ms_buf := buf, ms_buf_len := ms_buf_len state + take_len \<rparr>;
        let remaining = drop take_len remaining;
        if ms_buf_len state = hmac_block_size then do {
          (state, d) \<leftarrow> (if \<not> wrote_blocks then
             (case ms_context state of
                Some ctx \<Rightarrow> do { d \<leftarrow> restore_context_hmac hw ctx d; Some (state\<lparr> ms_context := None \<rparr>, d) }
              | None \<Rightarrow> Some (state, d))
             else Some (state, d));
          block \<leftarrow> slice (ms_buf state) 0 (ms_buf_len state);
          let d = din_words hw (whole_words block) d;
          hmac_update_loop hw remaining True (state\<lparr> ms_buf_len := 0 \<rparr>) d
        } else hmac_update_loop hw remaining wrote_blocks state d
      })"

definition stm_hmac_update :: "'d stm_hash \<Rightarrow> stm_hmac_state \<Rightarrow> bytes \<Rightarrow> 'd \<Rightarrow> (stm_hmac_state \<times> 'd) option" where
  "stm_hmac_update hw state data d = do {
     ((wrote_blocks, state), d) \<leftarrow> hmac_update_loop hw data False state d;
     if wrote_blocks then do {
       (ctx, d) \<leftarrow> read_context hw d;
       Some (state\<lparr> ms_context := Some ctx \<rparr>, d)
     } else Some (state, d)
   }"

definition stm_hmac_finalize :: "'d stm_hash \<Rightarrow> stm_hmac_state \<Rightarrow> 'd \<Rightarrow> (stm_hmac_result \<times> 'd) option" where
  "stm_hmac_finalize hw state d = do {
     d \<leftarrow> (case ms_context state of Some ctx \<Rightarrow> restore_context_hmac hw ctx d | None \<Rightarrow> Some d);
     let buf_len = ms_buf_len state;
     rest \<leftarrow> slice (ms_buf state) 0 buf_len;
     d \<leftarrow> din_padded hw (word_chunks rest) d;
     let nblw = buf_len mod WORD_SIZE * 8;
     let d = write_nblw hw nblw d;
     let d = write_dcal hw d;
     d \<leftarrow> wait_dinis hw d;
     let d = din_words hw (whole_words (ms_key_block state)) d;
     let d = write_nblw hw 0 d;
     let d = write_dcal hw d;
     d \<leftarrow> wait_busy hw d;
     let (words, d) = read_digest hw d;
     result \<leftarrow> digest_bytes 0 words (replicate 32 0);
     Some (StmHmacResult result, d)
   }"

definition stm_hmac :: "bool \<Rightarrow> 'd stm_hash \<Rightarrow> ('d, stm_hmac_algorithm, stm_hmac_state, stm_hmac_state, stm_hmac_result) hmac_provider" where
  "stm_hmac debug hw =
     \<lparr> hmac_MAX_LEN = stm_hmac_MAX_LEN, hmac_len = stm_hmac_len, hmac_from_cose_number = stm_hmac_from_cose_number,
       mp_load_from_keydata = stm_hmac_load debug hw, mp_init = stm_hmac_init, mp_update = stm_hmac_update hw,
       mp_finalize = stm_hmac_finalize hw, mp_output = stm_hmac_as_ref \<rparr>"

end
