(* ===== verification/Stm_Hasher.thy ===== *)
theory Stm_Hasher
  imports Stm_Hash
begin

text \<open>
  The documented HASH peripheral as a locale, the laws of the driver's building blocks on it, and the
  SHA-256 plumbing's contract.
\<close>

section \<open>The documented peripheral\<close>

text \<open>What the core is doing: hashing a message, taking in the inner key, the text or the outer key of an
  HMAC, or holding a digest.\<close>

datatype hphase = HashMsg | MacKey | MacText bytes | MacOuter bytes bytes | HashDone bytes

fun mac_phase :: "hphase \<Rightarrow> bool" where
  "mac_phase HashMsg = False"
| "mac_phase (MacText k) = True"
| "mac_phase _ = True"

definition savable :: "hphase \<Rightarrow> bytes \<Rightarrow> bool" where
  "savable ph m \<longleftrightarrow> (ph = HashMsg \<or> (\<exists>k. ph = MacText k)) \<and> (m = [] \<or> length m mod 64 = 4)"

text \<open>The last word counts for \<open>b\<close> bits only, all 32 when \<open>b\<close> is 0.\<close>

definition last_bits :: "nat \<Rightarrow> bytes \<Rightarrow> bytes" where
  "last_bits b m = (if b = 0 then m else take (length m - 4 + b div 8) m)"

definition ipad :: "bytes \<Rightarrow> bytes" where "ipad k = map (\<lambda>b. b XOR 0x36) k"
definition opad :: "bytes \<Rightarrow> bytes" where "opad k = map (\<lambda>b. b XOR 0x5c) k"

text \<open>What starting the final calculation does, by phase.\<close>

fun dcal_step :: "hphase \<Rightarrow> bytes \<Rightarrow> hphase" where
  "dcal_step HashMsg m = HashDone (sha256 m)"
| "dcal_step MacKey m = MacText m"
| "dcal_step (MacText k) m = MacOuter k m"
| "dcal_step (MacOuter k t) m = HashDone (sha256 (opad m @ sha256 (ipad k @ t)))"
| "dcal_step (HashDone x) m = HashDone x"

definition key_phase :: "hphase \<Rightarrow> bool" where
  "key_phase ph \<longleftrightarrow> ph = MacKey \<or> (\<exists>k t. ph = MacOuter k t)"

text \<open>The view: \<open>hv_runs ph m\<close> when the core is in phase \<open>ph\<close> and has been given \<open>m\<close> in it; \<open>hv_loading\<close> when the
  core was initialized and nothing but context registers was written since.\<close>

record hash_view =
  hv_cfg :: hash_cr
  hv_runs :: "hphase \<Rightarrow> bytes \<Rightarrow> bool"
  hv_csr :: "nat \<Rightarrow> u32"
  hv_nblw :: nat
  hv_loading :: bool

definition sha_config :: "hash_cr \<Rightarrow> bool" where
  "sha_config c \<longleftrightarrow> hcr_algo c = 3 \<and> hcr_datatype c = 0 \<and> \<not> hcr_lkey c \<and> \<not> hcr_dmae c"

definition csr_list :: "(nat \<Rightarrow> u32) \<Rightarrow> u32 list" where
  "csr_list f = map f [0..<CSR_REGS_LEN]"

text \<open>The two restore procedures differ in the configuration they write.\<close>

definition restore_with :: "'d stm_hash \<Rightarrow> hash_cr \<Rightarrow> hash_context \<Rightarrow> 'd \<Rightarrow> 'd option" where
  "restore_with hw c ctx d = do {
     let d = h_w_cr hw c (h_w_str hw (cx_str ctx) (h_w_imr hw (cx_imr ctx) (h_w_cr hw hash_cr_default d)));
     d \<leftarrow> wait_init_clear hw (hash_m_init hw d);
     Some (csr_write_loop hw (cx_csr ctx) [0..<CSR_REGS_LEN] d)
   }"

definition mac_cr :: "bool \<Rightarrow> hash_cr" where
  "mac_cr m = hash_cr_default\<lparr> hcr_mode := m, hcr_algo := 3 \<rparr>"

lemma restore_context_with: "restore_context hw ctx d = restore_with hw (mac_cr False) ctx d"
  by (simp add: restore_context_def restore_with_def mac_cr_def hash_cr_default_def Let_def)

lemma restore_context_hmac_with: "restore_context_hmac hw ctx d = restore_with hw (mac_cr True) ctx d"
  by (simp add: restore_context_hmac_def restore_with_def mac_cr_def hash_cr_default_def Let_def)

text \<open>A saved context of a computation in phase \<open>ph\<close> that was given \<open>m\<close>.\<close>

definition context_of :: "(u32 list \<Rightarrow> hphase \<Rightarrow> bytes \<Rightarrow> bool) \<Rightarrow> hash_context \<Rightarrow> hphase \<Rightarrow> bytes \<Rightarrow> bool" where
  "context_of saves ctx ph m \<longleftrightarrow> length (cx_csr ctx) = CSR_REGS_LEN \<and> \<not> hstr_dcal (cx_str ctx) \<and> savable ph m \<and> saves (cx_csr ctx) ph m"

section \<open>Words\<close>

lemma mod_64_4: "n mod 64 = 4 \<Longrightarrow> n mod (4 :: nat) = 0"
  using mod_mod_cancel [of 4 64 n] by simp

lemma csr_range: "set [0..<CSR_REGS_LEN] \<subseteq> {..<CSR_REGS_LEN}"
  by auto

lemma concat_whole_words: "length xs mod 4 = 0 \<Longrightarrow> concat (whole_words xs) = xs"
proof (induction xs rule: whole_words.induct)
  case (1 a b c d xs)
  have "length (a # b # c # d # xs) = length xs + 4" by simp
  with 1 show ?case by (metis append_Cons append_Nil concat.simps(2) mod_add_self2 whole_words.simps(1))
qed simp_all

lemma whole_words_length: "c \<in> set (whole_words xs) \<Longrightarrow> length c = 4"
  by (induction xs rule: whole_words.induct) auto

lemma last_bits_padded:
  assumes "length p = (length r + 3) div 4 * 4" "take (length r) p = r"
  shows "last_bits (length r mod 4 * 8) (m @ p) = m @ r"
proof (cases "length r mod 4 = 0")
  case True
  then have "length p = length r" using assms(1) by presburger
  with assms(2) True show ?thesis by (simp add: last_bits_def)
next
  case False
  then have "length p = length r - length r mod 4 + 4" using assms(1) by presburger
  then have "length (m @ p) - 4 + length r mod 4 = length m + length r" by simp
  with False assms(2) show ?thesis by (simp add: last_bits_def)
qed

lemma digest_bytes_eq:
  "length out = 32 \<Longrightarrow> i + length ws \<le> 8 \<Longrightarrow>
   digest_bytes i ws out = Some (take (4 * i) out @ words_be ws @ drop (4 * (i + length ws)) out)"
proof (induction ws arbitrary: i out)
  case (Cons w ws)
  let ?t = "take (4 * i) out @ u32_to_be w @ drop (4 * i + 4) out"
  have c: "copy_at out (i * WORD_SIZE) (u32_to_be w) = Some ?t" using Cons.prems by (simp add: copy_at_def WORD_SIZE_def ac_simps)
  have "take (4 * (i + 1)) ?t = take (4 * i) out @ u32_to_be w" using Cons.prems by simp
  moreover have "drop (4 * (i + 1 + length ws)) ?t = drop (4 * (i + length (w # ws))) out"
    using Cons.prems by (simp add: algebra_simps)
  ultimately show ?case using Cons.IH [of ?t "i + 1"] Cons.prems c
    by (simp only: digest_bytes.simps bind.bind_lunit) (simp add: words_be_def)
qed (simp add: words_be_def)

lemma words_be_of_bytes:
  "length x = 4 * n \<Longrightarrow> words_be (map (\<lambda>i. u32_from_be (take 4 (drop (4 * i) x))) [0..<n]) = x"
proof (induction n arbitrary: x)
  case (Suc n)
  have "map (\<lambda>i. u32_from_be (take 4 (drop (4 * i) x))) [0..<Suc n]
    = u32_from_be (take 4 x) # map (\<lambda>i. u32_from_be (take 4 (drop (4 * i) (drop 4 x)))) [0..<n]"
    by (simp only: upt_conv_Cons [OF zero_less_Suc] list.map map_Suc_upt [symmetric] map_map o_def) (simp add: add.commute)
  moreover have "length (drop 4 x) = 4 * n" "length (take 4 x) = 4" using Suc.prems by simp_all
  ultimately show ?case using Suc.IH [of "drop 4 x"] by (simp add: words_be_def u32_to_be_from_be)
qed (simp add: words_be_def)

section \<open>The locale\<close>

locale stm_hasher =
  fixes hw :: "'d stm_hash" and dev :: "'d \<Rightarrow> bool" and view :: "'d \<Rightarrow> hash_view" and polls :: "'d \<Rightarrow> nat"
    and saves :: "u32 list \<Rightarrow> hphase \<Rightarrow> bytes \<Rightarrow> bool"
  assumes cr_read: "dev d \<Longrightarrow> \<exists>b d'. h_r_cr hw d = ((hv_cfg (view d))\<lparr> hcr_init := b \<rparr>, d') \<and> dev d' \<and> view d' = view d
        \<and> (b \<longrightarrow> polls d' < polls d)"
    and cr_write: "dev d \<Longrightarrow> dev (h_w_cr hw c d) \<and> hv_cfg (view (h_w_cr hw c d)) = c"
    and cr_init: "dev d \<Longrightarrow> sha_config c \<Longrightarrow> hcr_init c \<Longrightarrow>
        hv_runs (view (h_w_cr hw c d)) (if hcr_mode c then MacKey else HashMsg) [] \<and> hv_loading (view (h_w_cr hw c d))"
    and str_read: "dev d \<Longrightarrow> \<exists>d'. h_r_str hw d = (\<lparr> hstr_nblw = hv_nblw (view d), hstr_dcal = False \<rparr>, d') \<and> dev d' \<and> view d' = view d"
    and nblw_write: "dev d \<Longrightarrow> dev (h_w_str hw \<lparr> hstr_nblw = n, hstr_dcal = False \<rparr> d)
        \<and> view (h_w_str hw \<lparr> hstr_nblw = n, hstr_dcal = False \<rparr> d) = (view d)\<lparr> hv_nblw := n \<rparr>"
    and dcal_write: "dev d \<Longrightarrow> hv_runs (view d) ph m \<Longrightarrow> hv_nblw (view d) = b \<Longrightarrow> b \<in> {0, 8, 16, 24} \<Longrightarrow> length m mod 4 = 0 \<Longrightarrow>
        (b \<noteq> 0 \<longrightarrow> m \<noteq> []) \<Longrightarrow> (key_phase ph \<longrightarrow> b = 0 \<and> length m = 64) \<Longrightarrow>
        dev (h_w_str hw \<lparr> hstr_nblw = n, hstr_dcal = True \<rparr> d)
        \<and> hv_runs (view (h_w_str hw \<lparr> hstr_nblw = n, hstr_dcal = True \<rparr> d)) (dcal_step ph (last_bits b m)) []"
    and imr_read: "dev d \<Longrightarrow> \<exists>w d'. h_r_imr hw d = (w, d') \<and> dev d' \<and> view d' = view d"
    and imr_write: "dev d \<Longrightarrow> dev (h_w_imr hw w d) \<and> view (h_w_imr hw w d) = view d"
    and csr_read: "dev d \<Longrightarrow> i < CSR_REGS_LEN \<Longrightarrow> \<exists>d'. h_r_csr hw i d = (hv_csr (view d) i, d') \<and> dev d' \<and> view d' = view d"
    and csr_write: "dev d \<Longrightarrow> i < CSR_REGS_LEN \<Longrightarrow> hv_loading (view d) \<Longrightarrow> dev (h_w_csr hw i w d)
        \<and> hv_csr (view (h_w_csr hw i w d)) = (hv_csr (view d))(i := w)
        \<and> hv_cfg (view (h_w_csr hw i w d)) = hv_cfg (view d) \<and> hv_loading (view (h_w_csr hw i w d))"
    and saved: "dev d \<Longrightarrow> hv_runs (view d) ph m \<Longrightarrow> savable ph m \<Longrightarrow> saves (csr_list (hv_csr (view d))) ph m"
    and loaded: "dev d \<Longrightarrow> hv_loading (view d) \<Longrightarrow> saves (csr_list (hv_csr (view d))) ph m \<Longrightarrow> savable ph m \<Longrightarrow>
        sha_config (hv_cfg (view d)) \<Longrightarrow> hcr_mode (hv_cfg (view d)) = mac_phase ph \<Longrightarrow> hv_runs (view d) ph m"
    and din: "dev d \<Longrightarrow> hv_runs (view d) ph m \<Longrightarrow> length m mod 4 = 0 \<Longrightarrow> (\<forall>x. ph \<noteq> HashDone x) \<Longrightarrow>
        (key_phase ph \<longrightarrow> length m < 64) \<Longrightarrow>
        dev (h_w_din hw w d) \<and> hv_runs (view (h_w_din hw w d)) ph (m @ u32_to_be w)"
    and sr_read: "dev d \<Longrightarrow> \<exists>s d'. h_r_sr hw d = (s, d') \<and> dev d' \<and> view d' = view d
        \<and> (hsr_busy s \<longrightarrow> polls d' < polls d)
        \<and> ((\<exists>x. hv_runs (view d) (HashDone x) []) \<and> \<not> hsr_dcis s \<longrightarrow> polls d' < polls d)
        \<and> ((\<exists>k. hv_runs (view d) (MacText k) [] \<or> (\<exists>t. hv_runs (view d) (MacOuter k t) [])) \<and> \<not> hsr_dinis s \<longrightarrow> polls d' < polls d)
        \<and> (\<forall>ph m. hv_runs (view d) ph m \<longrightarrow> savable ph m \<longrightarrow> hsr_nbwe s = (if m = [] then 17 else 16))"
    and hr_read: "dev d \<Longrightarrow> hv_runs (view d) (HashDone x) [] \<Longrightarrow> i < 8 \<Longrightarrow>
        \<exists>d'. h_r_hr hw i d = (u32_from_be (take 4 (drop (4 * i) x)), d') \<and> dev d' \<and> view d' = view d"
begin

lemma poll_ends:
  assumes "\<And>d. dev d \<Longrightarrow> view d = v \<Longrightarrow> \<exists>b d'. c d = (b, d') \<and> dev d' \<and> view d' = v \<and> (\<not> b \<longrightarrow> polls d' < polls d)"
  shows "dev d \<Longrightarrow> view d = v \<Longrightarrow> \<exists>d'. poll_set c d = Some d' \<and> dev d' \<and> view d' = v"
proof (induction "polls d" arbitrary: d rule: less_induct)
  case less
  obtain b d' where b: "c d = (b, d')" "dev d'" "view d' = v" "\<not> b \<longrightarrow> polls d' < polls d" using assms [OF less.prems] by blast
  show ?case
  proof (cases b)
    case True
    with b show ?thesis by (subst poll_set.simps) simp
  next
    case False
    with b less.hyps [of d'] show ?thesis by (subst poll_set.simps) simp
  qed
qed

lemma wait_init_clear_law: "dev d \<Longrightarrow> \<exists>d'. wait_init_clear hw d = Some d' \<and> dev d' \<and> view d' = view d"
  unfolding wait_init_clear_def by (rule poll_ends) (use cr_read in \<open>fastforce\<close>)+

lemma wait_not_busy_law: "dev d \<Longrightarrow> \<exists>d'. wait_not_busy hw d = Some d' \<and> dev d' \<and> view d' = view d"
proof -
  assume d: "dev d"
  have "\<exists>b d'. (let (s, d) = h_r_sr hw x in (\<not> hsr_busy s, d)) = (b, d') \<and> dev d' \<and> view d' = view d \<and> (\<not> b \<longrightarrow> polls d' < polls x)"
    if "dev x" "view x = view d" for x using sr_read [OF that(1)] that(2) by (elim exE conjE) simp
  from poll_ends [OF this d refl] show ?thesis by (simp add: wait_not_busy_def)
qed

lemma wait_dcis_law:
  "dev d \<Longrightarrow> hv_runs (view d) (HashDone x) [] \<Longrightarrow> \<exists>d'. wait_dcis hw d = Some d' \<and> dev d' \<and> view d' = view d"
proof -
  assume d: "dev d" "hv_runs (view d) (HashDone x) []"
  have "\<exists>b d'. (let (s, d) = h_r_sr hw y in (hsr_dcis s, d)) = (b, d') \<and> dev d' \<and> view d' = view d \<and> (\<not> b \<longrightarrow> polls d' < polls y)"
    if "dev y" "view y = view d" for y using sr_read [OF that(1)] that(2) d(2) by (elim exE conjE) auto
  from poll_ends [OF this d(1) refl] show ?thesis by (simp add: wait_dcis_def)
qed

lemma wait_dinis_law:
  assumes "dev d" "hv_runs (view d) (MacText k) [] \<or> hv_runs (view d) (MacOuter k t) []"
  shows "\<exists>d'. wait_dinis hw d = Some d' \<and> dev d' \<and> view d' = view d"
proof -
  have "\<exists>b d'. (let (s, d) = h_r_sr hw y in (hsr_dinis s, d)) = (b, d') \<and> dev d' \<and> view d' = view d \<and> (\<not> b \<longrightarrow> polls d' < polls y)"
    if "dev y" "view y = view d" for y using sr_read [OF that(1)] that(2) assms(2) by (elim exE conjE) auto
  from poll_ends [OF this assms(1) refl] show ?thesis by (simp add: wait_dinis_def)
qed

lemma wait_busy_law:
  "dev d \<Longrightarrow> hv_runs (view d) (HashDone x) [] \<Longrightarrow> \<exists>d'. wait_busy hw d = Some d' \<and> dev d' \<and> view d' = view d"
  using wait_not_busy_law [of d] wait_dcis_law by (fastforce simp: wait_busy_def)

lemma csr_write_law:
  "dev d \<Longrightarrow> hv_loading (view d) \<Longrightarrow> set is \<subseteq> {..<CSR_REGS_LEN} \<Longrightarrow>
   dev (csr_write_loop hw csr is d) \<and> hv_loading (view (csr_write_loop hw csr is d))
   \<and> hv_cfg (view (csr_write_loop hw csr is d)) = hv_cfg (view d)
   \<and> (\<forall>i. hv_csr (view (csr_write_loop hw csr is d)) i = (if i \<in> set is then csr ! i else hv_csr (view d) i))"
proof (induction "is" arbitrary: d)
  case (Cons i "is")
  have i: "i < CSR_REGS_LEN" "set is \<subseteq> {..<CSR_REGS_LEN}" using Cons.prems(3) by auto
  note w = csr_write [OF Cons.prems(1) i(1) Cons.prems(2), of "csr ! i"]
  from Cons.IH [of "h_w_csr hw i (csr ! i) d"] w i(2) show ?case by auto
qed simp

lemma csr_read_law:
  "dev d \<Longrightarrow> view d = v \<Longrightarrow> set is \<subseteq> {..<CSR_REGS_LEN} \<Longrightarrow>
   \<exists>d'. csr_read_loop hw is d = (map (hv_csr v) is, d') \<and> dev d' \<and> view d' = v"
proof (induction "is" arbitrary: d)
  case (Cons i "is")
  then have i: "i < CSR_REGS_LEN" "set is \<subseteq> {..<CSR_REGS_LEN}" by auto
  obtain d1 where 1: "h_r_csr hw i d = (hv_csr v i, d1)" "dev d1" "view d1 = v" using csr_read [OF Cons.prems(1) i(1)] Cons.prems(2) by auto
  obtain d2 where "csr_read_loop hw is d1 = (map (hv_csr v) is, d2)" "dev d2" "view d2 = v" using Cons.IH [OF 1(2,3) i(2)] by blast
  with 1 show ?case by simp
qed simp

lemma restore_with_law:
  assumes "dev d" "context_of saves ctx ph m" "sha_config c" "hcr_mode c = mac_phase ph"
  shows "\<exists>d'. restore_with hw c ctx d = Some d' \<and> dev d' \<and> hv_runs (view d') ph m"
proof -
  have ctx: "length (cx_csr ctx) = CSR_REGS_LEN" "\<not> hstr_dcal (cx_str ctx)" "savable ph m" "saves (cx_csr ctx) ph m"
    using assms(2) by (auto simp: context_of_def)
  have st: "cx_str ctx = \<lparr> hstr_nblw = hstr_nblw (cx_str ctx), hstr_dcal = False \<rparr>" using ctx(2) by simp
  define d1 where "d1 = h_w_str hw (cx_str ctx) (h_w_imr hw (cx_imr ctx) (h_w_cr hw hash_cr_default d))"
  have 1: "dev d1" unfolding d1_def using cr_write [OF assms(1)] imr_write nblw_write by (subst st) blast
  define d2 where "d2 = h_w_cr hw c d1"
  have 2: "dev d2" "hv_cfg (view d2) = c" using cr_write [OF 1] by (simp_all add: d2_def)
  obtain b d3 where 3: "h_r_cr hw d2 = (c\<lparr> hcr_init := b \<rparr>, d3)" "dev d3" using cr_read [OF 2(1)] 2(2) by auto
  define c' where "c' = c\<lparr> hcr_init := True \<rparr>"
  have c': "sha_config c'" "hcr_init c'" "hcr_mode c' = mac_phase ph" using assms(3,4) by (simp_all add: c'_def sha_config_def)
  define d4 where "d4 = h_w_cr hw c' d3"
  have 4: "dev d4" "hv_cfg (view d4) = c'" "hv_loading (view d4)"
    using cr_write [OF 3(2)] cr_init [OF 3(2) c'(1,2)] by (simp_all add: d4_def)
  obtain d5 where 5: "wait_init_clear hw d4 = Some d5" "dev d5" "view d5 = view d4" using wait_init_clear_law [OF 4(1)] by blast
  define d6 where "d6 = csr_write_loop hw (cx_csr ctx) [0..<CSR_REGS_LEN] d5"
  have 6: "dev d6" "hv_loading (view d6)" "hv_cfg (view d6) = c'"
    "\<forall>i. hv_csr (view d6) i = (if i \<in> set [0..<CSR_REGS_LEN] then cx_csr ctx ! i else hv_csr (view d5) i)"
    using csr_write_law [of d5 "[0..<CSR_REGS_LEN]" "cx_csr ctx", OF 5(2) _ csr_range] 5(3) 4 unfolding d6_def by simp_all
  have "csr_list (hv_csr (view d6)) = map ((!) (cx_csr ctx)) [0..<CSR_REGS_LEN]"
    unfolding csr_list_def using 6(4) by (intro map_cong refl) simp
  also have "\<dots> = cx_csr ctx" using list_of_length [OF ctx(1)] by simp
  finally have "hv_runs (view d6) ph m" using loaded [OF 6(1,2) _ ctx(3)] ctx(4) 6(3) c' by simp
  moreover have "hash_m_init hw d2 = d4" using 3 by (simp add: hash_m_init_def d4_def c'_def)
  ultimately show ?thesis using 5 6(1) by (simp add: restore_with_def d6_def d2_def d1_def)
qed

lemma read_context_law:
  assumes "dev d" "hv_runs (view d) ph m" "savable ph m"
  shows "\<exists>ctx d'. read_context hw d = Some (ctx, d') \<and> dev d' \<and> view d' = view d \<and> context_of saves ctx ph m"
proof -
  obtain d1 where 1: "wait_not_busy hw d = Some d1" "dev d1" "view d1 = view d" using wait_not_busy_law [OF assms(1)] by blast
  obtain w d2 where 2: "h_r_imr hw d1 = (w, d2)" "dev d2" "view d2 = view d" using imr_read [OF 1(2)] 1(3) by auto
  obtain d3 where 3: "h_r_str hw d2 = (\<lparr> hstr_nblw = hv_nblw (view d), hstr_dcal = False \<rparr>, d3)" "dev d3" "view d3 = view d"
    using str_read [OF 2(2)] 2(3) by auto
  obtain d4 where 4: "csr_read_loop hw [0..<CSR_REGS_LEN] d3 = (csr_list (hv_csr (view d)), d4)" "dev d4" "view d4 = view d"
    using csr_read_law [OF 3(2,3) csr_range] by (auto simp: csr_list_def)
  show ?thesis using 1 2 3 4 saved [OF assms] assms(3) by (simp add: read_context_def context_of_def csr_list_def)
qed

lemma din_words_law:
  "dev d \<Longrightarrow> hv_runs (view d) ph m \<Longrightarrow> length m mod 4 = 0 \<Longrightarrow> \<forall>x. ph \<noteq> HashDone x \<Longrightarrow> \<forall>c \<in> set cs. length c = 4 \<Longrightarrow>
   (key_phase ph \<longrightarrow> length m + 4 * length cs \<le> 64) \<Longrightarrow>
   dev (din_words hw cs d) \<and> hv_runs (view (din_words hw cs d)) ph (m @ concat cs)"
proof (induction cs arbitrary: d m)
  case (Cons c cs)
  have k: "key_phase ph \<longrightarrow> length m < 64" using Cons.prems(6) by auto
  have c: "length c = 4" using Cons.prems(5) by simp
  note w = din [OF Cons.prems(1-4) k, of "u32_from_be c"]
  show ?case using Cons.IH [of "h_w_din hw (u32_from_be c) d" "m @ c"] w Cons.prems(3-6) c by (simp add: u32_to_be_from_be mod_add_left_eq [symmetric])
qed simp

lemma din_padded_law:
  "dev d \<Longrightarrow> hv_runs (view d) ph m \<Longrightarrow> length m mod 4 = 0 \<Longrightarrow> \<forall>x. ph \<noteq> HashDone x \<Longrightarrow> \<not> key_phase ph \<Longrightarrow>
   \<exists>p d'. din_padded hw (word_chunks r) d = Some d' \<and> dev d' \<and> hv_runs (view d') ph (m @ p)
     \<and> length p = (length r + 3) div 4 * 4 \<and> take (length r) p = r"
proof (induction r arbitrary: d m rule: word_chunks.induct)
  case 1
  then show ?case by (intro exI [of _ "[]"]) simp
next
  case (2 x xs)
  define c where "c = take 4 (x # xs)"
  define w where "w = c @ replicate (4 - length c) 0"
  have lc: "length c \<le> 4" "length w = 4" by (simp_all add: c_def w_def)
  have cp: "copy_at (replicate WORD_SIZE 0) 0 c = Some w" using lc by (simp add: copy_at_def WORD_SIZE_def w_def)
  define d1 where "d1 = h_w_din hw (u32_from_be w) d"
  have 1: "dev d1" "hv_runs (view d1) ph (m @ w)" "length (m @ w) mod 4 = 0"
    using din [OF 2(2,3,4,5), of "u32_from_be w"] 2(4,6) lc by (simp_all add: d1_def u32_to_be_from_be mod_add_left_eq [symmetric])
  obtain p d' where 2: "din_padded hw (word_chunks (drop 3 xs)) d1 = Some d'" "dev d'" "hv_runs (view d') ph ((m @ w) @ p)"
      "length p = (length (drop 3 xs) + 3) div 4 * 4" "take (length (drop 3 xs)) p = drop 3 xs"
    using 2(1) [OF 1 2(5,6)] by blast
  have "din_padded hw (word_chunks (x # xs)) d = Some d'" using 2(1) cp
    by (simp only: word_chunks.simps din_padded.simps c_def [symmetric] bind.bind_lunit d1_def [symmetric])
  moreover have "length (w @ p) = (length (x # xs) + 3) div 4 * 4"
  proof (cases "length xs \<le> 3")
    case True
    then have "(length (x # xs) + 3) div 4 = 1" "length p = 0" using 2(4) by simp_all
    then show ?thesis using lc by simp
  next
    case False
    then have "length (x # xs) + 3 = (length (drop 3 xs) + 3) + 4" by simp
    then have "(length (x # xs) + 3) div 4 = (length (drop 3 xs) + 3) div 4 + 1" by (simp only: div_add_self2)
    then show ?thesis using lc 2(4) by simp
  qed
  moreover have "take (length (x # xs)) (w @ p) = x # xs"
  proof (cases "length xs \<le> 3")
    case True
    then show ?thesis by (simp add: w_def c_def 2(4))
  next
    case False
    then have w: "w = x # take 3 xs" by (simp add: w_def c_def)
    have "length (x # xs) = length w + length (drop 3 xs)" using False by (simp add: w)
    then have "take (length (x # xs)) (w @ p) = w @ drop 3 xs" using 2(5) by simp
    then show ?thesis by (simp add: w)
  qed
  ultimately show ?case using 2(2,3) by (intro exI [of _ "w @ p"] exI [of _ d']) simp
qed

text \<open>A rest and the start of the calculation, as \<open>finalize\<close> does it.\<close>

lemma rest_law:
  assumes "dev d" "hv_runs (view d) ph m" "length m mod 4 = 0" "\<forall>x. ph \<noteq> HashDone x" "\<not> key_phase ph"
  shows "\<exists>d1. din_padded hw (word_chunks r) d = Some d1
    \<and> dev (write_dcal hw (write_nblw hw (length r mod WORD_SIZE * 8) d1))
    \<and> hv_runs (view (write_dcal hw (write_nblw hw (length r mod WORD_SIZE * 8) d1))) (dcal_step ph (m @ r)) []"
proof -
  obtain p d1 where 1: "din_padded hw (word_chunks r) d = Some d1" "dev d1" "hv_runs (view d1) ph (m @ p)"
      "length p = (length r + 3) div 4 * 4" "take (length r) p = r" using din_padded_law [OF assms] by blast
  define b where "b = length r mod 4 * 8"
  define d2 where "d2 = write_nblw hw (length r mod WORD_SIZE * 8) d1"
  have 2: "dev d2" "hv_runs (view d2) ph (m @ p)" "hv_nblw (view d2) = b"
    using nblw_write [OF 1(2), of b] 1(3) by (simp_all add: d2_def write_nblw_def b_def WORD_SIZE_def)
  have "length r mod 4 \<in> {0, 1, 2, 3}" by (simp, presburger)
  then have b: "b \<in> {0, 8, 16, 24}" unfolding b_def by auto
  have lm: "length (m @ p) mod 4 = 0" using assms(3) 1(4) by (simp add: mod_add_left_eq [symmetric])
  have nz: "b \<noteq> 0 \<longrightarrow> m @ p \<noteq> []" using 1(4) by (cases r) (auto simp: b_def)
  have "last_bits b (m @ p) = m @ r" unfolding b_def by (rule last_bits_padded [OF 1(4,5)])
  with dcal_write [OF 2 b lm nz, of 0] assms(5) 1(1) show ?thesis by (simp add: write_dcal_def d2_def)
qed

text \<open>The digest.\<close>

lemma hr_read_law:
  "dev d \<Longrightarrow> hv_runs (view d) (HashDone x) [] \<Longrightarrow> set is \<subseteq> {..<8} \<Longrightarrow>
   \<exists>d'. hr_read_loop hw is d = (map (\<lambda>i. u32_from_be (take 4 (drop (4 * i) x))) is, d') \<and> dev d'"
proof (induction "is" arbitrary: d)
  case (Cons i "is")
  then have i: "i < 8" "set is \<subseteq> {..<8}" by auto
  obtain d1 where 1: "h_r_hr hw i d = (u32_from_be (take 4 (drop (4 * i) x)), d1)" "dev d1" "view d1 = view d"
    using hr_read [OF Cons.prems(1,2) i(1)] by blast
  then obtain d2 where "hr_read_loop hw is d1 = (map (\<lambda>i. u32_from_be (take 4 (drop (4 * i) x))) is, d2)" "dev d2"
    using Cons.IH [of d1] Cons.prems(2) i(2) by auto
  with 1 show ?case by simp
qed simp

lemma digest_law:
  assumes "dev d" "hv_runs (view d) (HashDone x) []" "length x = 32"
  shows "\<exists>ws d1 d'. wait_busy hw d = Some d1 \<and> read_digest hw d1 = (ws, d') \<and> dev d'
    \<and> digest_bytes 0 ws (replicate 32 0) = Some x"
proof -
  obtain d1 where 1: "wait_busy hw d = Some d1" "dev d1" "view d1 = view d" using wait_busy_law [OF assms(1,2)] by blast
  define ws where "ws = map (\<lambda>i. u32_from_be (take 4 (drop (4 * i) x))) [0..<8]"
  obtain d2 where 2: "read_digest hw d1 = (ws, d2)" "dev d2"
    using hr_read_law [OF 1(2), of x "[0..<8]"] 1(3) assms(2) unfolding read_digest_def ws_def by (auto simp del: set_upt simp: upt_0_8)
  have "words_be ws = x" unfolding ws_def using words_be_of_bytes [of x 8] assms(3) by simp
  then have "digest_bytes 0 ws (replicate 32 0) = Some x" using digest_bytes_eq [of "replicate 32 0" 0 ws] by (simp add: ws_def)
  with 1 2 show ?thesis by blast
qed

end

section \<open>The plumbing contract\<close>

text \<open>The state of a hash in progress: no context before the first chunk.\<close>

definition stm_absorbed :: "(u32 list \<Rightarrow> hphase \<Rightarrow> bytes \<Rightarrow> bool) \<Rightarrow> stm_hash_state \<Rightarrow> bytes \<Rightarrow> bool" where
  "stm_absorbed saves s m \<longleftrightarrow> (case hst_context s of None \<Rightarrow> m = [] | Some ctx \<Rightarrow> context_of saves ctx HashMsg m)"

context stm_hasher
begin

lemma init_law:
  assumes "dev d" "sha_config c" "hcr_init c"
  shows "\<exists>d'. wait_init_clear hw (h_w_cr hw c d) = Some d' \<and> dev d'
    \<and> hv_runs (view d') (if hcr_mode c then MacKey else HashMsg) []"
  using wait_init_clear_law [of "h_w_cr hw c d"] cr_write [OF assms(1)] cr_init [OF assms] by auto

lemma reinit_law:
  assumes "dev d" "stm_absorbed saves s m"
  shows "\<exists>d'. reinit_and_restore hw (hst_context s) d = Some d' \<and> dev d' \<and> hv_runs (view d') HashMsg m"
proof -
  obtain d1 where 1: "wait_init_clear hw (h_w_cr hw (hash_cr_default\<lparr> hcr_init := True \<rparr>) d) = Some d1" "dev d1"
    using wait_init_clear_law [of "h_w_cr hw (hash_cr_default\<lparr> hcr_init := True \<rparr>) d"] cr_write [OF assms(1)] by blast
  define d2 where "d2 = configure_and_reset_context hw d1"
  have 2: "dev d2" "hv_runs (view d2) HashMsg []"
    using cr_write [OF 1(2)] cr_init [OF 1(2), of "hash_cr_default\<lparr> hcr_algo := 3, hcr_init := True \<rparr>"]
    by (simp_all add: d2_def configure_and_reset_context_def sha_config_def hash_cr_default_def)
  have r: "reinit_and_restore hw (hst_context s) d = (case hst_context s of Some ctx \<Rightarrow> restore_context hw ctx d2 | None \<Rightarrow> Some d2)"
    using 1(1) unfolding reinit_and_restore_def d2_def Let_def by simp
  show ?thesis
  proof (cases "hst_context s")
    case None
    then show ?thesis using assms(2) 2 r by (simp add: stm_absorbed_def)
  next
    case (Some ctx)
    then have "context_of saves ctx HashMsg m" using assms(2) by (simp add: stm_absorbed_def)
    from restore_with_law [OF 2(1) this, of "mac_cr False"] show ?thesis
      by (simp add: r [unfolded Some option.case] Some restore_context_with mac_cr_def sha_config_def hash_cr_default_def)
  qed
qed

lemma sha_update_law:
  assumes "dev d" "stm_absorbed saves s m" "length m mod 4 = 0" "length (m @ data) mod 64 = 4"
  shows "\<exists>s' d'. stm_sha_update False hw s data d = Some (s', d') \<and> dev d' \<and> stm_absorbed saves s' (m @ data)
    \<and> hv_runs (view d') HashMsg (m @ data)"
proof -
  obtain d1 where 1: "reinit_and_restore hw (hst_context s) d = Some d1" "dev d1" "hv_runs (view d1) HashMsg m"
    using reinit_law [OF assms(1,2)] by blast
  have "length data mod 4 = 0" using assms(3) mod_64_4 [OF assms(4)] by (metis add_0 length_append mod_add_left_eq)
  then have cw: "concat (whole_words data) = data" by (rule concat_whole_words)
  define d2 where "d2 = din_words hw (whole_words data) d1"
  have 2: "dev d2" "hv_runs (view d2) HashMsg (m @ data)"
    using din_words_law [OF 1(2,3) assms(3), of "whole_words data"] whole_words_length cw by (auto simp: d2_def key_phase_def)
  have "savable HashMsg (m @ data)" using assms(4) by (simp add: savable_def)
  from read_context_law [OF 2 this] obtain ctx d3 where "read_context hw d2 = Some (ctx, d3)" "dev d3" "view d3 = view d2"
    "context_of saves ctx HashMsg (m @ data)" by blast
  with 1(1) 2 show ?thesis by (simp add: stm_sha_update_def save_context_def d2_def stm_absorbed_def)
qed

lemma sha_finalize_law:
  assumes "dev d" "stm_absorbed saves s m" "length m mod 4 = 0"
  shows "\<exists>d'. stm_sha_finalize hw s rest (replicate 32 0) d = Some (sha256 (m @ rest), d') \<and> dev d'"
proof -
  obtain d1 where 1: "reinit_and_restore hw (hst_context s) d = Some d1" "dev d1" "hv_runs (view d1) HashMsg m"
    using reinit_law [OF assms(1,2)] by blast
  define f where "f d = write_dcal hw (write_nblw hw (length rest mod WORD_SIZE * 8) d)" for d
  obtain d2 where 2: "din_padded hw (word_chunks rest) d1 = Some d2" "dev (f d2)" "hv_runs (view (f d2)) (HashDone (sha256 (m @ rest))) []"
    using rest_law [OF 1(2,3) assms(3), of rest] by (auto simp: key_phase_def f_def)
  obtain ws d3 d4 where 3: "wait_busy hw (f d2) = Some d3" "read_digest hw d3 = (ws, d4)" "dev d4"
    "digest_bytes 0 ws (replicate 32 0) = Some (sha256 (m @ rest))" using digest_law [OF 2(2,3)] by auto
  show ?thesis using 1(1) 2(1) 3 by (simp add: stm_sha_finalize_def f_def Let_def)
qed

lemma stm_sha2_contract: "sha2short_contract (stm_sha2 False hw) dev (\<lambda>s m. stm_absorbed saves s m) sha256"
proof
  fix d :: 'd and s m and data rest :: bytes
  show "FIRST_CHUNK_SIZE (stm_sha2 False hw) \<le> HASH_WRAPPER_MAX_BLOCKSIZE"
    by (simp add: stm_sha2_def HASH_WRAPPER_MAX_BLOCKSIZE_def)
  show "length (sha256 m) = 32" for m by simp
  assume d: "dev d"
  show "\<exists>s d'. s2_init (stm_sha2 False hw) Sha256 d = Some (s, d') \<and> dev d' \<and> stm_absorbed saves s []"
    using d by (simp add: stm_sha2_def stm_sha_init_def stm_absorbed_def)
  assume ab: "stm_absorbed saves s m"
  then have m: "m = [] \<or> length m mod 64 = 4" by (auto simp: stm_absorbed_def context_of_def savable_def split: option.splits)
  then have m4: "length m mod 4 = 0" using mod_64_4 by auto
  show "\<exists>s' d'. s2_update (stm_sha2 False hw) s data d = Some (s', d') \<and> dev d' \<and> stm_absorbed saves s' (m @ data)"
    if "chunk_ok (FIRST_CHUNK_SIZE (stm_sha2 False hw)) (length m) (length data)"
  proof -
    have "length (m @ data) mod 64 = 4" using m that
      by (auto simp: chunk_ok_def stm_sha2_def SHA2SHORT_BLOCK_SIZE_def split: if_splits)
    from sha_update_law [OF d ab m4 this] show ?thesis by (auto simp: stm_sha2_def)
  qed
  show "\<exists>d'. s2_finalize (stm_sha2 False hw) s rest (replicate 32 0) d = Some (sha256 (m @ rest), d') \<and> dev d'"
    using sha_finalize_law [OF d ab m4] by (simp add: stm_sha2_def)
qed (simp_all add: stm_sha2_def)

end

end


