(* ===== verification/Sim_Hash.thy ===== *)
theory Sim_Hash
  imports Stm_Hasher
begin

text \<open>
  A model of the HASH peripheral that keeps the laws of \<open>stm_hasher\<close>: a finite core that compresses a block
  once the next word arrives, whose state the context registers expose, and status flags that answer
  after a delay.
\<close>

section \<open>The core\<close>

datatype sim_phase = SimMsg | SimKey | SimText | SimOuter bytes | SimDone bytes

text \<open>\<open>hc_h\<close> is the chaining value after the \<open>hc_len\<close> compressed bytes, modulo the 64 bits of the length counter,
  and \<open>hc_pend\<close> the words waiting.\<close>

record hash_core =
  hc_phase :: sim_phase
  hc_h :: "u32 list"
  hc_pend :: bytes
  hc_len :: nat

definition core_done :: "hash_core \<Rightarrow> bytes \<Rightarrow> bytes \<Rightarrow> bytes \<Rightarrow> bool" where
  "core_done c pre m dn \<longleftrightarrow> m = dn @ hc_pend c \<and> length (pre @ dn) mod 64 = 0
     \<and> length (hc_pend c) \<le> 64 \<and> length (hc_pend c) mod 4 = 0 \<and> (hc_pend c = [] \<longrightarrow> dn = [])
     \<and> hc_h c = sha256_blocks (pre @ dn) \<and> hc_len c mod 2 ^ 64 = length (pre @ dn) mod 2 ^ 64"

definition core_abs :: "hash_core \<Rightarrow> bytes \<Rightarrow> bytes \<Rightarrow> bool" where
  "core_abs c pre m \<longleftrightarrow> (\<exists>dn. core_done c pre m dn)"

fun core_runs :: "hash_core \<Rightarrow> hphase \<Rightarrow> bytes \<Rightarrow> bool" where
  "core_runs c HashMsg m = (hc_phase c = SimMsg \<and> core_abs c [] m)"
| "core_runs c MacKey m = (hc_phase c = SimKey \<and> hc_pend c = m)"
| "core_runs c (MacText k) m = (hc_phase c = SimText \<and> length k = 64 \<and> core_abs c (ipad k) m)"
| "core_runs c (MacOuter k t) m = (hc_phase c = SimOuter (sha256 (ipad k @ t)) \<and> hc_pend c = m)"
| "core_runs c (HashDone x) m = (hc_phase c = SimDone x \<and> m = [])"

text \<open>A word, and the last bits with the padding.\<close>

definition core_din :: "u32 \<Rightarrow> hash_core \<Rightarrow> hash_core" where
  "core_din w c =
     (if hc_phase c \<in> {SimMsg, SimText} \<and> length (hc_pend c) = 64
      then c\<lparr> hc_h := sha256_compress (hc_h c) (hc_pend c), hc_pend := u32_to_be w, hc_len := (hc_len c + 64) mod 2 ^ 64 \<rparr>
      else c\<lparr> hc_pend := hc_pend c @ u32_to_be w \<rparr>)"

definition core_digest :: "nat \<Rightarrow> hash_core \<Rightarrow> bytes" where
  "core_digest b c =
     (let p = last_bits b (hc_pend c);
          q = p @ sha256_pad (hc_len c + length p)
      in words_be (foldl sha256_compress (hc_h c) (blocks64 (length q div 64) q)))"

definition core_dcal :: "nat \<Rightarrow> hash_core \<Rightarrow> hash_core" where
  "core_dcal b c =
     (case hc_phase c of
        SimMsg \<Rightarrow> c\<lparr> hc_phase := SimDone (core_digest b c) \<rparr>
      | SimKey \<Rightarrow> c\<lparr> hc_phase := SimText, hc_h := sha256_compress sha256_init (ipad (hc_pend c)), hc_pend := [], hc_len := 64 \<rparr>
      | SimText \<Rightarrow> c\<lparr> hc_phase := SimOuter (core_digest b c), hc_pend := [] \<rparr>
      | SimOuter x \<Rightarrow> c\<lparr> hc_phase := SimDone (sha256 (opad (hc_pend c) @ x)) \<rparr>
      | SimDone x \<Rightarrow> c)"

definition core_start :: "bool \<Rightarrow> hash_core" where
  "core_start mac = \<lparr> hc_phase = (if mac then SimKey else SimMsg), hc_h = sha256_init, hc_pend = [], hc_len = 0 \<rparr>"

text \<open>The context registers.\<close>

definition core_csr :: "hash_core \<Rightarrow> nat \<Rightarrow> u32" where
  "core_csr c i =
     (if i < 8 then hc_h c ! i
      else if i = 8 then (if hc_pend c = [] then 0 else u32_from_be (take 4 (hc_pend c)))
      else if i = 9 then (if hc_pend c = [] then 0 else 1)
      else if i = 10 then of_nat (hc_len c)
      else if i = 11 then of_nat (hc_len c div 2 ^ 32)
      else if i = 12 then (if hc_phase c = SimText then 1 else 0)
      else 0)"

definition core_load :: "bool \<Rightarrow> (nat \<Rightarrow> u32) \<Rightarrow> hash_core" where
  "core_load mac r =
     \<lparr> hc_phase = (if r 12 = 1 then SimText else if mac then SimKey else SimMsg), hc_h = map r [0..<8],
       hc_pend = (if r 9 = 0 then [] else u32_to_be (r 8)), hc_len = unat (r 10) + 2 ^ 32 * unat (r 11) \<rparr>"

section \<open>What the core computes\<close>

lemma sha256_blocks_append:
  assumes "length a mod 64 = 0"
  shows "sha256_blocks (a @ b) = foldl sha256_compress (sha256_blocks a) (blocks64 (length b div 64) b)"
proof -
  have n: "length a = 64 * (length a div 64)" using assms by auto
  have "length (a @ b) div 64 = length a div 64 + length b div 64" using assms by (simp add: div_add1_eq)
  then show ?thesis using blocks64_append [OF n, of "length b div 64" b] by (simp add: sha256_blocks_def)
qed

lemma sha256_pad_cong:
  assumes "a mod 2 ^ 64 = b mod (2 ^ 64 :: nat)"
  shows "sha256_pad a = sha256_pad b"
proof -
  have "a mod 64 = (a mod 2 ^ 64) mod 64" "b mod 64 = (b mod 2 ^ 64) mod 64"
    by (simp_all add: mod_mod_cancel)
  with assms have "pad_zeros a = pad_zeros b" by (simp add: pad_zeros_def)
  moreover have "be_bytes 8 (8 * a) = be_bytes 8 (8 * b)"
  proof (rule be_val_inj)
    have "(8 * a) mod 2 ^ 64 = (8 * b) mod 2 ^ 64" using mod_mult_cong [OF refl assms] .
    then show "be_val (be_bytes 8 (8 * a)) = be_val (be_bytes 8 (8 * b))" by (simp add: be_val_be_bytes)
  qed simp
  ultimately show ?thesis by (simp add: sha256_pad_def)
qed

lemma length_ipad [simp]: "length (ipad k) = length k" "length (opad k) = length k"
  by (simp_all add: ipad_def opad_def)

lemma core_digest_eq:
  assumes "core_abs c pre m" "b \<noteq> 0 \<longrightarrow> m \<noteq> []"
  shows "core_digest b c = sha256 (pre @ last_bits b m)"
proof -
  obtain dn where d: "core_done c pre m dn" using assms(1) by (auto simp: core_abs_def)
  have m: "m = dn @ hc_pend c" and dn: "length (pre @ dn) mod 64 = 0" "hc_pend c = [] \<longrightarrow> dn = []"
    and p4: "length (hc_pend c) mod 4 = 0"
    and h: "hc_h c = sha256_blocks (pre @ dn)" and len: "hc_len c mod 2 ^ 64 = length (pre @ dn) mod 2 ^ 64"
    using d unfolding core_done_def by blast+
  define p where "p = last_bits b (hc_pend c)"
  have lb: "last_bits b m = dn @ p"
  proof (cases "b = 0")
    case True
    then show ?thesis by (simp add: p_def last_bits_def m)
  next
    case False
    then have "hc_pend c \<noteq> []" using assms(2) dn(2) m by auto
    then have "4 \<le> length (hc_pend c)" using p4 by (cases "length (hc_pend c) < 4") simp_all
    then show ?thesis using False by (simp add: p_def last_bits_def m)
  qed
  have "(hc_len c + length p) mod 2 ^ 64 = length (pre @ dn @ p) mod 2 ^ 64"
    using len by (metis append_assoc length_append mod_add_left_eq)
  then have q: "sha256_pad (hc_len c + length p) = sha256_pad (length (pre @ dn @ p))" by (rule sha256_pad_cong)
  have "sha256 (pre @ last_bits b m) = words_be (sha256_blocks ((pre @ dn) @ (p @ sha256_pad (length (pre @ dn @ p)))))"
    by (simp add: sha256_def lb)
  also have "\<dots> = core_digest b c"
    by (simp only: sha256_blocks_append [OF dn(1)] core_digest_def Let_def p_def [symmetric] q h)
  finally show ?thesis by simp
qed

lemma u32_to_be_not_Nil: "u32_to_be w \<noteq> []"
  using length_u32_to_be [of w] by fastforce

lemma core_din_abs:
  assumes "core_abs c pre m" "hc_phase c \<in> {SimMsg, SimText}"
  shows "core_abs (core_din w c) pre (m @ u32_to_be w)"
proof -
  obtain dn where d: "core_done c pre m dn" using assms(1) by (auto simp: core_abs_def)
  show ?thesis
  proof (cases "length (hc_pend c) = 64")
    case True
    have "sha256_blocks ((pre @ dn) @ hc_pend c) = sha256_compress (hc_h c) (hc_pend c)"
      using d True sha256_blocks_snoc [of "pre @ dn" "hc_pend c"] by (simp add: core_done_def)
    moreover have "(hc_len c + 64) mod 2 ^ 64 = (length (pre @ dn) + 64) mod 2 ^ 64"
      using d mod_add_cong [OF _ refl, of "hc_len c" "2 ^ 64" "length (pre @ dn)" 64] by (simp add: core_done_def)
    moreover have "length (pre @ dn @ hc_pend c) mod 64 = 0" using d True by (simp add: core_done_def mod_simps add.assoc [symmetric])
    ultimately have "core_done (core_din w c) pre (m @ u32_to_be w) m"
      using d True assms(2) by (simp add: core_done_def core_din_def add.assoc u32_to_be_not_Nil)
    then show ?thesis by (auto simp: core_abs_def)
  next
    case False
    then have "length (hc_pend c) < 64" "length (hc_pend c) mod 4 = 0" using d by (simp_all add: core_done_def)
    then have "length (hc_pend c) + 4 \<le> 64" by presburger
    then have "core_done (core_din w c) pre (m @ u32_to_be w) dn"
      using d False by (simp add: core_done_def core_din_def)
    then show ?thesis by (auto simp: core_abs_def)
  qed
qed

lemma core_din_runs:
  assumes "core_runs c ph m" "\<forall>x. ph \<noteq> HashDone x" "key_phase ph \<longrightarrow> length m < 64"
  shows "core_runs (core_din w c) ph (m @ u32_to_be w)"
proof (cases ph)
  case HashMsg
  with assms(1) core_din_abs [of c "[]" m w] show ?thesis by (auto simp: core_din_def)
next
  case (MacText k)
  with assms(1) core_din_abs [of c "ipad k" m w] show ?thesis by (auto simp: core_din_def)
qed (use assms in \<open>auto simp: core_din_def key_phase_def\<close>)

lemma core_dcal_runs:
  assumes "core_runs c ph m" "b \<noteq> 0 \<longrightarrow> m \<noteq> []" "key_phase ph \<longrightarrow> b = 0 \<and> length m = 64"
  shows "core_runs (core_dcal b c) (dcal_step ph (last_bits b m)) []"
proof (cases ph)
  case HashMsg
  with assms core_digest_eq [of c "[]" m b] show ?thesis by (simp add: core_dcal_def)
next
  case MacKey
  then have b: "b = 0" "length m = 64" "hc_phase c = SimKey" "hc_pend c = m" using assms by (simp_all add: key_phase_def)
  have "sha256_blocks (ipad m) = sha256_compress sha256_init (ipad m)" using sha256_blocks_snoc [of "[]" "ipad m"] b by simp
  then have "core_done (core_dcal b c) (ipad m) [] []" using b by (simp add: core_done_def core_dcal_def)
  then show ?thesis using b MacKey by (auto simp: core_abs_def last_bits_def core_dcal_def)
next
  case (MacText k)
  with assms core_digest_eq [of c "ipad k" m b] show ?thesis by (simp add: core_dcal_def)
next
  case (MacOuter k t)
  with assms show ?thesis by (simp add: core_dcal_def key_phase_def last_bits_def)
next
  case (HashDone x)
  with assms show ?thesis by (simp add: core_dcal_def)
qed

lemma core_h_length:
  "length (hc_h c) = 8 \<Longrightarrow> length (hc_h (core_din w c)) = 8"
  "length (hc_h c) = 8 \<Longrightarrow> length (hc_h (core_dcal b c)) = 8"
  by (auto simp: core_din_def core_dcal_def length_sha256_compress sha256_init_def split: sim_phase.split)

text \<open>Saving and loading.\<close>

lemma core_load_start: "core_load mac (core_csr (core_start mac)) = core_start mac"
  by (simp add: core_load_def core_csr_def core_start_def sha256_init_def upt_0_8)

lemma core_load_abs:
  assumes "core_abs c pre m" "length (hc_h c) = 8" "length pre mod 64 = 0" "m = [] \<or> length m mod 64 = 4"
  shows "core_abs (core_load mac (core_csr c)) pre m"
proof -
  obtain dn where d: "core_done c pre m dn" using assms(1) by (auto simp: core_abs_def)
  have "length dn mod 64 = 0" using d assms(3) unfolding core_done_def by (metis add_0 length_append mod_add_left_eq)
  have "hc_pend c = [] \<or> length (hc_pend c) = 4"
  proof (cases "m = []")
    case True
    then show ?thesis using d by (simp add: core_done_def)
  next
    case False
    have "length (hc_pend c) mod 64 = length m mod 64" using d \<open>length dn mod 64 = 0\<close> unfolding core_done_def
      by (metis add_0 length_append mod_add_left_eq)
    moreover have "length (hc_pend c) \<le> 64" using d by (simp add: core_done_def)
    ultimately show ?thesis using False assms(4) by (cases "length (hc_pend c) = 64") auto
  qed
  then have p: "hc_pend (core_load mac (core_csr c)) = hc_pend c"
    by (auto simp: core_load_def core_csr_def u32_to_be_from_be)
  have h: "hc_h (core_load mac (core_csr c)) = hc_h c"
    using list_of_length [OF assms(2)] by (simp add: core_load_def core_csr_def upt_0_8)
  have "hc_len (core_load mac (core_csr c)) = hc_len c mod 2 ^ 32 + 2 ^ 32 * (hc_len c div 2 ^ 32 mod 2 ^ 32)"
    by (simp add: core_load_def core_csr_def unat_of_nat)
  also have "\<dots> = hc_len c mod (2 ^ 32 * 2 ^ 32)" by (simp only: mod_mult2_eq ac_simps)
  finally have l: "hc_len (core_load mac (core_csr c)) mod 2 ^ 64 = hc_len c mod 2 ^ 64" by simp
  have "core_done (core_load mac (core_csr c)) pre m dn" using d unfolding core_done_def p h l by blast
  then show ?thesis by (auto simp: core_abs_def)
qed

lemma core_load_runs:
  assumes "core_runs c ph m" "length (hc_h c) = 8" "savable ph m"
  shows "core_runs (core_load (mac_phase ph) (core_csr c)) ph m"
proof -
  have m: "m = [] \<or> length m mod 64 = 4" using assms(3) by (simp add: savable_def)
  consider "ph = HashMsg" | k where "ph = MacText k" using assms(3) by (auto simp: savable_def)
  then show ?thesis
  proof cases
    case 1
    have "hc_phase (core_load False (core_csr c)) = SimMsg" using assms(1) 1 by (simp add: core_load_def core_csr_def)
    with core_load_abs [OF _ assms(2) _ m, of "[]" False] assms(1) 1 show ?thesis by simp
  next
    case 2
    have "hc_phase (core_load True (core_csr c)) = SimText" using assms(1) 2 by (simp add: core_load_def core_csr_def)
    with core_load_abs [OF _ assms(2) _ m, of "ipad k" True] assms(1) 2 show ?thesis by simp
  qed
qed

lemma core_load_cong: "(\<And>i. i < 54 \<Longrightarrow> f i = g i) \<Longrightarrow> core_load mac f = core_load mac g"
  by (simp add: core_load_def)

section \<open>The registers\<close>

record sim_hash_regs =
  sh_cfg :: hash_cr
  sh_core :: hash_core
  sh_csr :: "nat \<Rightarrow> u32"
  sh_nblw :: nat
  sh_loading :: bool

type_synonym sim_hash_state = "sim_hash_regs \<times> nat"

definition sh_settle :: "hash_core \<Rightarrow> bool \<Rightarrow> sim_hash_regs \<Rightarrow> sim_hash_regs" where
  "sh_settle c l s = s\<lparr> sh_core := c, sh_csr := core_csr c, sh_loading := l \<rparr>"

definition sh_write_cr :: "hash_cr \<Rightarrow> sim_hash_regs \<Rightarrow> sim_hash_regs" where
  "sh_write_cr c s = sh_settle (if hcr_init c then core_start (hcr_mode c) else sh_core s) (hcr_init c) (s\<lparr> sh_cfg := c \<rparr>)"

definition sh_write_str :: "hash_str \<Rightarrow> sim_hash_regs \<Rightarrow> sim_hash_regs" where
  "sh_write_str v s = (if hstr_dcal v then sh_settle (core_dcal (sh_nblw s) (sh_core s)) False s else s\<lparr> sh_nblw := hstr_nblw v \<rparr>)"

definition sh_write_csr :: "nat \<Rightarrow> u32 \<Rightarrow> sim_hash_regs \<Rightarrow> sim_hash_regs" where
  "sh_write_csr i w s =
     (if sh_loading s then s\<lparr> sh_csr := (sh_csr s)(i := w), sh_core := core_load (hcr_mode (sh_cfg s)) ((sh_csr s)(i := w)) \<rparr> else s)"

definition sh_digest_word :: "nat \<Rightarrow> sim_hash_regs \<Rightarrow> u32" where
  "sh_digest_word i s = (case hc_phase (sh_core s) of SimDone x \<Rightarrow> u32_from_be (take 4 (drop (4 * i) x)) | _ \<Rightarrow> 0)"

text \<open>A status read while something is pending counts down.\<close>

definition sh_tick :: "(bool \<Rightarrow> 'a) \<Rightarrow> sim_hash_state \<Rightarrow> 'a \<times> sim_hash_state" where
  "sh_tick f s = (case s of (v, 0) \<Rightarrow> (f True, (v, 3)) | (v, Suc n) \<Rightarrow> (f False, (v, n)))"

definition sim_hash :: "sim_hash_state stm_hash" where
  "sim_hash =
     \<lparr> h_r_cr = (\<lambda>s. sh_tick (\<lambda>ready. (sh_cfg (fst s))\<lparr> hcr_init := \<not> ready \<rparr>) s), h_w_cr = (\<lambda>c (v, n). (sh_write_cr c v, n)),
       h_w_din = (\<lambda>w (v, n). (sh_settle (core_din w (sh_core v)) False v, n)),
       h_r_str = (\<lambda>s. (\<lparr> hstr_nblw = sh_nblw (fst s), hstr_dcal = False \<rparr>, s)), h_w_str = (\<lambda>x (v, n). (sh_write_str x v, n)),
       h_r_imr = (\<lambda>s. (0, s)), h_w_imr = (\<lambda>_ s. s),
       h_r_sr = (\<lambda>s. sh_tick (\<lambda>ready. \<lparr> hsr_nbwe = (if hc_pend (sh_core (fst s)) = [] then 17 else 16), hsr_busy = \<not> ready,
                    hsr_dcis = ready, hsr_dinis = ready \<rparr>) s),
       h_r_csr = (\<lambda>i s. (sh_csr (fst s) i, s)), h_w_csr = (\<lambda>i w (v, n). (sh_write_csr i w v, n)),
       h_r_hr = (\<lambda>i s. (sh_digest_word i (fst s), s)) \<rparr>"

definition sim_hash_view :: "sim_hash_state \<Rightarrow> hash_view" where
  "sim_hash_view s =
     \<lparr> hv_cfg = sh_cfg (fst s), hv_runs = core_runs (sh_core (fst s)), hv_csr = sh_csr (fst s), hv_nblw = sh_nblw (fst s),
       hv_loading = sh_loading (fst s) \<rparr>"

definition sim_hash_ok :: "sim_hash_state \<Rightarrow> bool" where
  "sim_hash_ok s \<longleftrightarrow> length (hc_h (sh_core (fst s))) = 8
     \<and> (if sh_loading (fst s) then sh_core (fst s) = core_load (hcr_mode (sh_cfg (fst s))) (sh_csr (fst s))
        else sh_csr (fst s) = core_csr (sh_core (fst s)))"

definition sim_saves :: "u32 list \<Rightarrow> hphase \<Rightarrow> bytes \<Rightarrow> bool" where
  "sim_saves ws ph m \<longleftrightarrow> core_runs (core_load (mac_phase ph) ((!) ws)) ph m"

lemma sh_tick_law: "\<exists>b d'. sh_tick f d = (f b, d') \<and> fst d' = fst d \<and> (\<not> b \<longrightarrow> snd d' < snd d)"
  by (cases d; cases "snd d") (auto simp: sh_tick_def)

lemma sim_hash_ok_settle: "length (hc_h c) = 8 \<Longrightarrow> sim_hash_ok (sh_settle c False v, n)"
  by (simp add: sim_hash_ok_def sh_settle_def)

lemma core_h_start [simp]: "length (hc_h (core_start mac)) = 8"
  by (simp add: core_start_def sha256_init_def)

lemma sim_hash_cr:
  assumes "sim_hash_ok (v, n)"
  shows "sim_hash_ok (sh_write_cr c v, n)" "sh_cfg (sh_write_cr c v) = c"
  using assms by (auto simp: sim_hash_ok_def sh_write_cr_def sh_settle_def core_load_start)

lemma sim_saves_csr:
  "core_runs (core_load (mac_phase ph) f) ph m \<longleftrightarrow> sim_saves (csr_list f) ph m"
  unfolding sim_saves_def by (subst core_load_cong [of f "(!) (csr_list f)"]) (simp_all add: csr_list_def CSR_REGS_LEN_def)

lemma core_runs_mode: "core_runs (core_load md f) ph m \<Longrightarrow> savable ph m \<Longrightarrow> core_runs (core_load (mac_phase ph) f) ph m"
  by (auto simp: savable_def core_load_def core_abs_def core_done_def split: if_splits)

lemma sim_hash_csr:
  assumes "sim_hash_ok (v, n)" "sh_loading v"
  shows "sim_hash_ok (sh_write_csr i w v, n)" "sh_csr (sh_write_csr i w v) = (sh_csr v)(i := w)"
    "sh_cfg (sh_write_csr i w v) = sh_cfg v" "sh_loading (sh_write_csr i w v)"
  using assms by (simp_all add: sim_hash_ok_def sh_write_csr_def core_load_def)

lemma sim_saved:
  assumes "sim_hash_ok d" "core_runs (sh_core (fst d)) ph m" "savable ph m"
  shows "sim_saves (csr_list (sh_csr (fst d))) ph m"
proof (cases "sh_loading (fst d)")
  case True
  with assms core_runs_mode show ?thesis by (simp add: sim_saves_csr [symmetric] sim_hash_ok_def)
next
  case False
  with assms core_load_runs show ?thesis by (simp add: sim_saves_csr [symmetric] sim_hash_ok_def)
qed

lemma sim_expected:
  "core_runs c ph m \<Longrightarrow> savable ph m \<Longrightarrow> (if hc_pend c = [] then 17 else 16) = (if m = [] then 17 else (16 :: nat))"
  by (auto simp: savable_def core_abs_def core_done_def)

text \<open>The laws of the writes.\<close>

lemma sim_init:
  "hcr_init c \<Longrightarrow> core_runs (sh_core (sh_write_cr c v)) (if hcr_mode c then MacKey else HashMsg) [] \<and> sh_loading (sh_write_cr c v)"
  by (simp add: sh_write_cr_def sh_settle_def core_start_def core_abs_def core_done_def)

lemma sim_loaded:
  assumes "sim_hash_ok d" "sh_loading (fst d)" "sim_saves (csr_list (sh_csr (fst d))) ph m" "hcr_mode (sh_cfg (fst d)) = mac_phase ph"
  shows "core_runs (sh_core (fst d)) ph m"
  using assms by (simp add: sim_hash_ok_def sim_saves_csr)

lemma view_sels [simp]:
  "hv_cfg (sim_hash_view d) = sh_cfg (fst d)" "hv_runs (sim_hash_view d) = core_runs (sh_core (fst d))"
  "hv_csr (sim_hash_view d) = sh_csr (fst d)" "hv_nblw (sim_hash_view d) = sh_nblw (fst d)"
  "hv_loading (sim_hash_view d) = sh_loading (fst d)"
  by (simp_all add: sim_hash_view_def)

lemma view_fst: "fst d' = fst d \<Longrightarrow> sim_hash_view d' = sim_hash_view d" "fst d' = fst d \<Longrightarrow> sim_hash_ok d' = sim_hash_ok d"
  by (simp_all add: sim_hash_view_def sim_hash_ok_def)

lemma sim_cr_read:
  "\<exists>b d'. h_r_cr sim_hash d = ((sh_cfg (fst d))\<lparr> hcr_init := b \<rparr>, d') \<and> fst d' = fst d \<and> (b \<longrightarrow> snd d' < snd d)"
  using sh_tick_law [of "\<lambda>ready. (sh_cfg (fst d))\<lparr> hcr_init := \<not> ready \<rparr>" d] by (fastforce simp: sim_hash_def)

lemma sim_sr_read:
  "\<exists>s d'. h_r_sr sim_hash d = (s, d') \<and> fst d' = fst d \<and> hsr_nbwe s = (if hc_pend (sh_core (fst d)) = [] then 17 else 16)
    \<and> (hsr_busy s \<longrightarrow> snd d' < snd d) \<and> (\<not> hsr_dcis s \<longrightarrow> snd d' < snd d) \<and> (\<not> hsr_dinis s \<longrightarrow> snd d' < snd d)"
  using sh_tick_law [of "\<lambda>ready. \<lparr> hsr_nbwe = (if hc_pend (sh_core (fst d)) = [] then 17 else 16), hsr_busy = \<not> ready,
                    hsr_dcis = ready, hsr_dinis = ready \<rparr>" d] by (fastforce simp: sim_hash_def)

lemma sim_dcal:
  assumes "sim_hash_ok d" "core_runs (sh_core (fst d)) ph m" "b = sh_nblw (fst d)" "b \<noteq> 0 \<longrightarrow> m \<noteq> []"
    "key_phase ph \<longrightarrow> b = 0 \<and> length m = 64"
  shows "sim_hash_ok (h_w_str sim_hash \<lparr> hstr_nblw = n, hstr_dcal = True \<rparr> d)"
    "core_runs (sh_core (fst (h_w_str sim_hash \<lparr> hstr_nblw = n, hstr_dcal = True \<rparr> d))) (dcal_step ph (last_bits b m)) []"
  using assms core_dcal_runs [OF assms(2,4,5)] core_h_length(2)
  by (simp_all add: sim_hash_def split_beta sh_write_str_def sim_hash_ok_settle sim_hash_ok_def [of d] sh_settle_def [of _ _ "fst d"])
    (simp add: sim_hash_ok_def)

lemma sim_din:
  assumes "sim_hash_ok d" "core_runs (sh_core (fst d)) ph m" "\<forall>x. ph \<noteq> HashDone x" "key_phase ph \<longrightarrow> length m < 64"
  shows "sim_hash_ok (h_w_din sim_hash w d)" "core_runs (sh_core (fst (h_w_din sim_hash w d))) ph (m @ u32_to_be w)"
  using assms core_din_runs [OF assms(2-4)] core_h_length(1)
  by (simp_all add: sim_hash_def split_beta sim_hash_ok_def sh_settle_def)

interpretation sim_hash: stm_hasher sim_hash sim_hash_ok sim_hash_view snd sim_saves
proof
  fix d :: sim_hash_state and c n w i ph m and b :: nat and x
  assume d: "sim_hash_ok d"
  show "\<exists>b d'. h_r_cr sim_hash d = ((hv_cfg (sim_hash_view d))\<lparr> hcr_init := b \<rparr>, d') \<and> sim_hash_ok d'
      \<and> sim_hash_view d' = sim_hash_view d \<and> (b \<longrightarrow> snd d' < snd d)"
    using sim_cr_read [of d] view_fst d by (metis view_sels(1))
  show "sim_hash_ok (h_w_cr sim_hash c d) \<and> hv_cfg (sim_hash_view (h_w_cr sim_hash c d)) = c"
    using sim_hash_cr [of "fst d" "snd d" c] d by (simp add: sim_hash_def split_beta)
  show "hv_runs (sim_hash_view (h_w_cr sim_hash c d)) (if hcr_mode c then MacKey else HashMsg) []
      \<and> hv_loading (sim_hash_view (h_w_cr sim_hash c d))" if "hcr_init c"
    using sim_init [OF that, of "fst d"] by (simp add: sim_hash_def split_beta)
  show "\<exists>d'. h_r_str sim_hash d = (\<lparr> hstr_nblw = hv_nblw (sim_hash_view d), hstr_dcal = False \<rparr>, d') \<and> sim_hash_ok d'
      \<and> sim_hash_view d' = sim_hash_view d" using d by (simp add: sim_hash_def)
  show "sim_hash_ok (h_w_str sim_hash \<lparr> hstr_nblw = n, hstr_dcal = False \<rparr> d)
      \<and> sim_hash_view (h_w_str sim_hash \<lparr> hstr_nblw = n, hstr_dcal = False \<rparr> d) = (sim_hash_view d)\<lparr> hv_nblw := n \<rparr>"
    using d by (simp add: sim_hash_def split_beta sh_write_str_def sim_hash_ok_def sim_hash_view_def)
  show "\<exists>w d'. h_r_imr sim_hash d = (w, d') \<and> sim_hash_ok d' \<and> sim_hash_view d' = sim_hash_view d"
    using d by (simp add: sim_hash_def)
  show "sim_hash_ok (h_w_imr sim_hash w d) \<and> sim_hash_view (h_w_imr sim_hash w d) = sim_hash_view d"
    using d by (simp add: sim_hash_def)
  show "\<exists>d'. h_r_csr sim_hash i d = (hv_csr (sim_hash_view d) i, d') \<and> sim_hash_ok d' \<and> sim_hash_view d' = sim_hash_view d"
    using d by (simp add: sim_hash_def)
  show "sim_hash_ok (h_w_csr sim_hash i w d) \<and> hv_csr (sim_hash_view (h_w_csr sim_hash i w d)) = (hv_csr (sim_hash_view d))(i := w)
      \<and> hv_cfg (sim_hash_view (h_w_csr sim_hash i w d)) = hv_cfg (sim_hash_view d) \<and> hv_loading (sim_hash_view (h_w_csr sim_hash i w d))"
    if "hv_loading (sim_hash_view d)"
    using sim_hash_csr [of "fst d" "snd d" i w] d that by (simp add: sim_hash_def split_beta)
  show "hv_runs (sim_hash_view d) ph m" if "hv_loading (sim_hash_view d)" "sim_saves (csr_list (hv_csr (sim_hash_view d))) ph m"
      "hcr_mode (hv_cfg (sim_hash_view d)) = mac_phase ph"
    using sim_loaded [OF d] that by simp
  show "\<exists>s d'. h_r_sr sim_hash d = (s, d') \<and> sim_hash_ok d' \<and> sim_hash_view d' = sim_hash_view d
        \<and> (hsr_busy s \<longrightarrow> snd d' < snd d)
        \<and> ((\<exists>x. hv_runs (sim_hash_view d) (HashDone x) []) \<and> \<not> hsr_dcis s \<longrightarrow> snd d' < snd d)
        \<and> ((\<exists>k. hv_runs (sim_hash_view d) (MacText k) [] \<or> (\<exists>t. hv_runs (sim_hash_view d) (MacOuter k t) [])) \<and> \<not> hsr_dinis s \<longrightarrow> snd d' < snd d)
        \<and> (\<forall>ph m. hv_runs (sim_hash_view d) ph m \<longrightarrow> savable ph m \<longrightarrow> hsr_nbwe s = (if m = [] then 17 else 16))"
  proof -
    obtain s d' where s: "h_r_sr sim_hash d = (s, d')" "fst d' = fst d" "hsr_busy s \<longrightarrow> snd d' < snd d"
      "\<not> hsr_dcis s \<longrightarrow> snd d' < snd d" "\<not> hsr_dinis s \<longrightarrow> snd d' < snd d"
      "hsr_nbwe s = (if hc_pend (sh_core (fst d)) = [] then 17 else 16)" using sim_sr_read [of d] by blast
    have "hsr_nbwe s = (if m = [] then 17 else 16)" if "hv_runs (sim_hash_view d) ph m" "savable ph m" for ph m
      using sim_expected [OF _ that(2), of "sh_core (fst d)"] that(1) s(6) by simp
    then show ?thesis using s(1,3-5) view_fst [OF s(2)] d by blast
  qed
  assume r: "hv_runs (sim_hash_view d) ph m"
  show "sim_saves (csr_list (hv_csr (sim_hash_view d))) ph m" if "savable ph m"
    using sim_saved [OF d _ that] r by simp
  show "sim_hash_ok (h_w_str sim_hash \<lparr> hstr_nblw = n, hstr_dcal = True \<rparr> d)
        \<and> hv_runs (sim_hash_view (h_w_str sim_hash \<lparr> hstr_nblw = n, hstr_dcal = True \<rparr> d)) (dcal_step ph (last_bits b m)) []"
    if "hv_nblw (sim_hash_view d) = b" "b \<noteq> 0 \<longrightarrow> m \<noteq> []" "key_phase ph \<longrightarrow> b = 0 \<and> length m = 64"
    using sim_dcal [OF d _ _ that(2,3), of n] r that(1) by simp
  show "sim_hash_ok (h_w_din sim_hash w d) \<and> hv_runs (sim_hash_view (h_w_din sim_hash w d)) ph (m @ u32_to_be w)"
    if "\<forall>x. ph \<noteq> HashDone x" "key_phase ph \<longrightarrow> length m < 64"
    using sim_din [OF d _ that, of w] r by simp
next
  fix d :: sim_hash_state and x i
  assume "sim_hash_ok d" "hv_runs (sim_hash_view d) (HashDone x) []"
  then show "\<exists>d'. h_r_hr sim_hash i d = (u32_from_be (take 4 (drop (4 * i) x)), d') \<and> sim_hash_ok d' \<and> sim_hash_view d' = sim_hash_view d"
    by (simp add: sim_hash_def sh_digest_word_def)
qed

end
