(* ===== verification/Stm_Mac.thy ===== *)
theory Stm_Mac
  imports Stm_Hasher
begin

text \<open>
  The HMAC provider of the STM32WBA55 on the documented HASH peripheral. \<open>update\<close> asks the peripheral how many
  words it expects before it restores the context of its own computation, so its laws need a peripheral
  that is in step with the state (\<open>expects\<close>).
\<close>

section \<open>Keys\<close>

context stm_hasher
begin

lemma sha256_of_loop_law:
  assumes "dev d" "stm_absorbed saves inst m" "if is_first then m = [] else length m mod 64 = 4"
  shows "\<exists>inst' m' rest d'. sha256_of_loop False hw is_first data inst d = Some ((rest, inst'), d') \<and> dev d'
    \<and> stm_absorbed saves inst' m' \<and> length m' mod 4 = 0 \<and> m' @ rest = m @ data"
  using assms
proof (induction "length data" arbitrary: d inst m is_first data rule: less_induct)
  case less
  define n where "n = (if is_first then FIRST_CHUNK_SIZE (stm_sha2 False hw) else SHA2SHORT_BLOCK_SIZE)"
  have n: "0 < n" "length (m @ replicate n (0 :: u8)) mod 64 = 4"
    using less.prems(3) by (auto simp: n_def stm_sha2_def SHA2SHORT_BLOCK_SIZE_def split: if_splits)
  have m4: "length m mod 4 = 0" using less.prems(3) mod_64_4 by (cases is_first) auto
  note simps = sha256_of_loop.simps [of False hw is_first data inst d, folded n_def, unfolded Let_def, folded n_def]
  show ?case
  proof (cases "length data \<le> n")
    case True
    then show ?thesis using less.prems m4 simps by auto
  next
    case False
    then have "length (m @ take n data) mod 64 = 4" using n(2) by simp
    from sha_update_law [OF less.prems(1,2) m4 this] obtain inst' d' where
      u: "stm_sha_update False hw inst (take n data) d = Some (inst', d')" "dev d'" "stm_absorbed saves inst' (m @ take n data)" by blast
    have "length (drop n data) < length data" using False n(1) by simp
    from less.hyps [OF this u(2,3), of False] False n(2)
    obtain inst2 m2 r2 d2 where
      2: "sha256_of_loop False hw False (drop n data) inst' d' = Some ((r2, inst2), d2)" "dev d2"
        "stm_absorbed saves inst2 m2" "length m2 mod 4 = 0" "m2 @ r2 = m @ data" by auto
    have "sha256_of_loop False hw is_first data inst d = Some ((r2, inst2), d2)" using False u(1) 2(1) simps by simp
    then show ?thesis using 2(2-5) by (intro exI [of _ inst2] exI [of _ m2] exI [of _ r2] exI [of _ d2]) simp
  qed
qed

lemma sha256_of_law:
  assumes "dev d"
  shows "\<exists>d'. sha256_of False hw data d = Some (sha256 data, d') \<and> dev d'"
proof -
  define inst where "inst = \<lparr> hst_variant = Sha256, hst_context = None \<rparr>"
  have "stm_absorbed saves inst []" by (simp add: inst_def stm_absorbed_def)
  from sha256_of_loop_law [OF assms this, of True data] obtain inst' m' rest d' where
    1: "sha256_of_loop False hw True data inst d = Some ((rest, inst'), d')" "dev d'" "stm_absorbed saves inst' m'"
      "length m' mod 4 = 0" "m' @ rest = data" by auto
  from sha_finalize_law [OF 1(2-4), of rest] show ?thesis
    using 1(1,5) by (auto simp: sha256_of_def stm_sha_init_def inst_def)
qed

end

section \<open>States\<close>

text \<open>The peripheral reports the block size of a first block, or of a later one.\<close>

definition expects :: "hash_view \<Rightarrow> bool \<Rightarrow> bool" where
  "expects v e \<longleftrightarrow> (\<exists>ph s. hv_runs v ph s \<and> savable ph s \<and> (s = []) = e)"

text \<open>Where the computation is: in the peripheral after \<open>wrote\<close>, otherwise in a saved context.\<close>

definition mac_at :: "(u32 list \<Rightarrow> hphase \<Rightarrow> bytes \<Rightarrow> bool) \<Rightarrow> hash_view \<Rightarrow> bytes \<Rightarrow> bool \<Rightarrow> stm_hmac_state \<Rightarrow> bytes \<Rightarrow> bool" where
  "mac_at saves v k wrote st sent \<longleftrightarrow>
     (if wrote then hv_runs v (MacText k) sent
      else \<exists>ctx. ms_context st = Some ctx \<and> context_of saves ctx (MacText k) sent)"

text \<open>A computation under the key block \<open>k\<close> that has been given \<open>sent @ rest\<close> and sent \<open>sent\<close>.\<close>

definition mac_buffered :: "(u32 list \<Rightarrow> hphase \<Rightarrow> bytes \<Rightarrow> bool) \<Rightarrow> hash_view \<Rightarrow> bytes \<Rightarrow> bool \<Rightarrow> stm_hmac_state \<Rightarrow> bytes \<Rightarrow> bytes \<Rightarrow> bool" where
  "mac_buffered saves v k wrote st sent rest \<longleftrightarrow>
     ms_key_block st = k \<and> length (ms_buf st) = HMAC_MAX_BLOCK_SIZE \<and> ms_buf_len st = length rest
     \<and> take (length rest) (ms_buf st) = rest \<and> length rest < (if sent = [] then 68 else 64) \<and> savable (MacText k) sent
     \<and> mac_at saves v k wrote st sent"

context stm_hasher
begin

lemma expected_words:
  assumes "dev d" "expects (view d) e"
  shows "\<exists>s d'. h_r_sr hw d = (s, d') \<and> dev d' \<and> view d' = view d \<and> hsr_nbwe s = (if e then 17 else 16)"
proof -
  obtain ph s0 where "hv_runs (view d) ph s0" "savable ph s0" "(s0 = []) = e" using assms(2) by (auto simp: expects_def)
  with sr_read [OF assms(1)] show ?thesis by auto
qed

lemma resume_law:
  assumes "dev d" "mac_at saves (view d) k wrote st sent"
  shows "\<exists>st' d'. (if \<not> wrote then
             (case ms_context st of
                Some ctx \<Rightarrow> do { d \<leftarrow> restore_context_hmac hw ctx d; Some (st\<lparr> ms_context := None \<rparr>, d) }
              | None \<Rightarrow> Some (st, d))
             else Some (st, d)) = Some (st', d') \<and> dev d' \<and> hv_runs (view d') (MacText k) sent
           \<and> ms_buf st' = ms_buf st \<and> ms_buf_len st' = ms_buf_len st \<and> ms_key_block st' = ms_key_block st"
proof (cases wrote)
  case True
  with assms show ?thesis by (simp add: mac_at_def)
next
  case False
  then obtain ctx where ctx: "ms_context st = Some ctx" "context_of saves ctx (MacText k) sent"
    using assms(2) by (auto simp: mac_at_def)
  obtain d' where "restore_context_hmac hw ctx d = Some d'" "dev d'" "hv_runs (view d') (MacText k) sent"
    using restore_with_law [OF assms(1) ctx(2), of "mac_cr True"]
    by (auto simp: restore_context_hmac_with mac_cr_def sha_config_def hash_cr_default_def)
  with False ctx show ?thesis by simp
qed

text \<open>A full block goes to the peripheral.\<close>

lemma block_law:
  assumes "dev d" "hv_runs (view d) (MacText k) sent" "savable (MacText k) sent" "length block = (if sent = [] then 68 else 64)"
  shows "dev (din_words hw (whole_words block) d)" "hv_runs (view (din_words hw (whole_words block) d)) (MacText k) (sent @ block)"
    "savable (MacText k) (sent @ block)"
proof -
  have s: "sent = [] \<or> length sent mod 64 = 4" using assms(3) by (simp add: savable_def)
  then have m: "length (sent @ block) mod 64 = 4" using assms(4) by auto
  have s4: "length sent mod 4 = 0" using s mod_64_4 by auto
  have "length block mod 4 = 0" using assms(4) by simp
  then have cw: "concat (whole_words block) = block" by (rule concat_whole_words)
  show "dev (din_words hw (whole_words block) d)" "hv_runs (view (din_words hw (whole_words block) d)) (MacText k) (sent @ block)"
    using din_words_law [OF assms(1,2) s4, of "whole_words block"] whole_words_length cw by (auto simp: key_phase_def)
  show "savable (MacText k) (sent @ block)" using m by (simp add: savable_def)
qed

lemma mac_loop_law:
  assumes "dev d" "mac_buffered saves (view d) k wrote st sent rest" "expects (view d) (sent = [])"
  shows "\<exists>wrote' st' sent' rest' d'. hmac_update_loop hw data wrote st d = Some ((wrote', st'), d') \<and> dev d'
    \<and> mac_buffered saves (view d') k wrote' st' sent' rest' \<and> expects (view d') (sent' = []) \<and> sent' @ rest' = sent @ rest @ data
    \<and> (length rest + length data < (if sent = [] then 68 else 64) \<longrightarrow> view d' = view d \<and> sent' = sent)"
  using assms
proof (induction "length data" arbitrary: d wrote st sent rest data rule: less_induct)
  case less
  show ?case
  proof (cases "data = []")
    case True
    then show ?thesis using less.prems by (subst hmac_update_loop.simps) auto
  next
    case False
    define bs where "bs = (if sent = [] then 68 else 64 :: nat)"
    have st: "ms_key_block st = k" "length (ms_buf st) = 68" "ms_buf_len st = length rest" "take (length rest) (ms_buf st) = rest"
      "length rest < bs" "savable (MacText k) sent"
      using less.prems(2) unfolding mac_buffered_def bs_def HMAC_MAX_BLOCK_SIZE_def by simp_all
    obtain s d1 where s: "h_r_sr hw d = (s, d1)" "dev d1" "view d1 = view d" "hsr_nbwe s * WORD_SIZE = bs"
      using expected_words [OF less.prems(1,3)] by (auto simp: WORD_SIZE_def bs_def)
    define t where "t = min (length data) (bs - length rest)"
    have t: "0 < t" "t \<le> length data" "length rest + t \<le> bs" "bs \<le> 68" "length rest + t < bs \<Longrightarrow> t = length data"
      using False st(5) by (auto simp: t_def bs_def)
    define rest1 where "rest1 = rest @ take t data"
    define buf1 where "buf1 = rest1 @ drop (length rest1) (ms_buf st)"
    have r1: "length rest1 = length rest + t" using t(2) by (simp add: rest1_def)
    have cp: "copy_at (ms_buf st) (ms_buf_len st) (take t data) = Some buf1"
      using st(2-4) t(2-4) r1 by (simp add: copy_at_def buf1_def rest1_def)
    have lb: "length buf1 = 68" "take (length rest1) buf1 = rest1" using st(2) t r1 by (simp_all add: buf1_def)
    have sub: "usize_sub bs (ms_buf_len st) = Some (bs - length rest)" using st(3,5) by (simp add: usize_sub_def)
    define st1 where "st1 = st\<lparr> ms_buf := buf1, ms_buf_len := length rest + t \<rparr>"
    have st1: "ms_buf st1 = buf1" "ms_buf_len st1 = length rest + t" "ms_key_block st1 = k" "ms_context st1 = ms_context st"
      using st(1) by (simp_all add: st1_def)
    have at1: "mac_at saves (view d1) k wrote st1 sent"
      using less.prems(2) st1(4) s(3) by (simp add: mac_buffered_def mac_at_def)
    have dt: "length (drop t data) < length data" using t(1) False by simp
    show ?thesis
    proof (cases "length rest + t = bs")
      case False
      then have tl: "t = length data" "length rest + t < bs" using t(3,5) by simp_all
      have b1: "mac_buffered saves (view d1) k wrote st1 sent rest1"
        using less.prems(2) st1 lb r1 tl(2) at1 unfolding mac_buffered_def bs_def HMAC_MAX_BLOCK_SIZE_def s(3) by simp
      have e1: "expects (view d1) (sent = [])" using less.prems(3) s(3) by simp
      have "hmac_update_loop hw data wrote st d = Some ((wrote, st1), d1)"
        using \<open>data \<noteq> []\<close> s(1,4) sub cp tl st(3)
        by (subst hmac_update_loop.simps, simp add: t_def [symmetric] st1_def) (subst hmac_update_loop.simps, simp)
      with b1 e1 s(2,3) tl show ?thesis by (auto simp: rest1_def)
    next
      case True
      define resumed where "resumed = (if \<not> wrote then
             (case ms_context st1 of
                Some ctx \<Rightarrow> do { d \<leftarrow> restore_context_hmac hw ctx d1; Some (st1\<lparr> ms_context := None \<rparr>, d) }
              | None \<Rightarrow> Some (st1, d1))
             else Some (st1, d1))"
      obtain st2 d2 where 2: "resumed = Some (st2, d2)" "dev d2" "hv_runs (view d2) (MacText k) sent"
          "ms_buf st2 = buf1" "ms_buf_len st2 = bs" "ms_key_block st2 = k"
        using resume_law [OF s(2) at1] st1 True unfolding resumed_def by auto
      have sl: "slice (ms_buf st2) 0 (ms_buf_len st2) = Some rest1" using 2(4,5) lb r1 True t(4) by (simp add: slice_def)
      define d3 where "d3 = din_words hw (whole_words rest1) d2"
      have 3: "dev d3" "hv_runs (view d3) (MacText k) (sent @ rest1)" "savable (MacText k) (sent @ rest1)"
        using block_law [OF 2(2,3) st(6), of rest1] r1 True unfolding d3_def bs_def by simp_all
      have ne: "sent @ rest1 \<noteq> []" using r1 t(1) by auto
      define st3 where "st3 = st2\<lparr> ms_buf_len := 0 \<rparr>"
      have b3: "mac_buffered saves (view d3) k True st3 (sent @ rest1) []"
        using 2(4-6) 3 lb(1) by (simp add: mac_buffered_def mac_at_def st3_def HMAC_MAX_BLOCK_SIZE_def)
      have e3: "expects (view d3) (sent @ rest1 = [])" using 3(2,3) by (auto simp: expects_def)
      from less.hyps [OF dt 3(1) b3 e3] obtain wrote' st' sent' rest' d' where
        4: "hmac_update_loop hw (drop t data) True st3 d3 = Some ((wrote', st'), d')" "dev d'"
          "mac_buffered saves (view d') k wrote' st' sent' rest'" "expects (view d') (sent' = [])"
          "sent' @ rest' = (sent @ rest1) @ drop t data" by auto
      have "hmac_update_loop hw data wrote st d = Some ((wrote', st'), d')"
      proof -
        have st1e: "st\<lparr> ms_buf := buf1, ms_buf_len := bs \<rparr> = st1" using True by (simp add: st1_def)
        have "hmac_update_loop hw data wrote st d = do {
            (state, d) \<leftarrow> resumed;
            block \<leftarrow> slice (ms_buf state) 0 (ms_buf_len state);
            hmac_update_loop hw (drop t data) True (state\<lparr> ms_buf_len := 0 \<rparr>) (din_words hw (whole_words block) d) }"
          using \<open>data \<noteq> []\<close> s(1,4) sub cp True st(3)
          by (subst hmac_update_loop.simps) (simp add: t_def [symmetric] st1e resumed_def Let_def st1 cong: option.case_cong)
        then show ?thesis using 2(1) sl 4(1) by (simp add: d3_def st3_def)
      qed
      moreover have "sent' @ rest' = sent @ rest @ data" using 4(5) by (simp add: rest1_def)
      moreover have "\<not> length rest + length data < bs" using True t(2) by simp
      ultimately show ?thesis using 4(2-4) unfolding bs_def [symmetric] by blast
    qed
  qed
qed

lemma mac_update_law:
  assumes "dev d" "mac_buffered saves (view d) k False st sent rest" "expects (view d) (sent = [])"
  shows "\<exists>st' sent' rest' d'. stm_hmac_update hw st data d = Some (st', d') \<and> dev d'
    \<and> mac_buffered saves (view d') k False st' sent' rest' \<and> expects (view d') (sent' = []) \<and> sent' @ rest' = sent @ rest @ data
    \<and> (length rest + length data < (if sent = [] then 68 else 64) \<longrightarrow> view d' = view d \<and> sent' = sent)"
proof -
  obtain w st1 sent1 rest1 d1 where 1: "hmac_update_loop hw data False st d = Some ((w, st1), d1)" "dev d1"
    "mac_buffered saves (view d1) k w st1 sent1 rest1" "expects (view d1) (sent1 = [])" "sent1 @ rest1 = sent @ rest @ data"
    "length rest + length data < (if sent = [] then 68 else 64) \<longrightarrow> view d1 = view d \<and> sent1 = sent"
    using mac_loop_law [OF assms] by blast
  show ?thesis
  proof (cases w)
    case False
    then have "stm_hmac_update hw st data d = Some (st1, d1)" using 1(1) by (simp add: stm_hmac_update_def)
    with 1 False show ?thesis by (intro exI [of _ st1] exI [of _ sent1] exI [of _ rest1] exI [of _ d1]) simp
  next
    case True
    then have r: "hv_runs (view d1) (MacText k) sent1" "savable (MacText k) sent1" using 1(3) by (simp_all add: mac_buffered_def mac_at_def)
    obtain ctx d2 where 2: "read_context hw d1 = Some (ctx, d2)" "dev d2" "view d2 = view d1" "context_of saves ctx (MacText k) sent1"
      using read_context_law [OF 1(2) r] by blast
    define st2 where "st2 = st1\<lparr> ms_context := Some ctx \<rparr>"
    have u: "stm_hmac_update hw st data d = Some (st2, d2)" using 1(1) True 2(1) by (simp add: stm_hmac_update_def st2_def)
    have b: "mac_buffered saves (view d2) k False st2 sent1 rest1"
      using 1(3) 2(4) by (simp add: mac_buffered_def mac_at_def st2_def)
    show ?thesis using u b 1(4-6) 2(2,3) by (intro exI [of _ st2] exI [of _ sent1] exI [of _ rest1] exI [of _ d2]) simp
  qed
qed

lemma mac_updates_law:
  "dev d \<Longrightarrow> mac_buffered saves (view d) k False st sent rest \<Longrightarrow> expects (view d) (sent = []) \<Longrightarrow>
   \<exists>st' sent' rest' d'. update_all (stm_hmac_update hw) st cs d = Some (st', d') \<and> dev d'
    \<and> mac_buffered saves (view d') k False st' sent' rest' \<and> sent' @ rest' = sent @ rest @ concat cs"
proof (induction cs arbitrary: d st sent rest)
  case Nil
  then show ?case by auto
next
  case (Cons c cs)
  obtain st1 sent1 rest1 d1 where 1: "stm_hmac_update hw st c d = Some (st1, d1)" "dev d1"
    "mac_buffered saves (view d1) k False st1 sent1 rest1" "expects (view d1) (sent1 = [])" "sent1 @ rest1 = sent @ rest @ c"
    using mac_update_law [OF Cons.prems, of c] by blast
  obtain st2 sent2 rest2 d2 where "update_all (stm_hmac_update hw) st1 cs d1 = Some (st2, d2)" "dev d2"
    "mac_buffered saves (view d2) k False st2 sent2 rest2" "sent2 @ rest2 = sent1 @ rest1 @ concat cs"
    using Cons.IH [OF 1(2-4)] by blast
  with 1(1,5) show ?case by (intro exI [of _ st2] exI [of _ sent2] exI [of _ rest2] exI [of _ d2]) simp
qed

section \<open>Loading a key and finishing\<close>

lemma key_block_law:
  assumes "dev d" "debug \<longrightarrow> length key \<le> 64"
  shows "\<exists>d'. (if length key > SHA2SHORT_BLOCK_SIZE then do {
          (hashed, d) \<leftarrow> sha256_of debug hw key d;
          key_block \<leftarrow> copy_at (replicate SHA2SHORT_BLOCK_SIZE 0) 0 hashed;
          Some (key_block, d)
        } else do { key_block \<leftarrow> copy_at (replicate SHA2SHORT_BLOCK_SIZE 0) 0 key; Some (key_block, d) })
      = Some (hmac_key_block sha256 key, d') \<and> dev d'"
proof (cases "length key > 64")
  case True
  then have "debug = False" using assms(2) by auto
  with sha256_of_law [OF assms(1), of key] True show ?thesis
    by (auto simp: SHA2SHORT_BLOCK_SIZE_def hmac_key_block_def Let_def copy_at_def)
next
  case False
  with assms(1) show ?thesis by (simp add: SHA2SHORT_BLOCK_SIZE_def hmac_key_block_def Let_def copy_at_def)
qed

text \<open>A 64-byte key as a whole segment of an HMAC.\<close>

lemma key_words_law:
  assumes "dev d" "hv_runs (view d) ph []" "key_phase ph" "length k = 64"
  shows "dev (write_dcal hw (write_nblw hw 0 (din_words hw (whole_words k) d)))"
    "hv_runs (view (write_dcal hw (write_nblw hw 0 (din_words hw (whole_words k) d)))) (dcal_step ph k) []"
proof -
  have nd: "\<forall>x. ph \<noteq> HashDone x" using assms(3) by (auto simp: key_phase_def)
  have cw: "concat (whole_words k) = k" using assms(4) by (simp add: concat_whole_words)
  have "length (concat (whole_words k)) = 4 * length (whole_words k)"
    using whole_words_length by (simp add: length_concat cong: map_cong) (simp add: sum_list_triv)
  then have lw: "4 * length (whole_words k) = 64" using cw assms(4) by simp
  define d1 where "d1 = din_words hw (whole_words k) d"
  have 1: "dev d1" "hv_runs (view d1) ph k"
    using din_words_law [OF assms(1,2) _ nd, of "whole_words k"] whole_words_length cw lw by (auto simp: d1_def)
  define d2 where "d2 = write_nblw hw 0 d1"
  have 2: "dev d2" "hv_runs (view d2) ph k" "hv_nblw (view d2) = 0"
    using nblw_write [OF 1(1), of 0] 1(2) by (simp_all add: d2_def write_nblw_def)
  have "last_bits 0 k = k" by (simp add: last_bits_def)
  with dcal_write [OF 2, of 0] assms(3,4)
  show "dev (write_dcal hw (write_nblw hw 0 (din_words hw (whole_words k) d)))"
    "hv_runs (view (write_dcal hw (write_nblw hw 0 (din_words hw (whole_words k) d)))) (dcal_step ph k) []"
    by (simp_all add: write_dcal_def d2_def d1_def)
qed

lemma mac_load_law:
  assumes "dev d" "debug \<longrightarrow> length key \<le> 64"
  shows "\<exists>st d'. stm_hmac_load debug hw alg key d = Some (st, d') \<and> dev d'
    \<and> mac_buffered saves (view d') (hmac_key_block sha256 key) False st [] [] \<and> expects (view d') True"
proof -
  define k where "k = hmac_key_block sha256 key"
  have lk: "length k = 64" unfolding k_def by (rule length_hmac_key_block) simp
  obtain d1 where 1: "(if length key > SHA2SHORT_BLOCK_SIZE then do {
          (hashed, d) \<leftarrow> sha256_of debug hw key d;
          key_block \<leftarrow> copy_at (replicate SHA2SHORT_BLOCK_SIZE 0) 0 hashed;
          Some (key_block, d)
        } else do { key_block \<leftarrow> copy_at (replicate SHA2SHORT_BLOCK_SIZE 0) 0 key; Some (key_block, d) })
      = Some (k, d1)" "dev d1" using key_block_law [OF assms] unfolding k_def by blast
  define c where "c = hash_cr_default\<lparr> hcr_mode := True, hcr_dmae := False, hcr_algo := 3, hcr_datatype := 0, hcr_lkey := False, hcr_init := True \<rparr>"
  obtain d2 where 2: "wait_init_clear hw (h_w_cr hw c d1) = Some d2" "dev d2" "hv_runs (view d2) MacKey []"
    using init_law [OF 1(2), of c] by (auto simp: c_def sha_config_def)
  define d3 where "d3 = write_dcal hw (write_nblw hw 0 (din_words hw (whole_words k) d2))"
  have 3: "dev d3" "hv_runs (view d3) (MacText k) []"
    using key_words_law [OF 2(2,3) _ lk] unfolding d3_def by (simp_all add: key_phase_def)
  obtain d4 where 4: "wait_dinis hw d3 = Some d4" "dev d4" "view d4 = view d3" using wait_dinis_law [OF 3(1)] 3(2) by blast
  have sv: "savable (MacText k) []" by (simp add: savable_def)
  obtain ctx d5 where 5: "read_context hw d4 = Some (ctx, d5)" "dev d5" "view d5 = view d4" "context_of saves ctx (MacText k) []"
    using read_context_law [OF 4(2) _ sv] 3(2) 4(3) by auto
  define st where "st = \<lparr> ms_context = Some ctx, ms_buf = replicate HMAC_MAX_BLOCK_SIZE 0, ms_buf_len = 0, ms_key_block = k \<rparr>"
  have "stm_hmac_load debug hw alg key d = Some (st, d5)"
    using 2(1) 4(1) 5(1) unfolding stm_hmac_load_def 1(1) c_def [symmetric] by (simp add: d3_def st_def Let_def)
  moreover have "mac_buffered saves (view d5) k False st [] []"
    using 5(4) sv by (simp add: mac_buffered_def mac_at_def st_def)
  moreover have "expects (view d5) True" using 3(2) 4(3) 5(3) sv by (auto simp: expects_def)
  ultimately show ?thesis using 5(2) unfolding k_def by blast
qed

lemma mac_finalize_law:
  assumes "dev d" "mac_buffered saves (view d) k False st sent rest" "length k = 64"
  shows "\<exists>d'. stm_hmac_finalize hw st d = Some (StmHmacResult (sha256 (opad k @ sha256 (ipad k @ sent @ rest))), d') \<and> dev d'"
proof -
  define x where "x = sha256 (opad k @ sha256 (ipad k @ sent @ rest))"
  have st: "ms_key_block st = k" "length (ms_buf st) = 68" "ms_buf_len st = length rest" "take (length rest) (ms_buf st) = rest"
      "length rest \<le> 68" "savable (MacText k) sent" "mac_at saves (view d) k False st sent"
    using assms(2) unfolding mac_buffered_def HMAC_MAX_BLOCK_SIZE_def by (simp_all split: if_splits)
  obtain ctx where ctx: "ms_context st = Some ctx" "context_of saves ctx (MacText k) sent" using st(7) by (auto simp: mac_at_def)
  obtain d1 where 1: "restore_context_hmac hw ctx d = Some d1" "dev d1" "hv_runs (view d1) (MacText k) sent"
    using restore_with_law [OF assms(1) ctx(2), of "mac_cr True"]
    by (auto simp: restore_context_hmac_with mac_cr_def sha_config_def hash_cr_default_def)
  have s4: "length sent mod 4 = 0" using st(6) mod_64_4 by (auto simp: savable_def)
  define f where "f d = write_dcal hw (write_nblw hw (length rest mod WORD_SIZE * 8) d)" for d
  obtain d2 where 2: "din_padded hw (word_chunks rest) d1 = Some d2" "dev (f d2)" "hv_runs (view (f d2)) (MacOuter k (sent @ rest)) []"
    using rest_law [OF 1(2,3) s4, of rest] by (auto simp: key_phase_def f_def)
  obtain d3 where 3: "wait_dinis hw (f d2) = Some d3" "dev d3" "view d3 = view (f d2)" using wait_dinis_law [OF 2(2)] 2(3) by blast
  define g where "g d = write_dcal hw (write_nblw hw 0 (din_words hw (whole_words k) d))" for d
  have 4: "dev (g d3)" "hv_runs (view (g d3)) (HashDone x) []"
    using key_words_law [OF 3(2) _ _ assms(3), of "MacOuter k (sent @ rest)"] 3(3) 2(3) unfolding g_def x_def by (simp_all add: key_phase_def)
  obtain ws d5 d6 where 5: "wait_busy hw (g d3) = Some d5" "read_digest hw d5 = (ws, d6)" "dev d6" "digest_bytes 0 ws (replicate 32 0) = Some x"
    using digest_law [OF 4] by (auto simp: x_def)
  have sl: "slice (ms_buf st) 0 (length rest) = Some rest" using st(2,4,5) by (simp add: slice_def)
  have "stm_hmac_finalize hw st d = Some (StmHmacResult x, d6)"
    using ctx(1) 1(1) 2(1) 3(1) 5(1,2,4) sl st(1,3) by (simp add: stm_hmac_finalize_def f_def g_def Let_def)
  with 5(3) show ?thesis unfolding x_def by blast
qed

end

end
