(* ===== verification/Multiplex.thy ===== *)
theory Multiplex
  imports Cal_Traits
begin

text \<open>
  Several hash computations in progress on one device: a schedule names, for each \<open>update\<close>, the
  computation it belongs to.
\<close>

fun init_all :: "('d, 'alg, 's, 'o) hash_provider \<Rightarrow> 'alg \<Rightarrow> nat \<Rightarrow> 'd \<Rightarrow> ('s list \<times> 'd) option" where
  "init_all P alg 0 d = Some ([], d)"
| "init_all P alg (Suc n) d = do { (s, d) \<leftarrow> hp_init P alg d; (ss, d) \<leftarrow> init_all P alg n d; Some (s # ss, d) }"

fun run_schedule :: "('d, 'alg, 's, 'o) hash_provider \<Rightarrow> 's list \<Rightarrow> (nat \<times> bytes) list \<Rightarrow> 'd \<Rightarrow> ('s list \<times> 'd) option" where
  "run_schedule P ss [] d = Some (ss, d)"
| "run_schedule P ss ((i, data) # ops) d =
     do { (s, d) \<leftarrow> hp_update P (ss ! i) data d; run_schedule P (ss[i := s]) ops d }"

fun finalize_all :: "('d, 'alg, 's, 'o) hash_provider \<Rightarrow> 's list \<Rightarrow> 'd \<Rightarrow> (bytes list \<times> 'd) option" where
  "finalize_all P [] d = Some ([], d)"
| "finalize_all P (s # ss) d = do { (out, d) \<leftarrow> hp_finalize P s d; (os, d) \<leftarrow> finalize_all P ss d; Some (hp_output P out # os, d) }"

text \<open>\<open>n\<close> computations, and what each of them is fed.\<close>

definition hash_interleaved :: "('d, 'alg, 's, 'o) hash_provider \<Rightarrow> 'alg \<Rightarrow> nat \<Rightarrow> (nat \<times> bytes) list \<Rightarrow> 'd \<Rightarrow> (bytes list \<times> 'd) option" where
  "hash_interleaved P alg n ops d = do {
     (ss, d) \<leftarrow> init_all P alg n d;
     (ss, d) \<leftarrow> run_schedule P ss ops d;
     finalize_all P ss d
   }"

fun fed :: "nat \<Rightarrow> (nat \<times> bytes) list \<Rightarrow> bytes" where
  "fed i [] = []"
| "fed i ((j, data) # ops) = (if i = j then data else []) @ fed i ops"

fun indices_below :: "nat \<Rightarrow> (nat \<times> bytes) list \<Rightarrow> bool" where
  "indices_below n [] = True"
| "indices_below n ((j, data) # ops) = (j < n \<and> indices_below n ops)"

definition total_length :: "(nat \<times> bytes) list \<Rightarrow> nat" where
  "total_length ops = sum_list (map (length \<circ> snd) ops)"

lemma length_fed: "length (fed i ops) \<le> total_length ops"
  by (induction i ops rule: fed.induct) (auto simp: total_length_def)

context hash_contract
begin

lemma init_all_law:
  "dev d \<Longrightarrow> \<exists>ss d'. init_all P alg n d = Some (ss, d') \<and> dev d' \<and> list_all2 st ss (replicate n [])"
proof (induction n arbitrary: d)
  case (Suc n)
  obtain s d1 where 1: "hp_init P alg d = Some (s, d1)" "dev d1" "st s []" using init_law [OF Suc.prems] by blast
  with Suc.IH [OF 1(2)] show ?case by auto
qed simp

lemma run_schedule_law:
  "dev d \<Longrightarrow> list_all2 st ss ms \<Longrightarrow> indices_below (length ms) ops \<Longrightarrow> \<forall>i < length ms. length (ms ! i) + total_length ops \<le> maxlen \<Longrightarrow>
   \<exists>ss' d'. run_schedule P ss ops d = Some (ss', d') \<and> dev d' \<and> list_all2 st ss' (map (\<lambda>i. ms ! i @ fed i ops) [0..<length ms])"
proof (induction ops arbitrary: d ss ms)
  case Nil
  then show ?case by (simp add: map_nth)
next
  case (Cons op ops)
  obtain j data where op: "op = (j, data)" by (cases op)
  have j: "j < length ms" "indices_below (length ms) ops" using Cons.prems(3) by (simp_all add: op)
  have tl: "total_length (op # ops) = length data + total_length ops" by (simp add: total_length_def op)
  have sj: "st (ss ! j) (ms ! j)" using Cons.prems(2) j(1) by (simp add: list_all2_conv_all_nth)
  have "length (ms ! j) + length data \<le> maxlen" using Cons.prems(4) j(1) tl by fastforce
  then obtain s' d1 where 1: "hp_update P (ss ! j) data d = Some (s', d1)" "dev d1" "st s' (ms ! j @ data)"
    using update_law [OF Cons.prems(1) sj] by blast
  define ms' where "ms' = ms[j := ms ! j @ data]"
  have l: "length ms' = length ms" by (simp add: ms'_def)
  have a: "list_all2 st (ss[j := s']) ms'" unfolding ms'_def by (rule list_all2_update_cong [OF Cons.prems(2) 1(3)])
  have b: "\<forall>i < length ms'. length (ms' ! i) + total_length ops \<le> maxlen"
  proof (intro allI impI)
    fix i assume "i < length ms'"
    then have i: "i < length ms" by (simp add: l)
    then have "length (ms ! i) + (length data + total_length ops) \<le> maxlen" using Cons.prems(4) tl by simp
    then show "length (ms' ! i) + total_length ops \<le> maxlen" using i by (cases "i = j") (simp_all add: ms'_def)
  qed
  obtain ss2 d2 where 2: "run_schedule P (ss[j := s']) ops d1 = Some (ss2, d2)" "dev d2"
    "list_all2 st ss2 (map (\<lambda>i. ms' ! i @ fed i ops) [0..<length ms'])"
    using Cons.IH [OF 1(2) a _ b] j(2) l by auto
  have "map (\<lambda>i. ms' ! i @ fed i ops) [0..<length ms'] = map (\<lambda>i. ms ! i @ fed i (op # ops)) [0..<length ms]"
    using j(1) by (auto simp: l op ms'_def nth_list_update)
  with 1(1) 2 show ?case by (simp add: op)
qed

lemma finalize_all_law:
  "dev d \<Longrightarrow> list_all2 st ss ms \<Longrightarrow> \<exists>d'. finalize_all P ss d = Some (map digest ms, d') \<and> dev d'"
proof (induction ss arbitrary: d ms)
  case (Cons s ss)
  then obtain m ms' where ms: "ms = m # ms'" "st s m" "list_all2 st ss ms'" by (auto simp: list_all2_Cons1)
  obtain o' d1 where "hp_finalize P s d = Some (o', d1)" "dev d1" "hp_output P o' = digest m"
    using finalize_law [OF Cons.prems(1) ms(2)] by blast
  with Cons.IH [OF _ ms(3), of d1] show ?case by (auto simp: ms(1))
qed simp

lemma interleaved:
  assumes "dev d" "indices_below n ops" "total_length ops \<le> maxlen"
  shows "\<exists>d'. hash_interleaved P alg n ops d = Some (map (\<lambda>i. digest (fed i ops)) [0..<n], d') \<and> dev d'"
proof -
  obtain ss d1 where 1: "init_all P alg n d = Some (ss, d1)" "dev d1" "list_all2 st ss (replicate n [])"
    using init_all_law [OF assms(1)] by blast
  obtain ss2 d2 where 2: "run_schedule P ss ops d1 = Some (ss2, d2)" "dev d2"
      "list_all2 st ss2 (map (\<lambda>i. replicate n [] ! i @ fed i ops) [0..<length (replicate n ([] :: bytes))])"
    using run_schedule_law [OF 1(2,3), of ops] assms(2,3) by auto
  have "map (\<lambda>i. replicate n [] ! i @ fed i ops) [0..<length (replicate n ([] :: bytes))] = map (\<lambda>i. fed i ops) [0..<n]" by simp
  with 2(3) have "list_all2 st ss2 (map (\<lambda>i. fed i ops) [0..<n])" by metis
  from finalize_all_law [OF 2(2) this] 1(1) 2(1) show ?thesis by (auto simp: hash_interleaved_def o_def)
qed

end

end
