(* ===== verification/Stm_Provider.thy ===== *)
theory Stm_Provider
  imports Sim_Hash Stm_Mac Multiplex Empty_Cal
begin

text \<open>
  The properties of hashing and HMAC on the STM32WBA55, with witnesses on the model of the peripheral.
\<close>

definition stm_base :: "bool \<Rightarrow> 'd stm_hash \<Rightarrow> ('d, stm_hash_state, no_algorithms, no_algorithms, no_algorithms) extender_base" where
  "stm_base debug hw = \<lparr> base_sha2 = stm_sha2 debug hw, base_hash = empty_hash \<rparr>"

definition sim_hash_start :: sim_hash_state where
  "sim_hash_start = (\<lparr> sh_cfg = hash_cr_default, sh_core = core_start False, sh_csr = core_csr (core_start False), sh_nblw = 8,
     sh_loading = False \<rparr>, 2)"

lemma sim_hash_start_ok [simp]: "sim_hash_ok sim_hash_start"
  by (simp add: sim_hash_ok_def sim_hash_start_def)

lemma stm_plumbed: "plumbed_digest (stm_sha2 debug hw) sha256 = sha256"
  by (rule ext) (simp add: plumbed_digest_def stm_sha2_def)

lemma stm_hash_contract:
  assumes "stm_hasher hw dev view polls saves"
  shows "hash_contract (extender_hash direct_config (stm_base False hw)) ExtSha256 dev
    (ext_state (extender_sha2 direct_config (stm_sha2 False hw)) (direct_absorbed (\<lambda>s m. stm_absorbed saves s m))) sha256 max_message"
proof -
  have "sha2short_contract (base_sha2 (stm_base False hw)) dev (\<lambda>s m. stm_absorbed saves s m) sha256"
    using stm_hasher.stm_sha2_contract [OF assms] by (simp add: stm_base_def)
  from direct_hash_contract [OF this] show ?thesis by (simp add: stm_base_def stm_plumbed)
qed

text \<open>C11: Any number of SHA-256 computations can be in progress on the STM32WBA55 at once, in builds without
  debug assertions: whatever the order in which their chunks arrive, saving and restoring the context of the
  peripheral keeps them apart, and each gets the FIPS 180-4 digest of what it was fed.\<close>

theorem stm_interleaved_sha256:
  assumes "stm_hasher hw dev view polls saves" "dev d" "indices_below n ops" "total_length ops \<le> max_message"
  shows "\<exists>d'. dev d' \<and> hash_interleaved (extender_hash direct_config (stm_base False hw)) ExtSha256 n ops d
    = Some (map (\<lambda>i. sha256 (fed i ops)) [0..<n], d')"
  using hash_contract.interleaved [OF stm_hash_contract [OF assms(1)] assms(2-4)] by blast

lemma stm_interleaved_sha256_witness:
  "\<exists>d'. sim_hash_ok d' \<and> hash_interleaved (extender_hash direct_config (stm_base False sim_hash)) ExtSha256 2
      [(0, replicate 70 1), (1, [2]), (0, [3])] sim_hash_start
    = Some (map (\<lambda>i. sha256 (fed i [(0, replicate 70 1), (1, [2]), (0, [3])])) [0..<2], d')"
  by (rule stm_interleaved_sha256 [OF sim_hash.stm_hasher_axioms]) (simp_all add: max_message_def usize_limit_def total_length_def)

text \<open>HMAC over a list of chunks.\<close>

definition hmac_chunks :: "('d, 'alg, 'k, 's, 'o) hmac_provider \<Rightarrow> 'alg \<Rightarrow> bytes \<Rightarrow> bytes list \<Rightarrow> 'd \<Rightarrow> (bytes \<times> 'd) option" where
  "hmac_chunks P alg key cs d = do {
     (s, d) \<leftarrow> init_with_keydata P alg key d;
     (s, d) \<leftarrow> update_all (mp_update P) s cs d;
     (out, d) \<leftarrow> mp_finalize P s d;
     Some (mp_output P out, d)
   }"

text \<open>C12: One HMAC computation at a time on the STM32WBA55 gives the RFC 2104 code over SHA-256, for keys and
  messages of every length cut into any chunks: the first block of 17 words, the partial last word and the
  outer key are all handled, and no wait hangs. With debug assertions this is shown for keys of at most one
  block.\<close>

theorem stm_hmac_rfc2104:
  assumes "stm_hasher hw dev view polls saves" "dev d" "debug \<longrightarrow> length key \<le> 64"
  shows "\<exists>d'. dev d' \<and> hmac_chunks (stm_hmac debug hw) alg key cs d = Some (hmac_spec sha256 key (concat cs), d')"
proof -
  define k where "k = hmac_key_block sha256 key"
  have lk: "length k = 64" unfolding k_def by (rule length_hmac_key_block) simp
  obtain st d1 where 1: "stm_hmac_load debug hw alg key d = Some (st, d1)" "dev d1"
    "mac_buffered saves (view d1) k False st [] []" "expects (view d1) True"
    using stm_hasher.mac_load_law [OF assms] unfolding k_def by blast
  obtain st2 sent rest d2 where 2: "update_all (stm_hmac_update hw) st cs d1 = Some (st2, d2)" "dev d2"
    "mac_buffered saves (view d2) k False st2 sent rest" "sent @ rest = concat cs"
    using stm_hasher.mac_updates_law [OF assms(1) 1(2,3), of cs] 1(4) by auto
  obtain d3 where 3: "stm_hmac_finalize hw st2 d2 = Some (StmHmacResult (sha256 (opad k @ sha256 (ipad k @ concat cs))), d3)" "dev d3"
    using stm_hasher.mac_finalize_law [OF assms(1) 2(2,3) lk] 2(4) by auto
  have "hmac_spec sha256 key (concat cs) = sha256 (opad k @ sha256 (ipad k @ concat cs))"
    by (simp add: hmac_spec_def k_def Let_def ipad_def opad_def)
  with 1(1) 2(1) 3 show ?thesis
    by (simp add: hmac_chunks_def init_with_keydata_def stm_hmac_def stm_hmac_init_def)
qed

lemma stm_hmac_rfc2104_witness:
  "\<exists>d'. sim_hash_ok d' \<and> hmac_chunks (stm_hmac True sim_hash) StmHmacSha256 [7] [[1, 2], [], replicate 70 3] sim_hash_start
    = Some (hmac_spec sha256 [7] (concat [[1, 2], [], replicate 70 3]), d')"
  by (rule stm_hmac_rfc2104 [OF sim_hash.stm_hasher_axioms]) simp_all

text \<open>C31: Two HMAC computations in progress at once are not safe on the STM32WBA55: \<open>update\<close> takes the block size from
  the peripheral before it restores its own computation. When one computation holds between 65 and 67 bytes
  in its buffer and another sends its first block, the next \<open>update\<close> of the former underflows.\<close>

theorem stm_hmac_interleaving_panics:
  assumes "stm_hasher hw dev view polls saves" "dev d" "length ka \<le> 64" "length kb \<le> 64"
    and "64 < length xb" "length xb < 68" "length xa = 68" "y \<noteq> []"
  shows "\<exists>sa sb sa' sb' d1 d2 d3 d4. stm_hmac_load debug hw alg ka d = Some (sa, d1)
    \<and> stm_hmac_load debug hw alg kb d1 = Some (sb, d2)
    \<and> stm_hmac_update hw sb xb d2 = Some (sb', d3) \<and> stm_hmac_update hw sa xa d3 = Some (sa', d4)
    \<and> stm_hmac_update hw sb' y d4 = None"
proof -
  note load = stm_hasher.mac_load_law [OF assms(1)] and upd = stm_hasher.mac_update_law [OF assms(1)]
  define A where "A = hmac_key_block sha256 ka"
  define B where "B = hmac_key_block sha256 kb"
  obtain sa d1 where 1: "stm_hmac_load debug hw alg ka d = Some (sa, d1)" "dev d1" "mac_buffered saves (view d1) A False sa [] []"
    using load [OF assms(2), of debug ka] assms(3) unfolding A_def by blast
  obtain sb d2 where 2: "stm_hmac_load debug hw alg kb d1 = Some (sb, d2)" "dev d2" "mac_buffered saves (view d2) B False sb [] []"
      "expects (view d2) True" using load [OF 1(2), of debug kb] assms(4) unfolding B_def by blast
  obtain sb' rb d3 where 3: "stm_hmac_update hw sb xb d2 = Some (sb', d3)" "dev d3" "mac_buffered saves (view d3) B False sb' [] rb"
      "view d3 = view d2" "rb = xb" using upd [OF 2(2,3), of xb] 2(4) assms(6) by auto
  have a: "mac_buffered saves (view d3) A False sa [] []" "expects (view d3) True"
    using 1(3) 2(4) 3(4) by (simp_all add: mac_buffered_def mac_at_def)
  obtain sa' sent rest d4 where 4: "stm_hmac_update hw sa xa d3 = Some (sa', d4)" "dev d4"
      "mac_buffered saves (view d4) A False sa' sent rest" "expects (view d4) (sent = [])" "sent @ rest = xa"
    using upd [OF 3(2) a(1), of xa] a(2) by auto
  have "sent \<noteq> []" using 4(3,5) assms(7) by (auto simp: mac_buffered_def)
  then obtain s d5 where 5: "h_r_sr hw d4 = (s, d5)" "hsr_nbwe s = 16"
    using stm_hasher.expected_words [OF assms(1) 4(2,4)] by auto
  have "usize_sub 64 (ms_buf_len sb') = None" using 3(3,5) assms(5) by (simp add: mac_buffered_def usize_sub_def)
  then have "stm_hmac_update hw sb' y d4 = None"
    using 5 assms(8) unfolding stm_hmac_update_def by (subst hmac_update_loop.simps) (simp add: WORD_SIZE_def)
  with 1(1) 2(1) 3(1) 4(1) show ?thesis by blast
qed

lemma stm_hmac_interleaving_panics_witness:
  "\<exists>sa sb sa' sb' d1 d2 d3 d4. stm_hmac_load False sim_hash StmHmacSha256 [1] sim_hash_start = Some (sa, d1)
    \<and> stm_hmac_load False sim_hash StmHmacSha256 [2] d1 = Some (sb, d2)
    \<and> stm_hmac_update sim_hash sb (replicate 66 5) d2 = Some (sb', d3) \<and> stm_hmac_update sim_hash sa (replicate 68 6) d3 = Some (sa', d4)
    \<and> stm_hmac_update sim_hash sb' [9] d4 = None"
  by (rule stm_hmac_interleaving_panics [OF sim_hash.stm_hasher_axioms]) simp_all



end
