(* ===== verification/Stm_Pka.thy ===== *)
theory Stm_Pka
  imports Nrf_Dh Stm_Rng Empty_Cal
begin

text \<open>
  The public-key accelerator of the STM32WBA55 and Diffie-Hellman on it
  (\<^verbatim>\<open>embedded-cal-stm32wba55/src/dh.rs\<close>, \<^verbatim>\<open>embedded-cal-stm32wba55/src/dh_plumbing.rs\<close>). Coordinates and scalars are eight
  words, least significant first. The registers are the record \<open>stm_pka\<close>; the documented peripheral is the
  locale \<open>stm_ecc\<close>.
\<close>

section \<open>Constants\<close>

definition P256_COEF_A_MAGNITUDE :: "u32 list" where "P256_COEF_A_MAGNITUDE = [3, 0, 0, 0, 0, 0, 0, 0]"

datatype coef_sign = CoefPositive | CoefNegative

fun coef_sign_value :: "coef_sign \<Rightarrow> u32" where
  "coef_sign_value CoefPositive = 0"
| "coef_sign_value CoefNegative = 1"

definition RAM_N_LEN :: nat where "RAM_N_LEN = 0"
definition RAM_P_LEN :: nat where "RAM_P_LEN = 2"
definition RAM_A_SIGN :: nat where "RAM_A_SIGN = 4"
definition RAM_A :: nat where "RAM_A = 6"
definition RAM_B :: nat where "RAM_B = 72"
definition RAM_P :: nat where "RAM_P = 802"
definition RAM_POINT_X :: nat where "RAM_POINT_X = 94"
definition RAM_POINT_Y :: nat where "RAM_POINT_Y = 28"
definition RAM_N :: nat where "RAM_N = 738"
definition RAM_K :: nat where "RAM_K = 936"
definition RAM_RESULT_Y :: nat where "RAM_RESULT_Y = 116"
definition PKA_MODE_ECC_MULT :: nat where "PKA_MODE_ECC_MULT = 0x20"
definition PKA_RAM_WORDS :: nat where "PKA_RAM_WORDS = 667"

lemmas pka_addrs = RAM_N_LEN_def RAM_P_LEN_def RAM_A_SIGN_def RAM_A_def RAM_B_def RAM_P_def RAM_POINT_X_def RAM_POINT_Y_def
  RAM_N_def RAM_K_def RAM_RESULT_Y_def PKA_RAM_WORDS_def

section \<open>Registers\<close>

record pka_cr =
  pcr_en :: bool
  pcr_mode :: nat
  pcr_start :: bool

record pka_sr =
  psr_busy :: bool
  psr_addrerrf :: bool
  psr_ramerrf :: bool

text \<open>\<open>pka_w_clrfr\<close> writes the four clear flags, as the code always does.\<close>

record 'd stm_pka =
  pka_w_clrfr :: "'d \<Rightarrow> 'd"
  pka_w_ram :: "nat \<Rightarrow> u32 \<Rightarrow> 'd \<Rightarrow> 'd"
  pka_r_ram :: "nat \<Rightarrow> 'd \<Rightarrow> u32 \<times> 'd"
  pka_w_cr :: "pka_cr \<Rightarrow> 'd \<Rightarrow> 'd"
  pka_r_sr :: "'d \<Rightarrow> pka_sr \<times> 'd"

section \<open>The multiplication\<close>

fun pka_zero_loop :: "'d stm_pka \<Rightarrow> nat list \<Rightarrow> 'd \<Rightarrow> 'd" where
  "pka_zero_loop hw [] d = d"
| "pka_zero_loop hw (i # is) d = pka_zero_loop hw is (pka_w_ram hw i 0 d)"

definition pka_zero_ram :: "'d stm_pka \<Rightarrow> 'd \<Rightarrow> 'd" where
  "pka_zero_ram hw d = pka_zero_loop hw [0..<PKA_RAM_WORDS] d"

fun pka_write_loop :: "'d stm_pka \<Rightarrow> nat \<Rightarrow> nat \<Rightarrow> u32 list \<Rightarrow> 'd \<Rightarrow> 'd" where
  "pka_write_loop hw start i [] d = d"
| "pka_write_loop hw start i (word # ws) d = pka_write_loop hw start (i + 1) ws (pka_w_ram hw (start + i) word d)"

definition pka_write_field :: "'d stm_pka \<Rightarrow> nat \<Rightarrow> u32 list \<Rightarrow> 'd \<Rightarrow> 'd" where
  "pka_write_field hw start words d = pka_write_loop hw start 0 words d"

fun pka_read_loop :: "'d stm_pka \<Rightarrow> nat \<Rightarrow> nat list \<Rightarrow> 'd \<Rightarrow> u32 list \<times> 'd" where
  "pka_read_loop hw start [] d = ([], d)"
| "pka_read_loop hw start (i # is) d =
     (let (w, d) = pka_r_ram hw (start + i) d; (ws, d) = pka_read_loop hw start is d in (w # ws, d))"

definition pka_read_field :: "'d stm_pka \<Rightarrow> nat \<Rightarrow> 'd \<Rightarrow> u32 list \<times> 'd" where
  "pka_read_field hw start d = pka_read_loop hw start [0..<8] d"

partial_function (option) pka_wait :: "'d stm_pka \<Rightarrow> 'd \<Rightarrow> 'd option" where
  "pka_wait hw d = (let (s, d) = pka_r_sr hw d in if psr_busy s then pka_wait hw d else Some d)"

text \<open>\<open>debug\<close>: whether the debug assertion on the error flags is compiled in.\<close>

definition pka_ecc_mult :: "bool \<Rightarrow> 'd stm_pka \<Rightarrow> u32 list \<Rightarrow> u32 list \<Rightarrow> u32 list \<Rightarrow> 'd \<Rightarrow> ((u32 list \<times> u32 list) \<times> 'd) option" where
  "pka_ecc_mult debug hw scalar point_x point_y d = do {
     let d = pka_w_clrfr hw d;
     let d = pka_zero_ram hw d;
     let d = pka_w_ram hw RAM_N_LEN 256 d;
     let d = pka_w_ram hw RAM_P_LEN 256 d;
     let d = pka_w_ram hw RAM_A_SIGN (coef_sign_value CoefNegative) d;
     let d = pka_write_field hw RAM_A P256_COEF_A_MAGNITUDE d;
     let d = pka_write_field hw RAM_B P256_B d;
     let d = pka_write_field hw RAM_P P256_P d;
     let d = pka_write_field hw RAM_N P256_ORDER d;
     let d = pka_write_field hw RAM_POINT_X point_x d;
     let d = pka_write_field hw RAM_POINT_Y point_y d;
     let d = pka_write_field hw RAM_K scalar d;
     let d = pka_w_cr hw \<lparr> pcr_en = True, pcr_mode = PKA_MODE_ECC_MULT, pcr_start = True \<rparr> d;
     d \<leftarrow> pka_wait hw d;
     let (sr, d) = pka_r_sr hw d;
     if debug \<and> (psr_addrerrf sr \<or> psr_ramerrf sr) then None
     else let (result_x, d) = pka_read_field hw RAM_POINT_X d;
              (result_y, d) = pka_read_field hw RAM_RESULT_Y d;
              d = pka_w_clrfr hw d;
              d = pka_zero_ram hw d
          in Some ((result_x, result_y), d)
   }"

section \<open>Curve primitives\<close>

datatype stm_scalar = StmScalar "u32 list"

fun scalar_words :: "stm_scalar \<Rightarrow> u32 list" where
  "scalar_words (StmScalar w) = w"

record stm_point =
  sp_x :: stm_scalar
  sp_y :: stm_scalar

definition stm_multiply_scalar_point :: "bool \<Rightarrow> 'd stm_pka \<Rightarrow> stm_scalar \<Rightarrow> stm_point \<Rightarrow> 'd \<Rightarrow> (stm_point \<times> 'd) option" where
  "stm_multiply_scalar_point debug hw a b d = do {
     ((x, y), d) \<leftarrow> pka_ecc_mult debug hw (scalar_words a) (scalar_words (sp_x b)) (scalar_words (sp_y b)) d;
     Some (\<lparr> sp_x = StmScalar x, sp_y = StmScalar y \<rparr>, d)
   }"

definition stm_import_scalar_bytes :: "bytes \<Rightarrow> 'd \<Rightarrow> ((import_error + stm_scalar) \<times> 'd) option" where
  "stm_import_scalar_bytes scalar d = Some (map_sum id (\<lambda>b. StmScalar (bytes_to_words b)) (try_array 32 scalar), d)"

definition stm_point_new :: "stm_scalar \<Rightarrow> stm_scalar \<Rightarrow> 'd \<Rightarrow> (stm_point \<times> 'd) option" where
  "stm_point_new x y d = Some (\<lparr> sp_x = x, sp_y = y \<rparr>, d)"

definition stm_export_scalar_bytes :: "stm_scalar \<Rightarrow> 'd \<Rightarrow> (bytes \<times> 'd) option" where
  "stm_export_scalar_bytes scalar d = Some (words_to_bytes (scalar_words scalar), d)"

definition stm_ec_primitives :: "bool \<Rightarrow> 'd stm_pka \<Rightarrow> ('d, stm_scalar, stm_point) ec_primitives" where
  "stm_ec_primitives debug hw =
     \<lparr> HAS_MULTIPLY_SCALAR_POINT = True, ep_multiply_scalar_point = stm_multiply_scalar_point debug hw,
       ep_import_scalar_bytes = stm_import_scalar_bytes, ep_point = stm_point_new,
       ep_export_scalar_bytes = stm_export_scalar_bytes,
       ep_x_coord = (\<lambda>p d. Some (sp_x p, d)), ep_y_coord = (\<lambda>p d. Some (sp_y p, d)) \<rparr>"

definition stm_ec :: "bool \<Rightarrow> 'd stm_pka
    \<Rightarrow> ('d, stm_scalar, stm_point, no_algorithms, no_algorithms, no_algorithms, no_algorithms) ec" where
  "stm_ec debug hw = \<lparr> MAX_SCALAR_LENGTH = 32, ec_p256 = stm_ec_primitives debug hw, ec_x25519 = empty_ec_primitives,
     ec_x448 = empty_ec_primitives \<rparr>"

section \<open>The provider\<close>

datatype stm_dh_algorithm = StmEcdhP256

fun stm_dh_output_length :: "stm_dh_algorithm \<Rightarrow> nat" where
  "stm_dh_output_length StmEcdhP256 = 32"

definition stm_dh_from_cose_ecdh :: "int \<Rightarrow> stm_dh_algorithm option" where
  "stm_dh_from_cose_ecdh curve = (if curve = 1 then Some StmEcdhP256 else None)"

record stm_secret_key =
  sk_alg :: stm_dh_algorithm
  sk_scalar :: bytes

datatype stm_visible_key = StmVisibleKey stm_secret_key

fun stm_into_secret :: "stm_visible_key \<Rightarrow> stm_secret_key" where
  "stm_into_secret (StmVisibleKey k) = k"

record stm_public_key =
  pk_alg :: stm_dh_algorithm
  pk_x :: bytes
  pk_y :: bytes

datatype stm_shared_secret = StmSharedSecret bytes

fun stm_raw_bytes :: "stm_shared_secret \<Rightarrow> bytes" where
  "stm_raw_bytes (StmSharedSecret b) = b"

definition stm_fill_bytes :: "'d stm_rng \<Rightarrow> nat \<Rightarrow> 'd \<Rightarrow> (bytes \<times> 'd) option" where
  "stm_fill_bytes rng n d = do { r \<leftarrow> stm_try_fill_bytes rng n d; case r of Inl _ \<Rightarrow> None | Inr x \<Rightarrow> Some x }"

text \<open>The rejection loop is the one of the nRF54L15, over this device's generator.\<close>

fun stm_generate_visible :: "'d stm_rng \<Rightarrow> stm_dh_algorithm \<Rightarrow> 'd \<Rightarrow> (stm_visible_key \<times> 'd) option" where
  "stm_generate_visible rng StmEcdhP256 d = do {
     (scalar, d) \<leftarrow> generate_p256 (stm_fill_bytes rng 32) d;
     Some (StmVisibleKey \<lparr> sk_alg = StmEcdhP256, sk_scalar = scalar \<rparr>, d)
   }"

fun stm_export_secretkey_bytes :: "stm_visible_key \<Rightarrow> 'd \<Rightarrow> (bytes \<times> 'd) option" where
  "stm_export_secretkey_bytes (StmVisibleKey k) d = Some (sk_scalar k, d)"

definition stm_import_secretkey_bytes :: "stm_dh_algorithm \<Rightarrow> bytes \<Rightarrow> 'd \<Rightarrow> ((import_error + stm_visible_key) \<times> 'd) option" where
  "stm_import_secretkey_bytes alg secret d =
     Some (map_sum id (\<lambda>scalar. StmVisibleKey \<lparr> sk_alg = alg, sk_scalar = scalar \<rparr>) (try_array 32 secret), d)"

definition stm_export_publickey_bytes :: "stm_public_key \<Rightarrow> 'd \<Rightarrow> (bytes \<times> 'd) option" where
  "stm_export_publickey_bytes public d = Some (pk_x public, d)"

definition stm_import_publickey_bytes :: "stm_dh_algorithm \<Rightarrow> bytes \<Rightarrow> 'd \<Rightarrow> ((import_error + stm_public_key) \<times> 'd) option" where
  "stm_import_publickey_bytes alg data d =
     (case try_array 32 data of
        Inl e \<Rightarrow> Some (Inl e, d)
      | Inr x \<Rightarrow> Some (map_sum id (\<lambda>y. \<lparr> pk_alg = alg, pk_x = x, pk_y = y \<rparr>) (p256_recover_y x), d))"

definition stm_shared_secret_op :: "bool \<Rightarrow> 'd stm_pka \<Rightarrow> stm_secret_key \<Rightarrow> stm_public_key \<Rightarrow> 'd
    \<Rightarrow> ((incompatible_keys + stm_shared_secret) \<times> 'd) option" where
  "stm_shared_secret_op debug hw private public d =
     (if sk_alg private \<noteq> pk_alg public then Some (Inl IncompatibleKeys, d)
      else do {
        let scalar_words = bytes_to_words (sk_scalar private);
        ((result_x, _), d) \<leftarrow> pka_ecc_mult debug hw scalar_words (bytes_to_words (pk_x public)) (bytes_to_words (pk_y public)) d;
        Some (Inr (StmSharedSecret (words_to_bytes result_x)), d)
      })"

definition stm_public_key_op :: "bool \<Rightarrow> 'd stm_pka \<Rightarrow> stm_secret_key \<Rightarrow> 'd \<Rightarrow> (stm_public_key \<times> 'd) option" where
  "stm_public_key_op debug hw private d = do {
     let scalar_words = bytes_to_words (sk_scalar private);
     ((result_x, result_y), d) \<leftarrow> pka_ecc_mult debug hw scalar_words P256_GX P256_GY d;
     Some (\<lparr> pk_alg = sk_alg private, pk_x = words_to_bytes result_x, pk_y = words_to_bytes result_y \<rparr>, d)
   }"

definition stm_dh :: "bool \<Rightarrow> 'd stm_rng \<Rightarrow> 'd stm_pka
    \<Rightarrow> ('d, stm_dh_algorithm, stm_visible_key, stm_secret_key, stm_public_key, stm_shared_secret) dh_provider" where
  "stm_dh debug rng hw =
     \<lparr> output_length = stm_dh_output_length, dh_from_cose_ecdh = stm_dh_from_cose_ecdh,
       dp_generate_visible = stm_generate_visible rng, dp_into_secret = stm_into_secret,
       dp_export_secretkey_bytes = stm_export_secretkey_bytes, dp_import_secretkey_bytes = stm_import_secretkey_bytes,
       dp_export_publickey_bytes = stm_export_publickey_bytes, dp_import_publickey_bytes = stm_import_publickey_bytes,
       dp_shared_secret = stm_shared_secret_op debug hw, dp_public_key = stm_public_key_op debug hw,
       dp_raw_secret_bytes = (\<lambda>s d. Some (stm_raw_bytes s, d)) \<rparr>"

section \<open>The documented peripheral\<close>

text \<open>Eight words from an address, and a block of words written there.\<close>

definition field :: "(nat \<Rightarrow> u32) \<Rightarrow> nat \<Rightarrow> u32 list" where
  "field m a = map (\<lambda>i. m (a + i)) [0..<8]"

definition put :: "nat \<Rightarrow> u32 list \<Rightarrow> (nat \<Rightarrow> u32) \<Rightarrow> nat \<Rightarrow> u32" where
  "put a ws m x = (if a \<le> x \<and> x < a + length ws then ws ! (x - a) else m x)"

lemma length_field [simp]: "length (field m a) = 8"
  by (simp add: field_def)

lemma put_Nil [simp]: "put a [] m = m"
  by (rule ext) (auto simp: put_def)

lemma field_put_same: "length ws = 8 \<Longrightarrow> field (put a ws m) a = ws"
  by (rule nth_equalityI) (simp_all add: field_def put_def)

lemma field_put_other: "a + length ws \<le> b \<or> b + 8 \<le> a \<Longrightarrow> field (put a ws m) b = field m b"
  by (rule nth_equalityI) (auto simp: field_def put_def)

lemma put_other: "x < a \<or> a + length ws \<le> x \<Longrightarrow> put a ws m x = m x"
  by (auto simp: put_def)

lemma field_upd_other: "x < b \<or> b + 8 \<le> x \<Longrightarrow> field (m(x := w)) b = field m b"
  by (rule nth_equalityI) (auto simp: field_def)

lemma p256_words [simp]: "length P256_COEF_A_MAGNITUDE = 8" "length P256_B = 8" "length P256_P = 8" "length P256_ORDER = 8"
  by (simp_all add: P256_COEF_A_MAGNITUDE_def P256_B_def P256_P_def P256_ORDER_def)

text \<open>The operands of the multiplication on P-256.\<close>

definition p256_loaded :: "(nat \<Rightarrow> u32) \<Rightarrow> bool" where
  "p256_loaded m \<longleftrightarrow> m RAM_N_LEN = 256 \<and> m RAM_P_LEN = 256 \<and> m RAM_A_SIGN = 1 \<and> field m RAM_A = P256_COEF_A_MAGNITUDE
     \<and> field m RAM_B = P256_B \<and> field m RAM_P = P256_P \<and> field m RAM_N = P256_ORDER"

definition loaded_ram :: "u32 list \<Rightarrow> u32 list \<Rightarrow> u32 list \<Rightarrow> (nat \<Rightarrow> u32) \<Rightarrow> nat \<Rightarrow> u32" where
  "loaded_ram k x y m = put RAM_K k (put RAM_POINT_Y y (put RAM_POINT_X x (put RAM_N P256_ORDER (put RAM_P P256_P (put RAM_B P256_B
     (put RAM_A P256_COEF_A_MAGNITUDE (m(RAM_N_LEN := 256, RAM_P_LEN := 256, RAM_A_SIGN := 1))))))))"

lemma loaded_ram_law:
  assumes "length k = 8" "length x = 8" "length y = 8"
  shows "p256_loaded (loaded_ram k x y m)" "field (loaded_ram k x y m) RAM_K = k" "field (loaded_ram k x y m) RAM_POINT_X = x"
    "field (loaded_ram k x y m) RAM_POINT_Y = y"
  using assms unfolding p256_loaded_def loaded_ram_def pka_addrs by (simp_all add: field_put_same field_put_other put_other)

definition ecc_start :: pka_cr where
  "ecc_start = \<lparr> pcr_en = True, pcr_mode = PKA_MODE_ECC_MULT, pcr_start = True \<rparr>"

text \<open>\<open>M\<close> is the multiplication on big-endian coordinates; \<open>failed\<close> whether the last operation set an error flag.\<close>

locale stm_ecc =
  fixes hw :: "'d stm_pka" and dev :: "'d \<Rightarrow> bool" and ram :: "'d \<Rightarrow> nat \<Rightarrow> u32" and failed :: "'d \<Rightarrow> bool" and polls :: "'d \<Rightarrow> nat"
    and M :: "bytes \<Rightarrow> bytes \<times> bytes \<Rightarrow> bytes \<times> bytes"
  assumes clear_law: "dev d \<Longrightarrow> dev (pka_w_clrfr hw d) \<and> ram (pka_w_clrfr hw d) = ram d"
    and ram_write_law: "dev d \<Longrightarrow> dev (pka_w_ram hw i w d) \<and> ram (pka_w_ram hw i w d) = (ram d)(i := w)"
    and ram_read_law: "dev d \<Longrightarrow> \<exists>d'. pka_r_ram hw i d = (ram d i, d') \<and> dev d' \<and> ram d' = ram d"
    and sr_law: "dev d \<Longrightarrow> \<exists>s d'. pka_r_sr hw d = (s, d') \<and> dev d' \<and> ram d' = ram d \<and> failed d' = failed d
      \<and> (psr_busy s \<longrightarrow> polls d' < polls d) \<and> (\<not> failed d \<longrightarrow> \<not> psr_addrerrf s \<and> \<not> psr_ramerrf s)"
    and start_law: "dev d \<Longrightarrow> p256_loaded (ram d) \<Longrightarrow>
      dev (pka_w_cr hw ecc_start d) \<and> \<not> failed (pka_w_cr hw ecc_start d)
      \<and> (words_to_bytes (field (ram (pka_w_cr hw ecc_start d)) RAM_POINT_X), words_to_bytes (field (ram (pka_w_cr hw ecc_start d)) RAM_RESULT_Y))
        = M (words_to_bytes (field (ram d) RAM_K)) (words_to_bytes (field (ram d) RAM_POINT_X), words_to_bytes (field (ram d) RAM_POINT_Y))"
begin

lemma zero_law:
  "dev d \<Longrightarrow> dev (pka_zero_loop hw is d) \<and> ram (pka_zero_loop hw is d) = (\<lambda>x. if x \<in> set is then 0 else ram d x)"
proof (induction "is" arbitrary: d)
  case (Cons i "is")
  note w = ram_write_law [OF Cons.prems, of i 0]
  from Cons.IH [OF w [THEN conjunct1]] w show ?case by auto
qed simp

lemma write_loop_law:
  "dev d \<Longrightarrow> dev (pka_write_loop hw a i ws d) \<and> ram (pka_write_loop hw a i ws d) = put (a + i) ws (ram d)"
proof (induction ws arbitrary: i d)
  case (Cons w ws)
  note l = ram_write_law [OF Cons.prems, of "a + i" w]
  have "put (a + (i + 1)) ws ((ram d)(a + i := w)) = put (a + i) (w # ws) (ram d)"
    by (rule ext) (auto simp: put_def nth_Cons')
  with Cons.IH [OF l [THEN conjunct1], of "i + 1"] l show ?case by (simp add: fun_upd_def)
qed simp

lemma write_law: "dev d \<Longrightarrow> dev (pka_write_field hw a ws d)" "dev d \<Longrightarrow> ram (pka_write_field hw a ws d) = put a ws (ram d)"
  using write_loop_law [of d a 0 ws] by (simp_all add: pka_write_field_def)

lemma read_loop_law:
  "dev d \<Longrightarrow> ram d = m \<Longrightarrow> \<exists>d'. pka_read_loop hw a is d = (map (\<lambda>i. m (a + i)) is, d') \<and> dev d' \<and> ram d' = m"
proof (induction "is" arbitrary: d)
  case (Cons i "is")
  obtain d1 where 1: "pka_r_ram hw (a + i) d = (m (a + i), d1)" "dev d1" "ram d1 = m" using ram_read_law [OF Cons.prems(1)] Cons.prems(2) by metis
  from Cons.IH [OF 1(2,3)] 1(1) show ?case by auto
qed simp

lemma read_law: "dev d \<Longrightarrow> \<exists>d'. pka_read_field hw a d = (field (ram d) a, d') \<and> dev d' \<and> ram d' = ram d"
  using read_loop_law [of d "ram d" a "[0..<8]"] by (simp add: pka_read_field_def field_def)

lemma wait_law:
  "dev d \<Longrightarrow> \<exists>d'. pka_wait hw d = Some d' \<and> dev d' \<and> ram d' = ram d \<and> failed d' = failed d"
proof (induction "polls d" arbitrary: d rule: less_induct)
  case less
  obtain s d1 where 1: "pka_r_sr hw d = (s, d1)" "dev d1" "ram d1 = ram d" "failed d1 = failed d" "psr_busy s \<longrightarrow> polls d1 < polls d"
    using sr_law [OF less.prems] by blast
  show ?case
  proof (cases "psr_busy s")
    case True
    with less.hyps [of d1] 1 show ?thesis by (subst pka_wait.simps) simp
  next
    case False
    with 1 show ?thesis by (subst pka_wait.simps) simp
  qed
qed

lemma mult_law:
  assumes "dev d" "length k = 8" "length x = 8" "length y = 8"
  shows "\<exists>rx ry d' d0. pka_ecc_mult debug hw k x y d = Some ((rx, ry), d') \<and> dev d' \<and> length rx = 8 \<and> length ry = 8
    \<and> (words_to_bytes rx, words_to_bytes ry) = M (words_to_bytes k) (words_to_bytes x, words_to_bytes y)
    \<and> (\<forall>i < PKA_RAM_WORDS. ram d' i = 0)
    \<and> dev d0 \<and> field (ram d0) RAM_K = k \<and> field (ram d') RAM_K = field (ram (pka_w_cr hw ecc_start d0)) RAM_K"
proof -
  define d1 where "d1 = pka_zero_ram hw (pka_w_clrfr hw d)"
  have 1: "dev d1" using clear_law [OF assms(1)] zero_law unfolding d1_def pka_zero_ram_def by blast
  define d2 where "d2 = pka_w_ram hw RAM_A_SIGN (coef_sign_value CoefNegative) (pka_w_ram hw RAM_P_LEN 256 (pka_w_ram hw RAM_N_LEN 256 d1))"
  have 2: "dev d2" "ram d2 = (ram d1)(RAM_N_LEN := 256, RAM_P_LEN := 256, RAM_A_SIGN := 1)"
    using ram_write_law 1 by (simp_all add: d2_def)
  define d0 where "d0 = pka_write_field hw RAM_K k (pka_write_field hw RAM_POINT_Y y (pka_write_field hw RAM_POINT_X x
     (pka_write_field hw RAM_N P256_ORDER (pka_write_field hw RAM_P P256_P (pka_write_field hw RAM_B P256_B
     (pka_write_field hw RAM_A P256_COEF_A_MAGNITUDE d2))))))"
  have 0: "dev d0" "ram d0 = loaded_ram k x y (ram d1)" using write_law 2 by (simp_all add: d0_def loaded_ram_def)
  note f = loaded_ram_law [OF assms(2-4), of "ram d1"]
  define d3 where "d3 = pka_w_cr hw ecc_start d0"
  have 3: "dev d3" "\<not> failed d3" "(words_to_bytes (field (ram d3) RAM_POINT_X), words_to_bytes (field (ram d3) RAM_RESULT_Y))
      = M (words_to_bytes k) (words_to_bytes x, words_to_bytes y)"
    using start_law [OF 0(1)] f unfolding 0(2) d3_def by simp_all
  obtain d4 where 4: "pka_wait hw d3 = Some d4" "dev d4" "ram d4 = ram d3" "\<not> failed d4" using wait_law [OF 3(1)] 3(2) by auto
  obtain s d5 where 5: "pka_r_sr hw d4 = (s, d5)" "dev d5" "ram d5 = ram d3" "\<not> psr_addrerrf s" "\<not> psr_ramerrf s"
    using sr_law [OF 4(2)] 4(3,4) by auto
  obtain d6 where 6: "pka_read_field hw RAM_POINT_X d5 = (field (ram d3) RAM_POINT_X, d6)" "dev d6" "ram d6 = ram d3"
    using read_law [OF 5(2)] 5(3) by auto
  obtain d7 where 7: "pka_read_field hw RAM_RESULT_Y d6 = (field (ram d3) RAM_RESULT_Y, d7)" "dev d7" "ram d7 = ram d3"
    using read_law [OF 6(2)] 6(3) by auto
  define d8 where "d8 = pka_zero_ram hw (pka_w_clrfr hw d7)"
  have 8: "dev d8" "ram d8 = (\<lambda>x. if x < PKA_RAM_WORDS then 0 else ram d3 x)"
    using zero_law [of "pka_w_clrfr hw d7" "[0..<PKA_RAM_WORDS]"] clear_law [OF 7(2)] 7(3) by (simp_all add: d8_def pka_zero_ram_def cong: if_cong)
  have "field (ram d8) RAM_K = field (ram d3) RAM_K"
    by (rule nth_equalityI) (simp_all add: field_def 8(2) pka_addrs)
  moreover have "pka_ecc_mult debug hw k x y d = Some ((field (ram d3) RAM_POINT_X, field (ram d3) RAM_RESULT_Y), d8)"
    using 4(1) 5(1,4,5) 6(1) 7(1)
    by (simp add: pka_ecc_mult_def Let_def d1_def [symmetric] d2_def [symmetric] d0_def [symmetric] ecc_start_def [symmetric]
        d3_def [symmetric] d8_def [symmetric] del: coef_sign_value.simps)
  ultimately show ?thesis using 8 3(3) 0 f(2) unfolding d3_def
    by (intro exI [of _ "field (ram (pka_w_cr hw ecc_start d0)) RAM_POINT_X"] exI [of _ "field (ram (pka_w_cr hw ecc_start d0)) RAM_RESULT_Y"]
        exI [of _ d8] exI [of _ d0]) simp
qed

text \<open>The operations of the provider, over the multiplication.\<close>

lemma stm_public_law:
  assumes "dev d" "length (sk_scalar k) = 32"
  shows "\<exists>p d'. stm_public_key_op debug hw k d = Some (p, d') \<and> dev d' \<and> pk_alg p = sk_alg k
    \<and> (pk_x p, pk_y p) = M (sk_scalar k) (P256_GX_BYTES, P256_GY_BYTES) \<and> length (pk_x p) = 32 \<and> length (pk_y p) = 32"
proof -
  obtain rx ry d' where "pka_ecc_mult debug hw (bytes_to_words (sk_scalar k)) P256_GX P256_GY d = Some ((rx, ry), d')" "dev d'"
    "(words_to_bytes rx, words_to_bytes ry) = M (sk_scalar k) (P256_GX_BYTES, P256_GY_BYTES)"
    using mult_law [OF assms(1), of "bytes_to_words (sk_scalar k)" P256_GX P256_GY debug] assms(2)
    by (auto simp: P256_GX_def P256_GY_def words_to_bytes_to_words)
  then show ?thesis by (simp add: stm_public_key_op_def)
qed

lemma stm_shared_law:
  assumes "dev d" "length (sk_scalar k) = 32" "length (pk_x p) = 32" "length (pk_y p) = 32"
  shows "\<exists>d'. stm_shared_secret_op debug hw k p d = Some (Inr (StmSharedSecret (fst (M (sk_scalar k) (pk_x p, pk_y p)))), d') \<and> dev d'"
proof -
  obtain rx ry d' where m: "pka_ecc_mult debug hw (bytes_to_words (sk_scalar k)) (bytes_to_words (pk_x p)) (bytes_to_words (pk_y p)) d = Some ((rx, ry), d')"
    "dev d'" "(words_to_bytes rx, words_to_bytes ry) = M (sk_scalar k) (pk_x p, pk_y p)"
    using mult_law [OF assms(1), of "bytes_to_words (sk_scalar k)" "bytes_to_words (pk_x p)" "bytes_to_words (pk_y p)" debug] assms(2-4)
    by (auto simp: words_to_bytes_to_words)
  have "sk_alg k = pk_alg p" by (cases "sk_alg k"; cases "pk_alg p") simp
  moreover have "words_to_bytes rx = fst (M (sk_scalar k) (pk_x p, pk_y p))" using m(3) by (metis fst_conv)
  ultimately show ?thesis using m(1,2) by (simp add: stm_shared_secret_op_def)
qed

end

lemma stm_fill_partial:
  "stm_fill hw errors n d = Some r \<Longrightarrow> (case r of Inl p \<Rightarrow> True | Inr (bs, d') \<Rightarrow> length bs = n)"
proof (induction rule: stm_fill.raw_induct [rotated, consumes 1])
  case (1 f hw errors n d r)
  obtain sr d1 where s: "rng_r_sr hw d = (sr, d1)" by (cases "rng_r_sr hw d")
  consider "n = 0" | "0 < n" "rs_seis sr" | "0 < n" "\<not> rs_seis sr" "rs_ceis sr \<or> \<not> rs_drdy sr" | "0 < n" "\<not> rs_seis sr" "\<not> rs_ceis sr" "rs_drdy sr"
    by blast
  then show ?case
  proof cases
    case 1
    then show ?thesis using "1.hyps" by auto
  next
    case 2
    then show ?thesis using "1.hyps" s by (auto split: if_splits sum.splits dest!: "1.IH")
  next
    case 3
    then show ?thesis using "1.hyps" s by (auto split: if_splits dest!: "1.IH")
  next
    case 4
    obtain w d2 where w: "rng_r_dr hw d1 = (w, d2)" by (cases "rng_r_dr hw d1")
    define c where "c = min n 4"
    have c: "c \<le> 4" "c \<le> n" by (simp_all add: c_def)
    have "f hw 0 (n - c) d2 \<bind> (\<lambda>q. Some (case q of Inl p \<Rightarrow> Inl p | Inr (rest, d) \<Rightarrow> Inr (take c (u32_to_le w) @ rest, d))) = Some r"
      using "1.hyps" 4 s w by (simp add: c_def [symmetric] Let_def)
    then obtain q where q: "f hw 0 (n - c) d2 = Some q"
      "r = (case q of Inl p \<Rightarrow> Inl p | Inr (rest, d) \<Rightarrow> Inr (take c (u32_to_le w) @ rest, d))"
      by (auto split: bind_splits)
    from "1.IH" [OF q(1)] q(2) c show ?thesis by (cases q) auto
  qed
qed

lemma stm_try_fill_length: "stm_try_fill_bytes rng n d = Some (Inr (bs, d')) \<Longrightarrow> length bs = n"
  using stm_fill_partial [of rng 0 n d "Inr (bs, d')"] by (simp add: stm_try_fill_bytes_def)

lemma stm_generated_key:
  assumes "dh_generate (stm_dh debug rng hw) alg d = Some (k, d')"
  shows "length (sk_scalar k) = 32 \<and> 0 < be_val (sk_scalar k) \<and> be_val (sk_scalar k) < wval P256_ORDER"
proof -
  obtain b d1 where b: "generate_p256 (stm_fill_bytes rng 32) d = Some (b, d1)" "sk_scalar k = b"
    using assms by (cases alg) (auto simp: dh_generate_def stm_dh_def split: bind_splits)
  have "\<forall>d s d'. stm_fill_bytes rng 32 d = Some (s, d') \<longrightarrow> length s = 32"
    by (auto simp: stm_fill_bytes_def split: bind_splits sum.splits dest: stm_try_fill_length)
  from generate_p256_partial [OF b(1) this] show ?thesis using b(2) by simp
qed

section \<open>A concrete peripheral\<close>

text \<open>It ``multiplies'' with a given function and reports busy for a while.\<close>

type_synonym sim_pka_state = "(nat \<Rightarrow> u32) \<times> nat"

definition sim_ecc :: "(bytes \<Rightarrow> bytes \<times> bytes \<Rightarrow> bytes \<times> bytes) \<Rightarrow> (nat \<Rightarrow> u32) \<Rightarrow> nat \<Rightarrow> u32" where
  "sim_ecc M m =
     (case M (words_to_bytes (field m RAM_K)) (words_to_bytes (field m RAM_POINT_X), words_to_bytes (field m RAM_POINT_Y)) of
        (x, y) \<Rightarrow> put RAM_RESULT_Y (bytes_to_words y) (put RAM_POINT_X (bytes_to_words x) m))"

definition sim_pka :: "(bytes \<Rightarrow> bytes \<times> bytes \<Rightarrow> bytes \<times> bytes) \<Rightarrow> sim_pka_state stm_pka" where
  "sim_pka M =
     \<lparr> pka_w_clrfr = id, pka_w_ram = (\<lambda>i w (m, n). (m(i := w), n)), pka_r_ram = (\<lambda>i s. (fst s i, s)),
       pka_w_cr = (\<lambda>c (m, n). if pcr_start c then (sim_ecc M m, 5) else (m, n)),
       pka_r_sr = (\<lambda>(m, n). (\<lparr> psr_busy = 0 < n, psr_addrerrf = False, psr_ramerrf = False \<rparr>, (m, n - 1))) \<rparr>"

lemma sim_ecc_law:
  assumes "\<And>k x y. length k = 32 \<Longrightarrow> length x = 32 \<Longrightarrow> length y = 32 \<Longrightarrow> length (fst (M k (x, y))) = 32 \<and> length (snd (M k (x, y))) = 32"
  shows "(words_to_bytes (field (sim_ecc M m) RAM_POINT_X), words_to_bytes (field (sim_ecc M m) RAM_RESULT_Y))
    = M (words_to_bytes (field m RAM_K)) (words_to_bytes (field m RAM_POINT_X), words_to_bytes (field m RAM_POINT_Y))"
proof -
  obtain x y where xy: "M (words_to_bytes (field m RAM_K)) (words_to_bytes (field m RAM_POINT_X), words_to_bytes (field m RAM_POINT_Y)) = (x, y)"
    by fastforce
  with assms [of "words_to_bytes (field m RAM_K)" "words_to_bytes (field m RAM_POINT_X)" "words_to_bytes (field m RAM_POINT_Y)"]
  have "length x = 32" "length y = 32" by simp_all
  moreover have "sim_ecc M m = put RAM_RESULT_Y (bytes_to_words y) (put RAM_POINT_X (bytes_to_words x) m)" by (simp add: sim_ecc_def xy)
  ultimately show ?thesis unfolding xy by (simp add: field_put_same field_put_other pka_addrs words_to_bytes_to_words)
qed

lemma sim_start_eq: "pka_w_cr (sim_pka M) ecc_start d = (sim_ecc M (fst d), 5)"
  by (cases d) (simp add: sim_pka_def ecc_start_def)

lemma sim_ecc_keeps: "field (sim_ecc M m) RAM_K = field m RAM_K"
  by (simp add: sim_ecc_def field_put_other pka_addrs split: prod.splits)

definition toy_point :: "bytes \<Rightarrow> bytes \<times> bytes \<Rightarrow> bytes \<times> bytes" where
  "toy_point = (\<lambda>k (x, y). (toy_mul k x, toy_mul k y))"

lemma toy_point_length:
  "length k = 32 \<Longrightarrow> length x = 32 \<Longrightarrow> length y = 32 \<Longrightarrow>
   length (fst (toy_point k (x, y))) = 32 \<and> length (snd (toy_point k (x, y))) = 32"
  by (simp add: toy_point_def toy_mul_def)

interpretation sim_pka: stm_ecc "sim_pka toy_point" "\<lambda>_. True" fst "\<lambda>_. False" snd toy_point
proof
  fix d :: sim_pka_state
  show "True \<and> \<not> False \<and> (words_to_bytes (field (fst (pka_w_cr (sim_pka toy_point) ecc_start d)) RAM_POINT_X),
      words_to_bytes (field (fst (pka_w_cr (sim_pka toy_point) ecc_start d)) RAM_RESULT_Y))
    = toy_point (words_to_bytes (field (fst d) RAM_K)) (words_to_bytes (field (fst d) RAM_POINT_X), words_to_bytes (field (fst d) RAM_POINT_Y))"
    unfolding sim_start_eq fst_conv by (intro conjI TrueI notI sim_ecc_law toy_point_length; (assumption | simp)?)
  show "\<exists>s d'. pka_r_sr (sim_pka toy_point) d = (s, d') \<and> True \<and> fst d' = fst d \<and> False = False
      \<and> (psr_busy s \<longrightarrow> snd d' < snd d) \<and> (\<not> False \<longrightarrow> \<not> psr_addrerrf s \<and> \<not> psr_ramerrf s)"
    by (cases d) (simp add: sim_pka_def)
  show "True \<and> fst (pka_w_ram (sim_pka toy_point) i w d) = (fst d)(i := w)" for i w
    by (cases d) (simp add: sim_pka_def)
qed (simp_all add: sim_pka_def)

definition sim_pka_start :: sim_pka_state where
  "sim_pka_start = (\<lambda>_. 7, 3)"

section \<open>Properties\<close>

text \<open>C23: The scalar multiplication of the STM32WBA55 on a peripheral behaving as documented: it ends, gives the product
  of the operands, and the first 667 words of the accelerator's RAM are zero afterwards. The scalar is not
  erased: its eight words start at word 936, which the loop over 667 words does not reach, and keep the value
  the accelerator leaves there.\<close>

theorem pka_mult_leaves_scalar:
  assumes "stm_ecc hw dev ram failed polls M" "dev d" "length k = 8" "length x = 8" "length y = 8"
    and "\<And>d. dev d \<Longrightarrow> field (ram (pka_w_cr hw ecc_start d)) RAM_K = field (ram d) RAM_K"
  shows "\<exists>rx ry d'. pka_ecc_mult debug hw k x y d = Some ((rx, ry), d')
    \<and> (words_to_bytes rx, words_to_bytes ry) = M (words_to_bytes k) (words_to_bytes x, words_to_bytes y)
    \<and> (\<forall>i < 667. ram d' i = 0) \<and> field (ram d') RAM_K = k"
  using stm_ecc.mult_law [OF assms(1-5), of debug] assms(6) by (auto simp: PKA_RAM_WORDS_def)

lemma pka_mult_leaves_scalar_witness:
  "\<exists>rx ry d'. pka_ecc_mult True (sim_pka toy_point) (replicate 8 1) (replicate 8 2) (replicate 8 3) sim_pka_start = Some ((rx, ry), d')
    \<and> (words_to_bytes rx, words_to_bytes ry)
      = toy_point (words_to_bytes (replicate 8 1)) (words_to_bytes (replicate 8 2), words_to_bytes (replicate 8 3))
    \<and> (\<forall>i < 667. fst d' i = 0) \<and> field (fst d') RAM_K = replicate 8 1"
  by (rule pka_mult_leaves_scalar [OF sim_pka.stm_ecc_axioms]) (simp_all add: sim_pka_def ecc_start_def split_beta sim_ecc_keeps)

text \<open>The crate's Diffie-Hellman self-test passes on the STM32WBA55: two generated keys give both sides the same raw
  secret when the multiplication commutes on the base point.\<close>

theorem stm_selftest_passes:
  assumes "stm_ecc hw dev ram failed polls M"
    and "\<And>a b. length a = 32 \<Longrightarrow> length b = 32 \<Longrightarrow>
      fst (M a (M b (P256_GX_BYTES, P256_GY_BYTES))) = fst (M b (M a (P256_GX_BYTES, P256_GY_BYTES)))"
    and "dh_generate (stm_dh debug rng hw) alg d = Some (a, d1)" "dh_generate (stm_dh debug rng hw) alg d1 = Some (b, d2)" "dev d2"
  shows "\<exists>d'. test_dh_selftest (stm_dh debug rng hw) alg d = Some ((), d') \<and> dev d'"
proof -
  note pub = stm_ecc.stm_public_law [OF assms(1)] and sh = stm_ecc.stm_shared_law [OF assms(1)]
  have l: "length (sk_scalar a) = 32" "length (sk_scalar b) = 32" using stm_generated_key [OF assms(3)] stm_generated_key [OF assms(4)] by simp_all
  obtain p d3 where 3: "stm_public_key_op debug hw a d2 = Some (p, d3)" "dev d3" "(pk_x p, pk_y p) = M (sk_scalar a) (P256_GX_BYTES, P256_GY_BYTES)"
      "length (pk_x p) = 32" "length (pk_y p) = 32" using pub [OF assms(5) l(1)] by blast
  obtain q d4 where 4: "stm_public_key_op debug hw b d3 = Some (q, d4)" "dev d4" "(pk_x q, pk_y q) = M (sk_scalar b) (P256_GX_BYTES, P256_GY_BYTES)"
      "length (pk_x q) = 32" "length (pk_y q) = 32" using pub [OF 3(2) l(2)] by blast
  obtain d5 where 5: "stm_shared_secret_op debug hw a q d4 = Some (Inr (StmSharedSecret (fst (M (sk_scalar a) (pk_x q, pk_y q)))), d5)" "dev d5"
    using sh [OF 4(2) l(1) 4(4,5)] by blast
  obtain d6 where 6: "stm_shared_secret_op debug hw b p d5 = Some (Inr (StmSharedSecret (fst (M (sk_scalar b) (pk_x p, pk_y p)))), d6)" "dev d6"
    using sh [OF 5(2) l(2) 3(4,5)] by blast
  have "fst (M (sk_scalar a) (pk_x q, pk_y q)) = fst (M (sk_scalar b) (pk_x p, pk_y p))" using assms(2) [OF l] 3(3) 4(3) by simp
  then show ?thesis using 3(1) 4(1) 5(1) 6 assms(3,4) by (simp add: test_dh_selftest_def stm_dh_def)
qed

text \<open>A generator that always delivers the word 5.\<close>

definition const_stm_rng :: "'d stm_rng" where
  "const_stm_rng =
     \<lparr> rng_r_cr = (\<lambda>d. (RNG_CONFIG_A, d)), rng_w_cr = (\<lambda>_ d. d), rng_w_htcr = (\<lambda>_ d. d),
       rng_r_sr = (\<lambda>d. (\<lparr> rs_seis = False, rs_ceis = False, rs_drdy = True \<rparr>, d)), rng_w_sr = (\<lambda>_ d. d), rng_r_dr = (\<lambda>d. (5, d)) \<rparr>"

lemma const_stm_step:
  "stm_fill const_stm_rng 0 (4 * Suc n) d = do {
     r \<leftarrow> stm_fill const_stm_rng 0 (4 * n) d;
     Some (case r of Inl p \<Rightarrow> Inl p | Inr (rest, d) \<Rightarrow> Inr (u32_to_le 5 @ rest, d)) }"
  by (subst stm_fill.simps) (simp add: const_stm_rng_def cong: sum.case_cong)

lemma const_stm_fill: "stm_fill const_stm_rng 0 (4 * n) d = Some (Inr (concat (replicate n (u32_to_le 5)), d))"
proof (induction n)
  case 0
  show ?case by (subst stm_fill.simps) simp
next
  case (Suc n)
  then show ?case unfolding const_stm_step by simp
qed

lemma const_stm_key: "stm_fill_bytes const_stm_rng 32 d = Some (const_key, d)"
proof -
  have "u32_to_le 5 = [5, 0, 0, 0]" by (rule le_val_inj) (simp_all add: le_val_u32_to_le)
  then show ?thesis using const_stm_fill [of 8 d] by (simp add: stm_fill_bytes_def stm_try_fill_bytes_def const_key_eq)
qed

lemma const_stm_generate:
  "dh_generate (stm_dh debug const_stm_rng hw) StmEcdhP256 d = Some (\<lparr> sk_alg = StmEcdhP256, sk_scalar = const_key \<rparr>, d)"
  using const_key_accepted by (simp add: dh_generate_def stm_dh_def generate_p256.simps const_stm_key)

lemma toy_point_commutes:
  "length a = 32 \<Longrightarrow> length b = 32 \<Longrightarrow>
   fst (toy_point a (toy_point b (P256_GX_BYTES, P256_GY_BYTES))) = fst (toy_point b (toy_point a (P256_GX_BYTES, P256_GY_BYTES)))"
  using toy_commutes by (simp add: dh_commutes_def toy_point_def)

lemma stm_selftest_passes_witness:
  "\<exists>d'. test_dh_selftest (stm_dh True const_stm_rng (sim_pka toy_point)) StmEcdhP256 sim_pka_start = Some ((), d') \<and> True"
  by (rule stm_selftest_passes [OF sim_pka.stm_ecc_axioms toy_point_commutes const_stm_generate const_stm_generate]) simp_all

end
