(* ===== verification/Delegation.thy ===== *)
theory Delegation
  imports Cal_Aead
begin

text \<open>
  Delegation. The extenders of the repository (the software demo, the libcrux and RustCrypto
  back-ends, the random-number adapter) hand some of their operations to a base implementation, wrap
  its results in a constructor of their own and keep the base inside their own state. \<open>inside\<close> is
  that step: run an operation on the part of the state that \<open>get\<close> reads and \<open>put\<close> writes, and wrap
  its result. The locales say of a provider that it treats one of its algorithms that way; a contract
  of the base is then a contract of the extender.
\<close>

definition inside :: "('D \<Rightarrow> 'd) \<Rightarrow> ('d \<Rightarrow> 'D \<Rightarrow> 'D) \<Rightarrow> ('a \<Rightarrow> 'b) \<Rightarrow> ('d \<Rightarrow> ('a \<times> 'd) option) \<Rightarrow> 'D
    \<Rightarrow> ('b \<times> 'D) option" where
  "inside get put f m D = do { (r, d) \<leftarrow> m (get D); Some (f r, put d D) }"

text \<open>The base is the whole state (\<open>struct Extender(EC::Base)\<close>).\<close>

definition fwd :: "('a \<Rightarrow> 'b) \<Rightarrow> ('d \<Rightarrow> ('a \<times> 'd) option) \<Rightarrow> 'd \<Rightarrow> ('b \<times> 'd) option" where
  "fwd f m d = do { (r, d) \<leftarrow> m d; Some (f r, d) }"

lemma fwd_inside: "fwd f m = inside (\<lambda>d. d) (\<lambda>d _. d) f m"
  by (rule ext) (simp add: fwd_def inside_def)

lemma inside_Some: "m (get D) = Some (r, d) \<Longrightarrow> inside get put f m D = Some (f r, put d D)"
  by (simp add: inside_def)

lemma fwd_Some [simp]: "m d = Some (r, d') \<Longrightarrow> fwd f m d = Some (f r, d')"
  by (simp add: fwd_def)

lemma fwd_None [simp]: "m d = None \<Longrightarrow> fwd f m d = None"
  by (simp add: fwd_def)

text \<open>\<open>wrapped S st\<close> is the state invariant \<open>st\<close> seen through the constructor \<open>S\<close>.\<close>

definition wrapped :: "('s \<Rightarrow> 't) \<Rightarrow> ('s \<Rightarrow> 'm \<Rightarrow> bool) \<Rightarrow> 't \<Rightarrow> 'm \<Rightarrow> bool" where
  "wrapped S st t m \<longleftrightarrow> (\<exists>s. t = S s \<and> st s m)"

lemma wrappedI: "st s m \<Longrightarrow> wrapped S st (S s) m"
  by (auto simp: wrapped_def)

lemma wrappedE: "wrapped S st t m \<Longrightarrow> (\<And>s. t = S s \<Longrightarrow> st s m \<Longrightarrow> R) \<Longrightarrow> R"
  by (auto simp: wrapped_def)

section \<open>The trait \<open>Cal\<close>\<close>

text \<open>\<open>Cal\<close> is the four accessors; the providers they return act on the same device. An accessor that
  forwards to the base (\<open>self.0.hmac()\<close>) returns the base's provider.\<close>

record ('dh, 'aead, 'hash, 'hmac) cal =
  cal_dh :: 'dh
  cal_aead :: 'aead
  cal_hash :: 'hash
  cal_hmac :: 'hmac

text \<open>The \<open>rand_core\<close> traits a \<open>Cal\<close> implements beside its providers; the filled buffer is the result.
  \<open>'e\<close> is the associated \<open>Error\<close>.\<close>

record ('d, 'e) try_rng =
  rng_next_u32 :: "'d \<Rightarrow> (('e + u32) \<times> 'd) option"
  rng_next_u64 :: "'d \<Rightarrow> (('e + u64) \<times> 'd) option"
  rng_fill_bytes :: "nat \<Rightarrow> 'd \<Rightarrow> (('e + bytes) \<times> 'd) option"

text \<open>\<open>Rng::fill_bytes\<close> of a generator whose error type is \<open>Infallible\<close>: the error arm has no value to match.\<close>

definition fill_bytes_infallible :: "('d, 'e) try_rng \<Rightarrow> nat \<Rightarrow> 'd \<Rightarrow> (bytes \<times> 'd) option" where
  "fill_bytes_infallible G n d = do {
     (r, d) \<leftarrow> rng_fill_bytes G n d;
     (case r of Inl _ \<Rightarrow> None | Inr bs \<Rightarrow> Some (bs, d))
   }"

section \<open>The part of the state the base keeps\<close>

locale device_part =
  fixes get :: "'D \<Rightarrow> 'd" and put :: "'d \<Rightarrow> 'D \<Rightarrow> 'D"
  assumes get_put [simp]: "get (put d D) = d"
    and put_put [simp]: "put d (put d' D) = put d D"
section \<open>Hash providers\<close>

locale hash_delegation = device_part get put
  for get :: "'D \<Rightarrow> 'd" and put :: "'d \<Rightarrow> 'D \<Rightarrow> 'D" +
  fixes B :: "('d, 'alg, 's, 'o) hash_provider" and P :: "('D, 'Alg, 'S, 'O) hash_provider"
    and A :: "'alg \<Rightarrow> 'Alg" and S :: "'s \<Rightarrow> 'S" and R :: "'o \<Rightarrow> 'O"
  assumes del_len: "hash_len P (A a) = hash_len B a"
    and del_init: "hp_init P (A a) = inside get put S (hp_init B a)"
    and del_update: "hp_update P (S s) data = inside get put S (hp_update B s data)"
    and del_finalize: "hp_finalize P (S s) = inside get put R (hp_finalize B s)"
    and del_output: "hp_output P (R r) = hp_output B r"
begin

text \<open>A whole delegated computation is the base's, panics included.\<close>

lemma update_all_put:
  "update_all (hp_update P) (S s) cs (put d D)
   = map_option (\<lambda>(s, d). (S s, put d D)) (update_all (hp_update B) s cs d)"
proof (induction cs arbitrary: s d)
  case (Cons c cs)
  show ?case by (cases "hp_update B s c d") (auto simp: inside_def del_update Cons.IH)
qed simp

lemma chunks: "hash_chunks P (A a) cs D = inside get put (\<lambda>r. r) (hash_chunks B a cs) D"
proof (cases "hp_init B a (get D)")
  case (Some r)
  obtain s d where r: "r = (s, d)" by (cases r)
  show ?thesis
  proof (cases "update_all (hp_update B) s cs d")
    case (Some q)
    then show ?thesis using \<open>hp_init B a (get D) = Some r\<close> r
      by (cases q; cases "hp_finalize B (fst q) (snd q)")
        (auto simp: hash_chunks_def inside_def del_init update_all_put del_finalize del_output)
  qed (use Some r in \<open>simp add: hash_chunks_def inside_def del_init update_all_put\<close>)
qed (simp add: hash_chunks_def inside_def del_init)

lemma contract:
  assumes "hash_contract B alg dev st digest n"
  shows "hash_contract P (A alg) (\<lambda>D. dev (get D)) (wrapped S st) digest n"
proof
  fix D :: 'D and s :: 'S and m data :: bytes
  show "length (digest m) = hash_len P (A alg)"
    using hash_contract.digest_length [OF assms] by (simp add: del_len)
  assume D: "dev (get D)"
  show "\<exists>s d'. hp_init P (A alg) D = Some (s, d') \<and> dev (get d') \<and> wrapped S st s []"
    using hash_contract.init_law [OF assms D] by (auto simp: del_init inside_def intro: wrappedI)
  assume "wrapped S st s m"
  then obtain t where s: "s = S t" and t: "st t m" by (rule wrappedE)
  show "\<exists>o' d'. hp_finalize P s D = Some (o', d') \<and> dev (get d') \<and> hp_output P o' = digest m"
    using hash_contract.finalize_law [OF assms D t] by (auto simp: s del_finalize inside_def del_output)
  assume n: "length m + length data \<le> n"
  show "\<exists>s' d'. hp_update P s data D = Some (s', d') \<and> dev (get d') \<and> wrapped S st s' (m @ data)"
    using hash_contract.update_law [OF assms D t n] by (auto simp: s del_update inside_def intro: wrappedI)
qed

end

section \<open>HMAC providers\<close>

locale hmac_delegation = device_part get put
  for get :: "'D \<Rightarrow> 'd" and put :: "'d \<Rightarrow> 'D \<Rightarrow> 'D" +
  fixes B :: "('d, 'alg, 'k, 's, 'o) hmac_provider" and P :: "('D, 'Alg, 'K, 'S, 'O) hmac_provider"
    and A :: "'alg \<Rightarrow> 'Alg" and K :: "'k \<Rightarrow> 'K" and S :: "'s \<Rightarrow> 'S" and R :: "'o \<Rightarrow> 'O"
  assumes del_len: "hmac_len P (A a) = hmac_len B a"
    and del_load: "mp_load_from_keydata P (A a) key = inside get put K (mp_load_from_keydata B a key)"
    and del_init: "mp_init P (K k) = inside get put S (mp_init B k)"
    and del_update: "mp_update P (S s) data = inside get put S (mp_update B s data)"
    and del_finalize: "mp_finalize P (S s) = inside get put R (mp_finalize B s)"
    and del_output: "mp_output P (R r) = mp_output B r"
begin

lemma load_init:
  "init_with_keydata P (A a) key D = inside get put S (init_with_keydata B a key) D"
proof (cases "mp_load_from_keydata B a key (get D)")
  case (Some r)
  then show ?thesis
    by (cases r; cases "mp_init B (fst r) (snd r)") (auto simp: init_with_keydata_def inside_def del_load del_init)
qed (simp add: init_with_keydata_def inside_def del_load)

lemma with_keydata_eq:
  "hmac_with_keydata P (A a) key data D = inside get put R (hmac_with_keydata B a key data) D"
proof (cases "init_with_keydata B a key (get D)")
  case (Some r)
  obtain s d where r: "r = (s, d)" by (cases r)
  show ?thesis
  proof (cases "mp_update B s data d")
    case (Some q)
    then show ?thesis using \<open>init_with_keydata B a key (get D) = Some r\<close> r
      by (cases q; cases "mp_finalize B (fst q) (snd q)")
        (auto simp: hmac_with_keydata_def load_init inside_def del_update del_finalize)
  qed (use Some r in \<open>simp add: hmac_with_keydata_def load_init inside_def del_update\<close>)
qed (simp add: hmac_with_keydata_def load_init inside_def)

text \<open>The extender must leave room for the base's results: \<open>MAX_LEN\<close> is its own constant.\<close>

lemma contract:
  assumes "hmac_contract B alg dev ky st mac n" and "hmac_len B alg \<le> hmac_MAX_LEN P"
  shows "hmac_contract P (A alg) (\<lambda>D. dev (get D)) (wrapped K ky)
    (\<lambda>s key m. wrapped S (\<lambda>t (key, m). st t key m) s (key, m)) mac n"
proof
  fix D :: 'D and k :: 'K and s :: 'S and key m data :: bytes
  let ?st = "\<lambda>s key m. wrapped S (\<lambda>t (key, m). st t key m) s (key, m)"
  show "length (mac key m) = hmac_len P (A alg)"
    using hmac_contract.mac_length [OF assms(1)] by (simp add: del_len)
  show "hmac_len P (A alg) \<le> hmac_MAX_LEN P" using assms(2) by (simp add: del_len)
  assume D: "dev (get D)"
  show "\<exists>k d'. mp_load_from_keydata P (A alg) key D = Some (k, d') \<and> dev (get d') \<and> wrapped K ky k key"
    if "length key \<le> n"
    using hmac_contract.load_law [OF assms(1) D that] by (auto simp: del_load inside_def intro: wrappedI)
  show "\<exists>s d'. mp_init P k D = Some (s, d') \<and> dev (get d') \<and> ?st s key []" if "wrapped K ky k key"
  proof -
    from that obtain b where k: "k = K b" and b: "ky b key" by (rule wrappedE)
    from hmac_contract.init_law [OF assms(1) D b] show ?thesis
      by (auto simp: k del_init inside_def intro: wrappedI)
  qed
  assume "?st s key m"
  then obtain t where s: "s = S t" and t: "st t key m" by (auto elim: wrappedE)
  show "\<exists>o' d'. mp_finalize P s D = Some (o', d') \<and> dev (get d') \<and> mp_output P o' = mac key m"
    using hmac_contract.finalize_law [OF assms(1) D t] by (auto simp: s del_finalize inside_def del_output)
  assume n: "length m + length data \<le> n"
  show "\<exists>s' d'. mp_update P s data D = Some (s', d') \<and> dev (get d') \<and> ?st s' key (m @ data)"
    using hmac_contract.update_law [OF assms(1) D t n] by (auto simp: s del_update inside_def intro: wrappedI)
qed

end

section \<open>AEAD providers\<close>

locale aead_delegation = device_part get put
  for get :: "'D \<Rightarrow> 'd" and put :: "'d \<Rightarrow> 'D \<Rightarrow> 'D" +
  fixes B :: "('d, 'alg, 'k, 't) aead_provider" and P :: "('D, 'Alg, 'K, 'T) aead_provider"
    and A :: "'alg \<Rightarrow> 'Alg" and K :: "'k \<Rightarrow> 'K" and T :: "'t \<Rightarrow> 'T"
  assumes del_key_length: "key_length P (A a) = key_length B a"
    and del_tag_length: "tag_length P (A a) = tag_length B a"
    and del_nonce_length: "nonce_length P (A a) = nonce_length B a"
    and del_load: "ap_load_from_keydata P (A a) key = inside get put K (ap_load_from_keydata B a key)"
    and del_encrypt: "ap_encrypt_in_place P (K k) nonce m aad
      = inside get put (map_prod T (\<lambda>c. c)) (ap_encrypt_in_place B k nonce m aad)"
    and del_decrypt: "ap_decrypt_in_place P (K k) nonce c tag aad
      = inside get put (\<lambda>r. r) (ap_decrypt_in_place B k nonce c tag aad)"
    and del_tag_bytes: "ap_tag_bytes P (T t) = ap_tag_bytes B t"
begin

lemma seal_eq: "aead_seal P (A a) key nonce m aad D = inside get put (\<lambda>r. r) (aead_seal B a key nonce m aad) D"
proof (cases "ap_load_from_keydata B a key (get D)")
  case (Some r)
  then show ?thesis
    by (cases r; cases "ap_encrypt_in_place B (fst r) nonce m aad (snd r)")
      (auto simp: aead_seal_def inside_def del_load del_encrypt del_tag_bytes)
qed (simp add: aead_seal_def inside_def del_load)

lemma open_eq: "aead_open P (A a) key nonce c tag aad D = inside get put (\<lambda>r. r) (aead_open B a key nonce c tag aad) D"
proof (cases "ap_load_from_keydata B a key (get D)")
  case (Some r)
  then show ?thesis
    by (cases r; cases "ap_decrypt_in_place B (fst r) nonce c tag aad (snd r)")
      (auto simp: aead_open_def inside_def del_load del_decrypt)
qed (simp add: aead_open_def inside_def del_load)

lemma contract:
  assumes "aead_contract B alg dev ky fits crypt mac left"
  shows "aead_contract P (A alg) (\<lambda>D. dev (get D)) (wrapped K ky) fits crypt mac left"
proof
  fix D :: 'D and k :: 'K and key nonce m c tag a :: bytes and aad :: "bytes list"
  show "crypt key nonce (crypt key nonce m) = m" by (rule aead_contract.crypt_involution [OF assms])
  show "length (crypt key nonce m) = length m" by (rule aead_contract.crypt_length [OF assms])
  show "length (mac key nonce a m) = tag_length P (A alg)"
    using aead_contract.mac_length [OF assms] by (simp add: del_tag_length)
  assume D: "dev (get D)"
  show "\<exists>k d'. ap_load_from_keydata P (A alg) key D = Some (k, d') \<and> dev (get d') \<and> wrapped K ky k key"
    if "length key = key_length P (A alg)"
    using aead_contract.load_law [OF assms D, of key] that
    by (auto simp: del_load del_key_length inside_def intro: wrappedI)
  assume "wrapped K ky k key"
  then obtain b where k: "k = K b" and b: "ky b key" by (rule wrappedE)
  assume "length nonce = nonce_length P (A alg)"
  then have nonce: "length nonce = nonce_length B alg" by (simp add: del_nonce_length)
  show "\<exists>t d'. ap_encrypt_in_place P k nonce m aad D = Some ((t, crypt key nonce m), d') \<and> dev (get d')
      \<and> ap_tag_bytes P t = mac key nonce (concat aad) m" if "fits nonce (concat aad) (length m)"
    using aead_contract.encrypt_law [OF assms D b nonce that]
    by (auto simp: k del_encrypt inside_def del_tag_bytes)
  assume "length tag = tag_length P (A alg)" and fits: "fits nonce (concat aad) (length c)"
  then have tag: "length tag = tag_length B alg" by (simp add: del_tag_length)
  show "\<exists>d'. ap_decrypt_in_place P k nonce c tag aad D =
      Some ((if tag = mac key nonce (concat aad) (crypt key nonce c) then (Inr (), crypt key nonce c)
             else (Inl DecryptionFailed, left c (crypt key nonce c))), d') \<and> dev (get d')"
    using aead_contract.decrypt_law [OF assms D b nonce tag fits]
    by (auto simp: k del_decrypt inside_def)
qed

end

section \<open>SHA-2 plumbing\<close>

text \<open>A plumbing handed through unchanged; its states are the base's own.\<close>

definition inside_sha2 :: "('D \<Rightarrow> 'd) \<Rightarrow> ('d \<Rightarrow> 'D \<Rightarrow> 'D) \<Rightarrow> ('d, 's) sha2short \<Rightarrow> ('D, 's) sha2short" where
  "inside_sha2 get put B =
     \<lparr> SUPPORTED = SUPPORTED B, SEND_PADDING = SEND_PADDING B, FIRST_CHUNK_SIZE = FIRST_CHUNK_SIZE B,
       UPDATE_MULTICHUNK = UPDATE_MULTICHUNK B,
       s2_init = (\<lambda>variant. inside get put (\<lambda>s. s) (s2_init B variant)),
       s2_update = (\<lambda>s data. inside get put (\<lambda>s. s) (s2_update B s data)),
       s2_finalize = (\<lambda>s last target. inside get put (\<lambda>s. s) (s2_finalize B s last target)) \<rparr>"

text \<open>The same for the curve primitives.\<close>

definition inside_ec_primitives :: "('D \<Rightarrow> 'd) \<Rightarrow> ('d \<Rightarrow> 'D \<Rightarrow> 'D) \<Rightarrow> ('d, 'sc, 'pt) ec_primitives
    \<Rightarrow> ('D, 'sc, 'pt) ec_primitives" where
  "inside_ec_primitives get put B =
     \<lparr> HAS_MULTIPLY_SCALAR_POINT = HAS_MULTIPLY_SCALAR_POINT B,
       ep_multiply_scalar_point = (\<lambda>s p. inside get put (\<lambda>r. r) (ep_multiply_scalar_point B s p)),
       ep_import_scalar_bytes = (\<lambda>b. inside get put (\<lambda>r. r) (ep_import_scalar_bytes B b)),
       ep_point = (\<lambda>x y. inside get put (\<lambda>r. r) (ep_point B x y)),
       ep_export_scalar_bytes = (\<lambda>s. inside get put (\<lambda>r. r) (ep_export_scalar_bytes B s)),
       ep_x_coord = (\<lambda>p. inside get put (\<lambda>r. r) (ep_x_coord B p)),
       ep_y_coord = (\<lambda>p. inside get put (\<lambda>r. r) (ep_y_coord B p)) \<rparr>"

section \<open>Digests computed by a library\<close>

text \<open>The streaming digest of a crate the sources only call: \<open>new\<close>, \<open>update\<close> and \<open>finish\<close> on an opaque
  state, and the length of the output array. \<open>digest_laws\<close> is what its documentation promises: the
  result is the hash of everything that was fed in, in order.\<close>

record 's digest_library =
  dl_size :: nat
  dl_new :: 's
  dl_update :: "'s \<Rightarrow> bytes \<Rightarrow> 's"
  dl_finish :: "'s \<Rightarrow> bytes"

definition dl_after :: "'s digest_library \<Rightarrow> bytes list \<Rightarrow> 's" where
  "dl_after L cs = foldl (dl_update L) (dl_new L) cs"

definition digest_laws :: "'s digest_library \<Rightarrow> nat \<Rightarrow> (bytes \<Rightarrow> bytes) \<Rightarrow> bool" where
  "digest_laws L n H \<longleftrightarrow> dl_size L = n \<and> (\<forall>m. length (H m) = n) \<and> (\<forall>cs. dl_finish L (dl_after L cs) = H (concat cs))"

text \<open>A provider whose algorithm \<open>A\<close> is such a library digest, its states and results wrapped in
  \<open>S\<close> and \<open>R\<close>.\<close>

locale digest_backend =
  fixes P :: "('d, 'alg, 's, 'o) hash_provider" and L :: "'l digest_library"
    and A :: 'alg and S :: "'l \<Rightarrow> 's" and R :: "bytes \<Rightarrow> 'o" and n :: nat
  assumes lib_len: "hash_len P A = n"
    and lib_init: "hp_init P A d = Some (S (dl_new L), d)"
    and lib_update: "hp_update P (S s) data d = Some (S (dl_update L s data), d)"
    and lib_finalize: "hp_finalize P (S s) d = Some (R (dl_finish L s), d)"
    and lib_output: "hp_output P (R out) = out"
begin

lemma library_contract:
  assumes "digest_laws L n H"
  shows "hash_contract P A dev (\<lambda>s m. \<exists>cs. s = S (dl_after L cs) \<and> concat cs = m) H k"
proof
  fix d and s and m data :: bytes
  show "length (H m) = hash_len P A" using assms by (simp add: digest_laws_def lib_len)
  assume d: "dev d"
  have "dl_new L = dl_after L []" by (simp add: dl_after_def)
  then show "\<exists>s d'. hp_init P A d = Some (s, d') \<and> dev d' \<and> (\<exists>cs. s = S (dl_after L cs) \<and> concat cs = [])"
    using d by (intro exI [of _ "S (dl_new L)"] exI [of _ d]) (auto simp: lib_init)
  assume "\<exists>cs. s = S (dl_after L cs) \<and> concat cs = m"
  then obtain cs where s: "s = S (dl_after L cs)" and m: "concat cs = m" by blast
  show "\<exists>s' d'. hp_update P s data d = Some (s', d') \<and> dev d' \<and> (\<exists>cs. s' = S (dl_after L cs) \<and> concat cs = m @ data)"
  proof (intro exI conjI)
    show "hp_update P s data d = Some (S (dl_after L (cs @ [data])), d)" by (simp add: s lib_update dl_after_def)
    show "concat (cs @ [data]) = m @ data" by (simp add: m)
  qed (simp_all add: d)
  show "\<exists>o' d'. hp_finalize P s d = Some (o', d') \<and> dev d' \<and> hp_output P o' = H m"
    using assms d by (simp add: s lib_finalize lib_output digest_laws_def m)
qed

lemma library_chunks:
  assumes "digest_laws L n H"
  shows "hash_chunks P A cs d = Some (H (concat cs), d)"
  using hash_contract.chunks [OF library_contract [OF assms, of "\<lambda>x. x = d" "length (concat cs)"], of d cs] by simp

end

text \<open>A library that keeps the message and hashes it at the end keeps the laws, for any hash function.\<close>

definition buffering_digest :: "nat \<Rightarrow> (bytes \<Rightarrow> bytes) \<Rightarrow> bytes digest_library" where
  "buffering_digest n H = \<lparr> dl_size = n, dl_new = [], dl_update = (\<lambda>s data. s @ data), dl_finish = H \<rparr>"

lemma buffering_digest_after: "dl_after (buffering_digest n H) cs = concat cs"
proof -
  have "foldl (\<lambda>s data. s @ data) p cs = p @ concat cs" for p :: bytes by (induction cs arbitrary: p) auto
  then show ?thesis by (simp add: dl_after_def buffering_digest_def)
qed

lemma buffering_digest_laws: "(\<And>m. length (H m) = n) \<Longrightarrow> digest_laws (buffering_digest n H) n H"
  by (simp add: digest_laws_def buffering_digest_after) (simp add: buffering_digest_def)

end
