(* ===== verification/Rand_Cal.thy ===== *)
theory Rand_Cal
  imports Delegation Empty_Cal
begin

text \<open>
  \<^verbatim>\<open>embedded-cal-rand/src/lib.rs\<close>: \<open>WithRng\<close> puts a \<open>Cal\<close> and a random number generator side by side. Its
  providers and plumbing are those of the \<open>Cal\<close>, its \<open>rand_core\<close> methods those of the generator, so a
  cryptographic operation never touches the generator and a draw never touches the device.
\<close>

record ('c, 'r) with_rng =
  wr_cal :: 'c
  wr_rng :: 'r

definition with_rng_new :: "'c \<Rightarrow> 'r \<Rightarrow> ('c, 'r) with_rng" where
  "with_rng_new c r = \<lparr> wr_cal = c, wr_rng = r \<rparr>"

text \<open>\<open>new_from_sys\<close>: \<open>sys\<close> is the generator \<open>rand::make_rng()\<close> returned.\<close>

definition new_from_sys :: "'r \<Rightarrow> 'c \<Rightarrow> ('c, 'r) with_rng" where
  "new_from_sys sys c = \<lparr> wr_cal = c, wr_rng = sys \<rparr>"

definition put_cal :: "'c \<Rightarrow> ('c, 'r) with_rng \<Rightarrow> ('c, 'r) with_rng" where
  "put_cal c w = w\<lparr>wr_cal := c\<rparr>"

definition put_rng :: "'r \<Rightarrow> ('c, 'r) with_rng \<Rightarrow> ('c, 'r) with_rng" where
  "put_rng r w = w\<lparr>wr_rng := r\<rparr>"

definition on_cal :: "('c \<Rightarrow> ('a \<times> 'c) option) \<Rightarrow> ('c, 'r) with_rng \<Rightarrow> ('a \<times> ('c, 'r) with_rng) option" where
  "on_cal m w = inside wr_cal put_cal (\<lambda>r. r) m w"

definition on_rng :: "('r \<Rightarrow> ('a \<times> 'r) option) \<Rightarrow> ('c, 'r) with_rng \<Rightarrow> ('a \<times> ('c, 'r) with_rng) option" where
  "on_rng m w = inside wr_rng put_rng (\<lambda>r. r) m w"

section \<open>The forwarded interfaces\<close>

text \<open>The provider types of \<open>WithRng\<close> are those of the inner \<open>Cal\<close>; \<open>&mut self.cal\<close> is reached through the
  composite. So a provider of the composite is the inner one run on the \<open>cal\<close> field.\<close>

definition wr_hash :: "('c, 'alg, 's, 'o) hash_provider \<Rightarrow> (('c, 'r) with_rng, 'alg, 's, 'o) hash_provider" where
  "wr_hash B =
     \<lparr> hash_len = hash_len B, hash_from_cose_number = hash_from_cose_number B,
       hash_from_ni_id = hash_from_ni_id B, hash_from_ni_name = hash_from_ni_name B,
       hp_init = (\<lambda>a. on_cal (hp_init B a)), hp_update = (\<lambda>s data. on_cal (hp_update B s data)),
       hp_finalize = (\<lambda>s. on_cal (hp_finalize B s)), hp_output = hp_output B \<rparr>"

definition wr_hmac :: "('c, 'alg, 'k, 's, 'o) hmac_provider \<Rightarrow> (('c, 'r) with_rng, 'alg, 'k, 's, 'o) hmac_provider" where
  "wr_hmac B =
     \<lparr> hmac_MAX_LEN = hmac_MAX_LEN B, hmac_len = hmac_len B, hmac_from_cose_number = hmac_from_cose_number B,
       mp_load_from_keydata = (\<lambda>a key. on_cal (mp_load_from_keydata B a key)),
       mp_init = (\<lambda>k. on_cal (mp_init B k)), mp_update = (\<lambda>s data. on_cal (mp_update B s data)),
       mp_finalize = (\<lambda>s. on_cal (mp_finalize B s)), mp_output = mp_output B \<rparr>"

definition wr_aead :: "('c, 'alg, 'k, 't) aead_provider \<Rightarrow> (('c, 'r) with_rng, 'alg, 'k, 't) aead_provider" where
  "wr_aead B =
     \<lparr> key_length = key_length B, tag_length = tag_length B, nonce_length = nonce_length B,
       aead_from_cose_number = aead_from_cose_number B,
       ap_load_from_keydata = (\<lambda>a key. on_cal (ap_load_from_keydata B a key)),
       ap_encrypt_in_place = (\<lambda>k nonce m aad. on_cal (ap_encrypt_in_place B k nonce m aad)),
       ap_decrypt_in_place = (\<lambda>k nonce c tag aad. on_cal (ap_decrypt_in_place B k nonce c tag aad)),
       ap_tag_bytes = ap_tag_bytes B \<rparr>"

definition wr_dh :: "('c, 'alg, 'v, 'k, 'p, 'ss) dh_provider \<Rightarrow> (('c, 'r) with_rng, 'alg, 'v, 'k, 'p, 'ss) dh_provider" where
  "wr_dh B =
     \<lparr> output_length = output_length B, dh_from_cose_ecdh = dh_from_cose_ecdh B,
       dp_generate_visible = (\<lambda>a. on_cal (dp_generate_visible B a)), dp_into_secret = dp_into_secret B,
       dp_export_secretkey_bytes = (\<lambda>v. on_cal (dp_export_secretkey_bytes B v)),
       dp_import_secretkey_bytes = (\<lambda>a b. on_cal (dp_import_secretkey_bytes B a b)),
       dp_export_publickey_bytes = (\<lambda>p. on_cal (dp_export_publickey_bytes B p)),
       dp_import_publickey_bytes = (\<lambda>a b. on_cal (dp_import_publickey_bytes B a b)),
       dp_shared_secret = (\<lambda>k p. on_cal (dp_shared_secret B k p)),
       dp_public_key = (\<lambda>k. on_cal (dp_public_key B k)),
       dp_raw_secret_bytes = (\<lambda>ss. on_cal (dp_raw_secret_bytes B ss)) \<rparr>"

definition with_rng_cal where
  "with_rng_cal C =
     \<lparr> cal_dh = (wr_dh (cal_dh C) :: (('c, 'r) with_rng, _, _, _, _, _) dh_provider),
       cal_aead = (wr_aead (cal_aead C) :: (('c, 'r) with_rng, _, _, _) aead_provider),
       cal_hash = (wr_hash (cal_hash C) :: (('c, 'r) with_rng, _, _, _) hash_provider),
       cal_hmac = (wr_hmac (cal_hmac C) :: (('c, 'r) with_rng, _, _, _, _) hmac_provider) \<rparr>"

text \<open>\<open>EmptyCal\<close> is its own four providers.\<close>

definition empty_cal where
  "empty_cal =
     \<lparr> cal_dh = (empty_dh :: ('d, _, _, _, _, _) dh_provider), cal_aead = (empty_aead :: ('d, _, _, _) aead_provider),
       cal_hash = (empty_hash :: ('d, _, _, _) hash_provider), cal_hmac = (empty_hmac :: ('d, _, _, _, _) hmac_provider) \<rparr>"

definition wr_sha2 :: "('c, 's) sha2short \<Rightarrow> (('c, 'r) with_rng, 's) sha2short" where
  "wr_sha2 B = inside_sha2 wr_cal put_cal B"

definition wr_ec :: "('c, 'sp, 'pp, 'sx, 'px, 'sh, 'ph) ec \<Rightarrow> (('c, 'r) with_rng, 'sp, 'pp, 'sx, 'px, 'sh, 'ph) ec" where
  "wr_ec B =
     \<lparr> MAX_SCALAR_LENGTH = MAX_SCALAR_LENGTH B,
       ec_p256 = inside_ec_primitives wr_cal put_cal (ec_p256 B),
       ec_x25519 = inside_ec_primitives wr_cal put_cal (ec_x25519 B),
       ec_x448 = inside_ec_primitives wr_cal put_cal (ec_x448 B) \<rparr>"

definition wr_try_rng :: "('r, 'e) try_rng \<Rightarrow> (('c, 'r) with_rng, 'e) try_rng" where
  "wr_try_rng G =
     \<lparr> rng_next_u32 = on_rng (rng_next_u32 G), rng_next_u64 = on_rng (rng_next_u64 G),
       rng_fill_bytes = (\<lambda>n. on_rng (rng_fill_bytes G n)) \<rparr>"

section \<open>The two halves do not interfere\<close>

lemma on_cal_rng: "on_cal m w = Some (r, w') \<Longrightarrow> wr_rng w' = wr_rng w"
  by (auto simp: on_cal_def inside_def put_cal_def split: option.splits bind_splits)

lemma on_rng_cal: "on_rng m w = Some (r, w') \<Longrightarrow> wr_cal w' = wr_cal w"
  by (auto simp: on_rng_def inside_def put_rng_def split: option.splits bind_splits)

interpretation wr: device_part wr_cal put_cal
  by unfold_locales (simp_all add: put_cal_def)

interpretation wr_r: device_part wr_rng put_rng
  by unfold_locales (simp_all add: put_rng_def)

interpretation wr_hash: hash_delegation wr_cal put_cal B "wr_hash B" "\<lambda>a. a" "\<lambda>s. s" "\<lambda>r. r" for B
  by unfold_locales (simp_all add: wr_hash_def on_cal_def [abs_def])

interpretation wr_hmac: hmac_delegation wr_cal put_cal B "wr_hmac B" "\<lambda>a. a" "\<lambda>k. k" "\<lambda>s. s" "\<lambda>r. r" for B
  by unfold_locales (simp_all add: wr_hmac_def on_cal_def [abs_def])

interpretation wr_aead: aead_delegation wr_cal put_cal B "wr_aead B" "\<lambda>a. a" "\<lambda>k. k" "\<lambda>t. t" for B
  by unfold_locales (simp_all add: wr_aead_def on_cal_def [abs_def] prod.map_ident)


end
