(* ===== verification/Lc_Hash.thy ===== *)
theory Lc_Hash
  imports Delegation
begin

text \<open>
  \<^verbatim>\<open>embedded-cal-libcrux/src/hash.rs\<close>: the hash provider of the libcrux back-end. SHA-256 and the four
  SHA-3 digests come from the crates \<^verbatim>\<open>libcrux-sha2\<close> and \<^verbatim>\<open>libcrux-iot-sha3\<close>, which are parameters of the
  model (\<open>libcrux_hashes\<close>); everything else goes to the base. The state of the provider is that of its
  base (\<open>struct Extender(EC::Base)\<close>).
\<close>

record ('s2, 's3) libcrux_hashes =
  lib_sha256 :: "'s2 digest_library"
  lib_sha3_224 :: "'s3 digest_library"
  lib_sha3_256 :: "'s3 digest_library"
  lib_sha3_384 :: "'s3 digest_library"
  lib_sha3_512 :: "'s3 digest_library"

datatype 'balg lc_hash_algorithm =
  LcHashDirect 'balg | LcSha256 | LcSha3_224 | LcSha3_256 | LcSha3_384 | LcSha3_512

datatype ('bst, 's2, 's3) lc_hash_state =
  LcStateDirect 'bst | LcStateSha256 's2 | LcState3_224 's3 | LcState3_256 's3 | LcState3_384 's3 | LcState3_512 's3

datatype 'bo lc_hash_result =
  LcResultDirect 'bo | LcResultSha256 bytes | LcResult3_224 bytes | LcResult3_256 bytes
  | LcResult3_384 bytes | LcResult3_512 bytes

section \<open>Classified bytes\<close>

text \<open>\<open>libcrux_secrets::U8\<close> is a byte whose operations are restricted at the type level; classifying and
  declassifying do not change the value.\<close>

datatype classified = U8 (declassify: u8)

definition classify_ref :: "bytes \<Rightarrow> classified list" where
  "classify_ref bs = map U8 bs"

definition declassify_ref :: "classified list \<Rightarrow> bytes" where
  "declassify_ref cs = map declassify cs"

lemma declassify_classify [simp]: "declassify_ref (classify_ref bs) = bs"
  by (simp add: classify_ref_def declassify_ref_def comp_def)

lemma classify_declassify [simp]: "classify_ref (declassify_ref cs) = cs"
  by (simp add: classify_ref_def declassify_ref_def comp_def)

section \<open>The provider\<close>

fun lc_hash_init :: "('s2, 's3) libcrux_hashes \<Rightarrow> ('d, 'balg, 'bst, 'bo) hash_provider \<Rightarrow> 'balg lc_hash_algorithm
    \<Rightarrow> 'd \<Rightarrow> (('bst, 's2, 's3) lc_hash_state \<times> 'd) option" where
  "lc_hash_init L B (LcHashDirect alg) d = fwd LcStateDirect (hp_init B alg) d"
| "lc_hash_init L B LcSha256 d = Some (LcStateSha256 (dl_new (lib_sha256 L)), d)"
| "lc_hash_init L B LcSha3_224 d = Some (LcState3_224 (dl_new (lib_sha3_224 L)), d)"
| "lc_hash_init L B LcSha3_256 d = Some (LcState3_256 (dl_new (lib_sha3_256 L)), d)"
| "lc_hash_init L B LcSha3_384 d = Some (LcState3_384 (dl_new (lib_sha3_384 L)), d)"
| "lc_hash_init L B LcSha3_512 d = Some (LcState3_512 (dl_new (lib_sha3_512 L)), d)"

text \<open>The SHA-3 library takes the classified bytes as they are (its \<open>dl_update\<close> is given the values they
  carry); the base and the SHA-2 library take declassified ones.\<close>

fun update_with_classified :: "('s2, 's3) libcrux_hashes \<Rightarrow> ('d, 'balg, 'bst, 'bo) hash_provider
    \<Rightarrow> ('bst, 's2, 's3) lc_hash_state \<Rightarrow> classified list \<Rightarrow> 'd
    \<Rightarrow> (('bst, 's2, 's3) lc_hash_state \<times> 'd) option" where
  "update_with_classified L B (LcStateDirect i) data d = fwd LcStateDirect (hp_update B i (declassify_ref data)) d"
| "update_with_classified L B (LcStateSha256 s) data d =
     Some (LcStateSha256 (dl_update (lib_sha256 L) s (declassify_ref data)), d)"
| "update_with_classified L B (LcState3_224 s) data d =
     Some (LcState3_224 (dl_update (lib_sha3_224 L) s (declassify_ref data)), d)"
| "update_with_classified L B (LcState3_256 s) data d =
     Some (LcState3_256 (dl_update (lib_sha3_256 L) s (declassify_ref data)), d)"
| "update_with_classified L B (LcState3_384 s) data d =
     Some (LcState3_384 (dl_update (lib_sha3_384 L) s (declassify_ref data)), d)"
| "update_with_classified L B (LcState3_512 s) data d =
     Some (LcState3_512 (dl_update (lib_sha3_512 L) s (declassify_ref data)), d)"

definition lc_hash_update :: "('s2, 's3) libcrux_hashes \<Rightarrow> ('d, 'balg, 'bst, 'bo) hash_provider
    \<Rightarrow> ('bst, 's2, 's3) lc_hash_state \<Rightarrow> bytes \<Rightarrow> 'd \<Rightarrow> (('bst, 's2, 's3) lc_hash_state \<times> 'd) option" where
  "lc_hash_update L B s data d = update_with_classified L B s (classify_ref data) d"

fun lc_hash_finalize :: "('s2, 's3) libcrux_hashes \<Rightarrow> ('d, 'balg, 'bst, 'bo) hash_provider
    \<Rightarrow> ('bst, 's2, 's3) lc_hash_state \<Rightarrow> 'd \<Rightarrow> ('bo lc_hash_result \<times> 'd) option" where
  "lc_hash_finalize L B (LcStateDirect u) d = fwd LcResultDirect (hp_finalize B u) d"
| "lc_hash_finalize L B (LcStateSha256 s) d = Some (LcResultSha256 (dl_finish (lib_sha256 L) s), d)"
| "lc_hash_finalize L B (LcState3_224 s) d = Some (LcResult3_224 (dl_finish (lib_sha3_224 L) s), d)"
| "lc_hash_finalize L B (LcState3_256 s) d = Some (LcResult3_256 (dl_finish (lib_sha3_256 L) s), d)"
| "lc_hash_finalize L B (LcState3_384 s) d = Some (LcResult3_384 (dl_finish (lib_sha3_384 L) s), d)"
| "lc_hash_finalize L B (LcState3_512 s) d = Some (LcResult3_512 (dl_finish (lib_sha3_512 L) s), d)"

section \<open>Algorithms and results\<close>

fun lc_hash_len :: "('s2, 's3) libcrux_hashes \<Rightarrow> ('balg \<Rightarrow> nat) \<Rightarrow> 'balg lc_hash_algorithm \<Rightarrow> nat" where
  "lc_hash_len L f (LcHashDirect a) = f a"
| "lc_hash_len L f LcSha256 = 32"
| "lc_hash_len L f LcSha3_224 = dl_size (lib_sha3_224 L)"
| "lc_hash_len L f LcSha3_256 = dl_size (lib_sha3_256 L)"
| "lc_hash_len L f LcSha3_384 = dl_size (lib_sha3_384 L)"
| "lc_hash_len L f LcSha3_512 = dl_size (lib_sha3_512 L)"

fun lc_hash_eq :: "('balg \<Rightarrow> 'balg \<Rightarrow> bool) \<Rightarrow> 'balg lc_hash_algorithm \<Rightarrow> 'balg lc_hash_algorithm \<Rightarrow> bool" where
  "lc_hash_eq eq (LcHashDirect l0) (LcHashDirect r0) = eq l0 r0"
| "lc_hash_eq eq LcSha256 LcSha256 = True"
| "lc_hash_eq eq LcSha3_224 LcSha3_224 = True"
| "lc_hash_eq eq LcSha3_256 LcSha3_256 = True"
| "lc_hash_eq eq LcSha3_384 LcSha3_384 = True"
| "lc_hash_eq eq LcSha3_512 LcSha3_512 = True"
| "lc_hash_eq eq _ _ = False"

fun lc_hash_debug :: "('balg \<Rightarrow> string) \<Rightarrow> 'balg lc_hash_algorithm \<Rightarrow> string" where
  "lc_hash_debug f (LcHashDirect a) = ''Direct('' @ f a @ '')''"
| "lc_hash_debug f LcSha256 = ''Sha256''"
| "lc_hash_debug f LcSha3_224 = ''Sha3_224''"
| "lc_hash_debug f LcSha3_256 = ''Sha3_256''"
| "lc_hash_debug f LcSha3_384 = ''Sha3_384''"
| "lc_hash_debug f LcSha3_512 = ''Sha3_512''"

text \<open>The selectors ask the base first.\<close>

definition lc_hash_from_cose_number :: "(int \<Rightarrow> 'balg option) \<Rightarrow> int \<Rightarrow> 'balg lc_hash_algorithm option" where
  "lc_hash_from_cose_number base number =
     (case base number of
        Some a \<Rightarrow> Some (LcHashDirect a)
      | None \<Rightarrow> if number = - 16 then Some LcSha256 else None)"

definition lc_hash_from_ni_id :: "(u8 \<Rightarrow> 'balg option) \<Rightarrow> u8 \<Rightarrow> 'balg lc_hash_algorithm option" where
  "lc_hash_from_ni_id base number =
     (case base number of
        Some a \<Rightarrow> Some (LcHashDirect a)
      | None \<Rightarrow>
          if number = 1 then Some LcSha256
          else if number = 9 then Some LcSha3_224
          else if number = 10 then Some LcSha3_256
          else if number = 11 then Some LcSha3_384
          else if number = 12 then Some LcSha3_512
          else None)"

definition lc_hash_from_ni_name :: "(string \<Rightarrow> 'balg option) \<Rightarrow> string \<Rightarrow> 'balg lc_hash_algorithm option" where
  "lc_hash_from_ni_name base name =
     (case base name of
        Some a \<Rightarrow> Some (LcHashDirect a)
      | None \<Rightarrow>
          if name = ''sha-256'' then Some LcSha256
          else if name = ''sha3-224'' then Some LcSha3_224
          else if name = ''sha3-256'' then Some LcSha3_256
          else if name = ''sha3-384'' then Some LcSha3_384
          else if name = ''sha3-512'' then Some LcSha3_512
          else None)"

fun as_classified :: "('bo \<Rightarrow> bytes) \<Rightarrow> 'bo lc_hash_result \<Rightarrow> classified list" where
  "as_classified f (LcResultDirect r) = classify_ref (f r)"
| "as_classified f (LcResultSha256 data) = classify_ref data"
| "as_classified f (LcResult3_224 data) = classify_ref data"
| "as_classified f (LcResult3_256 data) = classify_ref data"
| "as_classified f (LcResult3_384 data) = classify_ref data"
| "as_classified f (LcResult3_512 data) = classify_ref data"

definition lc_hash_as_ref :: "('bo \<Rightarrow> bytes) \<Rightarrow> 'bo lc_hash_result \<Rightarrow> bytes" where
  "lc_hash_as_ref f r = declassify_ref (as_classified f r)"

definition lc_hash :: "('s2, 's3) libcrux_hashes \<Rightarrow> ('d, 'balg, 'bst, 'bo) hash_provider
    \<Rightarrow> ('d, 'balg lc_hash_algorithm, ('bst, 's2, 's3) lc_hash_state, 'bo lc_hash_result) hash_provider" where
  "lc_hash L B =
     \<lparr> hash_len = lc_hash_len L (hash_len B),
       hash_from_cose_number = lc_hash_from_cose_number (hash_from_cose_number B),
       hash_from_ni_id = lc_hash_from_ni_id (hash_from_ni_id B),
       hash_from_ni_name = lc_hash_from_ni_name (hash_from_ni_name B),
       hp_init = lc_hash_init L B,
       hp_update = lc_hash_update L B,
       hp_finalize = lc_hash_finalize L B,
       hp_output = lc_hash_as_ref (hp_output B) \<rparr>"

section \<open>Contracts\<close>

text \<open>The base's algorithms keep their contract, and each library digest brings its own.\<close>

lemmas lc_hash_arms = lc_hash_def lc_hash_update_def lc_hash_as_ref_def

interpretation lc_direct: hash_delegation "\<lambda>d. d" "\<lambda>d _. d" B "lc_hash L B" LcHashDirect LcStateDirect LcResultDirect
  for L B
  by unfold_locales (simp_all add: lc_hash_arms fwd_inside fun_eq_iff)

interpretation lc_sha256: digest_backend "lc_hash L B" "lib_sha256 L" LcSha256 LcStateSha256 LcResultSha256 32
  for L B
  by unfold_locales (simp_all add: lc_hash_arms)

interpretation lc_sha3_224: digest_backend "lc_hash L B" "lib_sha3_224 L" LcSha3_224 LcState3_224 LcResult3_224
    "dl_size (lib_sha3_224 L)" for L B
  by unfold_locales (simp_all add: lc_hash_arms)

interpretation lc_sha3_256: digest_backend "lc_hash L B" "lib_sha3_256 L" LcSha3_256 LcState3_256 LcResult3_256
    "dl_size (lib_sha3_256 L)" for L B
  by unfold_locales (simp_all add: lc_hash_arms)

interpretation lc_sha3_384: digest_backend "lc_hash L B" "lib_sha3_384 L" LcSha3_384 LcState3_384 LcResult3_384
    "dl_size (lib_sha3_384 L)" for L B
  by unfold_locales (simp_all add: lc_hash_arms)

interpretation lc_sha3_512: digest_backend "lc_hash L B" "lib_sha3_512 L" LcSha3_512 LcState3_512 LcResult3_512
    "dl_size (lib_sha3_512 L)" for L B
  by unfold_locales (simp_all add: lc_hash_arms)

lemma lc_hash_eq_iff: "lc_hash_eq (=) a b \<longleftrightarrow> a = b"
  by (cases a; cases b) simp_all

text \<open>The results of the two ways to feed bytes in are the same.\<close>

lemma update_classified_iff: "update_with_classified L B s data d = lc_hash_update L B s (declassify_ref data) d"
  by (simp add: lc_hash_update_def)

end
