(* ===== verification/Lc_Aead.thy ===== *)
theory Lc_Aead
  imports Delegation
begin

text \<open>
  \<^verbatim>\<open>embedded-cal-libcrux/src/aead.rs\<close>: the AEAD provider of the libcrux back-end. AES-GCM and AES-CCM
  come from the crate \<^verbatim>\<open>libcrux-iot-aes\<close>, which is a parameter (\<open>aes_library\<close>: its length constants and
  the \<open>encrypt\<close> and \<open>decrypt\<close> of its modules). What is modelled is what the back-end does around it: the
  iterator over the additional data, the fixed-length keys and tags, the error mapping, and the
  delegation to the base.
\<close>

section \<open>The additional-data iterator\<close>

text \<open>\<open>AadAdapter\<close>: the rest of the flattened iterator (the slices still to be gone through) and the total
  length taken when it was made.\<close>

record aad_adapter =
  aa_inner :: "bytes list"
  aa_len :: nat

fun aad_next_inner :: "bytes list \<Rightarrow> u8 option \<times> bytes list" where
  "aad_next_inner [] = (None, [])"
| "aad_next_inner ([] # cs) = aad_next_inner cs"
| "aad_next_inner ((b # bs) # cs) = (Some b, bs # cs)"

definition aad_next :: "aad_adapter \<Rightarrow> u8 option \<times> aad_adapter" where
  "aad_next a = (let (r, cs) = aad_next_inner (aa_inner a) in (r, a\<lparr>aa_inner := cs\<rparr>))"

text \<open>\<open>flatten\<close>: \<open>len += chunk.len()\<close> over the items, then the non-empty items.\<close>

fun sum_lengths :: "nat \<Rightarrow> bytes list \<Rightarrow> nat option" where
  "sum_lengths len [] = Some len"
| "sum_lengths len (c # cs) = do { len \<leftarrow> usize_add len (length c); sum_lengths len cs }"

definition flatten :: "bytes list \<Rightarrow> aad_adapter option" where
  "flatten items = do {
     len \<leftarrow> sum_lengths 0 items;
     Some \<lparr> aa_inner = List.filter (\<lambda>c. c \<noteq> []) items, aa_len = len \<rparr>
   }"

text \<open>What a consumer that calls \<open>next\<close> until \<open>None\<close> gets.\<close>

lemma aad_next_inner_shorter:
  "aad_next_inner cs = (Some b, cs') \<Longrightarrow> length (concat cs') < length (concat cs)"
  by (induction cs rule: aad_next_inner.induct) auto

function drain_inner :: "bytes list \<Rightarrow> bytes" where
  "drain_inner cs = (case aad_next_inner cs of (None, _) \<Rightarrow> [] | (Some b, cs') \<Rightarrow> b # drain_inner cs')"
  by pat_completeness auto
termination
  by (relation "measure (\<lambda>cs. length (concat cs))") (auto dest: sym [THEN aad_next_inner_shorter])

declare drain_inner.simps [simp del]

definition drain :: "aad_adapter \<Rightarrow> bytes" where
  "drain a = drain_inner (aa_inner a)"

lemma drain_inner_Nil [simp]: "drain_inner [] = []"
  by (simp add: drain_inner.simps [of "[]"])

lemma drain_inner_skip [simp]: "drain_inner ([] # cs) = drain_inner cs"
  by (simp add: drain_inner.simps [of "[] # cs"] drain_inner.simps [of cs])

lemma drain_inner_Cons [simp]: "drain_inner ((b # bs) # cs) = b # drain_inner (bs # cs)"
  by (simp add: drain_inner.simps [of "(b # bs) # cs"])

lemma drain_inner_concat: "drain_inner cs = concat cs"
proof (induction cs)
  case (Cons c cs)
  then show ?case by (induction c) auto
qed simp

lemma sum_lengths_Some: "sum_lengths n cs = Some k \<longleftrightarrow> k = n + length (concat cs)"
  if "n + length (concat cs) < usize_limit"
  using that by (induction cs arbitrary: n) (auto simp: usize_add_def add.assoc)

lemma sum_lengths_None: "n < usize_limit \<Longrightarrow> usize_limit \<le> n + length (concat cs) \<Longrightarrow> sum_lengths n cs = None"
  by (induction cs arbitrary: n) (auto simp: usize_add_def add.assoc)

lemma concat_nonempty: "concat (List.filter (\<lambda>c. c \<noteq> []) cs) = concat cs"
  by (induction cs) auto

lemma flatten_ok:
  "length (concat items) < usize_limit \<Longrightarrow>
   \<exists>a. flatten items = Some a \<and> drain a = concat items \<and> aa_len a = length (concat items)"
  using sum_lengths_Some [of 0 items "length (concat items)"]
  by (simp add: flatten_def drain_def drain_inner_concat concat_nonempty)

lemma flatten_None: "usize_limit \<le> length (concat items) \<Longrightarrow> flatten items = None"
  using sum_lengths_None [of 0 items] by (simp add: flatten_def usize_limit_def)

text \<open>\<open>len\<close> is not updated by \<open>next\<close>: once bytes have been taken it is more than what remains, which is not
  what \<open>ExactSizeIterator::len\<close> promises. It is exact before the first \<open>next\<close>.\<close>

lemma aad_len_is_not_remaining:
  assumes "flatten items = Some a" "length (concat items) < usize_limit" "aad_next a = (Some b, a')"
  shows "aa_len a' = Suc (length (drain a'))"
proof -
  obtain cs where cs: "aad_next_inner (aa_inner a) = (Some b, cs)" "a' = a\<lparr>aa_inner := cs\<rparr>"
    using assms(3) by (auto simp: aad_next_def split: prod.splits)
  then have "length (drain a) = Suc (length (drain a'))" by (simp add: drain_def drain_inner.simps [of "aa_inner a"])
  moreover have "aa_len a = length (drain a)" using flatten_ok [OF assms(2)] assms(1) by auto
  ultimately show ?thesis using cs(2) by simp
qed

section \<open>The library\<close>

datatype aes_module = aes_gcm_128 | aes_gcm_256 | aes_ccm_128 | aes_ccm_128_8 | aes_ccm_256 | aes_ccm_256_8

text \<open>\<open>encrypt\<close> changes the message and the tag buffer in place, \<open>decrypt\<close> the message.\<close>

record 'e aes_library =
  AES_128_KEY_LEN :: nat
  AES_256_KEY_LEN :: nat
  TAG_LEN :: nat
  CCM_SHORT_TAG_LEN :: nat
  NONCE_LEN :: nat
  lib_encrypt :: "aes_module \<Rightarrow> bytes \<Rightarrow> bytes \<Rightarrow> aad_adapter \<Rightarrow> bytes \<Rightarrow> bytes \<Rightarrow> ('e + unit) \<times> bytes \<times> bytes"
  lib_decrypt :: "aes_module \<Rightarrow> bytes \<Rightarrow> bytes \<Rightarrow> aad_adapter \<Rightarrow> bytes \<Rightarrow> bytes \<Rightarrow> ('e + unit) \<times> bytes"

section \<open>The provider\<close>

datatype 'balg lc_aead_algorithm =
  LcAeadDirect 'balg | AesGcm128 | AesGcm256 | AesCcm128 | AesCcm128Short | AesCcm256 | AesCcm256Short

datatype 'bk lc_aead_key =
  KeyDirect 'bk | KeyGcm128 bytes | KeyGcm256 bytes | KeyCcm128 bytes | KeyCcm128Short bytes
  | KeyCcm256 bytes | KeyCcm256Short bytes

datatype 'bt lc_aead_tag =
  TagDirect 'bt | TagGcm128 bytes | TagGcm256 bytes | TagCcm128 bytes | TagCcm128Short bytes
  | TagCcm256 bytes | TagCcm256Short bytes

text \<open>\<open><[u8; N]>::try_from(key).expect(...)\<close>.\<close>

definition convert :: "nat \<Rightarrow> bytes \<Rightarrow> bytes option" where
  "convert n key = (if length key = n then Some key else None)"

fun lc_aead_load :: "'e aes_library \<Rightarrow> ('d, 'balg, 'bk, 'bt) aead_provider \<Rightarrow> 'balg lc_aead_algorithm \<Rightarrow> bytes \<Rightarrow> 'd
    \<Rightarrow> ('bk lc_aead_key \<times> 'd) option" where
  "lc_aead_load L B (LcAeadDirect alg) key d = fwd KeyDirect (ap_load_from_keydata B alg key) d"
| "lc_aead_load L B AesGcm128 key d = do { k \<leftarrow> convert (AES_128_KEY_LEN L) key; Some (KeyGcm128 k, d) }"
| "lc_aead_load L B AesGcm256 key d = do { k \<leftarrow> convert (AES_256_KEY_LEN L) key; Some (KeyGcm256 k, d) }"
| "lc_aead_load L B AesCcm128 key d = do { k \<leftarrow> convert (AES_128_KEY_LEN L) key; Some (KeyCcm128 k, d) }"
| "lc_aead_load L B AesCcm128Short key d = do { k \<leftarrow> convert (AES_128_KEY_LEN L) key; Some (KeyCcm128Short k, d) }"
| "lc_aead_load L B AesCcm256 key d = do { k \<leftarrow> convert (AES_256_KEY_LEN L) key; Some (KeyCcm256 k, d) }"
| "lc_aead_load L B AesCcm256Short key d = do { k \<leftarrow> convert (AES_256_KEY_LEN L) key; Some (KeyCcm256Short k, d) }"

text \<open>The macro \<open>encrypt!\<close>: the library's result is unwrapped, so an error is a panic.\<close>

definition macro_encrypt :: "'e aes_library \<Rightarrow> aes_module \<Rightarrow> nat \<Rightarrow> bytes \<Rightarrow> bytes \<Rightarrow> bytes \<Rightarrow> bytes list
    \<Rightarrow> (bytes \<times> bytes) option" where
  "macro_encrypt L md tag_len key nonce message aad = do {
     let tag = replicate tag_len 0;
     a \<leftarrow> flatten aad;
     (case lib_encrypt L md key nonce a message tag of
        (Inl _, _, _) \<Rightarrow> None
      | (Inr _, message, tag) \<Rightarrow> Some (tag, message))
   }"

fun lc_aead_encrypt :: "'e aes_library \<Rightarrow> ('d, 'balg, 'bk, 'bt) aead_provider \<Rightarrow> 'bk lc_aead_key \<Rightarrow> bytes \<Rightarrow> bytes
    \<Rightarrow> bytes list \<Rightarrow> 'd \<Rightarrow> (('bt lc_aead_tag \<times> bytes) \<times> 'd) option" where
  "lc_aead_encrypt L B (KeyDirect k) nonce message aad d =
     fwd (map_prod TagDirect (\<lambda>c. c)) (ap_encrypt_in_place B k nonce message aad) d"
| "lc_aead_encrypt L B (KeyGcm128 key) nonce message aad d = do {
     (tag, message) \<leftarrow> macro_encrypt L aes_gcm_128 (TAG_LEN L) key nonce message aad;
     Some ((TagGcm128 tag, message), d) }"
| "lc_aead_encrypt L B (KeyGcm256 key) nonce message aad d = do {
     (tag, message) \<leftarrow> macro_encrypt L aes_gcm_256 (TAG_LEN L) key nonce message aad;
     Some ((TagGcm256 tag, message), d) }"
| "lc_aead_encrypt L B (KeyCcm128 key) nonce message aad d = do {
     (tag, message) \<leftarrow> macro_encrypt L aes_ccm_128 (TAG_LEN L) key nonce message aad;
     Some ((TagCcm128 tag, message), d) }"
| "lc_aead_encrypt L B (KeyCcm128Short key) nonce message aad d = do {
     (tag, message) \<leftarrow> macro_encrypt L aes_ccm_128_8 (CCM_SHORT_TAG_LEN L) key nonce message aad;
     Some ((TagCcm128Short tag, message), d) }"
| "lc_aead_encrypt L B (KeyCcm256 key) nonce message aad d = do {
     (tag, message) \<leftarrow> macro_encrypt L aes_ccm_256 (TAG_LEN L) key nonce message aad;
     Some ((TagCcm256 tag, message), d) }"
| "lc_aead_encrypt L B (KeyCcm256Short key) nonce message aad d = do {
     (tag, message) \<leftarrow> macro_encrypt L aes_ccm_256_8 (CCM_SHORT_TAG_LEN L) key nonce message aad;
     Some ((TagCcm256Short tag, message), d) }"

text \<open>The macro \<open>decrypt!\<close>: any error of the library is \<open>DecryptionFailed\<close>.\<close>

definition macro_decrypt :: "'e aes_library \<Rightarrow> aes_module \<Rightarrow> bytes \<Rightarrow> bytes \<Rightarrow> bytes \<Rightarrow> bytes \<Rightarrow> bytes list \<Rightarrow> 'd
    \<Rightarrow> (((decryption_failed + unit) \<times> bytes) \<times> 'd) option" where
  "macro_decrypt L md key nonce message tag aad d = do {
     a \<leftarrow> flatten aad;
     (case lib_decrypt L md key nonce a message tag of
        (Inl _, message) \<Rightarrow> Some ((Inl DecryptionFailed, message), d)
      | (Inr _, message) \<Rightarrow> Some ((Inr (), message), d))
   }"

fun lc_aead_decrypt :: "'e aes_library \<Rightarrow> ('d, 'balg, 'bk, 'bt) aead_provider \<Rightarrow> 'bk lc_aead_key \<Rightarrow> bytes \<Rightarrow> bytes
    \<Rightarrow> bytes \<Rightarrow> bytes list \<Rightarrow> 'd \<Rightarrow> (((decryption_failed + unit) \<times> bytes) \<times> 'd) option" where
  "lc_aead_decrypt L B (KeyDirect k) nonce message tag aad d = ap_decrypt_in_place B k nonce message tag aad d"
| "lc_aead_decrypt L B (KeyGcm128 key) nonce message tag aad d = macro_decrypt L aes_gcm_128 key nonce message tag aad d"
| "lc_aead_decrypt L B (KeyGcm256 key) nonce message tag aad d = macro_decrypt L aes_gcm_256 key nonce message tag aad d"
| "lc_aead_decrypt L B (KeyCcm128 key) nonce message tag aad d = macro_decrypt L aes_ccm_128 key nonce message tag aad d"
| "lc_aead_decrypt L B (KeyCcm128Short key) nonce message tag aad d = macro_decrypt L aes_ccm_128_8 key nonce message tag aad d"
| "lc_aead_decrypt L B (KeyCcm256 key) nonce message tag aad d = macro_decrypt L aes_ccm_256 key nonce message tag aad d"
| "lc_aead_decrypt L B (KeyCcm256Short key) nonce message tag aad d = macro_decrypt L aes_ccm_256_8 key nonce message tag aad d"

fun lc_key_length :: "'e aes_library \<Rightarrow> ('balg \<Rightarrow> nat) \<Rightarrow> 'balg lc_aead_algorithm \<Rightarrow> nat" where
  "lc_key_length L f (LcAeadDirect a) = f a"
| "lc_key_length L f AesGcm128 = AES_128_KEY_LEN L"
| "lc_key_length L f AesCcm128 = AES_128_KEY_LEN L"
| "lc_key_length L f AesCcm128Short = AES_128_KEY_LEN L"
| "lc_key_length L f AesCcm256 = AES_256_KEY_LEN L"
| "lc_key_length L f AesCcm256Short = AES_256_KEY_LEN L"
| "lc_key_length L f AesGcm256 = AES_256_KEY_LEN L"

fun lc_tag_length :: "'e aes_library \<Rightarrow> ('balg \<Rightarrow> nat) \<Rightarrow> 'balg lc_aead_algorithm \<Rightarrow> nat" where
  "lc_tag_length L f (LcAeadDirect a) = f a"
| "lc_tag_length L f AesCcm128Short = CCM_SHORT_TAG_LEN L"
| "lc_tag_length L f AesCcm256Short = CCM_SHORT_TAG_LEN L"
| "lc_tag_length L f _ = TAG_LEN L"

fun lc_nonce_length :: "'e aes_library \<Rightarrow> ('balg \<Rightarrow> nat) \<Rightarrow> 'balg lc_aead_algorithm \<Rightarrow> nat" where
  "lc_nonce_length L f (LcAeadDirect a) = f a"
| "lc_nonce_length L f _ = NONCE_LEN L"

definition lc_aead_from_cose_number :: "(int \<Rightarrow> 'balg option) \<Rightarrow> int \<Rightarrow> 'balg lc_aead_algorithm option" where
  "lc_aead_from_cose_number base number =
     (if number = 1 then Some AesGcm128
      else if number = 3 then Some AesGcm256
      else map_option LcAeadDirect (base number))"

text \<open>The hand-written \<open>PartialEq\<close>.\<close>

fun lc_aead_eq :: "('balg \<Rightarrow> 'balg \<Rightarrow> bool) \<Rightarrow> 'balg lc_aead_algorithm \<Rightarrow> 'balg lc_aead_algorithm \<Rightarrow> bool" where
  "lc_aead_eq eq (LcAeadDirect l0) (LcAeadDirect r0) = eq l0 r0"
| "lc_aead_eq eq AesGcm128 AesGcm128 = True"
| "lc_aead_eq eq AesGcm256 AesGcm256 = True"
| "lc_aead_eq eq _ _ = False"

fun lc_aead_debug :: "('balg \<Rightarrow> string) \<Rightarrow> 'balg lc_aead_algorithm \<Rightarrow> string" where
  "lc_aead_debug f (LcAeadDirect a) = f a"
| "lc_aead_debug f AesGcm128 = ''AesGcm128''"
| "lc_aead_debug f AesGcm256 = ''AesGcm256''"
| "lc_aead_debug f AesCcm128 = ''AesCcm128''"
| "lc_aead_debug f AesCcm128Short = ''AesCcm128Short''"
| "lc_aead_debug f AesCcm256 = ''AesCcm256''"
| "lc_aead_debug f AesCcm256Short = ''AesCcm256Short''"

fun lc_tag_as_ref :: "('bt \<Rightarrow> bytes) \<Rightarrow> 'bt lc_aead_tag \<Rightarrow> bytes" where
  "lc_tag_as_ref f (TagDirect tag) = f tag"
| "lc_tag_as_ref f (TagGcm128 tag) = tag"
| "lc_tag_as_ref f (TagGcm256 tag) = tag"
| "lc_tag_as_ref f (TagCcm128 tag) = tag"
| "lc_tag_as_ref f (TagCcm128Short tag) = tag"
| "lc_tag_as_ref f (TagCcm256 tag) = tag"
| "lc_tag_as_ref f (TagCcm256Short tag) = tag"

definition lc_aead :: "'e aes_library \<Rightarrow> ('d, 'balg, 'bk, 'bt) aead_provider
    \<Rightarrow> ('d, 'balg lc_aead_algorithm, 'bk lc_aead_key, 'bt lc_aead_tag) aead_provider" where
  "lc_aead L B =
     \<lparr> key_length = lc_key_length L (key_length B), tag_length = lc_tag_length L (tag_length B),
       nonce_length = lc_nonce_length L (nonce_length B),
       aead_from_cose_number = lc_aead_from_cose_number (aead_from_cose_number B),
       ap_load_from_keydata = lc_aead_load L B,
       ap_encrypt_in_place = lc_aead_encrypt L B,
       ap_decrypt_in_place = lc_aead_decrypt L B,
       ap_tag_bytes = lc_tag_as_ref (ap_tag_bytes B) \<rparr>"

section \<open>Contracts\<close>

text \<open>What the library documents of one of its modules: with inputs of the right lengths, an iterator that
  announces as many bytes as it yields, and a message of acceptable length, \<open>encrypt\<close> is a stream
  cipher with a tag over the additional data and the plain text, and \<open>decrypt\<close> accepts exactly the tag
  of what it decrypts to.\<close>

definition aes_laws :: "'e aes_library \<Rightarrow> aes_module \<Rightarrow> nat \<Rightarrow> nat \<Rightarrow> (bytes \<Rightarrow> bytes \<Rightarrow> nat \<Rightarrow> bool)
    \<Rightarrow> (bytes \<Rightarrow> bytes \<Rightarrow> bytes \<Rightarrow> bytes) \<Rightarrow> (bytes \<Rightarrow> bytes \<Rightarrow> bytes \<Rightarrow> bytes \<Rightarrow> bytes) \<Rightarrow> (bytes \<Rightarrow> bytes \<Rightarrow> bytes)
    \<Rightarrow> bool" where
  "aes_laws L md klen tlen fits crypt mac left \<longleftrightarrow>
     (\<forall>key nonce m. crypt key nonce (crypt key nonce m) = m \<and> length (crypt key nonce m) = length m)
   \<and> (\<forall>key nonce a m. length (mac key nonce a m) = tlen)
   \<and> (\<forall>key nonce a m tag. length key = klen \<and> length nonce = NONCE_LEN L \<and> aa_len a = length (drain a)
        \<and> fits nonce (drain a) (length m) \<and> length tag = tlen \<longrightarrow>
        lib_encrypt L md key nonce a m tag = (Inr (), crypt key nonce m, mac key nonce (drain a) m))
   \<and> (\<forall>key nonce a c tag. length key = klen \<and> length nonce = NONCE_LEN L \<and> aa_len a = length (drain a)
        \<and> fits nonce (drain a) (length c) \<and> length tag = tlen \<longrightarrow>
        (if tag = mac key nonce (drain a) (crypt key nonce c)
         then lib_decrypt L md key nonce a c tag = (Inr (), crypt key nonce c)
         else \<exists>e. lib_decrypt L md key nonce a c tag = (Inl e, left c (crypt key nonce c))))"

text \<open>Additional data of \<open>2 ^ 32\<close> bytes overflows the length count, so the contract stops below it.\<close>

definition aad_counted :: "(bytes \<Rightarrow> bytes \<Rightarrow> nat \<Rightarrow> bool) \<Rightarrow> bytes \<Rightarrow> bytes \<Rightarrow> nat \<Rightarrow> bool" where
  "aad_counted fits nonce a n \<longleftrightarrow> length a < usize_limit \<and> fits nonce a n"

lemma macro_encrypt_law:
  assumes "aes_laws L md klen tlen fits crypt mac left"
    and "length key = klen" "length nonce = NONCE_LEN L" "aad_counted fits nonce (concat aad) (length m)"
  shows "macro_encrypt L md tlen key nonce m aad = Some (mac key nonce (concat aad) m, crypt key nonce m)"
proof -
  obtain a where "flatten aad = Some a" "drain a = concat aad" "aa_len a = length (concat aad)"
    using flatten_ok [of aad] assms(4) by (auto simp: aad_counted_def)
  with assms show ?thesis by (simp add: macro_encrypt_def aes_laws_def aad_counted_def)
qed

lemma macro_decrypt_law:
  assumes "aes_laws L md klen tlen fits crypt mac left"
    and "length key = klen" "length nonce = NONCE_LEN L" "aad_counted fits nonce (concat aad) (length c)"
    and "length tag = tlen"
  shows "macro_decrypt L md key nonce c tag aad d =
    Some ((if tag = mac key nonce (concat aad) (crypt key nonce c) then (Inr (), crypt key nonce c)
           else (Inl DecryptionFailed, left c (crypt key nonce c))), d)"
proof -
  obtain a where a: "flatten aad = Some a" "drain a = concat aad" "aa_len a = length (concat aad)"
    using flatten_ok [of aad] assms(4) by (auto simp: aad_counted_def)
  have "if tag = mac key nonce (drain a) (crypt key nonce c)
      then lib_decrypt L md key nonce a c tag = (Inr (), crypt key nonce c)
      else \<exists>e. lib_decrypt L md key nonce a c tag = (Inl e, left c (crypt key nonce c))"
    using assms a unfolding aes_laws_def aad_counted_def by metis
  with a show ?thesis by (auto simp: macro_decrypt_def split: if_splits)
qed

text \<open>A provider whose algorithm \<open>A\<close> is a module of the library.\<close>

locale aes_backend =
  fixes L :: "'e aes_library" and P :: "('d, 'alg, 'k, 't) aead_provider" and md :: aes_module
    and A :: 'alg and K :: "bytes \<Rightarrow> 'k" and T :: "bytes \<Rightarrow> 't" and klen tlen :: nat
  assumes arm_lengths: "key_length P A = klen" "tag_length P A = tlen" "nonce_length P A = NONCE_LEN L"
    and arm_load: "ap_load_from_keydata P A key d = (do { k \<leftarrow> convert klen key; Some (K k, d) })"
    and arm_encrypt: "ap_encrypt_in_place P (K key) nonce m aad d
      = (do { (tag, m) \<leftarrow> macro_encrypt L md tlen key nonce m aad; Some ((T tag, m), d) })"
    and arm_decrypt: "ap_decrypt_in_place P (K key) nonce c tag aad d = macro_decrypt L md key nonce c tag aad d"
    and arm_tag: "ap_tag_bytes P (T tag) = tag"
begin

lemma library_contract:
  assumes "aes_laws L md klen tlen fits crypt mac left"
  shows "aead_contract P A dev (\<lambda>k key. k = K key \<and> length key = klen) (aad_counted fits) crypt mac left"
proof
  fix d and k and key nonce m c tag a :: bytes and aad :: "bytes list"
  show "crypt key nonce (crypt key nonce m) = m" "length (crypt key nonce m) = length m"
    "length (mac key nonce a m) = tag_length P A"
    using assms by (simp_all add: aes_laws_def arm_lengths)
  assume d: "dev d"
  show "\<exists>k d'. ap_load_from_keydata P A key d = Some (k, d') \<and> dev d' \<and> k = K key \<and> length key = klen"
    if "length key = key_length P A"
    using that d by (simp add: arm_load arm_lengths convert_def)
  assume k: "k = K key \<and> length key = klen" and n: "length nonce = nonce_length P A"
  show "\<exists>t d'. ap_encrypt_in_place P k nonce m aad d = Some ((t, crypt key nonce m), d') \<and> dev d'
      \<and> ap_tag_bytes P t = mac key nonce (concat aad) m" if "aad_counted fits nonce (concat aad) (length m)"
    using macro_encrypt_law [OF assms _ _ that] k n d by (simp add: arm_encrypt arm_lengths arm_tag)
  assume "length tag = tag_length P A" "aad_counted fits nonce (concat aad) (length c)"
  then show "\<exists>d'. ap_decrypt_in_place P k nonce c tag aad d =
      Some ((if tag = mac key nonce (concat aad) (crypt key nonce c) then (Inr (), crypt key nonce c)
             else (Inl DecryptionFailed, left c (crypt key nonce c))), d') \<and> dev d'"
    using macro_decrypt_law [OF assms, of key nonce aad c tag d] k n d by (simp add: arm_decrypt arm_lengths)
qed

end

interpretation lc_gcm128: aes_backend L "lc_aead L B" aes_gcm_128 AesGcm128 KeyGcm128 TagGcm128
    "AES_128_KEY_LEN L" "TAG_LEN L" for L B
  by unfold_locales (simp_all add: lc_aead_def)

interpretation lc_gcm256: aes_backend L "lc_aead L B" aes_gcm_256 AesGcm256 KeyGcm256 TagGcm256
    "AES_256_KEY_LEN L" "TAG_LEN L" for L B
  by unfold_locales (simp_all add: lc_aead_def)

interpretation lc_ccm128: aes_backend L "lc_aead L B" aes_ccm_128 AesCcm128 KeyCcm128 TagCcm128
    "AES_128_KEY_LEN L" "TAG_LEN L" for L B
  by unfold_locales (simp_all add: lc_aead_def)

interpretation lc_ccm128_8: aes_backend L "lc_aead L B" aes_ccm_128_8 AesCcm128Short KeyCcm128Short TagCcm128Short
    "AES_128_KEY_LEN L" "CCM_SHORT_TAG_LEN L" for L B
  by unfold_locales (simp_all add: lc_aead_def)

interpretation lc_ccm256: aes_backend L "lc_aead L B" aes_ccm_256 AesCcm256 KeyCcm256 TagCcm256
    "AES_256_KEY_LEN L" "TAG_LEN L" for L B
  by unfold_locales (simp_all add: lc_aead_def)

interpretation lc_ccm256_8: aes_backend L "lc_aead L B" aes_ccm_256_8 AesCcm256Short KeyCcm256Short TagCcm256Short
    "AES_256_KEY_LEN L" "CCM_SHORT_TAG_LEN L" for L B
  by unfold_locales (simp_all add: lc_aead_def)

interpretation lc_aead_direct: aead_delegation "\<lambda>d. d" "\<lambda>d _. d" B "lc_aead L B" LcAeadDirect KeyDirect TagDirect
  for L B
  by unfold_locales (simp_all add: lc_aead_def fwd_inside fun_eq_iff inside_def)

end
