(* ===== verification/Lc_Dh.thy ===== *)
theory Lc_Dh
  imports Delegation
begin

text \<open>
  \<^verbatim>\<open>embedded-cal-libcrux/src/dh.rs\<close> and \<^verbatim>\<open>rng.rs\<close>: key agreement of the libcrux back-end. P-256 comes from the
  crate \<^verbatim>\<open>libcrux-iot-p256\<close> (parameter \<open>p256_library\<close>), other curves from the base. The back-end's own
  parts are the rejection sampling of \<open>generate_visible\<close>, the checks of the imports, and the compact
  representation of RFC 9528 (the \<open>x\<close> coordinate alone), which it expands as a SEC1 compressed point
  with an even \<open>y\<close>.
\<close>

record 'e p256_library =
  RAND_LEN :: nat
  SECRET_LEN :: nat
  PUBLIC_LEN :: nat
  generate_secret :: "bytes \<Rightarrow> 'e + bytes"
  validate_secret :: "bytes \<Rightarrow> 'e + unit"
  compressed_to_raw :: "bytes \<Rightarrow> bytes \<Rightarrow> bool \<times> bytes"
  derive_ecdh :: "bytes \<Rightarrow> bytes \<Rightarrow> 'e + bytes"
  secret_to_public :: "bytes \<Rightarrow> 'e + bytes"

definition P256_SHARED_SECRET_LEN :: nat where
  "P256_SHARED_SECRET_LEN = 32"

text \<open>The constant assertions, which fail the build.\<close>

definition lc_dh_builds :: "'e p256_library \<Rightarrow> bool" where
  "lc_dh_builds L \<longleftrightarrow> PUBLIC_LEN L = 64 \<and> SECRET_LEN L = 32 \<and> P256_SHARED_SECRET_LEN \<le> 64"

section \<open>The random numbers of the extender\<close>

definition lc_try_rng :: "('d, 'f) try_rng \<Rightarrow> ('d, 'f) try_rng" where
  "lc_try_rng base =
     \<lparr> rng_next_u32 = (\<lambda>d. rng_next_u32 base d), rng_next_u64 = (\<lambda>d. rng_next_u64 base d),
       rng_fill_bytes = (\<lambda>n d. rng_fill_bytes base n d) \<rparr>"

section \<open>The provider\<close>

datatype 'ba lc_dh_algorithm = LcP256 | LcDhDirect 'ba
datatype 'bvsk lc_dh_visible = VisibleP256 bytes | VisibleDirect 'bvsk
datatype 'bsk lc_dh_secret = SecretP256 bytes | SecretDirect 'bsk
datatype 'bpk lc_dh_public = PublicP256 bytes | PublicDirect 'bpk
datatype 'bss lc_dh_shared = SharedP256 bytes | SharedDirect 'bss

fun lc_output_length :: "('ba \<Rightarrow> nat) \<Rightarrow> 'ba lc_dh_algorithm \<Rightarrow> nat" where
  "lc_output_length f LcP256 = P256_SHARED_SECRET_LEN"
| "lc_output_length f (LcDhDirect d) = f d"

definition lc_from_cose_ecdh :: "(int \<Rightarrow> 'ba option) \<Rightarrow> int \<Rightarrow> 'ba lc_dh_algorithm option" where
  "lc_from_cose_ecdh base curve =
     (case base curve of
        Some a \<Rightarrow> Some (LcDhDirect a)
      | None \<Rightarrow> if curve = 1 then Some LcP256 else None)"

text \<open>\<open>P256PublicKey::x\<close>: the first 32 bytes (\<open>first_chunk\<close>, \<open>expect\<close>).\<close>

definition public_x :: "bytes \<Rightarrow> bytes option" where
  "public_x p = slice p 0 32"

text \<open>The loop of \<open>generate_visible\<close>: draw, and return the first draw the library takes for a key.\<close>

partial_function (option) lc_generate_p256 :: "'e p256_library \<Rightarrow> ('d, 'f) try_rng \<Rightarrow> 'd \<Rightarrow> (bytes \<times> 'd) option" where
  "lc_generate_p256 L G d =
     Option.bind (fill_bytes_infallible (lc_try_rng G) (RAND_LEN L) d) (\<lambda>(rand, d).
       case generate_secret L rand of Inr secret \<Rightarrow> Some (secret, d) | Inl _ \<Rightarrow> lc_generate_p256 L G d)"

fun lc_generate_visible :: "'e p256_library \<Rightarrow> ('d, 'f) try_rng \<Rightarrow> ('d, 'ba, 'bv, 'bk, 'bp, 'bs) dh_provider
    \<Rightarrow> 'ba lc_dh_algorithm \<Rightarrow> 'd \<Rightarrow> ('bv lc_dh_visible \<times> 'd) option" where
  "lc_generate_visible L G B LcP256 d = fwd VisibleP256 (lc_generate_p256 L G) d"
| "lc_generate_visible L G B (LcDhDirect a) d = fwd VisibleDirect (dp_generate_visible B a) d"

fun lc_into_secret :: "('bv \<Rightarrow> 'bk) \<Rightarrow> 'bv lc_dh_visible \<Rightarrow> 'bk lc_dh_secret" where
  "lc_into_secret f (VisibleP256 k) = SecretP256 k"
| "lc_into_secret f (VisibleDirect k) = SecretDirect (f k)"

fun lc_export_secretkey_bytes :: "('d, 'ba, 'bv, 'bk, 'bp, 'bs) dh_provider \<Rightarrow> 'bv lc_dh_visible \<Rightarrow> 'd
    \<Rightarrow> (bytes \<times> 'd) option" where
  "lc_export_secretkey_bytes B (VisibleP256 secret) d = Some (secret, d)"
| "lc_export_secretkey_bytes B (VisibleDirect k) d = dp_export_secretkey_bytes B k d"

fun lc_import_secretkey_bytes :: "'e p256_library \<Rightarrow> ('d, 'ba, 'bv, 'bk, 'bp, 'bs) dh_provider
    \<Rightarrow> 'ba lc_dh_algorithm \<Rightarrow> bytes \<Rightarrow> 'd \<Rightarrow> ((import_error + 'bv lc_dh_visible) \<times> 'd) option" where
  "lc_import_secretkey_bytes L B LcP256 secret d =
     (if length secret \<noteq> SECRET_LEN L then Some (Inl ImportError, d)
      else (case validate_secret L secret of
          Inl _ \<Rightarrow> Some (Inl ImportError, d)
        | Inr _ \<Rightarrow> Some (Inr (VisibleP256 secret), d)))"
| "lc_import_secretkey_bytes L B (LcDhDirect a) secret d =
     fwd (map_sum (\<lambda>e. e) VisibleDirect) (dp_import_secretkey_bytes B a secret) d"

fun lc_export_publickey_bytes :: "('d, 'ba, 'bv, 'bk, 'bp, 'bs) dh_provider \<Rightarrow> 'bp lc_dh_public \<Rightarrow> 'd
    \<Rightarrow> (bytes \<times> 'd) option" where
  "lc_export_publickey_bytes B (PublicP256 pk) d = do { x \<leftarrow> public_x pk; Some (x, d) }"
| "lc_export_publickey_bytes B (PublicDirect pk) d = dp_export_publickey_bytes B pk d"

fun lc_import_publickey_bytes :: "'e p256_library \<Rightarrow> ('d, 'ba, 'bv, 'bk, 'bp, 'bs) dh_provider
    \<Rightarrow> 'ba lc_dh_algorithm \<Rightarrow> bytes \<Rightarrow> 'd \<Rightarrow> ((import_error + 'bp lc_dh_public) \<times> 'd) option" where
  "lc_import_publickey_bytes L B LcP256 dat d =
     (if length dat \<noteq> 32 then Some (Inl ImportError, d)
      else do {
        let sec1_compressed = replicate (SECRET_LEN L + 1) 0;
        let sec1_compressed = sec1_compressed[0 := 2];
        sec1_compressed \<leftarrow> copy_at sec1_compressed 1 dat;
        let (ok, pk) = compressed_to_raw L sec1_compressed (replicate (PUBLIC_LEN L) 0);
        if \<not> ok then Some (Inl ImportError, d)
        else Some (Inr (PublicP256 pk), d)
      })"
| "lc_import_publickey_bytes L B (LcDhDirect a) dat d =
     fwd (map_sum (\<lambda>e. e) PublicDirect) (dp_import_publickey_bytes B a dat) d"

fun lc_shared_secret :: "'e p256_library \<Rightarrow> ('d, 'ba, 'bv, 'bk, 'bp, 'bs) dh_provider
    \<Rightarrow> 'bk lc_dh_secret \<Rightarrow> 'bp lc_dh_public \<Rightarrow> 'd \<Rightarrow> ((incompatible_keys + 'bs lc_dh_shared) \<times> 'd) option" where
  "lc_shared_secret L B (SecretP256 secret) (PublicP256 public) d =
     (case derive_ecdh L public secret of
        Inl _ \<Rightarrow> Some (Inl IncompatibleKeys, d)
      | Inr point \<Rightarrow> do { x \<leftarrow> slice point 0 P256_SHARED_SECRET_LEN; Some (Inr (SharedP256 x), d) })"
| "lc_shared_secret L B (SecretDirect secret) (PublicDirect public) d =
     fwd (map_sum (\<lambda>e. e) SharedDirect) (dp_shared_secret B secret public) d"
| "lc_shared_secret L B (SecretP256 _) (PublicDirect _) d = Some (Inl IncompatibleKeys, d)"
| "lc_shared_secret L B (SecretDirect _) (PublicP256 _) d = Some (Inl IncompatibleKeys, d)"

fun lc_public_key :: "'e p256_library \<Rightarrow> ('d, 'ba, 'bv, 'bk, 'bp, 'bs) dh_provider \<Rightarrow> 'bk lc_dh_secret \<Rightarrow> 'd
    \<Rightarrow> ('bp lc_dh_public \<times> 'd) option" where
  "lc_public_key L B (SecretP256 secret) d =
     (case secret_to_public L secret of Inl _ \<Rightarrow> None | Inr p \<Rightarrow> Some (PublicP256 p, d))"
| "lc_public_key L B (SecretDirect secret) d = fwd PublicDirect (dp_public_key B secret) d"

fun lc_raw_secret_bytes :: "('d, 'ba, 'bv, 'bk, 'bp, 'bs) dh_provider \<Rightarrow> 'bs lc_dh_shared \<Rightarrow> 'd
    \<Rightarrow> (bytes \<times> 'd) option" where
  "lc_raw_secret_bytes B (SharedP256 secret) d = Some (secret, d)"
| "lc_raw_secret_bytes B (SharedDirect secret) d = dp_raw_secret_bytes B secret d"

definition lc_dh :: "'e p256_library \<Rightarrow> ('d, 'f) try_rng \<Rightarrow> ('d, 'ba, 'bv, 'bk, 'bp, 'bs) dh_provider
    \<Rightarrow> ('d, 'ba lc_dh_algorithm, 'bv lc_dh_visible, 'bk lc_dh_secret, 'bp lc_dh_public, 'bs lc_dh_shared) dh_provider" where
  "lc_dh L G B =
     \<lparr> output_length = lc_output_length (output_length B),
       dh_from_cose_ecdh = lc_from_cose_ecdh (dh_from_cose_ecdh B),
       dp_generate_visible = lc_generate_visible L G B,
       dp_into_secret = lc_into_secret (dp_into_secret B),
       dp_export_secretkey_bytes = lc_export_secretkey_bytes B,
       dp_import_secretkey_bytes = lc_import_secretkey_bytes L B,
       dp_export_publickey_bytes = lc_export_publickey_bytes B,
       dp_import_publickey_bytes = lc_import_publickey_bytes L B,
       dp_shared_secret = lc_shared_secret L B,
       dp_public_key = lc_public_key L B,
       dp_raw_secret_bytes = lc_raw_secret_bytes B \<rparr>"

section \<open>Rejection sampling\<close>

text \<open>\<open>k\<close> draws one after the other, and which of them the library rejects.\<close>

fun draws :: "('d, 'f) try_rng \<Rightarrow> nat \<Rightarrow> nat \<Rightarrow> 'd \<Rightarrow> (bytes list \<times> 'd) option" where
  "draws G n 0 d = Some ([], d)"
| "draws G n (Suc k) d = do {
     (r, d) \<leftarrow> fill_bytes_infallible G n d;
     (rs, d) \<leftarrow> draws G n k d;
     Some (r # rs, d)
   }"

definition rejected :: "'e p256_library \<Rightarrow> bytes \<Rightarrow> bool" where
  "rejected L r \<longleftrightarrow> (case generate_secret L r of Inl _ \<Rightarrow> True | Inr _ \<Rightarrow> False)"

lemma rejected_eq: "rejected L r \<longleftrightarrow> (\<exists>e. generate_secret L r = Inl e)"
  by (auto simp: rejected_def split: sum.splits)

lemma fill_lc_rng [simp]: "fill_bytes_infallible (lc_try_rng G) n d = fill_bytes_infallible G n d"
  by (simp add: fill_bytes_infallible_def lc_try_rng_def)

lemma lc_generate_p256_accept:
  "draws G (RAND_LEN L) (Suc k) d = Some (rs @ [r], d') \<Longrightarrow> list_all (rejected L) rs \<Longrightarrow>
   generate_secret L r = Inr s \<Longrightarrow> lc_generate_p256 L G d = Some (s, d')"
proof (induction k arbitrary: d rs)
  case 0
  then obtain q d1 where "fill_bytes_infallible G (RAND_LEN L) d = Some (q, d1)" "rs @ [r] = [q]" "d' = d1"
    by (auto split: bind_splits)
  with 0(3) show ?case by (subst lc_generate_p256.simps) simp
next
  case (Suc k)
  then obtain q d1 qs where 1: "fill_bytes_infallible G (RAND_LEN L) d = Some (q, d1)"
    "draws G (RAND_LEN L) (Suc k) d1 = Some (qs, d')" "rs @ [r] = q # qs"
    by (auto split: bind_splits)
  from 1(2) have "qs \<noteq> []" by (auto split: bind_splits)
  with 1(3) obtain rs' where rs: "rs = q # rs'" "qs = rs' @ [r]" by (cases rs) auto
  have "lc_generate_p256 L G d1 = Some (s, d')" using Suc.IH [of d1 rs'] Suc.prems 1(2) rs by simp
  moreover have "rejected L q" using Suc.prems(2) rs by simp
  ultimately show ?case using 1(1)
    by (subst lc_generate_p256.simps) (auto simp: rejected_def split: sum.splits)
qed

lemma lc_generate_p256_draws:
  assumes "lc_generate_p256 L G d = Some q"
  shows "\<exists>k rs r. draws G (RAND_LEN L) (Suc k) d = Some (rs @ [r], snd q) \<and> list_all (rejected L) rs
    \<and> generate_secret L r = Inr (fst q)"
  using assms
proof (induction rule: lc_generate_p256.raw_induct [rotated, consumes 1])
  case (1 gen L G d q)
  obtain r d1 where f: "fill_bytes_infallible G (RAND_LEN L) d = Some (r, d1)"
    using "1.hyps" by (cases "fill_bytes_infallible G (RAND_LEN L) d") auto
  show ?case
  proof (cases "generate_secret L r")
    case (Inr s)
    then have "q = (s, d1)" using "1.hyps" f by simp
    with f Inr show ?thesis by (intro exI [of _ 0] exI [of _ "[]"] exI [of _ r]) simp
  next
    case (Inl e)
    then have "gen L G d1 = Some q" using "1.hyps" f by simp
    from "1.IH" [OF this] obtain k rs z where "draws G (RAND_LEN L) (Suc k) d1 = Some (rs @ [z], snd q)"
      "list_all (rejected L) rs" "generate_secret L z = Inr (fst q)" by blast
    moreover have "rejected L r" using Inl by (simp add: rejected_eq)
    ultimately show ?thesis using f
      by (intro exI [of _ "Suc k"] exI [of _ "r # rs"] exI [of _ z])
        (simp add: draws.simps(2) [of _ _ "Suc k"] del: draws.simps(2))
  qed
qed

text \<open>C33: \<open>generate_visible\<close> for P-256 returns exactly when one of its draws is a key for the library, and then
  it returns that of the first such draw, having drawn no more: it terminates if and only if some finite
  number of draws from the generator ends in an accepted one.\<close>

theorem libcrux_generate_terminates:
  "lc_generate_p256 L G d = Some (s, d') \<longleftrightarrow>
   (\<exists>k rs r. draws G (RAND_LEN L) (Suc k) d = Some (rs @ [r], d') \<and> list_all (rejected L) rs
      \<and> generate_secret L r = Inr s)"
  using lc_generate_p256_draws [of L G d "(s, d')"] lc_generate_p256_accept [of G L _ d _ _ d' s] by auto

section \<open>Key agreement\<close>

text \<open>What the library documents, for the valid secrets \<open>valid\<close>: it accepts exactly those as keys; their
  public keys are affine points in 64 bytes; the two sides of an exchange derive points with the same
  \<open>x\<close>; and decompressing the \<open>x\<close> of a public key gives a point with that \<open>x\<close> from which the same
  shared \<open>x\<close> is derived, whichever of the two \<open>y\<close> it has.\<close>

definition p256_laws :: "'e p256_library \<Rightarrow> (bytes \<Rightarrow> bool) \<Rightarrow> (bytes \<Rightarrow> bytes) \<Rightarrow> (bytes \<Rightarrow> bytes \<Rightarrow> bytes) \<Rightarrow> bool" where
  "p256_laws L valid pub dh \<longleftrightarrow>
     lc_dh_builds L
   \<and> (\<forall>r s. generate_secret L r = Inr s \<longrightarrow> valid s)
   \<and> (\<forall>s. length s = SECRET_LEN L \<longrightarrow> (valid s \<longleftrightarrow> validate_secret L s = Inr ()))
   \<and> (\<forall>s. valid s \<longrightarrow> length s = SECRET_LEN L \<and> secret_to_public L s = Inr (pub s) \<and> length (pub s) = PUBLIC_LEN L)
   \<and> (\<forall>a b. valid a \<and> valid b \<longrightarrow> dh a b = dh b a \<and> length (dh a b) = 32
        \<and> (\<exists>y. length y = 32 \<and> derive_ecdh L (pub b) a = Inr (dh a b @ y)))
   \<and> (\<forall>b buf. valid b \<and> length buf = PUBLIC_LEN L \<longrightarrow>
        (\<exists>y. compressed_to_raw L (2 # take 32 (pub b)) buf = (True, take 32 (pub b) @ y) \<and> length y = 32
           \<and> (\<forall>a. valid a \<longrightarrow> (\<exists>z. length z = 32 \<and> derive_ecdh L (take 32 (pub b) @ y) a = Inr (dh a b @ z)))))"

lemma p256_laws_simps:
  assumes "p256_laws L valid pub dh"
  shows "PUBLIC_LEN L = 64" "SECRET_LEN L = 32" "generate_secret L r = Inr s \<Longrightarrow> valid s"
    "valid s \<Longrightarrow> validate_secret L s = Inr ()" "valid s \<Longrightarrow> length s = 32"
    "valid s \<Longrightarrow> secret_to_public L s = Inr (pub s)" "valid s \<Longrightarrow> length (pub s) = 64"
proof -
  note A = assms [unfolded p256_laws_def]
  note A1 = A [THEN conjunct1] and A2 = A [THEN conjunct2, THEN conjunct1]
    and A3 = A [THEN conjunct2, THEN conjunct2, THEN conjunct1]
    and A4 = A [THEN conjunct2, THEN conjunct2, THEN conjunct2, THEN conjunct1]
  show len: "PUBLIC_LEN L = 64" "SECRET_LEN L = 32" using A1 by (simp_all add: lc_dh_builds_def)
  show "generate_secret L r = Inr s \<Longrightarrow> valid s" using A2 by simp
  assume v: "valid s"
  show "length s = 32" "secret_to_public L s = Inr (pub s)" "length (pub s) = 64" using A4 len v by simp_all
  show "validate_secret L s = Inr ()" using A3 A4 v by blast
qed

lemma p256_laws_shared:
  assumes "p256_laws L valid pub dh" "valid a" "valid b"
  shows "dh a b = dh b a \<and> length (dh a b) = 32 \<and> (\<exists>y. length y = 32 \<and> derive_ecdh L (pub b) a = Inr (dh a b @ y))"
  using assms(1) [unfolded p256_laws_def, THEN conjunct2, THEN conjunct2, THEN conjunct2, THEN conjunct2, THEN conjunct1]
    assms(2,3) by simp

lemma p256_laws_compact:
  assumes "p256_laws L valid pub dh" "valid b" "length buf = PUBLIC_LEN L"
  shows "\<exists>y. compressed_to_raw L (2 # take 32 (pub b)) buf = (True, take 32 (pub b) @ y) \<and> length y = 32
    \<and> (\<forall>a. valid a \<longrightarrow> (\<exists>z. length z = 32 \<and> derive_ecdh L (take 32 (pub b) @ y) a = Inr (dh a b @ z)))"
  using assms(1) [unfolded p256_laws_def, THEN conjunct2, THEN conjunct2, THEN conjunct2, THEN conjunct2, THEN conjunct2]
    assms(2,3) by simp

lemma shared_law:
  assumes "p256_laws L valid pub dh" "valid a" "valid b"
  shows "lc_shared_secret L B (SecretP256 a) (PublicP256 (pub b)) d = Some (Inr (SharedP256 (dh a b)), d)"
proof -
  obtain y where "length y = 32" "derive_ecdh L (pub b) a = Inr (dh a b @ y)" "length (dh a b) = 32"
    using p256_laws_shared [OF assms] by blast
  then show ?thesis by (simp add: slice_def P256_SHARED_SECRET_LEN_def)
qed

lemma dh_commutes: "p256_laws L valid pub dh \<Longrightarrow> valid a \<Longrightarrow> valid b \<Longrightarrow> dh a b = dh b a"
  using p256_laws_shared [of L valid pub dh a b] by simp

lemma import_public_law:
  assumes "p256_laws L valid pub dh" "valid b"
  shows "\<exists>p. lc_import_publickey_bytes L B LcP256 (take 32 (pub b)) d = Some (Inr (PublicP256 p), d)
    \<and> take 32 p = take 32 (pub b)
    \<and> (\<forall>a. valid a \<longrightarrow> lc_shared_secret L B (SecretP256 a) (PublicP256 p) d = Some (Inr (SharedP256 (dh a b)), d))"
proof -
  note S = p256_laws_simps [OF assms(1)]
  obtain y where y: "compressed_to_raw L (2 # take 32 (pub b)) (replicate (PUBLIC_LEN L) 0) = (True, take 32 (pub b) @ y)"
      "length y = 32"
      "\<forall>a. valid a \<longrightarrow> (\<exists>z. length z = 32 \<and> derive_ecdh L (take 32 (pub b) @ y) a = Inr (dh a b @ z))"
    using p256_laws_compact [OF assms, of "replicate (PUBLIC_LEN L) 0"] by auto
  have l: "length (take 32 (pub b)) = 32" using S(7) [OF assms(2)] by simp
  have sec1: "(replicate (SECRET_LEN L + 1) (0 :: u8))[0 := 2] = 2 # replicate 32 0"
    by (simp only: S(2) Suc_eq_plus1 [symmetric] replicate_Suc list_update_code(2))
  have c: "copy_at ((replicate (SECRET_LEN L + 1) 0)[0 := 2]) 1 (take 32 (pub b)) = Some (2 # take 32 (pub b))"
    unfolding sec1 using l by (simp add: copy_at_def)
  have "lc_import_publickey_bytes L B LcP256 (take 32 (pub b)) d = Some (Inr (PublicP256 (take 32 (pub b) @ y)), d)"
    using l c y(1) by (simp only: lc_import_publickey_bytes.simps Let_def bind.bind_lunit l simp_thms if_False split_conv)
  moreover have "lc_shared_secret L B (SecretP256 a) (PublicP256 (take 32 (pub b) @ y)) d
      = Some (Inr (SharedP256 (dh a b)), d)" if "valid a" for a
  proof -
    obtain z where "derive_ecdh L (take 32 (pub b) @ y) a = Inr (dh a b @ z)" using y(3) \<open>valid a\<close> by blast
    moreover have "length (dh a b) = 32" using p256_laws_shared [OF assms(1) \<open>valid a\<close> assms(2)] by blast
    ultimately show ?thesis by (simp add: slice_def P256_SHARED_SECRET_LEN_def)
  qed
  ultimately show ?thesis using l by auto
qed

end
