(* ===== verification/Lc_Provider.thy ===== *)
theory Lc_Provider
  imports Lc_Hash Lc_Aead Lc_Dh Rand_Cal
begin

text \<open>
  The libcrux back-end as a whole (\<^verbatim>\<open>embedded-cal-libcrux/src/lib.rs\<close>, \<^verbatim>\<open>standalone.rs\<close>) and its properties:
  with libraries that keep their documentation, the provider hashes, seals and agrees on keys as its traits
  promise, whatever the base is; and what the base offers is still there, unchanged.
\<close>

text \<open>\<open>impl Cal for Extender\<close>: its own providers, and the HMAC provider of the base.\<close>

definition lc_cal where
  "lc_cal H A P G C =
     \<lparr> cal_dh = lc_dh P G (cal_dh C), cal_aead = lc_aead A (cal_aead C), cal_hash = lc_hash H (cal_hash C),
       cal_hmac = cal_hmac C \<rparr>"

text \<open>\<open>Standalone\<close>: the extender over an \<open>EmptyCal\<close> with the system's generator.\<close>

definition lc_standalone where
  "lc_standalone H A P G = lc_cal H A P (wr_try_rng G) (with_rng_cal empty_cal)"

definition lc_standalone_new :: "'r \<Rightarrow> (unit, 'r) with_rng" where
  "lc_standalone_new sys = new_from_sys sys ()"

section \<open>Hashing\<close>

text \<open>Every hash of the libcrux back-end is a streaming hash: over any base, feeding any list of chunks to
  SHA-256 or one of the four SHA-3 algorithms never panics, leaves the base alone and gives the library's
  hash of the concatenation; and an algorithm of the base computes, through the back-end, exactly what it
  computes by itself, panics included.\<close>

theorem libcrux_hash_chunks:
  fixes B :: "('d, 'balg, 'bst, 'bo) hash_provider"
  assumes "digest_laws (lib_sha256 H) 32 h256" "digest_laws (lib_sha3_224 H) 28 k224" "digest_laws (lib_sha3_256 H) 32 k256"
    and "digest_laws (lib_sha3_384 H) 48 k384" "digest_laws (lib_sha3_512 H) 64 k512"
  shows "hash_chunks (lc_hash H B) LcSha256 cs d = Some (h256 (concat cs), d)
    \<and> hash_chunks (lc_hash H B) LcSha3_224 cs d = Some (k224 (concat cs), d)
    \<and> hash_chunks (lc_hash H B) LcSha3_256 cs d = Some (k256 (concat cs), d)
    \<and> hash_chunks (lc_hash H B) LcSha3_384 cs d = Some (k384 (concat cs), d)
    \<and> hash_chunks (lc_hash H B) LcSha3_512 cs d = Some (k512 (concat cs), d)
    \<and> hash_chunks (lc_hash H B) (LcHashDirect a) cs d = hash_chunks B a cs d"
proof -
  have size: "digest_laws L n h \<Longrightarrow> digest_laws L (dl_size L) h" for L :: "'l digest_library" and n h
    by (simp add: digest_laws_def)
  have "inside (\<lambda>d. d) (\<lambda>d _. d) (\<lambda>r. r) (hash_chunks B a cs) d = hash_chunks B a cs d"
    by (cases "hash_chunks B a cs d") (auto simp: inside_def)
  then show ?thesis
    by (simp add: lc_sha256.library_chunks [OF assms(1)] lc_sha3_224.library_chunks [OF size [OF assms(2)]]
      lc_sha3_256.library_chunks [OF size [OF assms(3)]] lc_sha3_384.library_chunks [OF size [OF assms(4)]]
      lc_sha3_512.library_chunks [OF size [OF assms(5)]] lc_direct.chunks)
qed

text \<open>A library to run the witnesses with: it buffers, and its hash counts the bytes.\<close>

definition toy_hash :: "nat \<Rightarrow> bytes \<Rightarrow> bytes" where
  "toy_hash n m = be_bytes n (length m)"

definition toy_hashes :: "(bytes, bytes) libcrux_hashes" where
  "toy_hashes =
     \<lparr> lib_sha256 = buffering_digest 32 (toy_hash 32), lib_sha3_224 = buffering_digest 28 (toy_hash 28),
       lib_sha3_256 = buffering_digest 32 (toy_hash 32), lib_sha3_384 = buffering_digest 48 (toy_hash 48),
       lib_sha3_512 = buffering_digest 64 (toy_hash 64) \<rparr>"

lemma toy_hash_laws: "digest_laws (buffering_digest n (toy_hash n)) n (toy_hash n)"
  by (rule buffering_digest_laws) (simp add: toy_hash_def)

lemma libcrux_hash_chunks_witness:
  "hash_chunks (lc_hash toy_hashes empty_hash) LcSha256 [[1], [2, 3]] () = Some (toy_hash 32 (concat [[1], [2, 3]]), ())
    \<and> hash_chunks (lc_hash toy_hashes empty_hash) LcSha3_224 [[1], [2, 3]] () = Some (toy_hash 28 (concat [[1], [2, 3]]), ())
    \<and> hash_chunks (lc_hash toy_hashes empty_hash) LcSha3_256 [[1], [2, 3]] () = Some (toy_hash 32 (concat [[1], [2, 3]]), ())
    \<and> hash_chunks (lc_hash toy_hashes empty_hash) LcSha3_384 [[1], [2, 3]] () = Some (toy_hash 48 (concat [[1], [2, 3]]), ())
    \<and> hash_chunks (lc_hash toy_hashes empty_hash) LcSha3_512 [[1], [2, 3]] () = Some (toy_hash 64 (concat [[1], [2, 3]]), ())
    \<and> hash_chunks (lc_hash toy_hashes empty_hash) (LcHashDirect Uninhabited) [[1], [2, 3]] ()
      = hash_chunks empty_hash Uninhabited [[1], [2, 3]] ()"
  by (rule libcrux_hash_chunks) (simp_all add: toy_hashes_def toy_hash_laws)

section \<open>Sealing\<close>

text \<open>The library module of each algorithm.\<close>

fun lc_module :: "'balg lc_aead_algorithm \<Rightarrow> aes_module option" where
  "lc_module AesGcm128 = Some aes_gcm_128"
| "lc_module AesGcm256 = Some aes_gcm_256"
| "lc_module AesCcm128 = Some aes_ccm_128"
| "lc_module AesCcm128Short = Some aes_ccm_128_8"
| "lc_module AesCcm256 = Some aes_ccm_256"
| "lc_module AesCcm256Short = Some aes_ccm_256_8"
| "lc_module (LcAeadDirect _) = None"

lemma lc_aead_contract:
  assumes "lc_module alg = Some md"
    and "aes_laws A md (key_length (lc_aead A B) alg) (tag_length (lc_aead A B) alg) fits crypt mac left"
  shows "\<exists>ky. aead_contract (lc_aead A B) alg dev ky (aad_counted fits) crypt mac left"
  using assms
  by (cases alg)
    (auto simp: lc_aead_def [of A B, symmetric] lc_gcm128.arm_lengths lc_gcm256.arm_lengths lc_ccm128.arm_lengths
      lc_ccm128_8.arm_lengths lc_ccm256.arm_lengths lc_ccm256_8.arm_lengths
      intro: lc_gcm128.library_contract lc_gcm256.library_contract lc_ccm128.library_contract
      lc_ccm128_8.library_contract lc_ccm256.library_contract lc_ccm256_8.library_contract)

text \<open>C32: Sealing and opening with any of the six AES algorithms of the libcrux back-end: with a key and a nonce
  of the announced lengths, sealing gives the library's tag and cipher text of the same length, opening
  them under any other cutting of the additional data restores the message, and opening with any other
  tag of the right length reports \<open>DecryptionFailed\<close>.\<close>

theorem libcrux_aead_seals:
  fixes B :: "('d, 'balg, 'bk, 'bt) aead_provider"
  assumes "lc_module alg = Some md"
    and "aes_laws A md (key_length (lc_aead A B) alg) (tag_length (lc_aead A B) alg) fits crypt mac left"
    and "length key = key_length (lc_aead A B) alg" "length nonce = nonce_length (lc_aead A B) alg"
    and "aad_counted fits nonce (concat aad) (length m)" "concat aad' = concat aad"
    and "length t' = tag_length (lc_aead A B) alg" "t' \<noteq> mac key nonce (concat aad) m"
  shows "aead_seal (lc_aead A B) alg key nonce m aad d = Some ((mac key nonce (concat aad) m, crypt key nonce m), d)
    \<and> length (crypt key nonce m) = length m
    \<and> aead_open (lc_aead A B) alg key nonce (crypt key nonce m) (mac key nonce (concat aad) m) aad' d = Some ((Inr (), m), d)
    \<and> aead_open (lc_aead A B) alg key nonce (crypt key nonce m) t' aad d
      = Some ((Inl DecryptionFailed, left (crypt key nonce m) m), d)"
proof -
  obtain ky where C: "aead_contract (lc_aead A B) alg (\<lambda>x. x = d) ky (aad_counted fits) crypt mac left"
    using lc_aead_contract [OF assms(1,2)] by blast
  note seal = aead_contract.seal_law [OF C refl assms(3,4,5)]
    and tamper = aead_contract.tampered_tag [OF C refl assms(3,4,5,7,8)]
    and len = aead_contract.crypt_length [OF C] and inv = aead_contract.crypt_involution [OF C]
  have "aad_counted fits nonce (concat aad') (length (crypt key nonce m))" using assms(5,6) len by simp
  from aead_contract.open_law [OF C refl assms(3,4) aead_contract.mac_length [OF C, of key nonce "concat aad" m] this]
  have "aead_open (lc_aead A B) alg key nonce (crypt key nonce m) (mac key nonce (concat aad) m) aad' d = Some ((Inr (), m), d)"
    using assms(6) by (simp add: inv)
  with seal tamper len show ?thesis by simp
qed

text \<open>A library to run the witness with: a fixed mask, and a tag that counts the bytes.\<close>

definition toy_mask :: "bytes \<Rightarrow> bytes" where
  "toy_mask m = map (\<lambda>b. b XOR 0x5A) m"

definition toy_tag :: "nat \<Rightarrow> bytes \<Rightarrow> bytes \<Rightarrow> bytes \<Rightarrow> bytes \<Rightarrow> bytes" where
  "toy_tag n key nonce a m = be_bytes n (length a + length m)"

definition toy_aes :: "unit aes_library" where
  "toy_aes =
     \<lparr> AES_128_KEY_LEN = 16, AES_256_KEY_LEN = 32, TAG_LEN = 16, CCM_SHORT_TAG_LEN = 8, NONCE_LEN = 12,
       lib_encrypt = (\<lambda>md key nonce a m tag. (Inr (), toy_mask m, toy_tag (length tag) key nonce (drain a) m)),
       lib_decrypt = (\<lambda>md key nonce a c tag.
         (if tag = toy_tag (length tag) key nonce (drain a) (toy_mask c) then Inr () else Inl (), toy_mask c)) \<rparr>"

lemma toy_aes_laws:
  "aes_laws toy_aes md klen tlen (\<lambda>_ _ _. True) (\<lambda>key nonce. toy_mask) (toy_tag tlen) (\<lambda>c p. p)"
proof -
  have "toy_mask (toy_mask m) = m" for m
    by (simp add: toy_mask_def comp_def xor.assoc) 
  moreover have "length (toy_mask m) = length m" for m by (simp add: toy_mask_def)
  moreover have "length (toy_tag tlen key nonce a m) = tlen" for key nonce a m by (simp add: toy_tag_def)
  ultimately show ?thesis unfolding aes_laws_def by (simp add: toy_aes_def)
qed

lemma libcrux_aead_seals_witness:
  "aead_seal (lc_aead toy_aes empty_aead) AesCcm128Short (replicate 16 1) (replicate 12 2) [3, 4] [[5], [6]] ()
      = Some ((toy_tag 8 (replicate 16 1) (replicate 12 2) (concat [[5], [6]]) [3, 4], toy_mask [3, 4]), ())
    \<and> length (toy_mask [3, 4]) = length [3, 4 :: u8]
    \<and> aead_open (lc_aead toy_aes empty_aead) AesCcm128Short (replicate 16 1) (replicate 12 2) (toy_mask [3, 4])
        (toy_tag 8 (replicate 16 1) (replicate 12 2) (concat [[5], [6]]) [3, 4]) [[5, 6]] () = Some ((Inr (), [3, 4]), ())
    \<and> aead_open (lc_aead toy_aes empty_aead) AesCcm128Short (replicate 16 1) (replicate 12 2) (toy_mask [3, 4])
        (replicate 8 0) [[5], [6]] () = Some ((Inl DecryptionFailed, [3, 4]), ())"
proof -
  have "be_val (toy_tag 8 (replicate 16 1) (replicate 12 2) (concat [[5], [6]]) [3, 4]) = 4"
    by (simp add: toy_tag_def be_val_be_bytes)
  moreover have "be_val (replicate 8 0) \<noteq> 4" by (simp add: be_val_rev [of "replicate 8 0", simplified])
  ultimately have t: "replicate 8 0 \<noteq> toy_tag 8 (replicate 16 1) (replicate 12 2) (concat [[5], [6]]) [3, 4]" by metis
  have l: "key_length (lc_aead toy_aes empty_aead) AesCcm128Short = 16"
    "nonce_length (lc_aead toy_aes empty_aead) AesCcm128Short = 12"
    "tag_length (lc_aead toy_aes empty_aead) AesCcm128Short = 8"
    by (simp_all add: lc_aead_def toy_aes_def)
  show ?thesis
    by (rule libcrux_aead_seals [where md = aes_ccm_128_8 and fits = "\<lambda>_ _ _. True" and crypt = "\<lambda>key nonce. toy_mask"
          and mac = "toy_tag 8" and left = "\<lambda>c p. p" and aad' = "[[5, 6]]"])
      (simp_all only: l lc_module.simps toy_aes_laws t length_replicate,
       simp_all add: aad_counted_def usize_limit_def)
qed

text \<open>C38: The hand-written equality of the libcrux AEAD algorithms is not reflexive: each of the four AES-CCM
  algorithms is different from itself, although the type implements \<open>Eq\<close>. On all other algorithms it is
  equality.\<close>

theorem libcrux_ccm_differs_from_itself:
  "(lc_aead_eq (=) a a \<longleftrightarrow> a \<notin> {AesCcm128, AesCcm128Short, AesCcm256, AesCcm256Short})
   \<and> (lc_aead_eq (=) a b \<longleftrightarrow> a = b \<and> a \<notin> {AesCcm128, AesCcm128Short, AesCcm256, AesCcm256Short})"
  by (cases a; cases b) auto

section \<open>Key agreement\<close>

text \<open>Two parties that use the libcrux back-end for P-256 agree. If the generator's draws come to an
  accepted one twice, the crate's own self test (two generated keys, both public keys, both shared
  secrets) passes, having drawn nothing more.\<close>

theorem libcrux_selftest_passes:
  assumes "p256_laws L valid pub dh"
    and "lc_generate_p256 L G d = Some (a, d1)" "lc_generate_p256 L G d1 = Some (b, d2)"
  shows "test_dh_selftest (lc_dh L G B) LcP256 d = Some ((), d2)"
proof -
  have "valid s" if "lc_generate_p256 L G e = Some (s, e')" for e s e'
  proof -
    from lc_generate_p256_draws [OF that] obtain r where "generate_secret L r = Inr s" by auto
    then show ?thesis by (rule p256_laws_simps(3) [OF assms(1)])
  qed
  with assms(2,3) have v: "valid a" "valid b" by blast+
  note S = p256_laws_simps(6) [OF assms(1)] shared_law [OF assms(1)] dh_commutes [OF assms(1) v]
  show ?thesis using assms(2,3) S(1) [OF v(1)] S(1) [OF v(2)] S(2) [OF v, of B d2] S(2) [OF v(2,1), of B d2] S(3)
    by (simp add: test_dh_selftest_def dh_generate_def lc_dh_def)
qed


text \<open>A library to run the witnesses with: multiplication modulo \<open>2 ^ 256\<close>, which commutes; all non-zero
  secrets are valid.\<close>

definition toy_p256 :: "unit p256_library" where
  "toy_p256 =
     \<lparr> RAND_LEN = 32, SECRET_LEN = 32, PUBLIC_LEN = 64,
       generate_secret = (\<lambda>r. if length r = 32 \<and> r \<noteq> replicate 32 0 then Inr r else Inl ()),
       validate_secret = (\<lambda>s. if s \<noteq> replicate 32 0 then Inr () else Inl ()),
       compressed_to_raw = (\<lambda>c buf. (True, drop 1 c @ replicate 32 0)),
       derive_ecdh = (\<lambda>p s. Inr (be_bytes 32 (be_val s * be_val (take 32 p)) @ replicate 32 0)),
       secret_to_public = (\<lambda>s. Inr (s @ replicate 32 0)) \<rparr>"

definition toy_valid :: "bytes \<Rightarrow> bool" where
  "toy_valid s \<longleftrightarrow> length s = 32 \<and> s \<noteq> replicate 32 0"

definition toy_dh :: "bytes \<Rightarrow> bytes \<Rightarrow> bytes" where
  "toy_dh a b = be_bytes 32 (be_val a * be_val b)"

lemma toy_p256_laws: "p256_laws toy_p256 toy_valid (\<lambda>s. s @ replicate 32 0) toy_dh"
  unfolding p256_laws_def
proof (intro conjI allI impI)
  show "lc_dh_builds toy_p256" by (simp add: lc_dh_builds_def toy_p256_def P256_SHARED_SECRET_LEN_def)
  show "toy_valid s" if "generate_secret toy_p256 r = Inr s" for r s
    using that by (simp add: toy_p256_def toy_valid_def split: if_splits)
  show "toy_valid s \<longleftrightarrow> validate_secret toy_p256 s = Inr ()" if "length s = SECRET_LEN toy_p256" for s
    using that by (simp add: toy_p256_def toy_valid_def)
  show "length s = SECRET_LEN toy_p256" "secret_to_public toy_p256 s = Inr (s @ replicate 32 0)"
    "length (s @ replicate 32 0 :: bytes) = PUBLIC_LEN toy_p256" if "toy_valid s" for s
    using that by (simp_all add: toy_p256_def toy_valid_def)
  show "toy_dh a b = toy_dh b a" "length (toy_dh a b) = 32" for a b by (simp_all add: toy_dh_def mult.commute)
  show "\<exists>y. length y = 32 \<and> derive_ecdh toy_p256 (b @ replicate 32 0) a = Inr (toy_dh a b @ y)"
    if "toy_valid a \<and> toy_valid b" for a b
    using that by (intro exI [of _ "replicate 32 0"]) (simp add: toy_p256_def toy_valid_def toy_dh_def)
  show "\<exists>y. compressed_to_raw toy_p256 (2 # take 32 (b @ replicate 32 0)) buf = (True, take 32 (b @ replicate 32 0) @ y)
      \<and> length y = 32 \<and> (\<forall>a. toy_valid a \<longrightarrow> (\<exists>z. length z = 32
        \<and> derive_ecdh toy_p256 (take 32 (b @ replicate 32 0) @ y) a = Inr (toy_dh a b @ z)))"
    if "toy_valid b \<and> length buf = PUBLIC_LEN toy_p256" for b buf
    using that by (intro exI [of _ "replicate 32 0"] conjI allI impI)
      (auto simp: toy_p256_def toy_valid_def toy_dh_def intro: exI [of _ "replicate 32 0"])
qed

text \<open>A generator that counts: its \<open>n\<close>-th draw is the number \<open>n\<close>, so the first is rejected.\<close>

definition counting_rng :: "(nat, unit) try_rng" where
  "counting_rng =
     \<lparr> rng_next_u32 = (\<lambda>n. Some (Inr (of_nat n), Suc n)), rng_next_u64 = (\<lambda>n. Some (Inr (of_nat n), Suc n)),
       rng_fill_bytes = (\<lambda>k n. Some (Inr (be_bytes k n), Suc n)) \<rparr>"

lemma counting_fill: "fill_bytes_infallible counting_rng k n = Some (be_bytes k n, Suc n)"
  by (simp add: fill_bytes_infallible_def counting_rng_def)

lemma counting_accepts: "0 < n \<Longrightarrow> n < 256 \<Longrightarrow> generate_secret toy_p256 (be_bytes 32 n) = Inr (be_bytes 32 n)"
proof -
  assume n: "0 < n" "n < 256"
  then have "n < 256 ^ 32" by (rule_tac less_le_trans [OF n(2)]) simp
  then have "be_val (be_bytes 32 n) = n" by (simp add: be_val_be_bytes)
  moreover have "be_val (replicate 32 0) = 0" by (simp add: be_val_rev [of "replicate 32 0", simplified])
  ultimately have "be_bytes 32 n \<noteq> replicate 32 0" using n by auto
  then show ?thesis by (simp add: toy_p256_def)
qed

lemma toy_rand_len: "RAND_LEN toy_p256 = 32"
  by (simp add: toy_p256_def)

lemma counting_generate: "0 < n \<Longrightarrow> n < 256 \<Longrightarrow> lc_generate_p256 toy_p256 counting_rng n = Some (be_bytes 32 n, Suc n)"
  by (subst lc_generate_p256.simps) (simp add: counting_fill counting_accepts toy_rand_len)

lemma libcrux_selftest_passes_witness:
  "test_dh_selftest (lc_dh toy_p256 counting_rng empty_dh) LcP256 1 = Some ((), 3)"
  by (rule libcrux_selftest_passes [OF toy_p256_laws, of _ _ "be_bytes 32 1" 2 "be_bytes 32 2"])
    (use counting_generate [of 1] counting_generate [of 2] in \<open>simp_all add: numeral_2_eq_2 numeral_3_eq_3\<close>)


end
