(* ===== verification/Rc_Symmetric.thy ===== *)
theory Rc_Symmetric
  imports Delegation
begin

text \<open>
  \<^verbatim>\<open>embedded-cal-rustcrypto\<close>: the extender's state with its AAD buffer (\<^verbatim>\<open>lib.rs\<close>) and the symmetric providers
  (\<^verbatim>\<open>hash.rs\<close>, \<^verbatim>\<open>hmac.rs\<close>, \<^verbatim>\<open>aead.rs\<close>). The crates \<^verbatim>\<open>sha2\<close>, \<^verbatim>\<open>hmac\<close>, \<^verbatim>\<open>ccm\<close> and \<^verbatim>\<open>aes\<close> are
  parameters; the base is reached through the field \<open>base\<close>.
\<close>

section \<open>The extender\<close>

record 'b rc_extender =
  aead_buffer :: bytes
  rc_base :: 'b

definition rc_new_extending :: "'b \<Rightarrow> 'b rc_extender" where
  "rc_new_extending base = \<lparr> aead_buffer = replicate 1024 0, rc_base = base \<rparr>"

definition put_base :: "'b \<Rightarrow> 'b rc_extender \<Rightarrow> 'b rc_extender" where
  "put_base b e = e\<lparr>rc_base := b\<rparr>"

definition on_base :: "('a \<Rightarrow> 'c) \<Rightarrow> ('b \<Rightarrow> ('a \<times> 'b) option) \<Rightarrow> 'b rc_extender \<Rightarrow> ('c \<times> 'b rc_extender) option" where
  "on_base f m e = inside rc_base put_base f m e"

text \<open>\<open>collect_aad\<close>, with the feature \<open>alloc\<close> as a parameter. Without it, the slices are copied one after
  the other into the 1024-byte buffer, which panics when it is full.\<close>

fun copy_slices :: "nat \<Rightarrow> bytes list \<Rightarrow> bytes \<Rightarrow> (nat \<times> bytes) option" where
  "copy_slices cursor [] buf = Some (cursor, buf)"
| "copy_slices cursor (s # ss) buf = do {
     buf \<leftarrow> copy_at buf cursor s;
     copy_slices (cursor + length s) ss buf
   }"

definition collect_aad :: "bool \<Rightarrow> bytes list \<Rightarrow> 'b rc_extender \<Rightarrow> (bytes \<times> 'b rc_extender) option" where
  "collect_aad alloc aad e =
     (if alloc then Some (concat aad, e)
      else do {
        (cursor, buf) \<leftarrow> copy_slices 0 aad (aead_buffer e);
        linear \<leftarrow> slice buf 0 cursor;
        Some (linear, e\<lparr>aead_buffer := buf\<rparr>)
      })"

lemma copy_slices_ok:
  "cursor + length (concat ss) \<le> length buf \<Longrightarrow>
   \<exists>buf'. copy_slices cursor ss buf = Some (cursor + length (concat ss), buf') \<and> length buf' = length buf
     \<and> take (cursor + length (concat ss)) buf' = take cursor buf @ concat ss"
proof (induction ss arbitrary: cursor buf)
  case (Cons s ss)
  have n: "cursor + length s + length (concat ss) \<le> length buf" using Cons.prems by (simp add: add.assoc)
  then obtain b where b: "copy_at buf cursor s = Some b" by (simp add: copy_at_def)
  have l: "length b = length buf" and t: "take (cursor + length s) b = take cursor buf @ s"
    using copy_at_length [OF b] copy_at_prefix [OF b] .
  have "cursor + length s + length (concat ss) \<le> length b" using n l by simp
  from Cons.IH [OF this] obtain buf' where
    "copy_slices (cursor + length s) ss b = Some (cursor + length s + length (concat ss), buf')"
    "length buf' = length b" "take (cursor + length s + length (concat ss)) buf' = take (cursor + length s) b @ concat ss"
    by blast
  then show ?case using b l t by (simp add: add.assoc)
qed simp

lemma copy_slices_None: "cursor \<le> length buf \<Longrightarrow> length buf < cursor + length (concat ss) \<Longrightarrow> copy_slices cursor ss buf = None"
proof (induction ss arbitrary: cursor buf)
  case (Cons s ss)
  show ?case
  proof (cases "copy_at buf cursor s")
    case (Some b)
    have l: "length b = length buf" by (rule copy_at_length [OF Some])
    have "cursor + length s \<le> length b" using Some l by (simp add: copy_at_eq_Some)
    moreover have "length b < cursor + length s + length (concat ss)" using l Cons.prems(2) by (simp add: add.assoc)
    ultimately have "copy_slices (cursor + length s) ss b = None" by (rule Cons.IH)
    with Some show ?thesis by simp
  qed simp
qed simp

lemma collect_aad_ok:
  "alloc \<or> length (concat aad) \<le> length (aead_buffer e) \<Longrightarrow>
   \<exists>e'. collect_aad alloc aad e = Some (concat aad, e') \<and> rc_base e' = rc_base e
     \<and> length (aead_buffer e') = length (aead_buffer e)"
  using copy_slices_ok [of 0 aad "aead_buffer e"] by (auto simp: collect_aad_def slice_def)

lemma collect_aad_full:
  "length (aead_buffer e) < length (concat aad) \<Longrightarrow> collect_aad False aad e = None"
  using copy_slices_None [of 0 "aead_buffer e" aad] by (simp add: collect_aad_def)

section \<open>SHA-2 plumbing and random numbers, handed through\<close>

definition rc_sha2 :: "('b, 's) sha2short \<Rightarrow> ('b rc_extender, 's) sha2short" where
  "rc_sha2 B = inside_sha2 rc_base put_base B"

definition rc_ec :: "('b, 'sp, 'pp, 'sx, 'px, 'sh, 'ph) ec \<Rightarrow> ('b rc_extender, 'sp, 'pp, 'sx, 'px, 'sh, 'ph) ec" where
  "rc_ec B =
     \<lparr> MAX_SCALAR_LENGTH = MAX_SCALAR_LENGTH B,
       ec_p256 = inside_ec_primitives rc_base put_base (ec_p256 B),
       ec_x25519 = inside_ec_primitives rc_base put_base (ec_x25519 B),
       ec_x448 = inside_ec_primitives rc_base put_base (ec_x448 B) \<rparr>"

definition rc_try_rng :: "('b, 'f) try_rng \<Rightarrow> ('b rc_extender, 'f) try_rng" where
  "rc_try_rng G =
     \<lparr> rng_next_u32 = on_base (\<lambda>r. r) (rng_next_u32 G), rng_next_u64 = on_base (\<lambda>r. r) (rng_next_u64 G),
       rng_fill_bytes = (\<lambda>n. on_base (\<lambda>r. r) (rng_fill_bytes G n)) \<rparr>"

section \<open>Hashing\<close>

datatype 'ba rc_hash_algorithm = RcSha256 | RcHashDirect 'ba
datatype ('h, 'bs) rc_hash_state = RcStateSha256 'h | RcStateDirect 'bs
datatype 'br rc_hash_result = RcResultSha256 bytes | RcResultDirect 'br

fun rc_hash_len :: "('ba \<Rightarrow> nat) \<Rightarrow> 'ba rc_hash_algorithm \<Rightarrow> nat" where
  "rc_hash_len f RcSha256 = 32"
| "rc_hash_len f (RcHashDirect a) = f a"

definition rc_hash_from_cose_number :: "(int \<Rightarrow> 'ba option) \<Rightarrow> int \<Rightarrow> 'ba rc_hash_algorithm option" where
  "rc_hash_from_cose_number base number =
     (case base number of Some a \<Rightarrow> Some (RcHashDirect a) | None \<Rightarrow> if number = - 16 then Some RcSha256 else None)"

definition rc_hash_from_ni_id :: "(u8 \<Rightarrow> 'ba option) \<Rightarrow> u8 \<Rightarrow> 'ba rc_hash_algorithm option" where
  "rc_hash_from_ni_id base number =
     (case base number of Some a \<Rightarrow> Some (RcHashDirect a) | None \<Rightarrow> if number = 1 then Some RcSha256 else None)"

definition rc_hash_from_ni_name :: "(string \<Rightarrow> 'ba option) \<Rightarrow> string \<Rightarrow> 'ba rc_hash_algorithm option" where
  "rc_hash_from_ni_name base name =
     (case base name of Some a \<Rightarrow> Some (RcHashDirect a) | None \<Rightarrow> if name = ''sha-256'' then Some RcSha256 else None)"

fun rc_hash_as_ref :: "('br \<Rightarrow> bytes) \<Rightarrow> 'br rc_hash_result \<Rightarrow> bytes" where
  "rc_hash_as_ref f (RcResultSha256 r) = r"
| "rc_hash_as_ref f (RcResultDirect r) = f r"

fun rc_hash_init :: "'h digest_library \<Rightarrow> ('b, 'ba, 'bs, 'br) hash_provider \<Rightarrow> 'ba rc_hash_algorithm \<Rightarrow> 'b rc_extender
    \<Rightarrow> (('h, 'bs) rc_hash_state \<times> 'b rc_extender) option" where
  "rc_hash_init L B RcSha256 e = Some (RcStateSha256 (dl_new L), e)"
| "rc_hash_init L B (RcHashDirect a) e = on_base RcStateDirect (hp_init B a) e"

fun rc_hash_update :: "'h digest_library \<Rightarrow> ('b, 'ba, 'bs, 'br) hash_provider \<Rightarrow> ('h, 'bs) rc_hash_state \<Rightarrow> bytes
    \<Rightarrow> 'b rc_extender \<Rightarrow> (('h, 'bs) rc_hash_state \<times> 'b rc_extender) option" where
  "rc_hash_update L B (RcStateSha256 s) data e = Some (RcStateSha256 (dl_update L s data), e)"
| "rc_hash_update L B (RcStateDirect i) data e = on_base RcStateDirect (hp_update B i data) e"

fun rc_hash_finalize :: "'h digest_library \<Rightarrow> ('b, 'ba, 'bs, 'br) hash_provider \<Rightarrow> ('h, 'bs) rc_hash_state
    \<Rightarrow> 'b rc_extender \<Rightarrow> ('br rc_hash_result \<times> 'b rc_extender) option" where
  "rc_hash_finalize L B (RcStateSha256 s) e = Some (RcResultSha256 (dl_finish L s), e)"
| "rc_hash_finalize L B (RcStateDirect i) e = on_base RcResultDirect (hp_finalize B i) e"

definition rc_hash :: "'h digest_library \<Rightarrow> ('b, 'ba, 'bs, 'br) hash_provider
    \<Rightarrow> ('b rc_extender, 'ba rc_hash_algorithm, ('h, 'bs) rc_hash_state, 'br rc_hash_result) hash_provider" where
  "rc_hash L B =
     \<lparr> hash_len = rc_hash_len (hash_len B),
       hash_from_cose_number = rc_hash_from_cose_number (hash_from_cose_number B),
       hash_from_ni_id = rc_hash_from_ni_id (hash_from_ni_id B),
       hash_from_ni_name = rc_hash_from_ni_name (hash_from_ni_name B),
       hp_init = rc_hash_init L B, hp_update = rc_hash_update L B, hp_finalize = rc_hash_finalize L B,
       hp_output = rc_hash_as_ref (hp_output B) \<rparr>"

text \<open>The provider replaces the provided one-shot \<open>hash\<close>: \<open>base_oneshot\<close> is the base's own.\<close>

definition rc_hash_oneshot :: "'h digest_library \<Rightarrow> ('b, 'ba, 'bs, 'br) hash_provider
    \<Rightarrow> ('ba \<Rightarrow> bytes \<Rightarrow> 'b \<Rightarrow> ('br \<times> 'b) option) \<Rightarrow> 'ba rc_hash_algorithm \<Rightarrow> bytes \<Rightarrow> 'b rc_extender
    \<Rightarrow> ('br rc_hash_result \<times> 'b rc_extender) option" where
  "rc_hash_oneshot L B base_oneshot algorithm data e =
     (case algorithm of
        RcHashDirect a \<Rightarrow> on_base RcResultDirect (base_oneshot a data) e
      | RcSha256 \<Rightarrow> do {
          (state, e) \<leftarrow> rc_hash_init L B RcSha256 e;
          (state, e) \<leftarrow> rc_hash_update L B state data e;
          rc_hash_finalize L B state e
        })"

section \<open>HMAC\<close>

text \<open>The crate \<^verbatim>\<open>hmac\<close>: \<open>new_from_slice\<close> can fail by its type.\<close>

record ('m, 'e) hmac_library =
  ml_new_from_slice :: "bytes \<Rightarrow> 'e + 'm"
  ml_update :: "'m \<Rightarrow> bytes \<Rightarrow> 'm"
  ml_finalize :: "'m \<Rightarrow> bytes"

datatype 'ba rc_hmac_algorithm = RcHmacSha256 | RcHmacDirect 'ba
datatype ('m, 'bk) rc_hmac_key = RcKeySha256 'm | RcKeyDirect 'bk
datatype ('m, 'bs) rc_hmac_state = RcMacSha256 'm | RcMacDirect 'bs
datatype 'br rc_hmac_result = RcTagSha256 bytes | RcTagDirect 'br

definition rc_MAX_LEN :: nat where
  "rc_MAX_LEN = 64"

fun rc_hmac_len :: "('ba \<Rightarrow> nat) \<Rightarrow> 'ba rc_hmac_algorithm \<Rightarrow> nat" where
  "rc_hmac_len f RcHmacSha256 = 32"
| "rc_hmac_len f (RcHmacDirect a) = f a"

definition rc_hmac_from_cose_number :: "(int \<Rightarrow> 'ba option) \<Rightarrow> int \<Rightarrow> 'ba rc_hmac_algorithm option" where
  "rc_hmac_from_cose_number base number =
     (case base number of Some a \<Rightarrow> Some (RcHmacDirect a) | None \<Rightarrow> if number = 5 then Some RcHmacSha256 else None)"

fun rc_hmac_as_ref :: "('br \<Rightarrow> bytes) \<Rightarrow> 'br rc_hmac_result \<Rightarrow> bytes" where
  "rc_hmac_as_ref f (RcTagSha256 r) = r"
| "rc_hmac_as_ref f (RcTagDirect r) = f r"

fun rc_hmac_load :: "('m, 'e) hmac_library \<Rightarrow> ('b, 'ba, 'bk, 'bs, 'br) hmac_provider \<Rightarrow> 'ba rc_hmac_algorithm \<Rightarrow> bytes
    \<Rightarrow> 'b rc_extender \<Rightarrow> (('m, 'bk) rc_hmac_key \<times> 'b rc_extender) option" where
  "rc_hmac_load M B RcHmacSha256 key e =
     (case ml_new_from_slice M key of Inl _ \<Rightarrow> None | Inr h \<Rightarrow> Some (RcKeySha256 h, e))"
| "rc_hmac_load M B (RcHmacDirect a) key e = on_base RcKeyDirect (mp_load_from_keydata B a key) e"

fun rc_hmac_init :: "('b, 'ba, 'bk, 'bs, 'br) hmac_provider \<Rightarrow> ('m, 'bk) rc_hmac_key
    \<Rightarrow> 'b rc_extender \<Rightarrow> (('m, 'bs) rc_hmac_state \<times> 'b rc_extender) option" where
  "rc_hmac_init B (RcKeySha256 h) e = Some (RcMacSha256 h, e)"
| "rc_hmac_init B (RcKeyDirect k) e = on_base RcMacDirect (mp_init B k) e"

fun rc_hmac_update :: "('m, 'e) hmac_library \<Rightarrow> ('b, 'ba, 'bk, 'bs, 'br) hmac_provider \<Rightarrow> ('m, 'bs) rc_hmac_state \<Rightarrow> bytes
    \<Rightarrow> 'b rc_extender \<Rightarrow> (('m, 'bs) rc_hmac_state \<times> 'b rc_extender) option" where
  "rc_hmac_update M B (RcMacSha256 h) data e = Some (RcMacSha256 (ml_update M h data), e)"
| "rc_hmac_update M B (RcMacDirect s) data e = on_base RcMacDirect (mp_update B s data) e"

fun rc_hmac_finalize :: "('m, 'e) hmac_library \<Rightarrow> ('b, 'ba, 'bk, 'bs, 'br) hmac_provider \<Rightarrow> ('m, 'bs) rc_hmac_state
    \<Rightarrow> 'b rc_extender \<Rightarrow> ('br rc_hmac_result \<times> 'b rc_extender) option" where
  "rc_hmac_finalize M B (RcMacSha256 h) e = Some (RcTagSha256 (ml_finalize M h), e)"
| "rc_hmac_finalize M B (RcMacDirect s) e = on_base RcTagDirect (mp_finalize B s) e"

definition rc_hmac :: "('m, 'e) hmac_library \<Rightarrow> ('b, 'ba, 'bk, 'bs, 'br) hmac_provider
    \<Rightarrow> ('b rc_extender, 'ba rc_hmac_algorithm, ('m, 'bk) rc_hmac_key, ('m, 'bs) rc_hmac_state, 'br rc_hmac_result) hmac_provider" where
  "rc_hmac M B =
     \<lparr> hmac_MAX_LEN = rc_MAX_LEN, hmac_len = rc_hmac_len (hmac_len B),
       hmac_from_cose_number = rc_hmac_from_cose_number (hmac_from_cose_number B),
       mp_load_from_keydata = rc_hmac_load M B, mp_init = rc_hmac_init B, mp_update = rc_hmac_update M B,
       mp_finalize = rc_hmac_finalize M B, mp_output = rc_hmac_as_ref (mp_output B) \<rparr>"

section \<open>AES-CCM\<close>

text \<open>The crate \<^verbatim>\<open>ccm\<close>, for the two key lengths: \<open>encrypt_inout_detached\<close> and \<open>decrypt_inout_detached\<close> on a
  13-byte nonce, the linear additional data and the buffer.\<close>

datatype ccm_variant = AesCcm16_64_128 | AesCcm16_64_256

record 'e ccm_library =
  ccm_encrypt :: "ccm_variant \<Rightarrow> bytes \<Rightarrow> bytes \<Rightarrow> bytes \<Rightarrow> bytes \<Rightarrow> ('e + bytes) \<times> bytes"
  ccm_decrypt :: "ccm_variant \<Rightarrow> bytes \<Rightarrow> bytes \<Rightarrow> bytes \<Rightarrow> bytes \<Rightarrow> bytes \<Rightarrow> ('e + unit) \<times> bytes"

datatype 'ba rc_aead_algorithm = RcCcm128 | RcCcm256 | RcAeadDirect 'ba
datatype 'bk rc_aead_key = RcKeyCcm128 bytes | RcKeyCcm256 bytes | RcAeadKeyDirect 'bk
datatype 'bt rc_aead_tag = RcTagCcm128 bytes | RcTagCcm256 bytes | RcAeadTagDirect 'bt

fun rc_key_length :: "('ba \<Rightarrow> nat) \<Rightarrow> 'ba rc_aead_algorithm \<Rightarrow> nat" where
  "rc_key_length f RcCcm128 = 16"
| "rc_key_length f RcCcm256 = 32"
| "rc_key_length f (RcAeadDirect a) = f a"

fun rc_tag_length :: "('ba \<Rightarrow> nat) \<Rightarrow> 'ba rc_aead_algorithm \<Rightarrow> nat" where
  "rc_tag_length f RcCcm128 = 8"
| "rc_tag_length f RcCcm256 = 8"
| "rc_tag_length f (RcAeadDirect a) = f a"

fun rc_nonce_length :: "('ba \<Rightarrow> nat) \<Rightarrow> 'ba rc_aead_algorithm \<Rightarrow> nat" where
  "rc_nonce_length f RcCcm128 = 13"
| "rc_nonce_length f RcCcm256 = 13"
| "rc_nonce_length f (RcAeadDirect a) = f a"

definition rc_aead_from_cose_number :: "(int \<Rightarrow> 'ba option) \<Rightarrow> int \<Rightarrow> 'ba rc_aead_algorithm option" where
  "rc_aead_from_cose_number base number =
     (case base number of
        Some a \<Rightarrow> Some (RcAeadDirect a)
      | None \<Rightarrow> if number = 10 then Some RcCcm128 else if number = 11 then Some RcCcm256 else None)"

fun rc_tag_as_ref :: "('bt \<Rightarrow> bytes) \<Rightarrow> 'bt rc_aead_tag \<Rightarrow> bytes" where
  "rc_tag_as_ref f (RcTagCcm128 t) = t"
| "rc_tag_as_ref f (RcTagCcm256 t) = t"
| "rc_tag_as_ref f (RcAeadTagDirect t) = f t"

text \<open>\<open>x.try_into().expect(...)\<close> into an array of \<open>n\<close> bytes.\<close>

definition expect_len :: "nat \<Rightarrow> bytes \<Rightarrow> bytes option" where
  "expect_len n x = (if length x = n then Some x else None)"

fun rc_aead_load :: "('b, 'ba, 'bk, 'bt) aead_provider \<Rightarrow> 'ba rc_aead_algorithm \<Rightarrow> bytes \<Rightarrow> 'b rc_extender
    \<Rightarrow> ('bk rc_aead_key \<times> 'b rc_extender) option" where
  "rc_aead_load B RcCcm128 key e = do { k \<leftarrow> expect_len 16 key; Some (RcKeyCcm128 k, e) }"
| "rc_aead_load B RcCcm256 key e = do { k \<leftarrow> expect_len 32 key; Some (RcKeyCcm256 k, e) }"
| "rc_aead_load B (RcAeadDirect a) key e = on_base RcAeadKeyDirect (ap_load_from_keydata B a key) e"

definition ccm_seal_with :: "'e ccm_library \<Rightarrow> ccm_variant \<Rightarrow> bytes \<Rightarrow> bytes \<Rightarrow> bytes \<Rightarrow> bytes \<Rightarrow> (bytes \<times> bytes) option" where
  "ccm_seal_with L v key nonce aad_linear message = do {
     nonce \<leftarrow> expect_len 13 nonce;
     (case ccm_encrypt L v key nonce aad_linear message of
        (Inl _, _) \<Rightarrow> None
      | (Inr tag, message) \<Rightarrow> Some (tag, message))
   }"

fun rc_aead_encrypt :: "'e ccm_library \<Rightarrow> bool \<Rightarrow> ('b, 'ba, 'bk, 'bt) aead_provider \<Rightarrow> 'bk rc_aead_key \<Rightarrow> bytes \<Rightarrow> bytes
    \<Rightarrow> bytes list \<Rightarrow> 'b rc_extender \<Rightarrow> (('bt rc_aead_tag \<times> bytes) \<times> 'b rc_extender) option" where
  "rc_aead_encrypt L alloc B (RcAeadKeyDirect k) nonce message aad e =
     on_base (map_prod RcAeadTagDirect (\<lambda>c. c)) (ap_encrypt_in_place B k nonce message aad) e"
| "rc_aead_encrypt L alloc B (RcKeyCcm128 key) nonce message aad e = do {
     (aad_linear, e) \<leftarrow> collect_aad alloc aad e;
     (tag, message) \<leftarrow> ccm_seal_with L AesCcm16_64_128 key nonce aad_linear message;
     Some ((RcTagCcm128 tag, message), e) }"
| "rc_aead_encrypt L alloc B (RcKeyCcm256 key) nonce message aad e = do {
     (aad_linear, e) \<leftarrow> collect_aad alloc aad e;
     (tag, message) \<leftarrow> ccm_seal_with L AesCcm16_64_256 key nonce aad_linear message;
     Some ((RcTagCcm256 tag, message), e) }"

definition ccm_open_with :: "'e ccm_library \<Rightarrow> ccm_variant \<Rightarrow> bytes \<Rightarrow> bytes \<Rightarrow> bytes \<Rightarrow> bytes \<Rightarrow> bytes
    \<Rightarrow> ((decryption_failed + unit) \<times> bytes) option" where
  "ccm_open_with L v key nonce aad_linear message tag = do {
     nonce \<leftarrow> expect_len 13 nonce;
     tag \<leftarrow> expect_len 8 tag;
     (case ccm_decrypt L v key nonce aad_linear message tag of
        (Inl _, message) \<Rightarrow> Some (Inl DecryptionFailed, message)
      | (Inr _, message) \<Rightarrow> Some (Inr (), message))
   }"

fun rc_aead_decrypt :: "'e ccm_library \<Rightarrow> bool \<Rightarrow> ('b, 'ba, 'bk, 'bt) aead_provider \<Rightarrow> 'bk rc_aead_key \<Rightarrow> bytes \<Rightarrow> bytes
    \<Rightarrow> bytes \<Rightarrow> bytes list \<Rightarrow> 'b rc_extender \<Rightarrow> (((decryption_failed + unit) \<times> bytes) \<times> 'b rc_extender) option" where
  "rc_aead_decrypt L alloc B (RcAeadKeyDirect k) nonce message tag aad e =
     on_base (\<lambda>r. r) (ap_decrypt_in_place B k nonce message tag aad) e"
| "rc_aead_decrypt L alloc B (RcKeyCcm128 key) nonce message tag aad e = do {
     (aad_linear, e) \<leftarrow> collect_aad alloc aad e;
     r \<leftarrow> ccm_open_with L AesCcm16_64_128 key nonce aad_linear message tag;
     Some (r, e) }"
| "rc_aead_decrypt L alloc B (RcKeyCcm256 key) nonce message tag aad e = do {
     (aad_linear, e) \<leftarrow> collect_aad alloc aad e;
     r \<leftarrow> ccm_open_with L AesCcm16_64_256 key nonce aad_linear message tag;
     Some (r, e) }"

definition rc_aead :: "'e ccm_library \<Rightarrow> bool \<Rightarrow> ('b, 'ba, 'bk, 'bt) aead_provider
    \<Rightarrow> ('b rc_extender, 'ba rc_aead_algorithm, 'bk rc_aead_key, 'bt rc_aead_tag) aead_provider" where
  "rc_aead L alloc B =
     \<lparr> key_length = rc_key_length (key_length B), tag_length = rc_tag_length (tag_length B),
       nonce_length = rc_nonce_length (nonce_length B),
       aead_from_cose_number = rc_aead_from_cose_number (aead_from_cose_number B),
       ap_load_from_keydata = rc_aead_load B, ap_encrypt_in_place = rc_aead_encrypt L alloc B,
       ap_decrypt_in_place = rc_aead_decrypt L alloc B, ap_tag_bytes = rc_tag_as_ref (ap_tag_bytes B) \<rparr>"

end
