(* ===== verification/Rc_Dh.thy ===== *)
theory Rc_Dh
  imports Rc_Symmetric
begin

text \<open>
  \<^verbatim>\<open>embedded-cal-rustcrypto/src/dh.rs\<close>: key agreement on P-256 (crate \<^verbatim>\<open>p256\<close>) and X25519 (crate
  \<^verbatim>\<open>x25519-dalek\<close>), both parameters, over a base. The libraries draw their keys from the extender itself
  as a generator (\<open>rc_try_rng\<close>), so generation takes the extender's state along.
\<close>

record ('e, 'f, 'psk, 'aff, 'ppk, 'xsk, 'xpk, 'err) curve_libraries =
  p256_generate_from_rng :: "('e, 'f) try_rng \<Rightarrow> 'e \<Rightarrow> ('psk \<times> 'e) option"
  p256_from_bytes :: "bytes \<Rightarrow> 'err + 'psk"
  p256_to_bytes :: "'psk \<Rightarrow> bytes"
  p256_public_key :: "'psk \<Rightarrow> 'ppk"
  p256_diffie_hellman :: "'psk \<Rightarrow> 'ppk \<Rightarrow> bytes"
  p256_decompress :: "bytes \<Rightarrow> nat \<Rightarrow> 'aff option"
  p256_from_affine :: "'aff \<Rightarrow> 'err + 'ppk"
  p256_sec1_x :: "'ppk \<Rightarrow> bytes option"
  x25519_random_from_rng :: "('e, 'f) try_rng \<Rightarrow> 'e \<Rightarrow> ('xsk \<times> 'e) option"
  x25519_secret_from :: "bytes \<Rightarrow> 'xsk"
  x25519_secret_to_bytes :: "'xsk \<Rightarrow> bytes"
  x25519_public_of :: "'xsk \<Rightarrow> 'xpk"
  x25519_diffie_hellman :: "'xsk \<Rightarrow> 'xpk \<Rightarrow> bytes"
  x25519_public_from :: "bytes \<Rightarrow> 'xpk"
  x25519_public_as_bytes :: "'xpk \<Rightarrow> bytes"

datatype 'ba rc_dh_algorithm = RcP256 | RcX25519 | RcDhDirect 'ba
datatype ('psk, 'xsk, 'bv) rc_dh_visible = RcVisibleP256 'psk | RcVisibleX25519 'xsk | RcVisibleDirect 'bv
datatype ('psk, 'xsk, 'bk) rc_dh_secret = RcSecretP256 'psk | RcSecretX25519 'xsk | RcSecretDirect 'bk
datatype ('ppk, 'xpk, 'bp) rc_dh_public = RcPublicP256 'ppk | RcPublicX25519 'xpk | RcPublicDirect 'bp
datatype 'bs rc_dh_shared = RcLength32 bytes | RcSharedDirect 'bs

fun rc_output_length :: "('ba \<Rightarrow> nat) \<Rightarrow> 'ba rc_dh_algorithm \<Rightarrow> nat" where
  "rc_output_length f RcP256 = 32"
| "rc_output_length f RcX25519 = 32"
| "rc_output_length f (RcDhDirect d) = f d"

definition rc_from_cose_ecdh :: "(int \<Rightarrow> 'ba option) \<Rightarrow> int \<Rightarrow> 'ba rc_dh_algorithm option" where
  "rc_from_cose_ecdh base curve =
     (case base curve of
        Some d \<Rightarrow> Some (RcDhDirect d)
      | None \<Rightarrow> if curve = 1 then Some RcP256 else if curve = 4 then Some RcX25519 else None)"

fun rc_into_secret :: "('bv \<Rightarrow> 'bk) \<Rightarrow> ('psk, 'xsk, 'bv) rc_dh_visible \<Rightarrow> ('psk, 'xsk, 'bk) rc_dh_secret" where
  "rc_into_secret f (RcVisibleP256 k) = RcSecretP256 k"
| "rc_into_secret f (RcVisibleX25519 k) = RcSecretX25519 k"
| "rc_into_secret f (RcVisibleDirect d) = RcSecretDirect (f d)"

fun rc_generate_visible ::
    "('b rc_extender, 'f, 'psk, 'aff, 'ppk, 'xsk, 'xpk, 'err) curve_libraries \<Rightarrow> ('b, 'f) try_rng
     \<Rightarrow> ('b, 'ba, 'bv, 'bk, 'bp, 'bs) dh_provider \<Rightarrow> 'ba rc_dh_algorithm \<Rightarrow> 'b rc_extender
     \<Rightarrow> (('psk, 'xsk, 'bv) rc_dh_visible \<times> 'b rc_extender) option" where
  "rc_generate_visible L G B RcP256 e = fwd RcVisibleP256 (p256_generate_from_rng L (rc_try_rng G)) e"
| "rc_generate_visible L G B RcX25519 e = fwd RcVisibleX25519 (x25519_random_from_rng L (rc_try_rng G)) e"
| "rc_generate_visible L G B (RcDhDirect d) e = on_base RcVisibleDirect (dp_generate_visible B d) e"

fun rc_export_secretkey_bytes ::
    "('b rc_extender, 'f, 'psk, 'aff, 'ppk, 'xsk, 'xpk, 'err) curve_libraries
     \<Rightarrow> ('b, 'ba, 'bv, 'bk, 'bp, 'bs) dh_provider \<Rightarrow> ('psk, 'xsk, 'bv) rc_dh_visible \<Rightarrow> 'b rc_extender
     \<Rightarrow> (bytes \<times> 'b rc_extender) option" where
  "rc_export_secretkey_bytes L B (RcVisibleP256 k) e = Some (p256_to_bytes L k, e)"
| "rc_export_secretkey_bytes L B (RcVisibleX25519 k) e = Some (x25519_secret_to_bytes L k, e)"
| "rc_export_secretkey_bytes L B (RcVisibleDirect d) e = on_base (\<lambda>r. r) (dp_export_secretkey_bytes B d) e"

fun rc_import_secretkey_bytes ::
    "('b rc_extender, 'f, 'psk, 'aff, 'ppk, 'xsk, 'xpk, 'err) curve_libraries
     \<Rightarrow> ('b, 'ba, 'bv, 'bk, 'bp, 'bs) dh_provider \<Rightarrow> 'ba rc_dh_algorithm \<Rightarrow> bytes \<Rightarrow> 'b rc_extender
     \<Rightarrow> ((import_error + ('psk, 'xsk, 'bv) rc_dh_visible) \<times> 'b rc_extender) option" where
  "rc_import_secretkey_bytes L B RcP256 secret e =
     (if length secret \<noteq> 32 then Some (Inl ImportError, e)
      else (case p256_from_bytes L secret of
          Inl _ \<Rightarrow> Some (Inl ImportError, e)
        | Inr k \<Rightarrow> Some (Inr (RcVisibleP256 k), e)))"
| "rc_import_secretkey_bytes L B RcX25519 secret e =
     (if length secret \<noteq> 32 then Some (Inl ImportError, e)
      else Some (Inr (RcVisibleX25519 (x25519_secret_from L secret)), e))"
| "rc_import_secretkey_bytes L B (RcDhDirect d) secret e =
     on_base (map_sum (\<lambda>x. x) RcVisibleDirect) (dp_import_secretkey_bytes B d secret) e"

fun rc_shared_secret ::
    "('b rc_extender, 'f, 'psk, 'aff, 'ppk, 'xsk, 'xpk, 'err) curve_libraries
     \<Rightarrow> ('b, 'ba, 'bv, 'bk, 'bp, 'bs) dh_provider \<Rightarrow> ('psk, 'xsk, 'bk) rc_dh_secret \<Rightarrow> ('ppk, 'xpk, 'bp) rc_dh_public
     \<Rightarrow> 'b rc_extender \<Rightarrow> ((incompatible_keys + 'bs rc_dh_shared) \<times> 'b rc_extender) option" where
  "rc_shared_secret L B (RcSecretP256 k) (RcPublicP256 p) e = Some (Inr (RcLength32 (p256_diffie_hellman L k p)), e)"
| "rc_shared_secret L B (RcSecretX25519 k) (RcPublicX25519 p) e = Some (Inr (RcLength32 (x25519_diffie_hellman L k p)), e)"
| "rc_shared_secret L B (RcSecretDirect k) (RcPublicDirect p) e =
     on_base (map_sum (\<lambda>x. x) RcSharedDirect) (dp_shared_secret B k p) e"
| "rc_shared_secret L B _ _ e = Some (Inl IncompatibleKeys, e)"

fun rc_public_key ::
    "('b rc_extender, 'f, 'psk, 'aff, 'ppk, 'xsk, 'xpk, 'err) curve_libraries
     \<Rightarrow> ('b, 'ba, 'bv, 'bk, 'bp, 'bs) dh_provider \<Rightarrow> ('psk, 'xsk, 'bk) rc_dh_secret \<Rightarrow> 'b rc_extender
     \<Rightarrow> (('ppk, 'xpk, 'bp) rc_dh_public \<times> 'b rc_extender) option" where
  "rc_public_key L B (RcSecretP256 k) e = Some (RcPublicP256 (p256_public_key L k), e)"
| "rc_public_key L B (RcSecretX25519 k) e = Some (RcPublicX25519 (x25519_public_of L k), e)"
| "rc_public_key L B (RcSecretDirect d) e = on_base RcPublicDirect (dp_public_key B d) e"

fun rc_raw_secret_bytes :: "('b, 'ba, 'bv, 'bk, 'bp, 'bs) dh_provider \<Rightarrow> 'bs rc_dh_shared \<Rightarrow> 'b rc_extender
    \<Rightarrow> (bytes \<times> 'b rc_extender) option" where
  "rc_raw_secret_bytes B (RcLength32 inner) e = Some (inner, e)"
| "rc_raw_secret_bytes B (RcSharedDirect d) e = on_base (\<lambda>r. r) (dp_raw_secret_bytes B d) e"

text \<open>\<open>to_sec1_point(false).x().unwrap()\<close>: the identity point would have no \<open>x\<close>.\<close>

fun rc_export_publickey_bytes ::
    "('b rc_extender, 'f, 'psk, 'aff, 'ppk, 'xsk, 'xpk, 'err) curve_libraries
     \<Rightarrow> ('b, 'ba, 'bv, 'bk, 'bp, 'bs) dh_provider \<Rightarrow> ('ppk, 'xpk, 'bp) rc_dh_public \<Rightarrow> 'b rc_extender
     \<Rightarrow> (bytes \<times> 'b rc_extender) option" where
  "rc_export_publickey_bytes L B (RcPublicP256 p) e = do { x \<leftarrow> p256_sec1_x L p; Some (x, e) }"
| "rc_export_publickey_bytes L B (RcPublicX25519 p) e = Some (x25519_public_as_bytes L p, e)"
| "rc_export_publickey_bytes L B (RcPublicDirect d) e = on_base (\<lambda>r. r) (dp_export_publickey_bytes B d) e"

fun rc_import_publickey_bytes ::
    "('b rc_extender, 'f, 'psk, 'aff, 'ppk, 'xsk, 'xpk, 'err) curve_libraries
     \<Rightarrow> ('b, 'ba, 'bv, 'bk, 'bp, 'bs) dh_provider \<Rightarrow> 'ba rc_dh_algorithm \<Rightarrow> bytes \<Rightarrow> 'b rc_extender
     \<Rightarrow> ((import_error + ('ppk, 'xpk, 'bp) rc_dh_public) \<times> 'b rc_extender) option" where
  "rc_import_publickey_bytes L B RcP256 dat e =
     (if length dat \<noteq> 32 then Some (Inl ImportError, e)
      else (case p256_decompress L dat 0 of
          None \<Rightarrow> Some (Inl ImportError, e)
        | Some point \<Rightarrow> (case p256_from_affine L point of
            Inl _ \<Rightarrow> Some (Inl ImportError, e)
          | Inr p \<Rightarrow> Some (Inr (RcPublicP256 p), e))))"
| "rc_import_publickey_bytes L B RcX25519 dat e =
     (if length dat \<noteq> 32 then Some (Inl ImportError, e)
      else Some (Inr (RcPublicX25519 (x25519_public_from L dat)), e))"
| "rc_import_publickey_bytes L B (RcDhDirect d) dat e =
     on_base (map_sum (\<lambda>x. x) RcPublicDirect) (dp_import_publickey_bytes B d dat) e"

definition rc_dh ::
    "('b rc_extender, 'f, 'psk, 'aff, 'ppk, 'xsk, 'xpk, 'err) curve_libraries \<Rightarrow> ('b, 'f) try_rng
     \<Rightarrow> ('b, 'ba, 'bv, 'bk, 'bp, 'bs) dh_provider
     \<Rightarrow> ('b rc_extender, 'ba rc_dh_algorithm, ('psk, 'xsk, 'bv) rc_dh_visible, ('psk, 'xsk, 'bk) rc_dh_secret,
         ('ppk, 'xpk, 'bp) rc_dh_public, 'bs rc_dh_shared) dh_provider" where
  "rc_dh L G B =
     \<lparr> output_length = rc_output_length (output_length B),
       dh_from_cose_ecdh = rc_from_cose_ecdh (dh_from_cose_ecdh B),
       dp_generate_visible = rc_generate_visible L G B,
       dp_into_secret = rc_into_secret (dp_into_secret B),
       dp_export_secretkey_bytes = rc_export_secretkey_bytes L B,
       dp_import_secretkey_bytes = rc_import_secretkey_bytes L B,
       dp_export_publickey_bytes = rc_export_publickey_bytes L B,
       dp_import_publickey_bytes = rc_import_publickey_bytes L B,
       dp_shared_secret = rc_shared_secret L B,
       dp_public_key = rc_public_key L B,
       dp_raw_secret_bytes = rc_raw_secret_bytes B \<rparr>"

end
