(* ===== verification/Rc_Provider.thy ===== *)
theory Rc_Provider
  imports Rc_Dh Rand_Cal Cal_Hkdf
begin

text \<open>
  The RustCrypto back-end as a whole and its properties. With libraries that keep their documentation, its
  hash, HMAC (and HKDF on top of it), AES-CCM and key agreement keep the contracts of the traits over any
  base; without the feature \<open>alloc\<close>, additional data of more than 1024 bytes panics.
\<close>

definition rc_cal where
  "rc_cal H M A alloc K G C =
     \<lparr> cal_dh = rc_dh K G (cal_dh C), cal_aead = rc_aead A alloc (cal_aead C), cal_hash = rc_hash H (cal_hash C),
       cal_hmac = rc_hmac M (cal_hmac C) \<rparr>"

text \<open>\<open>Standalone::standalone()\<close>.\<close>

definition rc_standalone where
  "rc_standalone H M A alloc K G = rc_cal H M A alloc K (wr_try_rng G) (with_rng_cal empty_cal)"

definition rc_standalone_new :: "'r \<Rightarrow> (unit, 'r) with_rng rc_extender" where
  "rc_standalone_new sys = rc_new_extending (new_from_sys sys ())"

section \<open>Delegation and libraries\<close>

interpretation rc_part: device_part rc_base put_base
  by unfold_locales (simp_all add: put_base_def)

interpretation rc_hash_direct: hash_delegation rc_base put_base B "rc_hash H B" RcHashDirect RcStateDirect RcResultDirect
  for H B
  by unfold_locales (simp_all add: rc_hash_def on_base_def fun_eq_iff)

interpretation rc_hmac_direct: hmac_delegation rc_base put_base B "rc_hmac M B" RcHmacDirect RcKeyDirect RcMacDirect RcTagDirect
  for M B
  by unfold_locales (simp_all add: rc_hmac_def on_base_def fun_eq_iff)

interpretation rc_aead_direct: aead_delegation rc_base put_base B "rc_aead A alloc B" RcAeadDirect RcAeadKeyDirect RcAeadTagDirect
  for A alloc B
  by unfold_locales (simp_all add: rc_aead_def on_base_def fun_eq_iff)

interpretation rc_sha256: digest_backend "rc_hash H B" H RcSha256 RcStateSha256 RcResultSha256 32 for H B
  by unfold_locales (simp_all add: rc_hash_def)

text \<open>What the crate \<^verbatim>\<open>hmac\<close> documents: it takes keys of any length, and the tag is the MAC of everything
  that was fed in.\<close>

definition hmac_laws :: "('m, 'e) hmac_library \<Rightarrow> (bytes \<Rightarrow> bytes \<Rightarrow> bytes) \<Rightarrow> bool" where
  "hmac_laws M mac \<longleftrightarrow> (\<forall>key m. length (mac key m) = 32)
     \<and> (\<forall>key. \<exists>h. ml_new_from_slice M key = Inr h \<and> (\<forall>cs. ml_finalize M (foldl (ml_update M) h cs) = mac key (concat cs)))"

definition rc_mac_state :: "('m, 'e) hmac_library \<Rightarrow> ('m, 'bs) rc_hmac_state \<Rightarrow> bytes \<Rightarrow> bytes \<Rightarrow> bool" where
  "rc_mac_state M s key m \<longleftrightarrow> (\<exists>h cs. ml_new_from_slice M key = Inr h \<and> s = RcMacSha256 (foldl (ml_update M) h cs) \<and> concat cs = m)"

lemma rc_hmac_contract:
  fixes B :: "('b, 'ba, 'bk, 'bs, 'br) hmac_provider" and M :: "('m, 'e) hmac_library"
  assumes "hmac_laws M mac"
  shows "hmac_contract (rc_hmac M B) RcHmacSha256 dev
    (\<lambda>k key. \<exists>h. ml_new_from_slice M key = Inr h \<and> k = RcKeySha256 h) (rc_mac_state M) mac n"
proof
  fix d :: "'b rc_extender" and k :: "('m, 'bk) rc_hmac_key" and s :: "('m, 'bs) rc_hmac_state" and key m data :: bytes
  obtain h where h: "ml_new_from_slice M key = Inr h"
    "\<And>cs. ml_finalize M (foldl (ml_update M) h cs) = mac key (concat cs)"
    using assms unfolding hmac_laws_def by blast
  show "length (mac key m) = hmac_len (rc_hmac M B) RcHmacSha256" using assms by (simp add: hmac_laws_def rc_hmac_def)
  show "hmac_len (rc_hmac M B) RcHmacSha256 \<le> hmac_MAX_LEN (rc_hmac M B)" by (simp add: rc_hmac_def rc_MAX_LEN_def)
  assume d: "dev d"
  show "\<exists>k d'. mp_load_from_keydata (rc_hmac M B) RcHmacSha256 key d = Some (k, d') \<and> dev d'
      \<and> (\<exists>h. ml_new_from_slice M key = Inr h \<and> k = RcKeySha256 h)"
    using h(1) d by (simp add: rc_hmac_def)
  show "\<exists>s d'. mp_init (rc_hmac M B) k d = Some (s, d') \<and> dev d' \<and> rc_mac_state M s key []"
    if k: "\<exists>h. ml_new_from_slice M key = Inr h \<and> k = RcKeySha256 h"
  proof -
    obtain h where "ml_new_from_slice M key = Inr h" "k = RcKeySha256 h" using k by blast
    moreover have "\<exists>cs. h = foldl (ml_update M) h cs \<and> concat cs = []" by (rule exI [of _ "[]"]) simp
    ultimately show ?thesis using d by (simp add: rc_hmac_def rc_mac_state_def)
  qed
  assume "rc_mac_state M s key m"
  then obtain cs where s: "s = RcMacSha256 (foldl (ml_update M) h cs)" and m: "concat cs = m"
    using h(1) by (auto simp: rc_mac_state_def)
  show "\<exists>s' d'. mp_update (rc_hmac M B) s data d = Some (s', d') \<and> dev d' \<and> rc_mac_state M s' key (m @ data)"
    using s m h(1) d by (auto simp: rc_hmac_def rc_mac_state_def intro!: exI [of _ "cs @ [data]"])
  show "\<exists>o' d'. mp_finalize (rc_hmac M B) s d = Some (o', d') \<and> dev d' \<and> mp_output (rc_hmac M B) o' = mac key m"
    using s m h(2) d by (simp add: rc_hmac_def)
qed

text \<open>What the crate \<^verbatim>\<open>ccm\<close> documents for one key length.\<close>

definition ccm_laws :: "'e ccm_library \<Rightarrow> ccm_variant \<Rightarrow> nat \<Rightarrow> (bytes \<Rightarrow> bytes \<Rightarrow> nat \<Rightarrow> bool)
    \<Rightarrow> (bytes \<Rightarrow> bytes \<Rightarrow> bytes \<Rightarrow> bytes) \<Rightarrow> (bytes \<Rightarrow> bytes \<Rightarrow> bytes \<Rightarrow> bytes \<Rightarrow> bytes) \<Rightarrow> (bytes \<Rightarrow> bytes \<Rightarrow> bytes) \<Rightarrow> bool" where
  "ccm_laws A v klen fits crypt mac left \<longleftrightarrow>
     (\<forall>key nonce m. crypt key nonce (crypt key nonce m) = m \<and> length (crypt key nonce m) = length m)
   \<and> (\<forall>key nonce a m. length (mac key nonce a m) = 8)
   \<and> (\<forall>key nonce a m. length key = klen \<and> length nonce = 13 \<and> fits nonce a (length m) \<longrightarrow>
        ccm_encrypt A v key nonce a m = (Inr (mac key nonce a m), crypt key nonce m))
   \<and> (\<forall>key nonce a c tag. length key = klen \<and> length nonce = 13 \<and> fits nonce a (length c) \<and> length tag = 8 \<longrightarrow>
        (if tag = mac key nonce a (crypt key nonce c)
         then ccm_decrypt A v key nonce a c tag = (Inr (), crypt key nonce c)
         else \<exists>e. ccm_decrypt A v key nonce a c tag = (Inl e, left c (crypt key nonce c))))"

lemma ccm_open_law:
  assumes "ccm_laws A v klen fits crypt mac left" "length key = klen" "length nonce = 13" "fits nonce a (length c)" "length tag = 8"
  shows "ccm_open_with A v key nonce a c tag =
    Some (if tag = mac key nonce a (crypt key nonce c) then (Inr (), crypt key nonce c)
          else (Inl DecryptionFailed, left c (crypt key nonce c)))"
proof -
  have "if tag = mac key nonce a (crypt key nonce c) then ccm_decrypt A v key nonce a c tag = (Inr (), crypt key nonce c)
      else \<exists>e. ccm_decrypt A v key nonce a c tag = (Inl e, left c (crypt key nonce c))"
    using assms unfolding ccm_laws_def by metis
  then show ?thesis using assms(3,5) by (auto simp: ccm_open_with_def expect_len_def split: if_splits)
qed

lemma ccm_seal_law:
  assumes "ccm_laws A v klen fits crypt mac left" "length key = klen" "length nonce = 13" "fits nonce a (length m)"
  shows "ccm_seal_with A v key nonce a m = Some (mac key nonce a m, crypt key nonce m)"
  using assms by (simp add: ccm_seal_with_def expect_len_def ccm_laws_def)

text \<open>Without \<open>alloc\<close> the contract ends at 1024 bytes of additional data.\<close>

definition collectable :: "bool \<Rightarrow> (bytes \<Rightarrow> bytes \<Rightarrow> nat \<Rightarrow> bool) \<Rightarrow> bytes \<Rightarrow> bytes \<Rightarrow> nat \<Rightarrow> bool" where
  "collectable alloc fits nonce a n \<longleftrightarrow> (alloc \<or> length a \<le> 1024) \<and> fits nonce a n"

definition rc_ready :: "('b \<Rightarrow> bool) \<Rightarrow> 'b rc_extender \<Rightarrow> bool" where
  "rc_ready dev e \<longleftrightarrow> length (aead_buffer e) = 1024 \<and> dev (rc_base e)"

lemma collect_aad_law:
  assumes "rc_ready dev e" "collectable alloc fits nonce (concat aad) n"
  shows "\<exists>e'. collect_aad alloc aad e = Some (concat aad, e') \<and> rc_ready dev e'"
  using collect_aad_ok [of alloc aad e] assms by (auto simp: rc_ready_def collectable_def)

lemma rc_ccm_contract:
  fixes B :: "('b, 'ba, 'bk, 'bt) aead_provider"
  assumes "(alg, v, klen, K) = (RcCcm128, AesCcm16_64_128, 16, RcKeyCcm128)
      \<or> (alg, v, klen, K) = (RcCcm256, AesCcm16_64_256, 32, RcKeyCcm256)"
    and "ccm_laws A v klen fits crypt mac left"
  shows "aead_contract (rc_aead A alloc B) alg (rc_ready dev) (\<lambda>k key. k = K key \<and> length key = klen)
    (collectable alloc fits) crypt mac left"
proof
  fix e :: "'b rc_extender" and k :: "'bk rc_aead_key" and key nonce m c tag a :: bytes and aad :: "bytes list"
  show "crypt key nonce (crypt key nonce m) = m" "length (crypt key nonce m) = length m"
    using assms(2) by (simp_all add: ccm_laws_def)
  show "length (mac key nonce a m) = tag_length (rc_aead A alloc B) alg"
    using assms by (auto simp: ccm_laws_def rc_aead_def)
  assume e: "rc_ready dev e"
  show "\<exists>k e'. ap_load_from_keydata (rc_aead A alloc B) alg key e = Some (k, e') \<and> rc_ready dev e' \<and> k = K key \<and> length key = klen"
    if "length key = key_length (rc_aead A alloc B) alg"
    using that e assms(1) by (auto simp: rc_aead_def expect_len_def)
  assume k: "k = K key \<and> length key = klen" and "length nonce = nonce_length (rc_aead A alloc B) alg"
  then have n: "length nonce = 13" using assms(1) by (auto simp: rc_aead_def)
  have key: "length key = klen" using k by simp
  show "\<exists>t e'. ap_encrypt_in_place (rc_aead A alloc B) k nonce m aad e = Some ((t, crypt key nonce m), e') \<and> rc_ready dev e'
      \<and> ap_tag_bytes (rc_aead A alloc B) t = mac key nonce (concat aad) m" if c: "collectable alloc fits nonce (concat aad) (length m)"
  proof -
    have "fits nonce (concat aad) (length m)" using c by (simp add: collectable_def)
    with collect_aad_law [OF e c] ccm_seal_law [OF assms(2) key n] show ?thesis
      using assms(1) k by (auto simp: rc_aead_def)
  qed
  assume t: "length tag = tag_length (rc_aead A alloc B) alg" and c: "collectable alloc fits nonce (concat aad) (length c)"
  have "length tag = 8" using t assms(1) by (auto simp: rc_aead_def)
  moreover have "fits nonce (concat aad) (length c)" using c by (simp add: collectable_def)
  ultimately have o: "ccm_open_with A v key nonce (concat aad) c tag =
    Some (if tag = mac key nonce (concat aad) (crypt key nonce c) then (Inr (), crypt key nonce c)
          else (Inl DecryptionFailed, left c (crypt key nonce c)))"
    by (intro ccm_open_law [OF assms(2) key n])
  obtain e' where e': "collect_aad alloc aad e = Some (concat aad, e')" "rc_ready dev e'"
    using collect_aad_law [OF e c] by blast
  have "ap_decrypt_in_place (rc_aead A alloc B) k nonce c tag aad e
      = (do { (l, e) \<leftarrow> collect_aad alloc aad e; r \<leftarrow> ccm_open_with A v key nonce l c tag; Some (r, e) })"
    using assms(1) k by (auto simp: rc_aead_def)
  then show "\<exists>e'. ap_decrypt_in_place (rc_aead A alloc B) k nonce c tag aad e =
      Some ((if tag = mac key nonce (concat aad) (crypt key nonce c) then (Inr (), crypt key nonce c)
             else (Inl DecryptionFailed, left c (crypt key nonce c))), e') \<and> rc_ready dev e'"
    using e' o by simp
qed

section \<open>Properties\<close>

text \<open>C35: HKDF over the RustCrypto back-end is RFC 5869 over the MAC of the crate: for inputs of any length and
  outputs of at most 255 blocks it never panics, leaves the extender alone, and fills the output with
  the prefix of \<open>T(1) | T(2) | ...\<close>.\<close>

theorem rustcrypto_hkdf_rfc5869:
  fixes B :: "('b, 'ba, 'bk, 'bs, 'br) hmac_provider"
  assumes "hmac_laws M mac" "length okm \<le> 255 * 32"
  shows "hkdf (rc_hmac M B) RcHmacSha256 salt ikm info okm e
    = Some ((Inr (), okm_spec mac 32 (mac (case salt of None \<Rightarrow> replicate 32 0 | Some s \<Rightarrow> s) ikm) info (length okm)), e)"
proof -
  let ?n = "length ikm + length info + 33 + (case salt of None \<Rightarrow> 0 | Some s \<Rightarrow> length s)"
  note C = rc_hmac_contract [OF assms(1), of B "\<lambda>x. x = e" ?n]
  have l: "hmac_len (rc_hmac M B) RcHmacSha256 = 32" by (simp add: rc_hmac_def)
  have "\<forall>s. salt = Some s \<longrightarrow> length s \<le> ?n" by auto
  from hmac_contract.hkdf_law [OF C refl _ _ this, of ikm info okm, unfolded l] show ?thesis using assms(2) by simp
qed

definition toy_mac :: "bytes \<Rightarrow> bytes \<Rightarrow> bytes" where
  "toy_mac key m = be_bytes 32 (be_val key + 3 * be_val m)"

definition toy_hmac :: "(bytes \<times> bytes, unit) hmac_library" where
  "toy_hmac =
     \<lparr> ml_new_from_slice = (\<lambda>key. Inr (key, [])), ml_update = (\<lambda>(key, m) data. (key, m @ data)),
       ml_finalize = (\<lambda>(key, m). toy_mac key m) \<rparr>"

lemma toy_hmac_laws: "hmac_laws toy_hmac toy_mac"
proof -
  have "foldl (\<lambda>(key, m) data. (key, m @ data)) (key, m) cs = (key, m @ concat cs)" for key m :: bytes and cs
    by (induction cs arbitrary: m) auto
  then show ?thesis by (simp add: hmac_laws_def toy_hmac_def toy_mac_def)
qed

lemma rustcrypto_hkdf_rfc5869_witness:
  "hkdf (rc_hmac toy_hmac empty_hmac) RcHmacSha256 None [11] [1, 2] (replicate 42 0) (rc_new_extending ())
    = Some ((Inr (), okm_spec toy_mac 32 (toy_mac (case (None :: bytes option) of None \<Rightarrow> replicate 32 0 | Some s \<Rightarrow> s) [11]) [1, 2]
        (length (replicate 42 (0 :: u8)))), rc_new_extending ())"
  by (rule rustcrypto_hkdf_rfc5869 [OF toy_hmac_laws]) simp


definition toy_ccm :: "unit ccm_library" where
  "toy_ccm =
     \<lparr> ccm_encrypt = (\<lambda>v key nonce a m. (Inr (be_bytes 8 (length a + length m)), rev m)),
       ccm_decrypt = (\<lambda>v key nonce a c tag. (if tag = be_bytes 8 (length a + length c) then Inr () else Inl (), rev c)) \<rparr>"

lemma toy_ccm_laws:
  "ccm_laws toy_ccm v klen (\<lambda>_ _ _. True) (\<lambda>key nonce m. rev m) (\<lambda>key nonce a m. be_bytes 8 (length a + length m)) (\<lambda>c p. p)"
  by (simp add: ccm_laws_def toy_ccm_def)


text \<open>What the curve crates document: the two sides of an exchange compute the same 32 bytes.\<close>

definition agreement_laws :: "('e, 'f, 'psk, 'aff, 'ppk, 'xsk, 'xpk, 'err) curve_libraries \<Rightarrow> bool" where
  "agreement_laws L \<longleftrightarrow>
     (\<forall>a b. p256_diffie_hellman L a (p256_public_key L b) = p256_diffie_hellman L b (p256_public_key L a))
   \<and> (\<forall>a b. x25519_diffie_hellman L a (x25519_public_of L b) = x25519_diffie_hellman L b (x25519_public_of L a))"

text \<open>Key agreement of the RustCrypto back-end: the crate's self test passes on both of its curves whenever
  the libraries return keys; keys of different curves, or of the back-end and its base, are reported as
  incompatible and never mixed.\<close>

theorem rustcrypto_selftest_passes:
  fixes B :: "('b, 'ba, 'bv, 'bk, 'bp, 'bs) dh_provider"
  assumes "agreement_laws L"
    and "p256_generate_from_rng L (rc_try_rng G) e = Some (a, e1)" "p256_generate_from_rng L (rc_try_rng G) e1 = Some (b, e2)"
    and "x25519_random_from_rng L (rc_try_rng G) e = Some (x, f1)" "x25519_random_from_rng L (rc_try_rng G) f1 = Some (y, f2)"
  shows "test_dh_selftest (rc_dh L G B) RcP256 e = Some ((), e2)
    \<and> test_dh_selftest (rc_dh L G B) RcX25519 e = Some ((), f2)
    \<and> rc_shared_secret L B (RcSecretP256 a) (RcPublicX25519 (x25519_public_of L y)) e = Some (Inl IncompatibleKeys, e)
    \<and> rc_shared_secret L B (RcSecretX25519 x) (RcPublicP256 (p256_public_key L b)) e = Some (Inl IncompatibleKeys, e)
    \<and> rc_shared_secret L B (RcSecretP256 a) (RcPublicDirect p) e = Some (Inl IncompatibleKeys, e)
    \<and> rc_shared_secret L B (RcSecretDirect k) (RcPublicX25519 (x25519_public_of L y)) e = Some (Inl IncompatibleKeys, e)"
proof -
  have "p256_diffie_hellman L a (p256_public_key L b) = p256_diffie_hellman L b (p256_public_key L a)"
    "x25519_diffie_hellman L x (x25519_public_of L y) = x25519_diffie_hellman L y (x25519_public_of L x)"
    using assms(1) unfolding agreement_laws_def by blast+
  with assms(2-) show ?thesis by (simp add: test_dh_selftest_def dh_generate_def rc_dh_def)
qed

text \<open>Libraries to run the witness with: numbers as keys, the product as the shared secret.\<close>

definition toy_curves :: "(nat rc_extender, unit, nat, nat, nat, nat, nat, unit) curve_libraries" where
  "toy_curves =
     \<lparr> p256_generate_from_rng = (\<lambda>G e. do { (bs, e) \<leftarrow> fill_bytes_infallible G 32 e; Some (be_val bs, e) }),
       p256_from_bytes = (\<lambda>b. Inr (be_val b)), p256_to_bytes = be_bytes 32, p256_public_key = (\<lambda>k. k),
       p256_diffie_hellman = (\<lambda>k p. be_bytes 32 (k * p)), p256_decompress = (\<lambda>x y. Some (be_val x)),
       p256_from_affine = Inr, p256_sec1_x = (\<lambda>p. Some (be_bytes 32 p)),
       x25519_random_from_rng = (\<lambda>G e. do { (bs, e) \<leftarrow> fill_bytes_infallible G 32 e; Some (be_val bs, e) }),
       x25519_secret_from = be_val, x25519_secret_to_bytes = be_bytes 32, x25519_public_of = (\<lambda>k. k),
       x25519_diffie_hellman = (\<lambda>k p. be_bytes 32 (k * p)), x25519_public_from = be_val,
       x25519_public_as_bytes = be_bytes 32 \<rparr>"

definition step_rng :: "(nat, unit) try_rng" where
  "step_rng =
     \<lparr> rng_next_u32 = (\<lambda>n. Some (Inr (of_nat n), n + 1)), rng_next_u64 = (\<lambda>n. Some (Inr (of_nat n), n + 1)),
       rng_fill_bytes = (\<lambda>k n. Some (Inr (be_bytes k n), n + 1)) \<rparr>"

lemma step_draw:
  "fill_bytes_infallible (rc_try_rng step_rng) 32 (e :: nat rc_extender) = Some (be_bytes 32 (rc_base e), put_base (rc_base e + 1) e)"
  by (simp add: fill_bytes_infallible_def rc_try_rng_def on_base_def inside_def step_rng_def)

lemma rustcrypto_selftest_passes_witness:
  "test_dh_selftest (rc_dh toy_curves step_rng empty_dh) RcP256 (rc_new_extending 5) = Some ((), put_base 7 (put_base 6 (rc_new_extending 5)))
    \<and> test_dh_selftest (rc_dh toy_curves step_rng empty_dh) RcX25519 (rc_new_extending 5) = Some ((), put_base 7 (put_base 6 (rc_new_extending 5)))
    \<and> rc_shared_secret toy_curves empty_dh (RcSecretP256 5) (RcPublicX25519 (x25519_public_of toy_curves 6)) (rc_new_extending 5)
        = Some (Inl IncompatibleKeys, rc_new_extending 5)
    \<and> rc_shared_secret toy_curves empty_dh (RcSecretX25519 5) (RcPublicP256 (p256_public_key toy_curves 6)) (rc_new_extending 5)
        = Some (Inl IncompatibleKeys, rc_new_extending 5)
    \<and> rc_shared_secret toy_curves empty_dh (RcSecretP256 5) (RcPublicDirect Uninhabited) (rc_new_extending 5)
        = Some (Inl IncompatibleKeys, rc_new_extending 5)
    \<and> rc_shared_secret toy_curves empty_dh (RcSecretDirect Uninhabited) (RcPublicX25519 (x25519_public_of toy_curves 6)) (rc_new_extending 5)
        = Some (Inl IncompatibleKeys, rc_new_extending 5)"
proof -
  have v: "be_val (be_bytes 32 5) = 5" "be_val (be_bytes 32 6) = 6" by (simp_all add: be_val_be_bytes)
  have g: "p256_generate_from_rng toy_curves (rc_try_rng step_rng) e = Some (be_val (be_bytes 32 (rc_base e)), put_base (rc_base e + 1) e)"
    "x25519_random_from_rng toy_curves (rc_try_rng step_rng) e = Some (be_val (be_bytes 32 (rc_base e)), put_base (rc_base e + 1) e)" for e
    by (simp_all add: toy_curves_def step_draw)
  show ?thesis
    by (rule rustcrypto_selftest_passes [where ?e1.0 = "put_base 6 (rc_new_extending 5)" and ?f1.0 = "put_base 6 (rc_new_extending 5)"
          and b = 6 and x = 5])
      (simp_all only: g, simp_all add: v rc_new_extending_def put_base_def agreement_laws_def toy_curves_def mult.commute)
qed

end
