(* ===== verification/Cross_Device.thy ===== *)
theory Cross_Device
  imports Nrf_Provider Nrf_Dh Stm_Ccm Stm_Pka Rc_Provider
begin

text \<open>
  Back-ends against each other. The point of the traits is that the same client code runs over any
  back-end, and that the peers of a protocol need not run the same one. Here a message sealed on one
  back-end is opened on another, and a key agreement is carried out between two different devices. What
  the back-ends have in common is the mathematics: the same block cipher, the same curve.
\<close>

section \<open>Sealing on one back-end and opening on another\<close>

lemma aead_interop:
  assumes A: "aead_contract P a dev ky fits crypt mac left" and B: "aead_contract Q b dev' ky' fits' crypt mac left'"
    and "dev d" "dev' d'" "length key = key_length P a" "length nonce = nonce_length P a" "fits nonce (concat aad) (length m)"
    and "length key = key_length Q b" "length nonce = nonce_length Q b" "fits' nonce (concat aad') (length m)" "concat aad' = concat aad"
  shows "\<exists>e e'. aead_seal P a key nonce m aad d = Some ((mac key nonce (concat aad) m, crypt key nonce m), e) \<and> dev e
    \<and> aead_open Q b key nonce (crypt key nonce m) (mac key nonce (concat aad) m) aad' d' = Some ((Inr (), m), e') \<and> dev' e'"
proof -
  obtain e where e: "aead_seal P a key nonce m aad d = Some ((mac key nonce (concat aad) m, crypt key nonce m), e)" "dev e"
    using aead_contract.seal_law [OF A assms(3,5,6,7)] by blast
  have "fits' nonce (concat aad') (length (crypt key nonce m))" using assms(10) by (simp add: aead_contract.crypt_length [OF A])
  from aead_contract.open_law [OF B assms(4,8,9) aead_contract.mac_length [OF B, of key nonce "concat aad" m] this]
  obtain e' where "aead_open Q b key nonce (crypt key nonce m) (mac key nonce (concat aad) m) aad' d' = Some ((Inr (), m), e')" "dev' e'"
    using assms(11) by (auto simp: aead_contract.crypt_involution [OF A])
  with e show ?thesis by blast
qed

text \<open>The software back-end as a peer: its library computes RFC 3610 under the cipher \<open>E\<close>.\<close>

definition rc_ccm_of :: "(bytes \<Rightarrow> bytes \<Rightarrow> bytes) \<Rightarrow> 'e ccm_library \<Rightarrow> bool" where
  "rc_ccm_of E A \<longleftrightarrow>
     ccm_laws A AesCcm16_64_128 16 (\<lambda>_ _ n. n < 0x10000) (\<lambda>key. ccm_crypt (E key)) (\<lambda>key nonce a m. ccm_tag (E key) nonce a m 8) (\<lambda>c p. p)"


text \<open>A library and a peripheral that compute the cipher of the simulated engine.\<close>

definition spec_ccm :: "(bytes \<Rightarrow> bytes \<Rightarrow> bytes) \<Rightarrow> unit ccm_library" where
  "spec_ccm E =
     \<lparr> ccm_encrypt = (\<lambda>v key nonce a m. (Inr (ccm_tag (E key) nonce a m 8), ccm_crypt (E key) nonce m)),
       ccm_decrypt = (\<lambda>v key nonce a c tag.
         let p = ccm_crypt (E key) nonce c in (if tag = ccm_tag (E key) nonce a p 8 then Inr () else Inl (), p)) \<rparr>"

interpretation sim_aes_toy: stm_ccm "sim_aes toy_cipher" "\<lambda>_. True" fst snd toy_cipher
proof
  fix d :: sim_aes_state
  show "\<exists>b d'. aes_r_ccf (sim_aes toy_cipher) d = (b, d') \<and> True \<and> fst d' = fst d \<and> (av_ccf (fst d) \<longrightarrow> b \<or> snd d' < snd d)"
    using slow_flag_law [of av_ccf d] by (simp add: sim_aes_def)
  show "\<exists>b d'. aes_r_keyvalid (sim_aes toy_cipher) d = (b, d') \<and> True \<and> fst d' = fst d \<and> (b \<or> snd d' < snd d)"
    using slow_flag_law [of "\<lambda>_. True" d] by (simp add: sim_aes_def)
qed (simp_all add: sim_aes_def length_toy_cipher split_beta)

lemma spec_ccm_laws:
  assumes "\<And>k b. length (E k b) = 16"
  shows "rc_ccm_of E (spec_ccm E)"
proof -
  have "length (ccm_tag (E key) nonce a m 8) = 8" for key nonce a m
    by (simp add: ccm_tag_def cbc_mac_from length_cbc_from assms)
  then show ?thesis
    by (simp add: rc_ccm_of_def ccm_laws_def spec_ccm_def Let_def ccm_crypt_crypt [of "E _"] assms)
qed


section \<open>A key agreement between two devices\<close>

text \<open>What a protocol does with the key-agreement trait: announce the public key of a secret in its exported
  form, and agree on a secret with a peer from the bytes it announced. \<open>None\<close> where the protocol would
  stop.\<close>

definition dh_announce :: "('d, 'alg, 'v, 'k, 'p, 'ss) dh_provider \<Rightarrow> 'k \<Rightarrow> 'd \<Rightarrow> (bytes \<times> 'd) option" where
  "dh_announce P k d = do { (p, d) \<leftarrow> dp_public_key P k d; dp_export_publickey_bytes P p d }"

definition dh_agree :: "('d, 'alg, 'v, 'k, 'p, 'ss) dh_provider \<Rightarrow> 'alg \<Rightarrow> 'k \<Rightarrow> bytes \<Rightarrow> 'd \<Rightarrow> (bytes \<times> 'd) option" where
  "dh_agree P alg k peer d = do {
     (r, d) \<leftarrow> dp_import_publickey_bytes P alg peer d;
     p \<leftarrow> (case r of Inl _ \<Rightarrow> None | Inr p \<Rightarrow> Some p);
     (r, d) \<leftarrow> dp_shared_secret P k p d;
     ss \<leftarrow> (case r of Inl _ \<Rightarrow> None | Inr ss \<Rightarrow> Some ss);
     dp_raw_secret_bytes P ss d
   }"

text \<open>What P-256 gives for the scalars in \<open>V\<close>: multiplication commutes on the base point, the \<open>x\<close> coordinate of
  a multiple of the base point is the \<open>x\<close> of a point the recovery finds, and the \<open>x\<close> of a multiple does not
  depend on which of the two points with that \<open>x\<close> was recovered.\<close>

definition compact_group :: "(bytes \<Rightarrow> bytes \<times> bytes \<Rightarrow> bytes \<times> bytes) \<Rightarrow> (bytes \<Rightarrow> bool) \<Rightarrow> bool" where
  "compact_group M V \<longleftrightarrow>
     (\<forall>a b. V a \<and> V b \<longrightarrow> fst (M a (M b (P256_GX_BYTES, P256_GY_BYTES))) = fst (M b (M a (P256_GX_BYTES, P256_GY_BYTES))))
   \<and> (\<forall>a. V a \<longrightarrow> length a = 32 \<and> (\<exists>y. p256_recover_y (fst (M a (P256_GX_BYTES, P256_GY_BYTES))) = Inr y))
   \<and> (\<forall>a b y. V a \<and> V b \<and> p256_recover_y (fst (M b (P256_GX_BYTES, P256_GY_BYTES))) = Inr y \<longrightarrow>
        fst (M a (fst (M b (P256_GX_BYTES, P256_GY_BYTES)), y)) = fst (M a (M b (P256_GX_BYTES, P256_GY_BYTES))))"

lemma compact_group_agree:
  assumes "compact_group M V" "V a" "V b"
  obtains ya yb where "p256_recover_y (fst (M a (P256_GX_BYTES, P256_GY_BYTES))) = Inr ya"
    "p256_recover_y (fst (M b (P256_GX_BYTES, P256_GY_BYTES))) = Inr yb"
    "fst (M a (fst (M b (P256_GX_BYTES, P256_GY_BYTES)), yb)) = fst (M b (fst (M a (P256_GX_BYTES, P256_GY_BYTES)), ya))"
proof -
  obtain ya where ya: "p256_recover_y (fst (M a (P256_GX_BYTES, P256_GY_BYTES))) = Inr ya"
    using assms unfolding compact_group_def by blast
  obtain yb where yb: "p256_recover_y (fst (M b (P256_GX_BYTES, P256_GY_BYTES))) = Inr yb"
    using assms unfolding compact_group_def by blast
  have "fst (M a (fst (M b (P256_GX_BYTES, P256_GY_BYTES)), yb)) = fst (M a (M b (P256_GX_BYTES, P256_GY_BYTES)))"
    using assms yb unfolding compact_group_def by blast
  also have "\<dots> = fst (M b (M a (P256_GX_BYTES, P256_GY_BYTES)))" using assms unfolding compact_group_def by blast
  also have "\<dots> = fst (M b (fst (M a (P256_GX_BYTES, P256_GY_BYTES)), ya))" using assms ya unfolding compact_group_def by metis
  finally show thesis by (rule that [OF ya yb])
qed

lemma recovered_length: "p256_recover_y x = Inr y \<Longrightarrow> length y = 32"
  by (auto simp: p256_recover_y_def Let_def split: if_splits)


text \<open>A scalar whose multiple of the base point has a known \<open>x\<close> on the curve.\<close>

definition meeting_key :: bytes where
  "meeting_key = map2 (-) (be_bytes 32 x_of_y1) P256_GX_BYTES"

lemma meeting_key_x: "toy_mul meeting_key P256_GX_BYTES = be_bytes 32 x_of_y1" "length meeting_key = 32"
  by (rule nth_equalityI) (simp_all add: toy_mul_def meeting_key_def)

lemma toy_compact_group: "compact_group toy_point (\<lambda>k. k = meeting_key)"
  unfolding compact_group_def
  by (auto simp: toy_point_def meeting_key_x recover_y_y1)


end
