(* ===== verification/Test_Drivers.thy ===== *)
theory Test_Drivers
  imports Delegation Cal_Hkdf
begin

text \<open>
  The drivers of the crate \<^verbatim>\<open>embedded-cal-testvectors\<close> for hashes, HMAC, HKDF, AEADs and random numbers,
  with the vectors as a parameter. A driver returns the device state; a failed assertion, an \<open>unwrap\<close> or
  \<open>expect\<close> that fails and a panic of the provider are \<open>None\<close>. Inside the contract locales the drivers are
  proved to decide their vectors: on a provider that keeps its contract a run passes exactly when every
  vector states the right value.
\<close>

definition assert_that :: "bool \<Rightarrow> unit option" where
  "assert_that b = (if b then Some () else None)"

text \<open>\<open>unwrap\<close> and \<open>expect\<close> of a \<open>Result\<close>.\<close>

definition unwrap :: "'e + 'a \<Rightarrow> 'a option" where
  "unwrap r = (case r of Inl _ \<Rightarrow> None | Inr a \<Rightarrow> Some a)"

lemma assert_that_simps [simp]: "assert_that True = Some ()" "assert_that False = None"
  by (simp_all add: assert_that_def)

lemma unwrap_simps [simp]: "unwrap (Inr a) = Some a" "unwrap (Inl e) = None"
  by (simp_all add: unwrap_def)

section \<open>Hashes\<close>

fun test_hash_algorithm :: "('d, 'alg, 's, 'o) hash_provider \<Rightarrow> 'alg \<Rightarrow> (bytes \<times> bytes) list \<Rightarrow> 'd \<Rightarrow> 'd option" where
  "test_hash_algorithm P hash_algorithm [] d = Some d"
| "test_hash_algorithm P hash_algorithm ((tv_data, tv_result) # tvs) d = do {
     (out, d) \<leftarrow> hash_oneshot P hash_algorithm tv_data d;
     _ \<leftarrow> assert_that (hp_output P out = tv_result);
     (hash, d) \<leftarrow> hp_init P hash_algorithm d;
     let mid = length tv_data div 2;
     let postmid = mid + 1;
     if length tv_data < postmid then test_hash_algorithm P hash_algorithm tvs d
     else do {
       a \<leftarrow> slice tv_data 0 mid;
       (hash, d) \<leftarrow> hp_update P hash a d;
       b \<leftarrow> slice tv_data mid postmid;
       (hash, d) \<leftarrow> hp_update P hash b d;
       c \<leftarrow> slice tv_data postmid (length tv_data);
       (hash, d) \<leftarrow> hp_update P hash c d;
       (out, d) \<leftarrow> hp_finalize P hash d;
       _ \<leftarrow> assert_that (hp_output P out = tv_result);
       test_hash_algorithm P hash_algorithm tvs d
     }
   }"

text \<open>The drivers for a named algorithm; the vectors are \<open>SHA256HASHES\<close>, \<open>SHA3_224_HASHES\<close> and so on.\<close>

definition tv_hash_algorithm_sha256 where
  "tv_hash_algorithm_sha256 SHA256HASHES P d = do {
     sha256 \<leftarrow> hash_from_ni_id P 1;
     test_hash_algorithm P sha256 SHA256HASHES d
   }"

definition tv_hash_algorithm_sha3_224 where
  "tv_hash_algorithm_sha3_224 SHA3_224_HASHES P d = do {
     hash_algorithm \<leftarrow> hash_from_ni_id P 9;
     test_hash_algorithm P hash_algorithm SHA3_224_HASHES d
   }"

definition tv_hash_algorithm_sha3_256 where
  "tv_hash_algorithm_sha3_256 SHA3_256_HASHES P d = do {
     hash_algorithm \<leftarrow> hash_from_ni_id P 10;
     test_hash_algorithm P hash_algorithm SHA3_256_HASHES d
   }"

definition tv_hash_algorithm_sha3_384 where
  "tv_hash_algorithm_sha3_384 SHA3_384_HASHES P d = do {
     hash_algorithm \<leftarrow> hash_from_ni_id P 11;
     test_hash_algorithm P hash_algorithm SHA3_384_HASHES d
   }"

definition tv_hash_algorithm_sha3_512 where
  "tv_hash_algorithm_sha3_512 SHA3_512_HASHES P d = do {
     hash_algorithm \<leftarrow> hash_from_ni_id P 12;
     test_hash_algorithm P hash_algorithm SHA3_512_HASHES d
   }"

text \<open>The three slices of a vector the drivers feed.\<close>

lemma thirds:
  assumes "n div 2 + 1 \<le> n" "length m = n"
  shows "slice m 0 (n div 2) = Some (take (n div 2) m)"
    "slice m (n div 2) (n div 2 + 1) = Some (take 1 (drop (n div 2) m))"
    "slice m (n div 2 + 1) n = Some (drop (n div 2 + 1) m)"
    "take (n div 2) m @ take 1 (drop (n div 2) m) @ drop (n div 2 + 1) m = m"
proof -
  show "slice m 0 (n div 2) = Some (take (n div 2) m)"
    "slice m (n div 2) (n div 2 + 1) = Some (take 1 (drop (n div 2) m))"
    "slice m (n div 2 + 1) n = Some (drop (n div 2 + 1) m)"
    using assms by (simp_all add: slice_def take_drop)
  have "take 1 (drop (n div 2) m) @ drop (n div 2 + 1) m = drop (n div 2) m"
    using append_take_drop_id [of 1 "drop (n div 2) m"] by (simp add: add.commute)
  then show "take (n div 2) m @ take 1 (drop (n div 2) m) @ drop (n div 2 + 1) m = m" by simp
qed

lemma third_lengths:
  assumes "length m \<le> k"
  shows "length (take i m) \<le> k" "length (take i m) + length (take 1 (drop i m)) \<le> k"
    "length (take i m @ take 1 (drop i m)) + length (drop (i + 1) m) \<le> k"
  using assms by auto

context hash_contract
begin

lemma thirds_law:
  assumes "dev d" "st s []" "length m \<le> maxlen" "length m div 2 + 1 \<le> length m"
  obtains s1 d1 s2 d2 s3 d3 out d4
  where "hp_update P s (take (length m div 2) m) d = Some (s1, d1)"
    "hp_update P s1 (take 1 (drop (length m div 2) m)) d1 = Some (s2, d2)"
    "hp_update P s2 (drop (length m div 2 + 1) m) d2 = Some (s3, d3)"
    "hp_finalize P s3 d3 = Some (out, d4)" "dev d4" "hp_output P out = digest m"
proof -
  let ?i = "length m div 2"
  note l = third_lengths [OF assms(3), of ?i]
  have "length [] + length (take ?i m) \<le> maxlen" using l(1) by simp
  from update_law [OF assms(1,2) this] obtain s1 d1 where 1: "hp_update P s (take ?i m) d = Some (s1, d1)" "dev d1" "st s1 (take ?i m)" by auto
  obtain s2 d2 where 2: "hp_update P s1 (take 1 (drop ?i m)) d1 = Some (s2, d2)" "dev d2" "st s2 (take ?i m @ take 1 (drop ?i m))"
    using update_law [OF 1(2,3) l(2)] by auto
  obtain s3 d3 where 3: "hp_update P s2 (drop (?i + 1) m) d2 = Some (s3, d3)" "dev d3" "st s3 m"
    using update_law [OF 2(2,3) l(3)] thirds(4) [OF assms(4) refl] by auto
  obtain out d4 where "hp_finalize P s3 d3 = Some (out, d4)" "dev d4" "hp_output P out = digest m"
    using finalize_law [OF 3(2,3)] by blast
  with 1(1) 2(1) 3(1) show thesis by (rule that)
qed

text \<open>The driver passes exactly when every vector states the digest of its message.\<close>

lemma test_hash_algorithm_decides:
  assumes "dev d" "\<forall>(m, r)\<in>set tvs. length m \<le> maxlen"
  shows "if \<forall>(m, r)\<in>set tvs. r = digest m
    then \<exists>d'. test_hash_algorithm P alg tvs d = Some d' \<and> dev d'
    else test_hash_algorithm P alg tvs d = None"
  using assms
proof (induction tvs arbitrary: d)
  case (Cons v tvs)
  obtain m r where v: "v = (m, r)" by (cases v)
  have m: "length m \<le> maxlen" using Cons.prems(2) v by simp
  obtain out d1 where 1: "hash_oneshot P alg m d = Some (out, d1)" "dev d1" "hp_output P out = digest m"
    using oneshot [OF Cons.prems(1) m] by blast
  obtain s d2 where 2: "hp_init P alg d1 = Some (s, d2)" "dev d2" "st s []" using init_law [OF 1(2)] by blast
  have IH: "dev e \<Longrightarrow> if \<forall>(m, r)\<in>set tvs. r = digest m
      then \<exists>d'. test_hash_algorithm P alg tvs e = Some d' \<and> dev d' else test_hash_algorithm P alg tvs e = None" for e
    using Cons.IH Cons.prems(2) by simp
  show ?case
  proof (cases "length m div 2 + 1 \<le> length m")
    case True
    obtain s1 d3 s2 d4 s3 d5 out2 d6 where 3: "hp_update P s (take (length m div 2) m) d2 = Some (s1, d3)"
      "hp_update P s1 (take 1 (drop (length m div 2) m)) d3 = Some (s2, d4)"
      "hp_update P s2 (drop (length m div 2 + 1) m) d4 = Some (s3, d5)"
      "hp_finalize P s3 d5 = Some (out2, d6)" "dev d6" "hp_output P out2 = digest m"
      by (rule thirds_law [OF 2(2,3) m True])
    show ?thesis using 1 2 3 IH [OF 3(5)] True v
      by (cases "r = digest m") (simp_all add: Let_def thirds [OF True refl] del: One_nat_def Suc_eq_plus1)
  next
    case False
    then have "m = []" by (cases m) auto
    then show ?thesis using 1 2 IH [OF 2(2)] v by (cases "r = digest m") (simp_all add: Let_def)
  qed
qed simp

end

section \<open>HMAC\<close>

fun hmac_vectors :: "('d, 'alg, 'k, 's, 'o) hmac_provider \<Rightarrow> 'alg \<Rightarrow> (bytes \<times> bytes \<times> bytes) list \<Rightarrow> 'd \<Rightarrow> 'd option" where
  "hmac_vectors P hmac_sha256 [] d = Some d"
| "hmac_vectors P hmac_sha256 ((tv_key, tv_data, tv_mac) # tvs) d = do {
     (out, d) \<leftarrow> hmac_with_keydata P hmac_sha256 tv_key tv_data d;
     _ \<leftarrow> assert_that (mp_output P out = tv_mac);
     (state, d) \<leftarrow> init_with_keydata P hmac_sha256 tv_key d;
     let mid = length tv_data div 2;
     let postmid = mid + 1;
     (state, d) \<leftarrow> (if length tv_data \<ge> postmid then do {
         a \<leftarrow> slice tv_data 0 mid;
         (state, d) \<leftarrow> mp_update P state a d;
         b \<leftarrow> slice tv_data mid postmid;
         (state, d) \<leftarrow> mp_update P state b d;
         c \<leftarrow> slice tv_data postmid (length tv_data);
         mp_update P state c d
       }
       else mp_update P state tv_data d);
     (out, d) \<leftarrow> mp_finalize P state d;
     _ \<leftarrow> assert_that (mp_output P out = tv_mac);
     hmac_vectors P hmac_sha256 tvs d
   }"

definition tv_hmac_sha256 where
  "tv_hmac_sha256 HMAC_SHA256 P d = do {
     hmac_sha256 \<leftarrow> hmac_from_cose_number P 5;
     hmac_vectors P hmac_sha256 HMAC_SHA256 d
   }"

context hmac_contract
begin

lemma hmac_thirds_law:
  assumes "dev d" "st s key []" "length m \<le> maxlen" "length m div 2 + 1 \<le> length m"
  obtains s1 d1 s2 d2 s3 d3
  where "mp_update P s (take (length m div 2) m) d = Some (s1, d1)"
    "mp_update P s1 (take 1 (drop (length m div 2) m)) d1 = Some (s2, d2)"
    "mp_update P s2 (drop (length m div 2 + 1) m) d2 = Some (s3, d3)" "dev d3" "st s3 key m"
proof -
  let ?i = "length m div 2"
  note l = third_lengths [OF assms(3), of ?i]
  have "length [] + length (take ?i m) \<le> maxlen" using l(1) by simp
  from update_law [OF assms(1,2) this] obtain s1 d1 where 1: "mp_update P s (take ?i m) d = Some (s1, d1)" "dev d1" "st s1 key (take ?i m)" by auto
  obtain s2 d2 where 2: "mp_update P s1 (take 1 (drop ?i m)) d1 = Some (s2, d2)" "dev d2" "st s2 key (take ?i m @ take 1 (drop ?i m))"
    using update_law [OF 1(2,3) l(2)] by auto
  obtain s3 d3 where "mp_update P s2 (drop (?i + 1) m) d2 = Some (s3, d3)" "dev d3" "st s3 key m"
    using update_law [OF 2(2,3) l(3)] thirds(4) [OF assms(4) refl] by auto
  with 1(1) 2(1) show thesis by (rule that)
qed

text \<open>The driver passes exactly when every vector states the code of its message.\<close>

lemma hmac_vectors_decides:
  assumes "dev d" "\<forall>(k, m, r)\<in>set tvs. length k \<le> maxlen \<and> length m \<le> maxlen"
  shows "if \<forall>(k, m, r)\<in>set tvs. r = mac k m
    then \<exists>d'. hmac_vectors P alg tvs d = Some d' \<and> dev d'
    else hmac_vectors P alg tvs d = None"
  using assms
proof (induction tvs arbitrary: d)
  case (Cons v tvs)
  obtain k m r where v: "v = (k, m, r)" by (cases v)
  have l: "length k \<le> maxlen" "length m \<le> maxlen" using Cons.prems(2) v by simp_all
  obtain out d1 where 1: "hmac_with_keydata P alg k m d = Some (out, d1)" "dev d1" "mp_output P out = mac k m"
    using hmac_with_keydata_law [OF Cons.prems(1) l] by blast
  obtain s d2 where 2: "init_with_keydata P alg k d1 = Some (s, d2)" "dev d2" "st s k []"
    using init_with_keydata_law [OF 1(2) l(1)] by blast
  have IH: "dev e \<Longrightarrow> if \<forall>(k, m, r)\<in>set tvs. r = mac k m
      then \<exists>d'. hmac_vectors P alg tvs e = Some d' \<and> dev d' else hmac_vectors P alg tvs e = None" for e
    using Cons.IH Cons.prems(2) by simp
  show ?case
  proof (cases "length m div 2 + 1 \<le> length m")
    case True
    obtain s1 d3 s2 d4 s3 d5 where 3: "mp_update P s (take (length m div 2) m) d2 = Some (s1, d3)"
      "mp_update P s1 (take 1 (drop (length m div 2) m)) d3 = Some (s2, d4)"
      "mp_update P s2 (drop (length m div 2 + 1) m) d4 = Some (s3, d5)" "dev d5" "st s3 k m"
      by (rule hmac_thirds_law [OF 2(2,3) l(2) True])
    obtain out2 d6 where 4: "mp_finalize P s3 d5 = Some (out2, d6)" "dev d6" "mp_output P out2 = mac k m"
      using finalize_law [OF 3(4,5)] by blast
    show ?thesis using 1 2 3 4 IH [OF 4(2)] True v
      by (cases "r = mac k m") (simp_all add: Let_def thirds [OF True refl] del: One_nat_def Suc_eq_plus1)
  next
    case False
    then have nil: "m = []" by (cases m) auto
    have "length [] + length m \<le> maxlen" using l(2) by simp
    from update_law [OF 2(2,3) this] obtain s1 d3 where 3: "mp_update P s m d2 = Some (s1, d3)" "dev d3" "st s1 k m" by auto
    obtain out2 d6 where 4: "mp_finalize P s1 d3 = Some (out2, d6)" "dev d6" "mp_output P out2 = mac k m"
      using finalize_law [OF 3(2,3)] by blast
    show ?thesis using 1 2 3 4 IH [OF 4(2)] nil v by (cases "r = mac k m") (simp_all add: Let_def)
  qed
qed simp

end

section \<open>HKDF\<close>

fun hkdf_vectors :: "('d, 'alg, 'k, 's, 'o) hmac_provider \<Rightarrow> 'alg
    \<Rightarrow> (bytes option \<times> bytes \<times> bytes \<times> bytes \<times> bytes) list \<Rightarrow> 'd \<Rightarrow> 'd option" where
  "hkdf_vectors P alg [] d = Some d"
| "hkdf_vectors P alg ((salt, ikm, info, expected_prk, expected_okm) # tvs) d = do {
     (r, d) \<leftarrow> hkdf_extract P alg salt ikm d;
     prk \<leftarrow> unwrap r;
     _ \<leftarrow> assert_that (mp_output P prk = expected_prk);
     okm \<leftarrow> slice (replicate 82 0) 0 (length expected_okm);
     ((r, okm), d) \<leftarrow> hkdf_expand P alg (mp_output P prk) info okm d;
     _ \<leftarrow> unwrap r;
     _ \<leftarrow> assert_that (okm = expected_okm);
     d \<leftarrow> (if salt \<noteq> None then do {
         okm2 \<leftarrow> slice (replicate 82 0) 0 (length expected_okm);
         ((r, okm2), d) \<leftarrow> hkdf P alg salt ikm info okm2 d;
         _ \<leftarrow> unwrap r;
         _ \<leftarrow> assert_that (okm2 = expected_okm);
         Some d
       }
       else Some d);
     hkdf_vectors P alg tvs d
   }"

definition tv_hkdf_sha256 where
  "tv_hkdf_sha256 HKDF_SHA256 P d = do {
     alg \<leftarrow> hmac_from_cose_number P 5;
     hkdf_vectors P alg HKDF_SHA256 d
   }"

text \<open>The right values of a vector, by RFC 5869 over the code \<open>mac\<close> of \<open>n\<close> bytes.\<close>

fun hkdf_vector_right :: "(bytes \<Rightarrow> bytes \<Rightarrow> bytes) \<Rightarrow> nat \<Rightarrow> bytes option \<times> bytes \<times> bytes \<times> bytes \<times> bytes \<Rightarrow> bool" where
  "hkdf_vector_right mac n (salt, ikm, info, prk, okm) \<longleftrightarrow>
     prk = mac (case salt of None \<Rightarrow> replicate n 0 | Some s \<Rightarrow> s) ikm
     \<and> okm = okm_spec mac n prk info (length okm)"

context hmac_contract
begin

lemma hkdf_vectors_decides:
  assumes "dev d" "0 < hmac_len P alg" "hmac_len P alg \<le> maxlen"
    and "\<forall>(salt, ikm, info, prk, okm)\<in>set tvs. length ikm \<le> maxlen \<and> (\<forall>s. salt = Some s \<longrightarrow> length s \<le> maxlen)
      \<and> hmac_len P alg + length info + 1 \<le> maxlen \<and> length okm \<le> 82"
  shows "if \<forall>v\<in>set tvs. hkdf_vector_right mac (hmac_len P alg) v
    then \<exists>d'. hkdf_vectors P alg tvs d = Some d' \<and> dev d'
    else hkdf_vectors P alg tvs d = None"
  using assms(1,4)
proof (induction tvs arbitrary: d)
  case (Cons v tvs)
  obtain salt ikm info prk okm where v: "v = (salt, ikm, info, prk, okm)" by (cases v)
  let ?n = "hmac_len P alg"
  let ?prk = "mac (case salt of None \<Rightarrow> replicate ?n 0 | Some s \<Rightarrow> s) ikm" and ?buf = "replicate (length okm) (0 :: u8)"
  have l: "length ikm \<le> maxlen" "\<forall>s. salt = Some s \<longrightarrow> length s \<le> maxlen" "?n + length info + 1 \<le> maxlen" "length okm \<le> 82"
    using Cons.prems(2) v by simp_all
  have o: "length ?buf \<le> 255 * ?n" "length ?prk \<le> maxlen" using l(4) assms(2,3) by (simp_all add: mac_length)
  have sl: "slice (replicate 82 0) 0 (length okm) = Some ?buf" using l(4) by (simp add: slice_def)
  have IH: "dev e \<Longrightarrow> if \<forall>v\<in>set tvs. hkdf_vector_right mac ?n v
      then \<exists>d'. hkdf_vectors P alg tvs e = Some d' \<and> dev d' else hkdf_vectors P alg tvs e = None" for e
    using Cons.IH Cons.prems(2) by simp
  obtain out d1 where 1: "hkdf_extract P alg salt ikm d = Some (Inr out, d1)" "dev d1" "mp_output P out = ?prk"
    using hkdf_extract_law [OF Cons.prems(1) l(1,2) assms(3)] by blast
  obtain d2 where 2: "hkdf_expand P alg ?prk info ?buf d1 = Some ((Inr (), okm_spec mac ?n ?prk info (length okm)), d2)" "dev d2"
    using hkdf_expand_law [OF 1(2) assms(2) o(2) l(3) o(1)] by auto
  obtain d3 where 3: "hkdf P alg salt ikm info ?buf d2 = Some ((Inr (), okm_spec mac ?n ?prk info (length okm)), d3)" "dev d3"
    using hkdf_law [OF 2(2) assms(2) l(1,2,3) o(1)] by auto
  show ?case using 1 2 3 IH [OF 2(2)] IH [OF 3(2)] v sl
    by (cases "prk = ?prk"; cases "okm = okm_spec mac ?n ?prk info (length okm)"; cases salt) simp_all
qed simp

end

section \<open>AEADs\<close>

record known_algorithm =
  alg_cose :: int
  ka_tag_length :: nat
  ka_key_length :: nat
  ka_nonce_length :: nat

definition ka_construct :: "known_algorithm \<Rightarrow> ('d, 'alg, 'k, 't) aead_provider \<Rightarrow> 'alg option" where
  "ka_construct self P = aead_from_cose_number P (alg_cose self)"

definition test_properties :: "known_algorithm \<Rightarrow> ('d, 'alg, 'k, 't) aead_provider \<Rightarrow> unit option" where
  "test_properties self P = do {
     alg \<leftarrow> ka_construct self P;
     _ \<leftarrow> assert_that (tag_length P alg = ka_tag_length self);
     _ \<leftarrow> assert_that (key_length P alg = ka_key_length self);
     assert_that (nonce_length P alg = ka_nonce_length self)
   }"

record aead_case =
  ac_alg :: known_algorithm
  ac_key :: bytes
  ac_nonce :: bytes
  ac_aad :: bytes
  ac_plaintext :: bytes
  ac_ciphertext :: bytes
  ac_tag :: bytes

definition test_with_chunker :: "aead_case \<Rightarrow> ('d, 'alg, 'k, 't) aead_provider \<Rightarrow> bytes list \<Rightarrow> 'd \<Rightarrow> 'd option" where
  "test_with_chunker self P aad d = do {
     alg \<leftarrow> ka_construct (ac_alg self) P;
     _ \<leftarrow> assert_that (ka_key_length (ac_alg self) = length (ac_key self));
     _ \<leftarrow> assert_that (ka_tag_length (ac_alg self) = length (ac_tag self));
     _ \<leftarrow> assert_that (ka_nonce_length (ac_alg self) = length (ac_nonce self));
     (key, d) \<leftarrow> ap_load_from_keydata P alg (ac_key self) d;
     buf \<leftarrow> slice (replicate 4096 0) 0 (length (ac_plaintext self));
     buf \<leftarrow> copy_at buf 0 (ac_plaintext self);
     ((produced_tag, buf), d) \<leftarrow> ap_encrypt_in_place P key (ac_nonce self) buf aad d;
     _ \<leftarrow> assert_that (ap_tag_bytes P produced_tag = ac_tag self);
     _ \<leftarrow> assert_that (buf = ac_ciphertext self);
     ((r, buf), d) \<leftarrow> ap_decrypt_in_place P key (ac_nonce self) buf (ac_tag self) aad d;
     _ \<leftarrow> unwrap r;
     _ \<leftarrow> assert_that (buf = ac_plaintext self);
     Some d
   }"

fun test_chunkings :: "aead_case \<Rightarrow> ('d, 'alg, 'k, 't) aead_provider \<Rightarrow> nat list \<Rightarrow> 'd \<Rightarrow> 'd option" where
  "test_chunkings self P [] d = Some d"
| "test_chunkings self P (firstpart # rest) d = do {
     d \<leftarrow> (if length (ac_aad self) > firstpart then do {
         a \<leftarrow> slice (ac_aad self) 0 firstpart;
         b \<leftarrow> slice (ac_aad self) firstpart (length (ac_aad self));
         test_with_chunker self P (aad_of_slices [a, b]) d
       }
       else Some d);
     test_chunkings self P rest d
   }"

definition test_case :: "aead_case \<Rightarrow> ('d, 'alg, 'k, 't) aead_provider \<Rightarrow> 'd \<Rightarrow> 'd option" where
  "test_case self P d = do {
     d \<leftarrow> test_with_chunker self P (aad_of_slice (ac_aad self)) d;
     test_chunkings self P [1, 15, 16, 17] d
   }"

fun test_cases :: "aead_case list \<Rightarrow> ('d, 'alg, 'k, 't) aead_provider \<Rightarrow> 'd \<Rightarrow> 'd option" where
  "test_cases [] P d = Some d"
| "test_cases (c # cs) P d = do { d \<leftarrow> test_case c P d; test_cases cs P d }"

definition AES_CCM_16_64_128_ALG :: known_algorithm where
  "AES_CCM_16_64_128_ALG = \<lparr> alg_cose = 10, ka_tag_length = 8, ka_key_length = 16, ka_nonce_length = 13 \<rparr>"

definition AES_CCM_16_64_256_ALG :: known_algorithm where
  "AES_CCM_16_64_256_ALG = \<lparr> alg_cose = 11, ka_tag_length = 8, ka_key_length = 32, ka_nonce_length = 13 \<rparr>"

definition AES_GCM_128_ALG :: known_algorithm where
  "AES_GCM_128_ALG = \<lparr> alg_cose = 1, ka_tag_length = 16, ka_key_length = 16, ka_nonce_length = 12 \<rparr>"

definition AES_GCM_256_ALG :: known_algorithm where
  "AES_GCM_256_ALG = \<lparr> alg_cose = 3, ka_tag_length = 16, ka_key_length = 32, ka_nonce_length = 12 \<rparr>"

definition test_16_64_128 where
  "test_16_64_128 AES_CCM_16_64_128 P d = do {
     _ \<leftarrow> test_properties AES_CCM_16_64_128_ALG P;
     test_cases AES_CCM_16_64_128 P d
   }"

definition test_16_64_256 where
  "test_16_64_256 AES_CCM_16_64_256 P d = do {
     _ \<leftarrow> test_properties AES_CCM_16_64_256_ALG P;
     test_cases AES_CCM_16_64_256 P d
   }"

definition gcm_test_128 where
  "gcm_test_128 AES_GCM_128 P d = do {
     _ \<leftarrow> test_properties AES_GCM_128_ALG P;
     test_cases AES_GCM_128 P d
   }"

definition gcm_test_256 where
  "gcm_test_256 AES_GCM_256 P d = do {
     _ \<leftarrow> test_properties AES_GCM_256_ALG P;
     test_cases AES_GCM_256 P d
   }"

text \<open>The provider has the algorithm a vector is for, with the lengths the vector expects.\<close>

definition known :: "('d, 'alg, 'k, 't) aead_provider \<Rightarrow> 'alg \<Rightarrow> known_algorithm \<Rightarrow> bool" where
  "known P alg k \<longleftrightarrow> aead_from_cose_number P (alg_cose k) = Some alg \<and> key_length P alg = ka_key_length k
     \<and> tag_length P alg = ka_tag_length k \<and> nonce_length P alg = ka_nonce_length k"

text \<open>The vector states the right values: key and nonce of the expected lengths, and what the AEAD
  \<open>crypt\<close>, \<open>mac\<close> gives for them.\<close>

definition case_right :: "(bytes \<Rightarrow> bytes \<Rightarrow> bytes \<Rightarrow> bytes) \<Rightarrow> (bytes \<Rightarrow> bytes \<Rightarrow> bytes \<Rightarrow> bytes \<Rightarrow> bytes) \<Rightarrow> aead_case \<Rightarrow> bool" where
  "case_right crypt mac c \<longleftrightarrow> length (ac_key c) = ka_key_length (ac_alg c) \<and> length (ac_nonce c) = ka_nonce_length (ac_alg c)
     \<and> ac_ciphertext c = crypt (ac_key c) (ac_nonce c) (ac_plaintext c)
     \<and> ac_tag c = mac (ac_key c) (ac_nonce c) (ac_aad c) (ac_plaintext c)"

lemma test_properties_known: "known P alg k \<Longrightarrow> test_properties k P = Some ()"
  by (simp add: known_def test_properties_def ka_construct_def)

context aead_contract
begin

lemma test_with_chunker_decides:
  assumes "dev d" "known P alg (ac_alg c)" "fits (ac_nonce c) (ac_aad c) (length (ac_plaintext c))" "length (ac_plaintext c) \<le> 4096"
    and "concat aad = ac_aad c"
  shows "if case_right crypt mac c then \<exists>d'. test_with_chunker c P aad d = Some d' \<and> dev d' else test_with_chunker c P aad d = None"
proof (cases "length (ac_key c) = ka_key_length (ac_alg c) \<and> length (ac_nonce c) = ka_nonce_length (ac_alg c)
    \<and> length (ac_tag c) = ka_tag_length (ac_alg c)")
  case True
  let ?m = "ac_plaintext c"
  have l: "length (ac_key c) = key_length P alg" "length (ac_nonce c) = nonce_length P alg" "length (ac_tag c) = tag_length P alg"
    using True assms(2) by (simp_all add: known_def)
  have f: "fits (ac_nonce c) (concat aad) (length ?m)" using assms(3,5) by simp
  obtain k d1 where 1: "ap_load_from_keydata P alg (ac_key c) d = Some (k, d1)" "dev d1" "ky k (ac_key c)"
    using load_law [OF assms(1) l(1)] by blast
  obtain t d2 where 2: "ap_encrypt_in_place P k (ac_nonce c) ?m aad d1 = Some ((t, crypt (ac_key c) (ac_nonce c) ?m), d2)" "dev d2"
      "ap_tag_bytes P t = mac (ac_key c) (ac_nonce c) (ac_aad c) ?m"
    using encrypt_law [OF 1(2,3) l(2) f] assms(5) by auto
  have f': "fits (ac_nonce c) (concat aad) (length (crypt (ac_key c) (ac_nonce c) ?m))" using f by (simp add: crypt_length)
  obtain d3 where 3: "ap_decrypt_in_place P k (ac_nonce c) (crypt (ac_key c) (ac_nonce c) ?m) (ac_tag c) aad d2
      = Some ((if ac_tag c = mac (ac_key c) (ac_nonce c) (ac_aad c) ?m then (Inr (), ?m)
               else (Inl DecryptionFailed, left (crypt (ac_key c) (ac_nonce c) ?m) ?m)), d3)" "dev d3"
    using decrypt_law [OF 2(2) 1(3) l(2,3) f'] assms(5) by (auto simp: crypt_involution)
  have b: "slice (replicate 4096 (0 :: u8)) 0 (length ?m) = Some (replicate (length ?m) 0)" "copy_at (replicate (length ?m) 0) 0 ?m = Some ?m"
    using assms(4) by (simp_all add: slice_def copy_at_def)
  show ?thesis using 1 2 3 b True assms(2)
    by (cases "ac_tag c = mac (ac_key c) (ac_nonce c) (ac_aad c) ?m"; cases "ac_ciphertext c = crypt (ac_key c) (ac_nonce c) ?m")
      (auto simp: test_with_chunker_def ka_construct_def known_def case_right_def)
next
  case False
  then show ?thesis using assms(2) mac_length
    by (auto simp: test_with_chunker_def ka_construct_def known_def case_right_def assert_that_def)
qed

lemma test_chunkings_decides:
  assumes "dev d" "known P alg (ac_alg c)" "fits (ac_nonce c) (ac_aad c) (length (ac_plaintext c))" "length (ac_plaintext c) \<le> 4096"
    and "case_right crypt mac c"
  shows "\<exists>d'. test_chunkings c P ks d = Some d' \<and> dev d'"
  using assms(1)
proof (induction ks arbitrary: d)
  case (Cons k ks)
  show ?case
  proof (cases "length (ac_aad c) > k")
    case True
    have a: "aad_of_slices [take k (ac_aad c), drop k (ac_aad c)] = [take k (ac_aad c), drop k (ac_aad c)]"
      by (simp add: aad_of_slices_def)
    obtain d1 where "test_with_chunker c P [take k (ac_aad c), drop k (ac_aad c)] d = Some d1" "dev d1"
      using test_with_chunker_decides [OF Cons.prems assms(2-4), of "[take k (ac_aad c), drop k (ac_aad c)]"] assms(5) by auto
    with Cons.IH [of d1] True a show ?thesis by (simp add: slice_def)
  next
    case False
    with Cons.IH [OF Cons.prems] show ?thesis by simp
  qed
qed simp

text \<open>The driver for an algorithm passes exactly when every vector is right, whatever the chunkings do.\<close>

lemma test_cases_decides:
  assumes "dev d" "\<forall>c\<in>set cs. known P alg (ac_alg c) \<and> fits (ac_nonce c) (ac_aad c) (length (ac_plaintext c)) \<and> length (ac_plaintext c) \<le> 4096"
  shows "if \<forall>c\<in>set cs. case_right crypt mac c then \<exists>d'. test_cases cs P d = Some d' \<and> dev d' else test_cases cs P d = None"
  using assms
proof (induction cs arbitrary: d)
  case (Cons c cs)
  have c: "known P alg (ac_alg c)" "fits (ac_nonce c) (ac_aad c) (length (ac_plaintext c))" "length (ac_plaintext c) \<le> 4096"
    using Cons.prems(2) by simp_all
  have a: "concat (aad_of_slice (ac_aad c)) = ac_aad c" by (simp add: aad_of_slice_def)
  show ?case
  proof (cases "case_right crypt mac c")
    case True
    obtain d1 where 1: "test_with_chunker c P (aad_of_slice (ac_aad c)) d = Some d1" "dev d1"
      using test_with_chunker_decides [OF Cons.prems(1) c a] True by auto
    obtain d2 where "test_chunkings c P [1, 15, 16, 17] d1 = Some d2" "dev d2"
      using test_chunkings_decides [OF 1(2) c True] by blast
    with 1 True Cons.IH [of d2] Cons.prems(2) show ?thesis by (simp add: test_case_def)
  next
    case False
    then show ?thesis using test_with_chunker_decides [OF Cons.prems(1) c a] by (simp add: test_case_def)
  qed
qed simp

end

section \<open>Random numbers\<close>

definition some_nonzero :: "bytes \<Rightarrow> bool" where
  "some_nonzero buf \<longleftrightarrow> (\<exists>b\<in>set buf. b \<noteq> 0)"

definition tv_rng :: "('d, 'e) try_rng \<Rightarrow> 'd \<Rightarrow> 'd option" where
  "tv_rng G d = do {
     (r, d) \<leftarrow> rng_fill_bytes G 0 d;
     _ \<leftarrow> unwrap r;
     (r, d) \<leftarrow> rng_fill_bytes G 1 d;
     _ \<leftarrow> unwrap r;
     (r, d) \<leftarrow> rng_fill_bytes G 32 d;
     buf \<leftarrow> unwrap r;
     _ \<leftarrow> assert_that (some_nonzero buf);
     (r, d) \<leftarrow> rng_fill_bytes G 32 d;
     buf2 \<leftarrow> unwrap r;
     _ \<leftarrow> assert_that (buf \<noteq> buf2);
     (r, d) \<leftarrow> rng_fill_bytes G 15 d;
     buf3 \<leftarrow> unwrap r;
     _ \<leftarrow> assert_that (some_nonzero buf3);
     (r, d) \<leftarrow> rng_fill_bytes G 128 d;
     large \<leftarrow> unwrap r;
     _ \<leftarrow> assert_that (some_nonzero large);
     (r, d) \<leftarrow> rng_next_u32 G d;
     _ \<leftarrow> unwrap r;
     (r, d) \<leftarrow> rng_next_u64 G d;
     _ \<leftarrow> unwrap r;
     Some d
   }"

text \<open>A source that is stuck at one value fails the check, whatever the value.\<close>

lemma tv_rng_stuck:
  assumes "\<And>n d bs d'. rng_fill_bytes G n d = Some (Inr bs, d') \<Longrightarrow> bs = f n"
  shows "tv_rng G d = None"
  by (auto simp: tv_rng_def unwrap_def assert_that_def dest!: assms split: bind_splits sum.splits if_splits)

end
