(* ===== verification/Driver_Verdicts.thy ===== *)
theory Driver_Verdicts
  imports Test_Drivers Software_Demo Nrf_Provider Cross_Device
begin

text \<open>
  The drivers of \<^verbatim>\<open>embedded-cal-testvectors\<close> run on the back-ends of the repository, as their integration
  tests do: what a passing run says about the vectors, for all vectors.
\<close>

section \<open>Hashing, HMAC and HKDF in the extender with the software plumbing\<close>

text \<open>The SHA-256 driver run on the extender with the software plumbing passes exactly when every vector
  states the FIPS 180-4 digest of its message, both at once and in three pieces, and leaves the base
  device as it was.\<close>

theorem sha256_driver_verdict:
  fixes B :: "('d, 'bs, 'balg, 'bst, 'bo) extender_base"
  assumes "\<forall>(m, r)\<in>set tvs. length m \<le> max_message"
  shows "tv_hash_algorithm_sha256 tvs (extender_hash software_config B) d
    = (if \<forall>(m, r)\<in>set tvs. r = sha256 m then Some d else None)"
proof -
  have "hash_from_ni_id (extender_hash software_config B) 1 = Some ExtSha256"
    by (simp add: extender_hash_def ext_hash_from_ni_id_def software_config_def)
  then show ?thesis using hash_contract.test_hash_algorithm_decides [OF sw_hash.hash_contract_axioms [of B d] refl assms]
    by (auto simp: tv_hash_algorithm_sha256_def split: if_splits)
qed

lemma sha256_length: "length (sha256 m) = 32"
  using hash_contract.digest_length [OF sw_hash.hash_contract_axioms, of m] by (simp add: extender_hash_len)

lemma sha256_driver_verdict_witness:
  "tv_hash_algorithm_sha256 [([], sha256 []), ([1, 2, 3], sha256 [1, 2, 3])] (extender_hash software_config demo_base) () = Some ()
   \<and> tv_hash_algorithm_sha256 [([], sha256 []), ([1, 2, 3], [4])] (extender_hash software_config demo_base) () = None"
proof -
  have "[4 :: u8] \<noteq> sha256 [1, 2, 3]" using sha256_length [of "[1, 2, 3]"] by (metis sha256_length length_Cons list.size(3) num.distinct(1) numeral_eq_one_iff One_nat_def)
  then show ?thesis
    using sha256_driver_verdict [of "[([], sha256 []), ([1, 2, 3], sha256 [1, 2, 3])]" demo_base "()"]
      sha256_driver_verdict [of "[([], sha256 []), ([1, 2, 3], [4])]" demo_base "()"]
    by (simp add: max_message_val)
qed

text \<open>The same for HMAC.\<close>

lemma hmac_driver_verdict:
  fixes B :: "('d, 'bs, 'balg, 'bst, 'bo) extender_base"
  assumes "\<forall>(k, m, r)\<in>set tvs. length k \<le> max_message - 64 \<and> length m \<le> max_message - 64"
  shows "tv_hmac_sha256 tvs (extender_hmac (extender_hash software_config B)) d
    = (if \<forall>(k, m, r)\<in>set tvs. r = hmac_spec sha256 k m then Some d else None)"
proof -
  have "hmac_from_cose_number (extender_hmac (extender_hash software_config B)) 5 = Some HmacSha256"
    by (simp add: extender_hmac_def extender_hash_def ext_hmac_from_cose_number_def ext_hash_from_cose_number_def software_config_def)
  then show ?thesis using hmac_contract.hmac_vectors_decides [OF sw_hmac.hmac_contract_axioms [of B d] refl assms]
    by (auto simp: tv_hmac_sha256_def split: if_splits)
qed

text \<open>The HKDF driver run on the extender with the software plumbing passes exactly when every vector states
  the pseudorandom key and the output of RFC 5869 over HMAC-SHA-256.\<close>

theorem hkdf_driver_verdict:
  fixes B :: "('d, 'bs, 'balg, 'bst, 'bo) extender_base"
  assumes "\<forall>(salt, ikm, info, prk, okm)\<in>set tvs. length ikm \<le> max_message - 64
      \<and> (\<forall>s. salt = Some s \<longrightarrow> length s \<le> max_message - 64) \<and> 32 + length info + 1 \<le> max_message - 64 \<and> length okm \<le> 82"
  shows "tv_hkdf_sha256 tvs (extender_hmac (extender_hash software_config B)) d
    = (if \<forall>v\<in>set tvs. hkdf_vector_right (hmac_spec sha256) 32 v then Some d else None)"
proof -
  have l: "hmac_len (extender_hmac (extender_hash software_config B)) HmacSha256 = 32"
    by (simp add: extender_hmac_def)
  have "hmac_from_cose_number (extender_hmac (extender_hash software_config B)) 5 = Some HmacSha256"
    by (simp add: extender_hmac_def extender_hash_def ext_hmac_from_cose_number_def ext_hash_from_cose_number_def software_config_def)
  moreover have "32 \<le> max_message - 64" by (simp add: max_message_def usize_limit_def)
  ultimately show ?thesis using hmac_contract.hkdf_vectors_decides [OF sw_hmac.hmac_contract_axioms [of B d] refl, of tvs] assms unfolding l
    by (auto simp: tv_hkdf_sha256_def split: if_splits)
qed

lemma hkdf_driver_verdict_witness:
  "tv_hkdf_sha256 [(None, [1], [2], hmac_spec sha256 (replicate 32 0) [1], [])]
     (extender_hmac (extender_hash software_config demo_base)) () = Some ()"
  using hkdf_driver_verdict [of "[(None, [1], [2], hmac_spec sha256 (replicate 32 0) [1], [])]" demo_base "()"]
  by (simp add: max_message_val okm_spec_def)

section \<open>AES-CCM on the hardware back-ends\<close>

text \<open>The additional data and the plain text of a vector fit a back-end's buffers.\<close>

definition vector_of :: "known_algorithm \<Rightarrow> (bytes \<Rightarrow> bytes \<Rightarrow> nat \<Rightarrow> bool) \<Rightarrow> aead_case \<Rightarrow> bool" where
  "vector_of k fits c \<longleftrightarrow> ac_alg c = k \<and> fits (ac_nonce c) (ac_aad c) (length (ac_plaintext c)) \<and> length (ac_plaintext c) \<le> 4096"

lemma aead_driver_decides:
  assumes "aead_contract P alg dev ky fits crypt mac left" "known P alg k" "dev d" "\<forall>c\<in>set cs. vector_of k fits c"
  shows "(\<exists>d'. do { _ \<leftarrow> test_properties k P; test_cases cs P d } = Some d') \<longleftrightarrow> (\<forall>c\<in>set cs. case_right crypt mac c)"
proof -
  have "\<forall>c\<in>set cs. known P alg (ac_alg c) \<and> fits (ac_nonce c) (ac_aad c) (length (ac_plaintext c)) \<and> length (ac_plaintext c) \<le> 4096"
    using assms(2,4) by (simp add: vector_of_def)
  from aead_contract.test_cases_decides [OF assms(1,3) this] test_properties_known [OF assms(2)]
  show ?thesis by (auto split: if_splits)
qed

lemma hardware_knows_ccm:
  "known (nrf_aead hw at_in at_out) NrfCcm16_64_128 AES_CCM_16_64_128_ALG"
  "known (nrf_aead hw at_in at_out) NrfCcm16_64_256 AES_CCM_16_64_256_ALG"
  "known (stm_aead hw') StmCcm16_64_128 AES_CCM_16_64_128_ALG"
  "known (stm_aead hw') StmCcm16_64_256 AES_CCM_16_64_256_ALG"
  by (simp_all add: known_def nrf_aead_def stm_aead_def AES_CCM_16_64_128_ALG_def AES_CCM_16_64_256_ALG_def
      nrf_aead_from_cose_number_def nrf_tag_length_def nrf_nonce_length_def
      stm_aead_from_cose_number_def stm_tag_length_def stm_nonce_length_def)


text \<open>A vector computed with the toy cipher.\<close>

definition toy_vector :: aead_case where
  "toy_vector =
     \<lparr> ac_alg = AES_CCM_16_64_128_ALG, ac_key = replicate 16 1, ac_nonce = replicate 13 2, ac_aad = [5, 6], ac_plaintext = [3, 4],
       ac_ciphertext = ccm_crypt (toy_cipher (replicate 16 1)) (replicate 13 2) [3, 4],
       ac_tag = ccm_tag (toy_cipher (replicate 16 1)) (replicate 13 2) [5, 6] [3, 4] 8 \<rparr>"

lemma toy_vector_right:
  "case_right (\<lambda>k. ccm_crypt (toy_cipher k)) (\<lambda>k n a m. ccm_tag (toy_cipher k) n a m 8) toy_vector"
  by (simp add: case_right_def toy_vector_def AES_CCM_16_64_128_ALG_def)


end
