(* ===== verification/Cal_Dh.thy ===== *)
theory Cal_Dh
  imports Test_Drivers
begin

text \<open>
  The contract of a key-agreement provider (\<^verbatim>\<open>embedded-cal/src/dh.rs\<close>) for one algorithm, and the vector test
  of \<^verbatim>\<open>embedded-cal-testvectors/src/dh/mod.rs\<close> that relies on it. A back-end interprets the contract over the
  curve operation of its engine or library.
\<close>

text \<open>\<open>secret b\<close> says that the bytes \<open>b\<close> are imported as a secret key, \<open>canon b\<close> is what that key exports as (the
  back-ends may clamp), \<open>sk v b\<close> that the visible key \<open>v\<close> exports as \<open>b\<close>. \<open>own p b\<close> says that \<open>p\<close> is the public key
  computed from the secret \<open>b\<close>, and \<open>pub b\<close> is its exported form; \<open>published c\<close> says that the exported form \<open>c\<close>
  is imported. \<open>share a b\<close> is the secret that the owner of \<open>a\<close> shares with the owner of \<open>b\<close>.\<close>

locale dh_contract =
  fixes P :: "('d, 'alg, 'v, 'k, 'p, 'ss) dh_provider" and alg :: 'alg and dev :: "'d \<Rightarrow> bool"
    and secret :: "bytes \<Rightarrow> bool" and canon :: "bytes \<Rightarrow> bytes" and sk :: "'v \<Rightarrow> bytes \<Rightarrow> bool"
    and own :: "'p \<Rightarrow> bytes \<Rightarrow> bool" and pub :: "bytes \<Rightarrow> bytes" and published :: "bytes \<Rightarrow> bool"
    and share :: "bytes \<Rightarrow> bytes \<Rightarrow> bytes"
  assumes import_secret_law: "dev d \<Longrightarrow> secret b \<Longrightarrow>
      \<exists>v d'. dp_import_secretkey_bytes P alg b d = Some (Inr v, d') \<and> dev d' \<and> sk v (canon b)"
    and export_secret_law: "dev d \<Longrightarrow> sk v b \<Longrightarrow> \<exists>d'. dp_export_secretkey_bytes P v d = Some (b, d') \<and> dev d'"
    and canon_law: "secret b \<Longrightarrow> secret (canon b) \<and> canon (canon b) = canon b"
    and public_law: "dev d \<Longrightarrow> sk v b \<Longrightarrow>
      \<exists>p d'. dp_public_key P (dp_into_secret P v) d = Some (p, d') \<and> dev d' \<and> own p b"
    and export_public_law: "dev d \<Longrightarrow> own p b \<Longrightarrow> \<exists>d'. dp_export_publickey_bytes P p d = Some (pub b, d') \<and> dev d'"
    and import_public_law: "dev d \<Longrightarrow> published c \<Longrightarrow>
      \<exists>p d'. dp_import_publickey_bytes P alg c d = Some (Inr p, d') \<and> dev d'
        \<and> (\<exists>d''. dp_export_publickey_bytes P p d' = Some (c, d'') \<and> dev d'')"
    and shared_law: "dev d \<Longrightarrow> sk v a \<Longrightarrow> own p b \<Longrightarrow>
      \<exists>s d'. dp_shared_secret P (dp_into_secret P v) p d = Some (Inr s, d') \<and> dev d'
        \<and> (\<exists>d''. dp_raw_secret_bytes P s d' = Some (share a b, d'') \<and> dev d'')"

section \<open>The vectors\<close>

record ecc_vector =
  ecdh_curve :: int
  alice_private :: bytes
  alice_public :: bytes
  bob_private :: bytes
  bob_public :: bytes
  shared_secret :: bytes

definition test_key_import_export :: "ecc_vector \<Rightarrow> string \<Rightarrow> ('d, 'alg, 'v, 'k, 'p, 'ss) dh_provider \<Rightarrow> 'd
    \<Rightarrow> (('k \<times> 'p) \<times> 'd) option" where
  "test_key_import_export self name P d = do {
     alg \<leftarrow> dh_from_cose_ecdh P (ecdh_curve self);
     (private_bytes, public_bytes) \<leftarrow>
       (if name = ''Alice'' then Some (alice_private self, alice_public self)
        else if name = ''Bob'' then Some (bob_private self, bob_public self) else None);
     (r, d) \<leftarrow> dp_import_secretkey_bytes P alg private_bytes d;
     private_visible \<leftarrow> unwrap r;
     (exported, d) \<leftarrow> dp_export_secretkey_bytes P private_visible d;
     (r, d) \<leftarrow> dp_import_secretkey_bytes P alg exported d;
     reimported \<leftarrow> unwrap r;
     (again, d) \<leftarrow> dp_export_secretkey_bytes P reimported d;
     _ \<leftarrow> assert_that (again = exported);
     let private = dp_into_secret P private_visible;
     (public, d) \<leftarrow> dp_public_key P private d;
     (b, d) \<leftarrow> dp_export_publickey_bytes P public d;
     _ \<leftarrow> assert_that (b = public_bytes);
     (r, d) \<leftarrow> dp_import_publickey_bytes P alg public_bytes d;
     public_imported \<leftarrow> unwrap r;
     (b, d) \<leftarrow> dp_export_publickey_bytes P public_imported d;
     _ \<leftarrow> assert_that (b = public_bytes);
     Some ((private, public), d)
   }"

definition ecc_test_with :: "ecc_vector \<Rightarrow> ('d, 'alg, 'v, 'k, 'p, 'ss) dh_provider \<Rightarrow> 'd \<Rightarrow> 'd option" where
  "ecc_test_with self P d = do {
     ((alice_private, alice_public), d) \<leftarrow> test_key_import_export self ''Alice'' P d;
     ((bob_private, bob_public), d) \<leftarrow> test_key_import_export self ''Bob'' P d;
     (r, d) \<leftarrow> dp_shared_secret P alice_private bob_public d;
     shared_ab \<leftarrow> unwrap r;
     (b, d) \<leftarrow> dp_raw_secret_bytes P shared_ab d;
     _ \<leftarrow> assert_that (b = shared_secret self);
     (r, d) \<leftarrow> dp_shared_secret P bob_private alice_public d;
     shared_ba \<leftarrow> unwrap r;
     (b, d) \<leftarrow> dp_raw_secret_bytes P shared_ba d;
     _ \<leftarrow> assert_that (b = shared_secret self);
     Some d
   }"

text \<open>What a right vector states: the two public keys and the shared secret, from both sides.\<close>

definition ecc_right :: "(bytes \<Rightarrow> bytes) \<Rightarrow> (bytes \<Rightarrow> bytes) \<Rightarrow> (bytes \<Rightarrow> bytes \<Rightarrow> bytes) \<Rightarrow> ecc_vector \<Rightarrow> bool" where
  "ecc_right canon pub share v \<longleftrightarrow> alice_public v = pub (canon (alice_private v)) \<and> bob_public v = pub (canon (bob_private v))
     \<and> shared_secret v = share (canon (alice_private v)) (canon (bob_private v))
     \<and> shared_secret v = share (canon (bob_private v)) (canon (alice_private v))"

context dh_contract
begin

text \<open>One party's half of the test: it passes exactly when the public key of the vector is the one of the
  secret.\<close>

lemma key_half:
  assumes "dev d" "secret a" "published c" "dh_from_cose_ecdh P (ecdh_curve self) = Some alg"
    and "name = ''Alice'' \<and> a = alice_private self \<and> c = alice_public self
      \<or> name = ''Bob'' \<and> a = bob_private self \<and> c = bob_public self"
  shows "if c = pub (canon a)
    then \<exists>v p d'. test_key_import_export self name P d = Some ((dp_into_secret P v, p), d') \<and> dev d' \<and> sk v (canon a) \<and> own p (canon a)
    else test_key_import_export self name P d = None"
proof -
  have n: "(if name = ''Alice'' then Some (alice_private self, alice_public self)
      else if name = ''Bob'' then Some (bob_private self, bob_public self) else None) = Some (a, c)"
    using assms(5) by auto
  obtain v d1 where 1: "dp_import_secretkey_bytes P alg a d = Some (Inr v, d1)" "dev d1" "sk v (canon a)"
    using import_secret_law [OF assms(1,2)] by blast
  obtain d2 where 2: "dp_export_secretkey_bytes P v d1 = Some (canon a, d2)" "dev d2"
    using export_secret_law [OF 1(2,3)] by blast
  have c: "secret (canon a)" "canon (canon a) = canon a" using canon_law [OF assms(2)] by simp_all
  obtain w d3 where 3: "dp_import_secretkey_bytes P alg (canon a) d2 = Some (Inr w, d3)" "dev d3" "sk w (canon a)"
    using import_secret_law [OF 2(2) c(1)] c(2) by auto
  obtain d4 where 4: "dp_export_secretkey_bytes P w d3 = Some (canon a, d4)" "dev d4"
    using export_secret_law [OF 3(2,3)] by blast
  obtain p d5 where 5: "dp_public_key P (dp_into_secret P v) d4 = Some (p, d5)" "dev d5" "own p (canon a)"
    using public_law [OF 4(2) 1(3)] by blast
  obtain d6 where 6: "dp_export_publickey_bytes P p d5 = Some (pub (canon a), d6)" "dev d6"
    using export_public_law [OF 5(2,3)] by blast
  obtain q d7 d8 where 7: "dp_import_publickey_bytes P alg c d6 = Some (Inr q, d7)" "dp_export_publickey_bytes P q d7 = Some (c, d8)" "dev d8"
    using import_public_law [OF 6(2) assms(3)] by blast
  show ?thesis unfolding test_key_import_export_def n
    using 1 2 3 4 5 6 7 assms(4) by (auto simp: assert_that_def)
qed

text \<open>The whole test passes exactly when the vector is right.\<close>

lemma ecc_test_with_decides:
  assumes "dev d" "dh_from_cose_ecdh P (ecdh_curve v) = Some alg"
    and "secret (alice_private v)" "secret (bob_private v)" "published (alice_public v)" "published (bob_public v)"
  shows "if ecc_right canon pub share v then \<exists>d'. ecc_test_with v P d = Some d' \<and> dev d' else ecc_test_with v P d = None"
proof (cases "alice_public v = pub (canon (alice_private v)) \<and> bob_public v = pub (canon (bob_private v))")
  case True
  have A: "dev e \<Longrightarrow> \<exists>k p d'. test_key_import_export v ''Alice'' P e = Some ((dp_into_secret P k, p), d') \<and> dev d'
      \<and> sk k (canon (alice_private v)) \<and> own p (canon (alice_private v))" for e
    using key_half [OF _ assms(3,5,2), of e "''Alice''"] True by simp
  have B: "dev e \<Longrightarrow> \<exists>k p d'. test_key_import_export v ''Bob'' P e = Some ((dp_into_secret P k, p), d') \<and> dev d'
      \<and> sk k (canon (bob_private v)) \<and> own p (canon (bob_private v))" for e
    using key_half [OF _ assms(4,6,2), of e "''Bob''"] True by simp
  obtain k p d1 where 1: "test_key_import_export v ''Alice'' P d = Some ((dp_into_secret P k, p), d1)" "dev d1"
      "sk k (canon (alice_private v))" "own p (canon (alice_private v))" using A [OF assms(1)] by blast
  obtain l q d2 where 2: "test_key_import_export v ''Bob'' P d1 = Some ((dp_into_secret P l, q), d2)" "dev d2"
      "sk l (canon (bob_private v))" "own q (canon (bob_private v))" using B [OF 1(2)] by blast
  obtain s d3 d4 where 3: "dp_shared_secret P (dp_into_secret P k) q d2 = Some (Inr s, d3)"
      "dp_raw_secret_bytes P s d3 = Some (share (canon (alice_private v)) (canon (bob_private v)), d4)" "dev d4"
    using shared_law [OF 2(2) 1(3) 2(4)] by blast
  obtain t d5 d6 where 4: "dp_shared_secret P (dp_into_secret P l) p d4 = Some (Inr t, d5)"
      "dp_raw_secret_bytes P t d5 = Some (share (canon (bob_private v)) (canon (alice_private v)), d6)" "dev d6"
    using shared_law [OF 3(3) 2(3) 1(4)] by blast
  show ?thesis using 1(1) 2(1) 3 4 True by (auto simp: ecc_test_with_def ecc_right_def assert_that_def)
next
  case False
  show ?thesis
  proof (cases "alice_public v = pub (canon (alice_private v))")
    case True
    with False have b: "bob_public v \<noteq> pub (canon (bob_private v))" by simp
    obtain k p d1 where 1: "test_key_import_export v ''Alice'' P d = Some ((dp_into_secret P k, p), d1)" "dev d1"
      using key_half [OF assms(1,3,5,2), of "''Alice''"] True by auto
    have "test_key_import_export v ''Bob'' P d1 = None"
      using key_half [OF 1(2) assms(4,6,2), of "''Bob''"] b by simp
    with 1 b show ?thesis by (simp add: ecc_test_with_def ecc_right_def)
  next
    case False
    then have "test_key_import_export v ''Alice'' P d = None"
      using key_half [OF assms(1,3,5,2), of "''Alice''"] by simp
    with False show ?thesis by (simp add: ecc_test_with_def ecc_right_def)
  qed
qed

end

end
