(* ===== verification/Dh_Contracts.thy ===== *)
theory Dh_Contracts
  imports Cal_Dh Nrf_Dh Stm_Pka Lc_Provider
begin

text \<open>
  The key-agreement contract on the back-ends: the three algorithms of the nRF54L15, and P-256 on the
  STM32WBA55 and in libcrux. The curve operation is the engine's or the library's. The vector tests of the
  repository's integration tests follow from the contract.
\<close>

section \<open>nRF54L15\<close>

text \<open>The key the back-end builds from canonical bytes, and the values of the operations on such keys.\<close>

fun nrf_canon :: "nrf_dh_algorithm \<Rightarrow> bytes \<Rightarrow> bytes" where
  "nrf_canon NrfEcdhP256 b = b"
| "nrf_canon NrfX25519 b = clamp_x25519 b"
| "nrf_canon NrfX448 b = clamp_x448 b"

fun nrf_key :: "nrf_dh_algorithm \<Rightarrow> bytes \<Rightarrow> nrf_secret_key" where
  "nrf_key NrfEcdhP256 b = SkEcdhP256 (scalar_from b)"
| "nrf_key NrfX25519 b = SkX25519 (scalar_from b)"
| "nrf_key NrfX448 b = SkX448 (scalar_from b)"

definition nrf_canonical :: "nrf_dh_algorithm \<Rightarrow> bytes \<Rightarrow> bool" where
  "nrf_canonical alg b \<longleftrightarrow> length b = nrf_dh_output_length alg \<and> nrf_canon alg b = b"

definition nrf_published :: "nrf_dh_algorithm \<Rightarrow> bytes \<Rightarrow> bool" where
  "nrf_published alg c \<longleftrightarrow> length c = nrf_dh_output_length alg
     \<and> (case alg of NrfEcdhP256 \<Rightarrow> \<exists>y. p256_recover_y c = Inr y | NrfX25519 \<Rightarrow> mask_u_x25519 c = c | NrfX448 \<Rightarrow> True)"

fun x_multiple :: "(bytes \<Rightarrow> bytes \<times> bytes \<Rightarrow> bytes \<times> bytes) \<Rightarrow> (bytes \<Rightarrow> bytes \<Rightarrow> bytes) \<Rightarrow> (bytes \<Rightarrow> bytes \<Rightarrow> bytes)
    \<Rightarrow> nrf_dh_algorithm \<Rightarrow> bytes \<Rightarrow> bytes" where
  "x_multiple M X Y NrfEcdhP256 b = fst (M b (P256_GX_BYTES, P256_GY_BYTES))"
| "x_multiple M X Y NrfX25519 b = X b x25519_base"
| "x_multiple M X Y NrfX448 b = Y b x448_base"

fun x_shared :: "(bytes \<Rightarrow> bytes \<times> bytes \<Rightarrow> bytes \<times> bytes) \<Rightarrow> (bytes \<Rightarrow> bytes \<Rightarrow> bytes) \<Rightarrow> (bytes \<Rightarrow> bytes \<Rightarrow> bytes)
    \<Rightarrow> nrf_dh_algorithm \<Rightarrow> bytes \<Rightarrow> bytes \<Rightarrow> bytes" where
  "x_shared M X Y NrfEcdhP256 a b = fst (M a (M b (P256_GX_BYTES, P256_GY_BYTES)))"
| "x_shared M X Y NrfX25519 a b = X a (X b x25519_base)"
| "x_shared M X Y NrfX448 a b = Y a (Y b x448_base)"

lemma length_nrf_canon [simp]: "length (nrf_canon alg b) = length b"
  by (cases alg) simp_all

lemma nrf_canon_canonical: "length b = nrf_dh_output_length alg \<Longrightarrow> nrf_canonical alg (nrf_canon alg b)"
  by (cases alg) (simp_all add: nrf_canonical_def clamps_idem)

lemma nrf_key_canonical: "nrf_canonical alg b \<Longrightarrow> nrf_key_inv (nrf_key alg b) \<and> secret_alg (nrf_key alg b) = alg"
  by (cases alg) (auto simp: nrf_canonical_def)

lemma nrf_import_key: "length b = nrf_dh_output_length alg \<Longrightarrow>
    nrf_import_secretkey_bytes alg b d = Some (Inr (VisibleSecretKey (nrf_key alg (nrf_canon alg b))), d)"
  by (cases alg) (simp_all add: nrf_import_secretkey_bytes_def try_array_def)

lemma nrf_export_key: "length b = nrf_dh_output_length alg \<Longrightarrow>
    nrf_export_secretkey_bytes (VisibleSecretKey (nrf_key alg b)) d = Some (b, d)"
  by (cases alg) simp_all

lemma nrf_import_published:
  assumes "nrf_published alg c"
  shows "\<exists>p. nrf_import_publickey_bytes hw alg c d = Some (Inr p, d) \<and> nrf_export_publickey_bytes hw p d = Some (c, d)"
  using assms by (cases alg)
    (auto simp: nrf_published_def nrf_import_publickey_bytes_def try_array_def nrf_ec_def nrf_ec_primitives_def
      nrf_point_new_def nrf_export_publickey_bytes_def from_x_coordinate_def nrf_export_scalar_bytes_def slice_def copy_at_def
      scalar_from_def NRF_MAX_SCALAR_LENGTH_def shared_as_ref_def)

lemma nrf_export_point: "length x = SCALAR_SIZE C \<Longrightarrow>
    do { (s, d) \<leftarrow> from_x_coordinate (nrf_ec_primitives hw C) (SCALAR_SIZE C) \<lparr> pt_x = scalar_from x, pt_y = y \<rparr> d;
         b \<leftarrow> shared_as_ref s; Some (b, d) } = Some (x, d)"
proof -
  assume x: "length x = SCALAR_SIZE C"
  have "SCALAR_SIZE C \<le> 56" by (cases C) simp_all
  then show ?thesis by (simp add: from_x_coordinate_eq [OF x] shared_as_ref_eq [OF x])
qed

context cracen_pke
begin

lemma nrf_multiple_length:
  assumes "length b = nrf_dh_output_length alg"
  shows "length (x_multiple mul_p256 mul_x25519 mul_x448 alg b) = nrf_dh_output_length alg"
proof (cases alg)
  case NrfEcdhP256
  then show ?thesis using mul_p256_length [of b P256_GX_BYTES P256_GY_BYTES] assms
    by (cases "mul_p256 b (P256_GX_BYTES, P256_GY_BYTES)") simp
qed (use assms mul_x25519_length [of b x25519_base] mul_x448_length [of b x448_base] in simp_all)

lemma nrf_own_export:
  assumes "nrf_canonical alg b"
  shows "nrf_export_publickey_bytes hw (dh_public mul_p256 mul_x25519 mul_x448 (nrf_key alg b)) d
    = Some (x_multiple mul_p256 mul_x25519 mul_x448 alg b, d)"
proof -
  have l: "length b = nrf_dh_output_length alg" using assms by (simp add: nrf_canonical_def)
  note m = nrf_multiple_length [OF l]
  show ?thesis
  proof (cases alg)
    case NrfEcdhP256
    with m have "length (fst (mul_p256 b (P256_GX_BYTES, P256_GY_BYTES))) = SCALAR_SIZE CurveP256" by simp
    from nrf_export_point [OF this, of hw _ d] NrfEcdhP256 l show ?thesis
      by (simp add: nrf_export_publickey_bytes_def nrf_ec_def split_beta)
  next
    case NrfX25519
    with m have "length (mul_x25519 b x25519_base) = SCALAR_SIZE CurveX25519" by simp
    from nrf_export_point [OF this, of hw _ d] NrfX25519 l show ?thesis
      by (simp add: nrf_export_publickey_bytes_def nrf_ec_def)
  next
    case NrfX448
    with m have "length (mul_x448 b x448_base) = SCALAR_SIZE CurveX448" by simp
    from nrf_export_point [OF this, of hw _ d] NrfX448 l show ?thesis
      by (simp add: nrf_export_publickey_bytes_def nrf_ec_def)
  qed
qed

lemma nrf_shared_value:
  assumes "nrf_canonical alg a" "nrf_canonical alg b"
  shows "dh_value mul_p256 mul_x25519 mul_x448 (nrf_key alg a) (dh_public mul_p256 mul_x25519 mul_x448 (nrf_key alg b))
    = x_shared mul_p256 mul_x25519 mul_x448 alg a b"
proof -
  have l: "length a = nrf_dh_output_length alg" "length b = nrf_dh_output_length alg"
    using assms by (simp_all add: nrf_canonical_def)
  show ?thesis
  proof (cases alg)
    case NrfEcdhP256
    obtain x y where m: "mul_p256 b (P256_GX_BYTES, P256_GY_BYTES) = (x, y)" by (cases "mul_p256 b (P256_GX_BYTES, P256_GY_BYTES)")
    then have "length x = 32" "length y = 32" using mul_p256_length [of b P256_GX_BYTES P256_GY_BYTES] l NrfEcdhP256 by simp_all
    then show ?thesis using NrfEcdhP256 l m by simp
  next
    case NrfX25519
    then show ?thesis using l mul_x25519_length [of b x25519_base] by simp
  next
    case NrfX448
    then show ?thesis using l mul_x448_length [of b x448_base] by simp
  qed
qed

end

sublocale cracen_pke \<subseteq> nrf_agreement: dh_contract "nrf_dh rng hw" alg dev "\<lambda>b. length b = nrf_dh_output_length alg" "nrf_canon alg"
    "\<lambda>v b. v = VisibleSecretKey (nrf_key alg b) \<and> nrf_canonical alg b"
    "\<lambda>p b. p = dh_public mul_p256 mul_x25519 mul_x448 (nrf_key alg b) \<and> nrf_canonical alg b"
    "x_multiple mul_p256 mul_x25519 mul_x448 alg" "nrf_published alg" "x_shared mul_p256 mul_x25519 mul_x448 alg"
  for rng alg
proof
  fix d and v :: nrf_visible_key and p :: nrf_public_key and a b c :: bytes
  let ?P = "nrf_dh rng hw" and ?pub = "dh_public mul_p256 mul_x25519 mul_x448"
  show "length (nrf_canon alg b) = nrf_dh_output_length alg \<and> nrf_canon alg (nrf_canon alg b) = nrf_canon alg b"
    if "length b = nrf_dh_output_length alg"
    using nrf_canon_canonical [OF that] that by (simp add: nrf_canonical_def)
  assume d: "dev d"
  show "\<exists>v d'. dp_import_secretkey_bytes ?P alg b d = Some (Inr v, d') \<and> dev d'
      \<and> v = VisibleSecretKey (nrf_key alg (nrf_canon alg b)) \<and> nrf_canonical alg (nrf_canon alg b)"
    if "length b = nrf_dh_output_length alg"
    using nrf_import_key [OF that, of d] nrf_canon_canonical [OF that] d by (simp add: nrf_dh_def)
  show "\<exists>d'. dp_export_secretkey_bytes ?P v d = Some (b, d') \<and> dev d'"
    if "v = VisibleSecretKey (nrf_key alg b) \<and> nrf_canonical alg b"
    using that nrf_export_key [of b alg d] d by (simp add: nrf_dh_def nrf_canonical_def)
  show "\<exists>p d'. dp_public_key ?P (dp_into_secret ?P v) d = Some (p, d') \<and> dev d'
      \<and> p = ?pub (nrf_key alg b) \<and> nrf_canonical alg b"
    if "v = VisibleSecretKey (nrf_key alg b) \<and> nrf_canonical alg b"
    using that nrf_public_law [OF d, of "nrf_key alg b"] nrf_key_canonical [of alg b] by (auto simp: nrf_dh_def)
  show "\<exists>d'. dp_export_publickey_bytes ?P p d = Some (x_multiple mul_p256 mul_x25519 mul_x448 alg b, d') \<and> dev d'"
    if "p = ?pub (nrf_key alg b) \<and> nrf_canonical alg b"
    using that nrf_own_export [of alg b d] d by (simp add: nrf_dh_def)
  show "\<exists>p d'. dp_import_publickey_bytes ?P alg c d = Some (Inr p, d') \<and> dev d'
      \<and> (\<exists>d''. dp_export_publickey_bytes ?P p d' = Some (c, d'') \<and> dev d'')"
    if "nrf_published alg c"
    using nrf_import_published [OF that, of hw d] d by (auto simp: nrf_dh_def)
  show "\<exists>s d'. dp_shared_secret ?P (dp_into_secret ?P v) p d = Some (Inr s, d') \<and> dev d'
      \<and> (\<exists>d''. dp_raw_secret_bytes ?P s d' = Some (x_shared mul_p256 mul_x25519 mul_x448 alg a b, d'') \<and> dev d'')"
    if v: "v = VisibleSecretKey (nrf_key alg a) \<and> nrf_canonical alg a" and p: "p = ?pub (nrf_key alg b) \<and> nrf_canonical alg b"
  proof -
    have k: "nrf_key_inv (nrf_key alg a)" "secret_alg (nrf_key alg a) = alg" "nrf_key_inv (nrf_key alg b)" "secret_alg (nrf_key alg b) = alg"
      using nrf_key_canonical v p by simp_all
    obtain e where "nrf_public_inv (?pub (nrf_key alg b))" using nrf_public_law [OF d k(3)] by blast
    from nrf_shared_law [OF d k(1) this] k(2,4) nrf_shared_value [of alg a b] v p show ?thesis by (auto simp: nrf_dh_def)
  qed
qed

section \<open>STM32WBA55\<close>

sublocale stm_ecc \<subseteq> stm_agreement: dh_contract "stm_dh debug rng hw" StmEcdhP256 dev "\<lambda>b. length b = 32" "\<lambda>b. b"
    "\<lambda>v b. v = StmVisibleKey \<lparr> sk_alg = StmEcdhP256, sk_scalar = b \<rparr> \<and> length b = 32"
    "\<lambda>p b. (pk_x p, pk_y p) = M b (P256_GX_BYTES, P256_GY_BYTES) \<and> length b = 32 \<and> length (pk_x p) = 32 \<and> length (pk_y p) = 32"
    "\<lambda>b. fst (M b (P256_GX_BYTES, P256_GY_BYTES))" "\<lambda>c. length c = 32 \<and> (\<exists>y. p256_recover_y c = Inr y)"
    "\<lambda>a b. fst (M a (M b (P256_GX_BYTES, P256_GY_BYTES)))"
  for debug rng
proof
  fix d and v :: stm_visible_key and p :: stm_public_key and a b c :: bytes
  let ?P = "stm_dh debug rng hw" and ?G = "(P256_GX_BYTES, P256_GY_BYTES)"
  assume d: "dev d"
  show "\<exists>v d'. dp_import_secretkey_bytes ?P StmEcdhP256 b d = Some (Inr v, d') \<and> dev d'
      \<and> v = StmVisibleKey \<lparr> sk_alg = StmEcdhP256, sk_scalar = b \<rparr> \<and> length b = 32" if "length b = 32"
    using that d by (simp add: stm_dh_def stm_import_secretkey_bytes_def try_array_def)
  show "\<exists>d'. dp_export_secretkey_bytes ?P v d = Some (b, d') \<and> dev d'"
    if "v = StmVisibleKey \<lparr> sk_alg = StmEcdhP256, sk_scalar = b \<rparr> \<and> length b = 32"
    using that d by (simp add: stm_dh_def)
  show "\<exists>p d'. dp_public_key ?P (dp_into_secret ?P v) d = Some (p, d') \<and> dev d'
      \<and> (pk_x p, pk_y p) = M b ?G \<and> length b = 32 \<and> length (pk_x p) = 32 \<and> length (pk_y p) = 32"
    if "v = StmVisibleKey \<lparr> sk_alg = StmEcdhP256, sk_scalar = b \<rparr> \<and> length b = 32"
    using that stm_public_law [OF d, of "\<lparr> sk_alg = StmEcdhP256, sk_scalar = b \<rparr>" debug] by (auto simp: stm_dh_def)
  show "\<exists>d'. dp_export_publickey_bytes ?P p d = Some (fst (M b ?G), d') \<and> dev d'"
    if "(pk_x p, pk_y p) = M b ?G \<and> length b = 32 \<and> length (pk_x p) = 32 \<and> length (pk_y p) = 32"
    using that d by (auto simp: stm_dh_def stm_export_publickey_bytes_def dest: arg_cong [of _ _ fst])
  show "\<exists>p d'. dp_import_publickey_bytes ?P StmEcdhP256 c d = Some (Inr p, d') \<and> dev d'
      \<and> (\<exists>d''. dp_export_publickey_bytes ?P p d' = Some (c, d'') \<and> dev d'')"
    if "length c = 32 \<and> (\<exists>y. p256_recover_y c = Inr y)"
    using that d by (auto simp: stm_dh_def stm_import_publickey_bytes_def try_array_def stm_export_publickey_bytes_def)
  show "\<exists>s d'. dp_shared_secret ?P (dp_into_secret ?P v) p d = Some (Inr s, d') \<and> dev d'
      \<and> (\<exists>d''. dp_raw_secret_bytes ?P s d' = Some (fst (M a (M b ?G)), d'') \<and> dev d'')"
    if v: "v = StmVisibleKey \<lparr> sk_alg = StmEcdhP256, sk_scalar = a \<rparr> \<and> length a = 32"
      and p: "(pk_x p, pk_y p) = M b ?G \<and> length b = 32 \<and> length (pk_x p) = 32 \<and> length (pk_y p) = 32"
    using stm_shared_law [OF d, of "\<lparr> sk_alg = StmEcdhP256, sk_scalar = a \<rparr>" p debug] v p by (auto simp: stm_dh_def)
qed simp

section \<open>libcrux\<close>

lemma lc_agreement:
  assumes "p256_laws L valid pub dh"
  shows "dh_contract (lc_dh L G B) LcP256 (\<lambda>x. x = d) valid (\<lambda>b. b)
    (\<lambda>v b. v = VisibleP256 b \<and> valid b) (\<lambda>p b. p = PublicP256 (pub b) \<and> valid b)
    (\<lambda>b. take 32 (pub b)) (\<lambda>c. \<exists>b. valid b \<and> c = take 32 (pub b)) dh"
proof
  note S = p256_laws_simps [OF assms]
  fix x v p and a b c :: bytes
  let ?P = "lc_dh L G B"
  have e: "lc_export_publickey_bytes B (PublicP256 q) x = Some (take 32 q, x)" if "length q = 64" for q
    using that by (simp add: public_x_def slice_def)
  show "valid b \<and> b = b" if "valid b" using that by simp
  assume x: "x = d"
  show "\<exists>v d'. dp_import_secretkey_bytes ?P LcP256 b x = Some (Inr v, d') \<and> d' = d \<and> v = VisibleP256 b \<and> valid b" if "valid b"
    using that S(2,4,5) x by (simp add: lc_dh_def)
  show "\<exists>d'. dp_export_secretkey_bytes ?P v x = Some (b, d') \<and> d' = d" if "v = VisibleP256 b \<and> valid b"
    using that x by (simp add: lc_dh_def)
  show "\<exists>p d'. dp_public_key ?P (dp_into_secret ?P v) x = Some (p, d') \<and> d' = d \<and> p = PublicP256 (pub b) \<and> valid b"
    if "v = VisibleP256 b \<and> valid b"
    using that S(6) x by (simp add: lc_dh_def)
  show "\<exists>d'. dp_export_publickey_bytes ?P p x = Some (take 32 (pub b), d') \<and> d' = d" if "p = PublicP256 (pub b) \<and> valid b"
    using that e S(7) x by (simp add: lc_dh_def)
  show "\<exists>p d'. dp_import_publickey_bytes ?P LcP256 c x = Some (Inr p, d') \<and> d' = d
      \<and> (\<exists>d''. dp_export_publickey_bytes ?P p d' = Some (c, d'') \<and> d'' = d)" if c: "\<exists>b. valid b \<and> c = take 32 (pub b)"
  proof -
    obtain b where b: "valid b" "c = take 32 (pub b)" using c by blast
    obtain p where "lc_import_publickey_bytes L B LcP256 (take 32 (pub b)) x = Some (Inr (PublicP256 p), x)" "take 32 p = take 32 (pub b)"
      using import_public_law [OF assms b(1), of B x] by blast
    moreover from this(2) have "length (take 32 p) = 32" using S(7) [OF b(1)] by simp
    then have "32 \<le> length p" by (simp add: min_def split: if_splits)
    ultimately show ?thesis using b(2) x by (simp add: lc_dh_def public_x_def slice_def)
  qed
  show "\<exists>s d'. dp_shared_secret ?P (dp_into_secret ?P v) p x = Some (Inr s, d') \<and> d' = d
      \<and> (\<exists>d''. dp_raw_secret_bytes ?P s d' = Some (dh a b, d'') \<and> d'' = d)"
    if "v = VisibleP256 a \<and> valid a" "p = PublicP256 (pub b) \<and> valid b"
    using that shared_law [OF assms, of a b B x] x by (simp add: lc_dh_def)
qed

interpretation toy_lc: dh_contract "lc_dh toy_p256 G B" LcP256 "\<lambda>x. x = d" toy_valid "\<lambda>b. b"
    "\<lambda>v b. v = VisibleP256 b \<and> toy_valid b" "\<lambda>p b. p = PublicP256 (b @ replicate 32 0) \<and> toy_valid b"
    "\<lambda>b. take 32 (b @ replicate 32 0)" "\<lambda>c. \<exists>b. toy_valid b \<and> c = take 32 (b @ replicate 32 0)" toy_dh
  for G B d
  by (rule lc_agreement [OF toy_p256_laws])

section \<open>The vector tests on the back-ends\<close>

context cracen_pke
begin

lemma nrf_vectors:
  assumes "dev d" "nrf_dh_from_cose_ecdh (ecdh_curve v) = Some alg"
    and "length (alice_private v) = nrf_dh_output_length alg" "length (bob_private v) = nrf_dh_output_length alg"
    and "nrf_published alg (alice_public v)" "nrf_published alg (bob_public v)"
  shows "(\<exists>d'. ecc_test_with v (nrf_dh rng hw) d = Some d')
    \<longleftrightarrow> ecc_right (nrf_canon alg) (x_multiple mul_p256 mul_x25519 mul_x448 alg) (x_shared mul_p256 mul_x25519 mul_x448 alg) v"
proof -
  have "dh_from_cose_ecdh (nrf_dh rng hw) (ecdh_curve v) = Some alg" using assms(2) by (simp add: nrf_dh_def)
  from nrf_agreement.ecc_test_with_decides [OF assms(1) this assms(3-6)] show ?thesis by (auto split: if_splits)
qed

end

context stm_ecc
begin

lemma stm_vectors:
  assumes "dev d" "ecdh_curve v = 1" "length (alice_private v) = 32" "length (bob_private v) = 32"
    and "length (alice_public v) = 32 \<and> (\<exists>y. p256_recover_y (alice_public v) = Inr y)"
      "length (bob_public v) = 32 \<and> (\<exists>y. p256_recover_y (bob_public v) = Inr y)"
  shows "(\<exists>d'. ecc_test_with v (stm_dh debug rng hw) d = Some d')
    \<longleftrightarrow> ecc_right (\<lambda>b. b) (\<lambda>b. fst (M b (P256_GX_BYTES, P256_GY_BYTES))) (\<lambda>a b. fst (M a (M b (P256_GX_BYTES, P256_GY_BYTES)))) v"
proof -
  have "dh_from_cose_ecdh (stm_dh debug rng hw) (ecdh_curve v) = Some StmEcdhP256"
    using assms(2) by (simp add: stm_dh_def stm_dh_from_cose_ecdh_def)
  from stm_agreement.ecc_test_with_decides [OF assms(1) this assms(3-6)] show ?thesis by (auto split: if_splits)
qed

end

text \<open>C20: The key-agreement vector test decides its vectors on the hardware back-ends: on an engine behaving as
  documented, with secrets of the right length and public keys that can be imported, the test passes on the
  nRF54L15, for each of its three curves, exactly when the vector states the public key of either (clamped)
  secret and the shared secret from both sides; and a P-256 vector passes on the STM32WBA55 exactly when it
  passes on the nRF54L15, if their engines compute the same multiplication.\<close>

theorem ecc_vector_verdicts:
  assumes "cracen_pke hw dev ram cmd ptrs err polls M X Y" "stm_ecc hw' dev' ram' failed delay M" "dev d" "dev' e"
    and "nrf_dh_from_cose_ecdh (ecdh_curve v) = Some alg"
    and "length (alice_private v) = nrf_dh_output_length alg" "length (bob_private v) = nrf_dh_output_length alg"
    and "nrf_published alg (alice_public v)" "nrf_published alg (bob_public v)"
  shows "((\<exists>d'. ecc_test_with v (nrf_dh rng hw) d = Some d')
        \<longleftrightarrow> ecc_right (nrf_canon alg) (x_multiple M X Y alg) (x_shared M X Y alg) v)
    \<and> (ecdh_curve v = 1 \<longrightarrow>
        ((\<exists>e'. ecc_test_with v (stm_dh debug rng' hw') e = Some e') \<longleftrightarrow> (\<exists>d'. ecc_test_with v (nrf_dh rng hw) d = Some d')))"
proof (intro conjI impI)
  note N = cracen_pke.nrf_vectors [OF assms(1,3,5-9), of rng]
  show "(\<exists>d'. ecc_test_with v (nrf_dh rng hw) d = Some d')
    \<longleftrightarrow> ecc_right (nrf_canon alg) (x_multiple M X Y alg) (x_shared M X Y alg) v"
    by (rule N)
  assume c: "ecdh_curve v = 1"
  then have a: "alg = NrfEcdhP256" using assms(5) by (simp add: nrf_dh_from_cose_ecdh_def)
  have p: "length (alice_private v) = 32" "length (bob_private v) = 32"
    "length (alice_public v) = 32 \<and> (\<exists>y. p256_recover_y (alice_public v) = Inr y)"
    "length (bob_public v) = 32 \<and> (\<exists>y. p256_recover_y (bob_public v) = Inr y)"
    using assms(6-9) a by (simp_all add: nrf_published_def)
  show "(\<exists>e'. ecc_test_with v (stm_dh debug rng' hw') e = Some e') \<longleftrightarrow> (\<exists>d'. ecc_test_with v (nrf_dh rng hw) d = Some d')"
    unfolding N stm_ecc.stm_vectors [OF assms(2,4) c p] a by (simp add: ecc_right_def)
qed

text \<open>An X448 vector over the toy engine.\<close>

definition toy_x448_public :: "u8 \<Rightarrow> bytes" where
  "toy_x448_public k = toy_mul (clamp_x448 (replicate 56 k)) x448_base"

definition toy_ecc_vector :: ecc_vector where
  "toy_ecc_vector =
     \<lparr> ecdh_curve = 5, alice_private = replicate 56 1, alice_public = toy_x448_public 1,
       bob_private = replicate 56 2, bob_public = toy_x448_public 2,
       shared_secret = toy_mul (clamp_x448 (replicate 56 1)) (toy_x448_public 2) \<rparr>"

lemma ecc_vector_verdicts_witness:
  "(\<exists>d'. ecc_test_with toy_ecc_vector (nrf_dh const_rng sim_pke) sim_pke_start = Some d')
   \<and> \<not> (\<exists>d'. ecc_test_with (toy_ecc_vector \<lparr> shared_secret := [] \<rparr>) (nrf_dh const_rng sim_pke) sim_pke_start = Some d')"
proof -
  have l: "length (toy_x448_public k) = 56" for k
    by (simp add: toy_x448_public_def toy_mul_def)
  let ?M = "\<lambda>k (x, y). (toy_mul k x, toy_mul k y)"
  note V = ecc_vector_verdicts [OF sim_pke.cracen_pke_axioms sim_pka.stm_ecc_axioms [unfolded toy_point_def] TrueI TrueI, where alg = NrfX448 and rng = const_rng]
  have c: "toy_mul (clamp_x448 (replicate 56 1)) (toy_x448_public 2) = toy_mul (clamp_x448 (replicate 56 2)) (toy_x448_public 1)"
    using toy_commutes by (simp add: dh_commutes_def toy_x448_public_def)
  have r: "ecc_right (nrf_canon NrfX448) (x_multiple ?M toy_mul toy_mul NrfX448) (x_shared ?M toy_mul toy_mul NrfX448) toy_ecc_vector"
    using c by (simp add: ecc_right_def toy_ecc_vector_def toy_x448_public_def)
  have "toy_mul (clamp_x448 (replicate 56 1)) (toy_x448_public 2) \<noteq> []"
  proof -
    have "length (toy_mul (clamp_x448 (replicate 56 1)) (toy_x448_public 2)) = 56" using l [of 2] by (simp add: toy_mul_def)
    then show ?thesis by force
  qed
  then have w: "\<not> ecc_right (nrf_canon NrfX448) (x_multiple ?M toy_mul toy_mul NrfX448) (x_shared ?M toy_mul toy_mul NrfX448)
      (toy_ecc_vector \<lparr> shared_secret := [] \<rparr>)"
    by (simp add: ecc_right_def toy_ecc_vector_def toy_x448_public_def)
  show ?thesis
    using V [of toy_ecc_vector] V [of "toy_ecc_vector \<lparr> shared_secret := [] \<rparr>"] r w l
    by (simp add: toy_ecc_vector_def nrf_dh_from_cose_ecdh_def nrf_published_def)
qed

end
