(* ===== verification/Test_Ec.thy ===== *)
theory Test_Ec
  imports Dh_Contracts
begin

text \<open>
  The contract of the curve plumbing (\<^verbatim>\<open>embedded-cal/src/plumbing/ec.rs\<close>), the tests that exercise it
  (\<^verbatim>\<open>embedded-cal-testvectors/src/dh/mod.rs\<close>), and both on the hardware back-ends.
\<close>

section \<open>The contract of the curve primitives\<close>

text \<open>\<open>sc s b\<close> says that the scalar \<open>s\<close> has the \<open>n\<close> bytes \<open>b\<close>, \<open>pt p q\<close> that the point \<open>p\<close> has the coordinates
  \<open>q\<close>; \<open>mult\<close> is the multiplication on bytes.\<close>

locale ec_contract =
  fixes P :: "('d, 'sc, 'pt) ec_primitives" and dev :: "'d \<Rightarrow> bool" and n :: nat
    and sc :: "'sc \<Rightarrow> bytes \<Rightarrow> bool" and pt :: "'pt \<Rightarrow> bytes \<times> bytes \<Rightarrow> bool"
    and mult :: "bytes \<Rightarrow> bytes \<times> bytes \<Rightarrow> bytes \<times> bytes"
  assumes has_multiply: "HAS_MULTIPLY_SCALAR_POINT P"
    and import_law: "dev d \<Longrightarrow> length b = n \<Longrightarrow> \<exists>s d'. ep_import_scalar_bytes P b d = Some (Inr s, d') \<and> dev d' \<and> sc s b"
    and export_law: "dev d \<Longrightarrow> sc s b \<Longrightarrow> \<exists>d'. ep_export_scalar_bytes P s d = Some (b, d') \<and> dev d'"
    and point_law: "dev d \<Longrightarrow> sc s a \<Longrightarrow> sc t b \<Longrightarrow> \<exists>p d'. ep_point P s t d = Some (p, d') \<and> dev d' \<and> pt p (a, b)"
    and x_coord_law: "dev d \<Longrightarrow> pt p q \<Longrightarrow> \<exists>s d'. ep_x_coord P p d = Some (s, d') \<and> dev d' \<and> sc s (fst q)"
    and multiply_law: "dev d \<Longrightarrow> sc s k \<Longrightarrow> pt p q \<Longrightarrow>
      \<exists>p' d'. ep_multiply_scalar_point P s p d = Some (p', d') \<and> dev d' \<and> pt p' (mult k q)"

section \<open>The tests\<close>

definition X25519_BASE_U :: bytes where
  "X25519_BASE_U = (replicate 32 0)[0 := 9]"

definition X448_BASE_U :: bytes where
  "X448_BASE_U = (replicate 56 0)[0 := 5]"

definition base_point_p256 :: "('d, 'sc, 'pt) ec_primitives \<Rightarrow> 'd \<Rightarrow> ('pt \<times> 'd) option" where
  "base_point_p256 P d = do {
     (r, d) \<leftarrow> ep_import_scalar_bytes P P256_GX_BYTES d;
     x \<leftarrow> unwrap r;
     (r, d) \<leftarrow> ep_import_scalar_bytes P P256_GY_BYTES d;
     y \<leftarrow> unwrap r;
     ep_point P x y d
   }"

definition point_from_compact_p256 :: "('d, 'sc, 'pt) ec_primitives \<Rightarrow> bytes \<Rightarrow> 'd \<Rightarrow> ('pt \<times> 'd) option" where
  "point_from_compact_p256 P x d = do {
     _ \<leftarrow> assert_that (length x = 32);
     y \<leftarrow> unwrap (p256_recover_y x);
     (r, d) \<leftarrow> ep_import_scalar_bytes P x d;
     x \<leftarrow> unwrap r;
     (r, d) \<leftarrow> ep_import_scalar_bytes P y d;
     y \<leftarrow> unwrap r;
     ep_point P x y d
   }"

definition montgomery_point :: "('d, 'sc, 'pt) ec_primitives \<Rightarrow> bytes \<Rightarrow> 'd \<Rightarrow> ('pt \<times> 'd) option" where
  "montgomery_point primitives u d = do {
     z \<leftarrow> slice (replicate 56 0) 0 (length u);
     (r, d) \<leftarrow> ep_import_scalar_bytes primitives z d;
     unused_y \<leftarrow> unwrap r;
     (r, d) \<leftarrow> ep_import_scalar_bytes primitives u d;
     u \<leftarrow> unwrap r;
     ep_point primitives u unused_y d
   }"

text \<open>\<open>private.try_into().expect(..)\<close> for an array of \<open>n\<close> bytes.\<close>

definition to_array :: "nat \<Rightarrow> bytes \<Rightarrow> bytes option" where
  "to_array n b = (if length b = n then Some b else None)"

text \<open>The two loops of each test; the second also takes the expected secret.\<close>

fun p256_publics :: "('d, 'sc, 'pt) ec_primitives \<Rightarrow> (bytes \<times> bytes) list \<Rightarrow> 'd \<Rightarrow> 'd option" where
  "p256_publics P [] d = Some d"
| "p256_publics P ((private, public) # rest) d = do {
     (r, d) \<leftarrow> ep_import_scalar_bytes P private d;
     k \<leftarrow> unwrap r;
     (b, d) \<leftarrow> ep_export_scalar_bytes P k d;
     _ \<leftarrow> assert_that (b = private);
     (base, d) \<leftarrow> base_point_p256 P d;
     (computed, d) \<leftarrow> ep_multiply_scalar_point P k base d;
     (computed_x, d) \<leftarrow> ep_x_coord P computed d;
     (b, d) \<leftarrow> ep_export_scalar_bytes P computed_x d;
     _ \<leftarrow> assert_that (b = public);
     p256_publics P rest d
   }"

fun p256_shareds :: "('d, 'sc, 'pt) ec_primitives \<Rightarrow> bytes \<Rightarrow> (bytes \<times> bytes) list \<Rightarrow> 'd \<Rightarrow> 'd option" where
  "p256_shareds P secret [] d = Some d"
| "p256_shareds P secret ((private, peer) # rest) d = do {
     (r, d) \<leftarrow> ep_import_scalar_bytes P private d;
     k \<leftarrow> unwrap r;
     (peer, d) \<leftarrow> point_from_compact_p256 P peer d;
     (shared, d) \<leftarrow> ep_multiply_scalar_point P k peer d;
     (shared_x, d) \<leftarrow> ep_x_coord P shared d;
     (b, d) \<leftarrow> ep_export_scalar_bytes P shared_x d;
     _ \<leftarrow> assert_that (b = secret);
     p256_shareds P secret rest d
   }"

definition test_plumbing_p256 where
  "test_plumbing_p256 self E d = do {
     _ \<leftarrow> assert_that (ecdh_curve self = 1);
     _ \<leftarrow> assert_that (HAS_MULTIPLY_SCALAR_POINT (ec_p256 E));
     d \<leftarrow> p256_publics (ec_p256 E) [(alice_private self, alice_public self), (bob_private self, bob_public self)] d;
     p256_shareds (ec_p256 E) (shared_secret self) [(alice_private self, bob_public self), (bob_private self, alice_public self)] d
   }"

fun x25519_publics :: "('d, 'sc, 'pt) ec_primitives \<Rightarrow> (bytes \<times> bytes) list \<Rightarrow> 'd \<Rightarrow> 'd option" where
  "x25519_publics x25519 [] d = Some d"
| "x25519_publics x25519 ((private, public) # rest) d = do {
     scalar \<leftarrow> to_array 32 private;
     let scalar = clamp_x25519 scalar;
     (r, d) \<leftarrow> ep_import_scalar_bytes x25519 scalar d;
     k \<leftarrow> unwrap r;
     (b, d) \<leftarrow> ep_export_scalar_bytes x25519 k d;
     _ \<leftarrow> assert_that (b = scalar);
     (base, d) \<leftarrow> montgomery_point x25519 X25519_BASE_U d;
     (computed, d) \<leftarrow> ep_multiply_scalar_point x25519 k base d;
     (computed_u, d) \<leftarrow> ep_x_coord x25519 computed d;
     (b, d) \<leftarrow> ep_export_scalar_bytes x25519 computed_u d;
     _ \<leftarrow> assert_that (b = public);
     x25519_publics x25519 rest d
   }"

fun x25519_shareds :: "('d, 'sc, 'pt) ec_primitives \<Rightarrow> bytes \<Rightarrow> (bytes \<times> bytes) list \<Rightarrow> 'd \<Rightarrow> 'd option" where
  "x25519_shareds x25519 secret [] d = Some d"
| "x25519_shareds x25519 secret ((private, peer) # rest) d = do {
     scalar \<leftarrow> to_array 32 private;
     let scalar = clamp_x25519 scalar;
     (r, d) \<leftarrow> ep_import_scalar_bytes x25519 scalar d;
     k \<leftarrow> unwrap r;
     peer_u \<leftarrow> to_array 32 peer;
     let peer_u = mask_u_x25519 peer_u;
     (peer, d) \<leftarrow> montgomery_point x25519 peer_u d;
     (shared, d) \<leftarrow> ep_multiply_scalar_point x25519 k peer d;
     (shared_u, d) \<leftarrow> ep_x_coord x25519 shared d;
     (b, d) \<leftarrow> ep_export_scalar_bytes x25519 shared_u d;
     _ \<leftarrow> assert_that (b = secret);
     x25519_shareds x25519 secret rest d
   }"

definition test_plumbing_x25519 where
  "test_plumbing_x25519 self E d = do {
     _ \<leftarrow> assert_that (ecdh_curve self = 4);
     _ \<leftarrow> assert_that (HAS_MULTIPLY_SCALAR_POINT (ec_x25519 E));
     d \<leftarrow> x25519_publics (ec_x25519 E) [(alice_private self, alice_public self), (bob_private self, bob_public self)] d;
     x25519_shareds (ec_x25519 E) (shared_secret self) [(alice_private self, bob_public self), (bob_private self, alice_public self)] d
   }"

fun x448_publics :: "('d, 'sc, 'pt) ec_primitives \<Rightarrow> (bytes \<times> bytes) list \<Rightarrow> 'd \<Rightarrow> 'd option" where
  "x448_publics x448 [] d = Some d"
| "x448_publics x448 ((private, public) # rest) d = do {
     scalar \<leftarrow> to_array 56 private;
     let scalar = clamp_x448 scalar;
     (r, d) \<leftarrow> ep_import_scalar_bytes x448 scalar d;
     k \<leftarrow> unwrap r;
     (b, d) \<leftarrow> ep_export_scalar_bytes x448 k d;
     _ \<leftarrow> assert_that (b = scalar);
     (base, d) \<leftarrow> montgomery_point x448 X448_BASE_U d;
     (computed, d) \<leftarrow> ep_multiply_scalar_point x448 k base d;
     (computed_u, d) \<leftarrow> ep_x_coord x448 computed d;
     (b, d) \<leftarrow> ep_export_scalar_bytes x448 computed_u d;
     _ \<leftarrow> assert_that (b = public);
     x448_publics x448 rest d
   }"

fun x448_shareds :: "('d, 'sc, 'pt) ec_primitives \<Rightarrow> bytes \<Rightarrow> (bytes \<times> bytes) list \<Rightarrow> 'd \<Rightarrow> 'd option" where
  "x448_shareds x448 secret [] d = Some d"
| "x448_shareds x448 secret ((private, peer) # rest) d = do {
     scalar \<leftarrow> to_array 56 private;
     let scalar = clamp_x448 scalar;
     (r, d) \<leftarrow> ep_import_scalar_bytes x448 scalar d;
     k \<leftarrow> unwrap r;
     (peer, d) \<leftarrow> montgomery_point x448 peer d;
     (shared, d) \<leftarrow> ep_multiply_scalar_point x448 k peer d;
     (shared_u, d) \<leftarrow> ep_x_coord x448 shared d;
     (b, d) \<leftarrow> ep_export_scalar_bytes x448 shared_u d;
     _ \<leftarrow> assert_that (b = secret);
     x448_shareds x448 secret rest d
   }"

definition test_plumbing_x448 where
  "test_plumbing_x448 self E d = do {
     _ \<leftarrow> assert_that (ecdh_curve self = 5);
     _ \<leftarrow> assert_that (HAS_MULTIPLY_SCALAR_POINT (ec_x448 E));
     d \<leftarrow> x448_publics (ec_x448 E) [(alice_private self, alice_public self), (bob_private self, bob_public self)] d;
     x448_shareds (ec_x448 E) (shared_secret self) [(alice_private self, bob_public self), (bob_private self, alice_public self)] d
   }"

section \<open>What the tests decide\<close>

context ec_contract
begin

text \<open>The last four calls of every round.\<close>

lemma multiply_x:
  assumes "dev d" "sc s k" "pt p q"
  obtains p' d1 x d2 d3 where "ep_multiply_scalar_point P s p d = Some (p', d1)" "ep_x_coord P p' d1 = Some (x, d2)"
    "ep_export_scalar_bytes P x d2 = Some (fst (mult k q), d3)" "dev d3"
proof -
  obtain p' d1 where 1: "ep_multiply_scalar_point P s p d = Some (p', d1)" "dev d1" "pt p' (mult k q)"
    using multiply_law [OF assms] by blast
  obtain x d2 where 2: "ep_x_coord P p' d1 = Some (x, d2)" "dev d2" "sc x (fst (mult k q))"
    using x_coord_law [OF 1(2,3)] by blast
  obtain d3 where "ep_export_scalar_bytes P x d2 = Some (fst (mult k q), d3)" "dev d3"
    using export_law [OF 2(2,3)] by blast
  with 1(1) 2(1) show thesis by (rule that)
qed

lemma import_point:
  assumes "dev d" "length a = n" "length b = n"
  obtains s d1 t d2 p d3 where "ep_import_scalar_bytes P a d = Some (Inr s, d1)" "ep_import_scalar_bytes P b d1 = Some (Inr t, d2)"
    "ep_point P s t d2 = Some (p, d3)" "dev d3" "pt p (a, b)"
proof -
  obtain s d1 where 1: "ep_import_scalar_bytes P a d = Some (Inr s, d1)" "dev d1" "sc s a" using import_law [OF assms(1,2)] by blast
  obtain t d2 where 2: "ep_import_scalar_bytes P b d1 = Some (Inr t, d2)" "dev d2" "sc t b" using import_law [OF 1(2) assms(3)] by blast
  obtain p d3 where "ep_point P s t d2 = Some (p, d3)" "dev d3" "pt p (a, b)" using point_law [OF 2(2) 1(3) 2(3)] by blast
  with 1(1) 2(1) show thesis by (rule that)
qed

lemma base_point_law:
  assumes "dev d" "n = 32"
  shows "\<exists>p d'. base_point_p256 P d = Some (p, d') \<and> dev d' \<and> pt p (P256_GX_BYTES, P256_GY_BYTES)"
proof -
  have l: "length P256_GX_BYTES = n" "length P256_GY_BYTES = n" using assms(2) by simp_all
  obtain s d1 t d2 p d3 where "ep_import_scalar_bytes P P256_GX_BYTES d = Some (Inr s, d1)"
      "ep_import_scalar_bytes P P256_GY_BYTES d1 = Some (Inr t, d2)" "ep_point P s t d2 = Some (p, d3)" "dev d3"
      "pt p (P256_GX_BYTES, P256_GY_BYTES)" by (rule import_point [OF assms(1) l])
  then show ?thesis by (simp add: base_point_p256_def)
qed

lemma compact_point_law:
  assumes "dev d" "n = 32" "length x = 32" "p256_recover_y x = Inr y"
  shows "\<exists>p d'. point_from_compact_p256 P x d = Some (p, d') \<and> dev d' \<and> pt p (x, y)"
proof -
  have "length y = 32" using assms(4) by (auto simp: p256_recover_y_def Let_def split: if_splits)
  then have l: "length x = n" "length y = n" using assms(2,3) by simp_all
  obtain s d1 t d2 p d3 where "ep_import_scalar_bytes P x d = Some (Inr s, d1)"
      "ep_import_scalar_bytes P y d1 = Some (Inr t, d2)" "ep_point P s t d2 = Some (p, d3)" "dev d3" "pt p (x, y)"
    by (rule import_point [OF assms(1) l])
  then show ?thesis using assms(3,4) by (simp add: point_from_compact_p256_def)
qed

lemma montgomery_point_law:
  assumes "dev d" "n \<le> 56" "length u = n"
  shows "\<exists>p d'. montgomery_point P u d = Some (p, d') \<and> dev d' \<and> pt p (u, replicate n 0)"
proof -
  have z: "slice (replicate 56 (0 :: u8)) 0 (length u) = Some (replicate n 0)" using assms(2,3) by (simp add: slice_def min_def)
  obtain s d1 where 1: "ep_import_scalar_bytes P (replicate n 0) d = Some (Inr s, d1)" "dev d1" "sc s (replicate n 0)"
    using import_law [OF assms(1), of "replicate n 0"] by auto
  obtain t d2 where 2: "ep_import_scalar_bytes P u d1 = Some (Inr t, d2)" "dev d2" "sc t u" using import_law [OF 1(2) assms(3)] by blast
  obtain p d3 where "ep_point P t s d2 = Some (p, d3)" "dev d3" "pt p (u, replicate n 0)" using point_law [OF 2(2,3) 1(3)] by blast
  with z 1 2 show ?thesis by (simp add: montgomery_point_def)
qed

lemma p256_publics_decides:
  assumes "n = 32" "dev d" "\<forall>(k, q)\<in>set ks. length k = 32"
  shows "if \<forall>(k, q)\<in>set ks. q = fst (mult k (P256_GX_BYTES, P256_GY_BYTES))
    then \<exists>d'. p256_publics P ks d = Some d' \<and> dev d' else p256_publics P ks d = None"
  using assms(2,3)
proof (induction ks arbitrary: d)
  case (Cons kq ks)
  obtain k q where kq: "kq = (k, q)" by (cases kq)
  have l: "length k = n" using Cons.prems(2) kq assms(1) by simp
  obtain s d1 where 1: "ep_import_scalar_bytes P k d = Some (Inr s, d1)" "dev d1" "sc s k" using import_law [OF Cons.prems(1) l] by blast
  obtain d2 where 2: "ep_export_scalar_bytes P s d1 = Some (k, d2)" "dev d2" using export_law [OF 1(2,3)] by blast
  obtain g d3 where 3: "base_point_p256 P d2 = Some (g, d3)" "dev d3" "pt g (P256_GX_BYTES, P256_GY_BYTES)"
    using base_point_law [OF 2(2) assms(1)] by blast
  obtain p d4 x d5 d6 where 4: "ep_multiply_scalar_point P s g d3 = Some (p, d4)" "ep_x_coord P p d4 = Some (x, d5)"
      "ep_export_scalar_bytes P x d5 = Some (fst (mult k (P256_GX_BYTES, P256_GY_BYTES)), d6)" "dev d6"
    by (rule multiply_x [OF 3(2) 1(3) 3(3)])
  show ?case using 1 2 3 4 kq Cons.IH [OF 4(4)] Cons.prems(2)
    by (cases "q = fst (mult k (P256_GX_BYTES, P256_GY_BYTES))") simp_all
qed simp

lemma p256_shareds_decides:
  assumes "n = 32" "dev d" "\<forall>(k, c)\<in>set ks. length k = 32 \<and> length c = 32 \<and> p256_recover_y c = Inr (y c)"
  shows "if \<forall>(k, c)\<in>set ks. secret = fst (mult k (c, y c))
    then \<exists>d'. p256_shareds P secret ks d = Some d' \<and> dev d' else p256_shareds P secret ks d = None"
  using assms(2,3)
proof (induction ks arbitrary: d)
  case (Cons kc ks)
  obtain k c where kc: "kc = (k, c)" by (cases kc)
  have l: "length k = n" "length c = 32" "p256_recover_y c = Inr (y c)" using Cons.prems(2) kc assms(1) by simp_all
  obtain s d1 where 1: "ep_import_scalar_bytes P k d = Some (Inr s, d1)" "dev d1" "sc s k" using import_law [OF Cons.prems(1) l(1)] by blast
  obtain g d3 where 3: "point_from_compact_p256 P c d1 = Some (g, d3)" "dev d3" "pt g (c, y c)"
    using compact_point_law [OF 1(2) assms(1) l(2,3)] by blast
  obtain p d4 x d5 d6 where 4: "ep_multiply_scalar_point P s g d3 = Some (p, d4)" "ep_x_coord P p d4 = Some (x, d5)"
      "ep_export_scalar_bytes P x d5 = Some (fst (mult k (c, y c)), d6)" "dev d6"
    by (rule multiply_x [OF 3(2) 1(3) 3(3)])
  show ?case
  proof (cases "fst (mult k (c, y c)) = secret")
    case True
    then show ?thesis using 1 3 4 kc Cons.IH [OF 4(4)] Cons.prems(2) by simp
  next
    case False
    then show ?thesis using 1 3 4 kc by auto
  qed
qed simp


lemma x25519_publics_decides:
  assumes "n = 32" "dev d" "\<forall>(k, q)\<in>set ks. length k = 32"
  shows "if \<forall>(k, q)\<in>set ks. q = fst (mult (clamp_x25519 k) (X25519_BASE_U, replicate 32 0))
    then \<exists>d'. x25519_publics P ks d = Some d' \<and> dev d' else x25519_publics P ks d = None"
  using assms(2,3)
proof (induction ks arbitrary: d)
  case (Cons kq ks)
  obtain k q where kq: "kq = (k, q)" by (cases kq)
  have l: "length k = 32" "length (clamp_x25519 k) = n" "n \<le> 56" "length X25519_BASE_U = n"
    using Cons.prems(2) kq assms(1) by (simp_all add: X25519_BASE_U_def)
  obtain s d1 where 1: "ep_import_scalar_bytes P (clamp_x25519 k) d = Some (Inr s, d1)" "dev d1" "sc s (clamp_x25519 k)"
    using import_law [OF Cons.prems(1) l(2)] by blast
  obtain d2 where 2: "ep_export_scalar_bytes P s d1 = Some (clamp_x25519 k, d2)" "dev d2" using export_law [OF 1(2,3)] by blast
  obtain g d3 where 3: "montgomery_point P X25519_BASE_U d2 = Some (g, d3)" "dev d3" "pt g (X25519_BASE_U, replicate n 0)"
    using montgomery_point_law [OF 2(2) l(3,4)] by blast
  obtain p d4 x d5 d6 where 4: "ep_multiply_scalar_point P s g d3 = Some (p, d4)" "ep_x_coord P p d4 = Some (x, d5)"
      "ep_export_scalar_bytes P x d5 = Some (fst (mult (clamp_x25519 k) (X25519_BASE_U, replicate n 0)), d6)" "dev d6"
    by (rule multiply_x [OF 3(2) 1(3) 3(3)])
  show ?case using 1 2 3 4 kq l(1) assms(1) Cons.IH [OF 4(4)] Cons.prems(2)
    by (cases "q = fst (mult (clamp_x25519 k) (X25519_BASE_U, replicate n 0))") (simp_all add: to_array_def)
qed simp

lemma x25519_shareds_decides:
  assumes "n = 32" "dev d" "\<forall>(k, c)\<in>set ks. length k = 32 \<and> length c = 32"
  shows "if \<forall>(k, c)\<in>set ks. secret = fst (mult (clamp_x25519 k) (mask_u_x25519 c, replicate 32 0))
    then \<exists>d'. x25519_shareds P secret ks d = Some d' \<and> dev d' else x25519_shareds P secret ks d = None"
  using assms(2,3)
proof (induction ks arbitrary: d)
  case (Cons kc ks)
  obtain k c where kc: "kc = (k, c)" by (cases kc)
  have l: "length k = 32" "length (clamp_x25519 k) = n" "n \<le> 56" "length (mask_u_x25519 c) = n" "length c = 32"
    using Cons.prems(2) kc assms(1) by simp_all
  obtain s d1 where 1: "ep_import_scalar_bytes P (clamp_x25519 k) d = Some (Inr s, d1)" "dev d1" "sc s (clamp_x25519 k)"
    using import_law [OF Cons.prems(1) l(2)] by blast
  obtain g d3 where 3: "montgomery_point P (mask_u_x25519 c) d1 = Some (g, d3)" "dev d3" "pt g (mask_u_x25519 c, replicate n 0)"
    using montgomery_point_law [OF 1(2) l(3,4)] by blast
  obtain p d4 x d5 d6 where 4: "ep_multiply_scalar_point P s g d3 = Some (p, d4)" "ep_x_coord P p d4 = Some (x, d5)"
      "ep_export_scalar_bytes P x d5 = Some (fst (mult (clamp_x25519 k) (mask_u_x25519 c, replicate n 0)), d6)" "dev d6"
    by (rule multiply_x [OF 3(2) 1(3) 3(3)])
  show ?case
  proof (cases "fst (mult (clamp_x25519 k) (mask_u_x25519 c, replicate n 0)) = secret")
    case True
    then show ?thesis using 1 3 4 kc l(1,5) assms(1) Cons.IH [OF 4(4)] Cons.prems(2) by (simp add: to_array_def)
  next
    case False
    then show ?thesis using 1 3 4 kc l(1,5) assms(1) by (auto simp: to_array_def)
  qed
qed simp

lemma x448_publics_decides:
  assumes "n = 56" "dev d" "\<forall>(k, q)\<in>set ks. length k = 56"
  shows "if \<forall>(k, q)\<in>set ks. q = fst (mult (clamp_x448 k) (X448_BASE_U, replicate 56 0))
    then \<exists>d'. x448_publics P ks d = Some d' \<and> dev d' else x448_publics P ks d = None"
  using assms(2,3)
proof (induction ks arbitrary: d)
  case (Cons kq ks)
  obtain k q where kq: "kq = (k, q)" by (cases kq)
  have l: "length k = 56" "length (clamp_x448 k) = n" "n \<le> 56" "length X448_BASE_U = n"
    using Cons.prems(2) kq assms(1) by (simp_all add: X448_BASE_U_def)
  obtain s d1 where 1: "ep_import_scalar_bytes P (clamp_x448 k) d = Some (Inr s, d1)" "dev d1" "sc s (clamp_x448 k)"
    using import_law [OF Cons.prems(1) l(2)] by blast
  obtain d2 where 2: "ep_export_scalar_bytes P s d1 = Some (clamp_x448 k, d2)" "dev d2" using export_law [OF 1(2,3)] by blast
  obtain g d3 where 3: "montgomery_point P X448_BASE_U d2 = Some (g, d3)" "dev d3" "pt g (X448_BASE_U, replicate n 0)"
    using montgomery_point_law [OF 2(2) l(3,4)] by blast
  obtain p d4 x d5 d6 where 4: "ep_multiply_scalar_point P s g d3 = Some (p, d4)" "ep_x_coord P p d4 = Some (x, d5)"
      "ep_export_scalar_bytes P x d5 = Some (fst (mult (clamp_x448 k) (X448_BASE_U, replicate n 0)), d6)" "dev d6"
    by (rule multiply_x [OF 3(2) 1(3) 3(3)])
  show ?case using 1 2 3 4 kq l(1) assms(1) Cons.IH [OF 4(4)] Cons.prems(2)
    by (cases "q = fst (mult (clamp_x448 k) (X448_BASE_U, replicate n 0))") (simp_all add: to_array_def)
qed simp

lemma x448_shareds_decides:
  assumes "n = 56" "dev d" "\<forall>(k, c)\<in>set ks. length k = 56 \<and> length c = 56"
  shows "if \<forall>(k, c)\<in>set ks. secret = fst (mult (clamp_x448 k) (c, replicate 56 0))
    then \<exists>d'. x448_shareds P secret ks d = Some d' \<and> dev d' else x448_shareds P secret ks d = None"
  using assms(2,3)
proof (induction ks arbitrary: d)
  case (Cons kc ks)
  obtain k c where kc: "kc = (k, c)" by (cases kc)
  have l: "length k = 56" "length (clamp_x448 k) = n" "n \<le> 56" "length c = n"
    using Cons.prems(2) kc assms(1) by simp_all
  obtain s d1 where 1: "ep_import_scalar_bytes P (clamp_x448 k) d = Some (Inr s, d1)" "dev d1" "sc s (clamp_x448 k)"
    using import_law [OF Cons.prems(1) l(2)] by blast
  obtain g d3 where 3: "montgomery_point P c d1 = Some (g, d3)" "dev d3" "pt g (c, replicate n 0)"
    using montgomery_point_law [OF 1(2) l(3,4)] by blast
  obtain p d4 x d5 d6 where 4: "ep_multiply_scalar_point P s g d3 = Some (p, d4)" "ep_x_coord P p d4 = Some (x, d5)"
      "ep_export_scalar_bytes P x d5 = Some (fst (mult (clamp_x448 k) (c, replicate n 0)), d6)" "dev d6"
    by (rule multiply_x [OF 3(2) 1(3) 3(3)])
  show ?case
  proof (cases "fst (mult (clamp_x448 k) (c, replicate n 0)) = secret")
    case True
    then show ?thesis using 1 3 4 kc l(1) assms(1) Cons.IH [OF 4(4)] Cons.prems(2) by (simp add: to_array_def)
  next
    case False
    then show ?thesis using 1 3 4 kc l(1) assms(1) by (auto simp: to_array_def)
  qed
qed simp

end

end
