(* ===== verification/Ec_Verdicts.thy ===== *)
theory Ec_Verdicts
  imports Test_Ec Cross_Device
begin

text \<open>The curve plumbing of the hardware back-ends keeps the contract of the curve primitives, and its tests accept the
  vectors the key-agreement provider accepts.\<close>

section \<open>nRF54L15\<close>

fun nrf_mult :: "(bytes \<Rightarrow> bytes \<times> bytes \<Rightarrow> bytes \<times> bytes) \<Rightarrow> (bytes \<Rightarrow> bytes \<Rightarrow> bytes) \<Rightarrow> (bytes \<Rightarrow> bytes \<Rightarrow> bytes)
    \<Rightarrow> nrf_curve \<Rightarrow> bytes \<Rightarrow> bytes \<times> bytes \<Rightarrow> bytes \<times> bytes" where
  "nrf_mult M X Y CurveP256 k q = M k q"
| "nrf_mult M X Y CurveX25519 k q = (X k (fst q), replicate 32 0)"
| "nrf_mult M X Y CurveX448 k q = (Y k (fst q), replicate 56 0)"

definition nrf_scalar_of :: "nrf_curve \<Rightarrow> nrf_scalar \<Rightarrow> bytes \<Rightarrow> bool" where
  "nrf_scalar_of C s b \<longleftrightarrow> s = scalar_from b \<and> length b = SCALAR_SIZE C"

definition nrf_point_of :: "nrf_curve \<Rightarrow> nrf_point \<Rightarrow> bytes \<times> bytes \<Rightarrow> bool" where
  "nrf_point_of C p q \<longleftrightarrow> p = \<lparr> pt_x = scalar_from (fst q), pt_y = scalar_from (snd q) \<rparr>
     \<and> length (fst q) = SCALAR_SIZE C \<and> length (snd q) = SCALAR_SIZE C"

lemma scalar_size_le: "SCALAR_SIZE C \<le> 56"
  by (cases C) simp_all

sublocale cracen_pke \<subseteq> nrf_plumbing: ec_contract "nrf_ec_primitives hw C" dev "SCALAR_SIZE C" "nrf_scalar_of C" "nrf_point_of C"
    "nrf_mult mul_p256 mul_x25519 mul_x448 C"
  for C
proof
  fix d and s t :: nrf_scalar and p :: nrf_point and a b k :: bytes and q
  let ?P = "nrf_ec_primitives hw C"
  show "HAS_MULTIPLY_SCALAR_POINT ?P" by (simp add: nrf_ec_primitives_def)
  assume d: "dev d"
  show "\<exists>s d'. ep_import_scalar_bytes ?P b d = Some (Inr s, d') \<and> dev d' \<and> nrf_scalar_of C s b" if "length b = SCALAR_SIZE C"
    using that d scalar_size_le [of C]
    by (simp add: nrf_ec_primitives_def nrf_import_scalar_bytes_def copy_at_def NRF_MAX_SCALAR_LENGTH_def nrf_scalar_of_def scalar_from_def)
  show "\<exists>d'. ep_export_scalar_bytes ?P s d = Some (b, d') \<and> dev d'" if "nrf_scalar_of C s b"
    using that d scalar_size_le [of C]
    by (simp add: nrf_ec_primitives_def nrf_export_scalar_bytes_def nrf_scalar_of_def slice_def scalar_from_def NRF_MAX_SCALAR_LENGTH_def)
  show "\<exists>p d'. ep_point ?P s t d = Some (p, d') \<and> dev d' \<and> nrf_point_of C p (a, b)" if "nrf_scalar_of C s a" "nrf_scalar_of C t b"
    using that d by (simp add: nrf_ec_primitives_def nrf_point_new_def nrf_scalar_of_def nrf_point_of_def)
  show "\<exists>s d'. ep_x_coord ?P p d = Some (s, d') \<and> dev d' \<and> nrf_scalar_of C s (fst q)" if "nrf_point_of C p q"
    using that d by (simp add: nrf_ec_primitives_def nrf_scalar_of_def nrf_point_of_def)
  show "\<exists>p' d'. ep_multiply_scalar_point ?P s p d = Some (p', d') \<and> dev d' \<and> nrf_point_of C p' (nrf_mult mul_p256 mul_x25519 mul_x448 C k q)"
    if s: "nrf_scalar_of C s k" and p: "nrf_point_of C p q"
  proof (cases C)
    case CurveP256
    with s p have l: "length k = 32" "length (fst q) = 32" "length (snd q) = 32" by (simp_all add: nrf_scalar_of_def nrf_point_of_def)
    obtain d' where "cracen_p256_mult hw k (fst q) (snd q) d = Some (mul_p256 k q, d')" "dev d'"
      using p256_mult_law [OF d l] by auto
    moreover obtain x y where "mul_p256 k q = (x, y)" by (cases "mul_p256 k q")
    moreover from this have "length x = 32" "length y = 32" using mul_p256_length [OF l] by simp_all
    ultimately show ?thesis using s p l CurveP256 by (simp add: nrf_ec_primitives_def nrf_scalar_of_def nrf_point_of_def)
  next
    case CurveX25519
    with s p have l: "length k = 32" "length (fst q) = 32" by (simp_all add: nrf_scalar_of_def nrf_point_of_def)
    obtain d' where "cracen_x25519_mult hw k (fst q) d = Some (mul_x25519 k (fst q), d')" "dev d'"
      using x25519_mult_law [OF d l] by auto
    then show ?thesis using s p l mul_x25519_length [OF l] CurveX25519
      by (simp add: nrf_ec_primitives_def nrf_scalar_of_def nrf_point_of_def)
  next
    case CurveX448
    with s p have l: "length k = 56" "length (fst q) = 56" by (simp_all add: nrf_scalar_of_def nrf_point_of_def)
    obtain d' where "cracen_x448_mult hw k (fst q) d = Some (mul_x448 k (fst q), d')" "dev d'"
      using x448_mult_law [OF d l] by auto
    then show ?thesis using s p l mul_x448_length [OF l] CurveX448
      by (simp add: nrf_ec_primitives_def nrf_scalar_of_def nrf_point_of_def)
  qed
qed

section \<open>STM32WBA55\<close>

definition stm_scalar_of :: "stm_scalar \<Rightarrow> bytes \<Rightarrow> bool" where
  "stm_scalar_of s b \<longleftrightarrow> words_to_bytes (scalar_words s) = b \<and> length (scalar_words s) = 8"

definition stm_point_of :: "stm_point \<Rightarrow> bytes \<times> bytes \<Rightarrow> bool" where
  "stm_point_of p q \<longleftrightarrow> stm_scalar_of (sp_x p) (fst q) \<and> stm_scalar_of (sp_y p) (snd q)"

sublocale stm_ecc \<subseteq> stm_plumbing: ec_contract "stm_ec_primitives debug hw" dev 32 stm_scalar_of stm_point_of M
  for debug
proof
  fix d and s t :: stm_scalar and p :: stm_point and a b k :: bytes and q
  let ?P = "stm_ec_primitives debug hw"
  show "HAS_MULTIPLY_SCALAR_POINT ?P" by (simp add: stm_ec_primitives_def)
  assume d: "dev d"
  show "\<exists>s d'. ep_import_scalar_bytes ?P b d = Some (Inr s, d') \<and> dev d' \<and> stm_scalar_of s b" if "length b = 32"
    using that d by (simp add: stm_ec_primitives_def stm_import_scalar_bytes_def try_array_def stm_scalar_of_def words_to_bytes_to_words)
  show "\<exists>d'. ep_export_scalar_bytes ?P s d = Some (b, d') \<and> dev d'" if "stm_scalar_of s b"
    using that d by (simp add: stm_ec_primitives_def stm_export_scalar_bytes_def stm_scalar_of_def)
  show "\<exists>p d'. ep_point ?P s t d = Some (p, d') \<and> dev d' \<and> stm_point_of p (a, b)" if "stm_scalar_of s a" "stm_scalar_of t b"
    using that d by (simp add: stm_ec_primitives_def stm_point_new_def stm_point_of_def)
  show "\<exists>s d'. ep_x_coord ?P p d = Some (s, d') \<and> dev d' \<and> stm_scalar_of s (fst q)" if "stm_point_of p q"
    using that d by (simp add: stm_ec_primitives_def stm_point_of_def)
  show "\<exists>p' d'. ep_multiply_scalar_point ?P s p d = Some (p', d') \<and> dev d' \<and> stm_point_of p' (M k q)"
    if s: "stm_scalar_of s k" and p: "stm_point_of p q"
  proof -
    have l: "length (scalar_words s) = 8" "length (scalar_words (sp_x p)) = 8" "length (scalar_words (sp_y p)) = 8"
      and v: "k = words_to_bytes (scalar_words s)" "q = (words_to_bytes (scalar_words (sp_x p)), words_to_bytes (scalar_words (sp_y p)))"
      using s p by (auto simp: stm_scalar_of_def stm_point_of_def prod_eq_iff)
    obtain rx ry d' where "pka_ecc_mult debug hw (scalar_words s) (scalar_words (sp_x p)) (scalar_words (sp_y p)) d = Some ((rx, ry), d')"
        "dev d'" "length rx = 8" "length ry = 8" "(words_to_bytes rx, words_to_bytes ry) = M k q"
      using mult_law [OF d l, of debug] unfolding v by blast
    then show ?thesis by (auto simp: stm_ec_primitives_def stm_multiply_scalar_point_def stm_point_of_def stm_scalar_of_def dest: sym)
  qed
qed

section \<open>The verdicts of the plumbing tests\<close>

text \<open>Two passing conditions in sequence.\<close>

lemma two_stages:
  assumes "if A then \<exists>d'. f d = Some d' \<and> dev d' else f d = None"
    and "\<And>e. dev e \<Longrightarrow> if B then \<exists>d'. g e = Some d' \<and> dev d' else g e = None"
  shows "(\<exists>d'. f d \<bind> g = Some d') \<longleftrightarrow> A \<and> B"
proof (cases A)
  case True
  then obtain e where "f d = Some e" "dev e" using assms(1) by auto
  with True assms(2) [of e] show ?thesis by (auto split: if_splits)
qed (use assms(1) in simp)

lemma bases [simp]: "X25519_BASE_U = x25519_base" "X448_BASE_U = x448_base"
  by (simp_all add: X25519_BASE_U_def X448_BASE_U_def x25519_base_def x448_base_def)

context cracen_pke
begin

lemma nrf_plumbing_x25519:
  assumes "dev d" "ecdh_curve v = 4" "length (alice_private v) = 32" "length (bob_private v) = 32"
    and "length (alice_public v) = 32" "length (bob_public v) = 32"
  shows "(\<exists>d'. test_plumbing_x25519 v (nrf_ec hw) d = Some d') \<longleftrightarrow>
      (alice_public v = mul_x25519 (clamp_x25519 (alice_private v)) x25519_base
       \<and> bob_public v = mul_x25519 (clamp_x25519 (bob_private v)) x25519_base)
    \<and> (shared_secret v = mul_x25519 (clamp_x25519 (alice_private v)) (mask_u_x25519 (bob_public v))
       \<and> shared_secret v = mul_x25519 (clamp_x25519 (bob_private v)) (mask_u_x25519 (alice_public v)))"
proof -
  let ?P = "nrf_ec_primitives hw CurveX25519"
  let ?ks = "[(alice_private v, alice_public v), (bob_private v, bob_public v)]"
    and ?cs = "[(alice_private v, bob_public v), (bob_private v, alice_public v)]"
  have P: "ec_x25519 (nrf_ec hw) = ?P" "HAS_MULTIPLY_SCALAR_POINT ?P" by (simp_all add: nrf_ec_def nrf_plumbing.has_multiply)
  have "(\<exists>d'. x25519_publics ?P ?ks d \<bind> x25519_shareds ?P (shared_secret v) ?cs = Some d')
    \<longleftrightarrow> (\<forall>(k, q)\<in>set ?ks. q = fst (nrf_mult mul_p256 mul_x25519 mul_x448 CurveX25519 (clamp_x25519 k) (X25519_BASE_U, replicate 32 0)))
      \<and> (\<forall>(k, c)\<in>set ?cs. shared_secret v = fst (nrf_mult mul_p256 mul_x25519 mul_x448 CurveX25519 (clamp_x25519 k) (mask_u_x25519 c, replicate 32 0)))"
  proof (rule two_stages [where dev = dev], goal_cases)
    case 1
    show ?case by (rule nrf_plumbing.x25519_publics_decides) (use assms in simp_all)
  next
    case (2 e)
    show ?case by (rule nrf_plumbing.x25519_shareds_decides) (use assms 2 in simp_all)
  qed
  then show ?thesis using assms(2) by (simp add: test_plumbing_x25519_def P del: x25519_publics.simps x25519_shareds.simps)
qed

lemma nrf_plumbing_x448:
  assumes "dev d" "ecdh_curve v = 5" "length (alice_private v) = 56" "length (bob_private v) = 56"
    and "length (alice_public v) = 56" "length (bob_public v) = 56"
  shows "(\<exists>d'. test_plumbing_x448 v (nrf_ec hw) d = Some d') \<longleftrightarrow>
      (alice_public v = mul_x448 (clamp_x448 (alice_private v)) x448_base
       \<and> bob_public v = mul_x448 (clamp_x448 (bob_private v)) x448_base)
    \<and> (shared_secret v = mul_x448 (clamp_x448 (alice_private v)) (bob_public v)
       \<and> shared_secret v = mul_x448 (clamp_x448 (bob_private v)) (alice_public v))"
proof -
  let ?P = "nrf_ec_primitives hw CurveX448"
  let ?ks = "[(alice_private v, alice_public v), (bob_private v, bob_public v)]"
    and ?cs = "[(alice_private v, bob_public v), (bob_private v, alice_public v)]"
  have P: "ec_x448 (nrf_ec hw) = ?P" "HAS_MULTIPLY_SCALAR_POINT ?P" by (simp_all add: nrf_ec_def nrf_plumbing.has_multiply)
  have "(\<exists>d'. x448_publics ?P ?ks d \<bind> x448_shareds ?P (shared_secret v) ?cs = Some d')
    \<longleftrightarrow> (\<forall>(k, q)\<in>set ?ks. q = fst (nrf_mult mul_p256 mul_x25519 mul_x448 CurveX448 (clamp_x448 k) (X448_BASE_U, replicate 56 0)))
      \<and> (\<forall>(k, c)\<in>set ?cs. shared_secret v = fst (nrf_mult mul_p256 mul_x25519 mul_x448 CurveX448 (clamp_x448 k) (c, replicate 56 0)))"
  proof (rule two_stages [where dev = dev], goal_cases)
    case 1
    show ?case by (rule nrf_plumbing.x448_publics_decides) (use assms in simp_all)
  next
    case (2 e)
    show ?case by (rule nrf_plumbing.x448_shareds_decides) (use assms 2 in simp_all)
  qed
  then show ?thesis using assms(2) by (simp add: test_plumbing_x448_def P del: x448_publics.simps x448_shareds.simps)
qed

end

text \<open>A P-256 plumbing test over any primitives that keep the contract.\<close>

definition p256_right :: "(bytes \<Rightarrow> bytes \<times> bytes \<Rightarrow> bytes \<times> bytes) \<Rightarrow> ecc_vector \<Rightarrow> bool" where
  "p256_right M v \<longleftrightarrow>
     (alice_public v = fst (M (alice_private v) (P256_GX_BYTES, P256_GY_BYTES))
      \<and> bob_public v = fst (M (bob_private v) (P256_GX_BYTES, P256_GY_BYTES)))
   \<and> (\<forall>a b. p256_recover_y (bob_public v) = Inr b \<and> p256_recover_y (alice_public v) = Inr a \<longrightarrow>
        shared_secret v = fst (M (alice_private v) (bob_public v, b)) \<and> shared_secret v = fst (M (bob_private v) (alice_public v, a)))"

lemma plumbing_p256:
  assumes "ec_contract (ec_p256 E) dev 32 sc pt M" "dev d" "ecdh_curve v = 1"
    and "length (alice_private v) = 32" "length (bob_private v) = 32" "length (alice_public v) = 32" "length (bob_public v) = 32"
    and "p256_recover_y (alice_public v) = Inr a" "p256_recover_y (bob_public v) = Inr b"
  shows "(\<exists>d'. test_plumbing_p256 v E d = Some d') \<longleftrightarrow> p256_right M v"
proof -
  let ?ks = "[(alice_private v, alice_public v), (bob_private v, bob_public v)]"
    and ?cs = "[(alice_private v, bob_public v), (bob_private v, alice_public v)]"
    and ?y = "\<lambda>c. projr (p256_recover_y c)"
  have "(\<exists>d'. p256_publics (ec_p256 E) ?ks d \<bind> p256_shareds (ec_p256 E) (shared_secret v) ?cs = Some d')
    \<longleftrightarrow> (\<forall>(k, q)\<in>set ?ks. q = fst (M k (P256_GX_BYTES, P256_GY_BYTES)))
      \<and> (\<forall>(k, c)\<in>set ?cs. shared_secret v = fst (M k (c, ?y c)))"
  proof (rule two_stages [where dev = dev], goal_cases)
    case 1
    show ?case by (rule ec_contract.p256_publics_decides [OF assms(1)]) (use assms in simp_all)
  next
    case (2 e)
    show ?case by (rule ec_contract.p256_shareds_decides [OF assms(1)]) (use assms 2 in simp_all)
  qed
  then show ?thesis using assms(3,8,9) ec_contract.has_multiply [OF assms(1)]
    by (simp add: test_plumbing_p256_def p256_right_def del: p256_publics.simps p256_shareds.simps)
qed

context cracen_pke
begin

lemma nrf_plumbing_contract:
  "ec_contract (ec_p256 (nrf_ec hw)) dev 32 (nrf_scalar_of CurveP256) (nrf_point_of CurveP256) mul_p256"
proof -
  have "nrf_mult mul_p256 mul_x25519 mul_x448 CurveP256 = mul_p256" by (intro ext) simp
  with nrf_plumbing.ec_contract_axioms [of CurveP256] show ?thesis by (simp add: nrf_ec_def)
qed

end

context stm_ecc
begin

lemma stm_plumbing_contract: "ec_contract (ec_p256 (stm_ec debug hw)) dev 32 stm_scalar_of stm_point_of M"
  using stm_plumbing.ec_contract_axioms by (simp add: stm_ec_def)

end

text \<open>With a group whose compact points determine the shared \<open>x\<close>, the recovered peer gives what the computed
  one gives.\<close>

lemma p256_right_compact:
  assumes "compact_group M V" "V (alice_private v)" "V (bob_private v)"
    and "p256_recover_y (alice_public v) = Inr a" "p256_recover_y (bob_public v) = Inr b"
  shows "p256_right M v \<longleftrightarrow> ecc_right (\<lambda>b. b) (\<lambda>b. fst (M b (P256_GX_BYTES, P256_GY_BYTES))) (\<lambda>a b. fst (M a (M b (P256_GX_BYTES, P256_GY_BYTES)))) v"
proof -
  have "fst (M k (fst (M l (P256_GX_BYTES, P256_GY_BYTES)), y)) = fst (M k (M l (P256_GX_BYTES, P256_GY_BYTES)))"
    if "V k" "V l" "p256_recover_y (fst (M l (P256_GX_BYTES, P256_GY_BYTES))) = Inr y" for k l y
    using assms(1) that unfolding compact_group_def by blast
  with assms(2-5) show ?thesis unfolding p256_right_def ecc_right_def by auto
qed

text \<open>C21: The two test suites of key agreement accept the same vectors. On engines behaving as documented, an X25519
  or X448 vector passes the plumbing test of the nRF54L15 exactly when it passes the test of its
  key-agreement provider; a P-256 vector passes the plumbing test on the nRF54L15 exactly when it passes
  the one on the STM32WBA55, and, if the compact representation determines shared secrets, exactly when it passes
  the test of the provider.\<close>

theorem plumbing_and_provider_agree:
  assumes "cracen_pke hw dev ram cmd ptrs err polls M X Y" "stm_ecc hw' dev' ram' failed delay M" "dev d" "dev' e"
    and "nrf_dh_from_cose_ecdh (ecdh_curve v) = Some alg"
    and "length (alice_private v) = nrf_dh_output_length alg" "length (bob_private v) = nrf_dh_output_length alg"
    and "nrf_published alg (alice_public v)" "nrf_published alg (bob_public v)"
  shows "(alg = NrfX25519 \<longrightarrow>
        ((\<exists>d'. test_plumbing_x25519 v (nrf_ec hw) d = Some d') \<longleftrightarrow> (\<exists>d'. ecc_test_with v (nrf_dh rng hw) d = Some d')))
    \<and> (alg = NrfX448 \<longrightarrow>
        ((\<exists>d'. test_plumbing_x448 v (nrf_ec hw) d = Some d') \<longleftrightarrow> (\<exists>d'. ecc_test_with v (nrf_dh rng hw) d = Some d')))
    \<and> (alg = NrfEcdhP256 \<longrightarrow>
        ((\<exists>d'. test_plumbing_p256 v (nrf_ec hw) d = Some d') \<longleftrightarrow> (\<exists>e'. test_plumbing_p256 v (stm_ec debug hw') e = Some e')))
    \<and> (alg = NrfEcdhP256 \<and> compact_group M (\<lambda>k. k = alice_private v \<or> k = bob_private v) \<longrightarrow>
        ((\<exists>d'. test_plumbing_p256 v (nrf_ec hw) d = Some d') \<longleftrightarrow> (\<exists>d'. ecc_test_with v (nrf_dh rng hw) d = Some d')))"
proof -
  note N = cracen_pke.nrf_vectors [OF assms(1,3,5-9), of rng]
  have p256: "(\<exists>d'. test_plumbing_p256 v (nrf_ec hw) d = Some d') \<longleftrightarrow> p256_right M v"
      "(\<exists>e'. test_plumbing_p256 v (stm_ec debug hw') e = Some e') \<longleftrightarrow> p256_right M v"
      "compact_group M (\<lambda>k. k = alice_private v \<or> k = bob_private v) \<Longrightarrow>
        p256_right M v \<longleftrightarrow> ecc_right (nrf_canon alg) (x_multiple M X Y alg) (x_shared M X Y alg) v" if a: "alg = NrfEcdhP256"
  proof -
    have c: "ecdh_curve v = 1" using assms(5) a by (simp add: nrf_dh_from_cose_ecdh_def split: if_splits)
    have l: "length (alice_private v) = 32" "length (bob_private v) = 32" "length (alice_public v) = 32" "length (bob_public v) = 32"
      using assms(6-9) a by (simp_all add: nrf_published_def)
    obtain y z where y: "p256_recover_y (alice_public v) = Inr y" "p256_recover_y (bob_public v) = Inr z"
      using assms(8,9) a by (auto simp: nrf_published_def)
    show "(\<exists>d'. test_plumbing_p256 v (nrf_ec hw) d = Some d') \<longleftrightarrow> p256_right M v"
      by (rule plumbing_p256 [OF cracen_pke.nrf_plumbing_contract [OF assms(1)] assms(3) c l y])
    show "(\<exists>e'. test_plumbing_p256 v (stm_ec debug hw') e = Some e') \<longleftrightarrow> p256_right M v"
      by (rule plumbing_p256 [OF stm_ecc.stm_plumbing_contract [OF assms(2)] assms(4) c l y])
    show "p256_right M v \<longleftrightarrow> ecc_right (nrf_canon alg) (x_multiple M X Y alg) (x_shared M X Y alg) v"
      if "compact_group M (\<lambda>k. k = alice_private v \<or> k = bob_private v)"
      using p256_right_compact [OF that _ _ y] a by (simp add: ecc_right_def)
  qed
  have "(\<exists>d'. test_plumbing_x25519 v (nrf_ec hw) d = Some d')
      \<longleftrightarrow> ecc_right (nrf_canon alg) (x_multiple M X Y alg) (x_shared M X Y alg) v" if a: "alg = NrfX25519"
  proof -
    have c: "ecdh_curve v = 4" using assms(5) a by (simp add: nrf_dh_from_cose_ecdh_def split: if_splits)
    have l: "length (alice_private v) = 32" "length (bob_private v) = 32" "length (alice_public v) = 32" "length (bob_public v) = 32"
      using assms(6-9) a by (simp_all add: nrf_published_def)
    show ?thesis using cracen_pke.nrf_plumbing_x25519 [OF assms(1,3) c l] assms(8,9) a
      by (auto simp: ecc_right_def nrf_published_def)
  qed
  moreover have "(\<exists>d'. test_plumbing_x448 v (nrf_ec hw) d = Some d')
      \<longleftrightarrow> ecc_right (nrf_canon alg) (x_multiple M X Y alg) (x_shared M X Y alg) v" if a: "alg = NrfX448"
  proof -
    have c: "ecdh_curve v = 5" using assms(5) a by (simp add: nrf_dh_from_cose_ecdh_def split: if_splits)
    have l: "length (alice_private v) = 56" "length (bob_private v) = 56" "length (alice_public v) = 56" "length (bob_public v) = 56"
      using assms(6-9) a by (simp_all add: nrf_published_def)
    show ?thesis using cracen_pke.nrf_plumbing_x448 [OF assms(1,3) c l] assms(8,9) a
      by (auto simp: ecc_right_def nrf_published_def)
  qed
  ultimately show ?thesis unfolding N using p256 by blast
qed

lemma plumbing_and_provider_agree_witness:
  "(\<exists>d'. test_plumbing_x448 toy_ecc_vector (nrf_ec sim_pke) sim_pke_start = Some d')
    \<longleftrightarrow> (\<exists>d'. ecc_test_with toy_ecc_vector (nrf_dh const_rng sim_pke) sim_pke_start = Some d')"
proof -
  have "length (toy_x448_public k) = 56" for k by (simp add: toy_x448_public_def toy_mul_def)
  then show ?thesis
    using plumbing_and_provider_agree [OF sim_pke.cracen_pke_axioms sim_pka.stm_ecc_axioms [unfolded toy_point_def] TrueI TrueI,
        of toy_ecc_vector NrfX448 sim_pke_start const_rng]
    by (simp add: toy_ecc_vector_def nrf_dh_from_cose_ecdh_def nrf_published_def)
qed

end
