(* ===== verification/Device_Cal.thy ===== *)
theory Device_Cal
  imports Driver_Verdicts Dh_Contracts Stm_Provider
begin

text \<open>
  The devices as \<open>Cal\<close>s: which provider each accessor of the nRF54L15, the STM32WBA55 and the software-demo
  extender returns, the extender's generator and curve plumbing, and the integration tests of the
  nRF54L15 crate (\<^verbatim>\<open>embedded-cal-nrf54l15/tests/integration.rs\<close>), which run the drivers on the extender
  over the device.
\<close>

definition nrf_cal where
  "nrf_cal (rng :: 'd cracen) hw at_in at_out =
     \<lparr> cal_dh = nrf_dh rng hw, cal_aead = nrf_aead rng at_in at_out,
       cal_hash = (empty_hash :: ('d, no_algorithms, no_algorithms, no_algorithms) hash_provider),
       cal_hmac = (empty_hmac :: ('d, no_algorithms, no_algorithms, no_algorithms, no_algorithms) hmac_provider) \<rparr>"

definition stm_cal where
  "stm_cal debug (rng :: 'd stm_rng) pka (aes :: 'd stm_aes) (hash :: 'd stm_hash) =
     \<lparr> cal_dh = stm_dh debug rng pka, cal_aead = stm_aead aes,
       cal_hash = (empty_hash :: ('d, no_algorithms, no_algorithms, no_algorithms) hash_provider), cal_hmac = stm_hmac debug hash \<rparr>"

text \<open>\<open>struct Extender(EC::Base)\<close>: the device state is the base's, so \<open>new\<close> and \<open>destruct\<close> are the identity.\<close>

definition sd_new :: "'d \<Rightarrow> 'd" where
  "sd_new base = base"

definition sd_destruct :: "'d \<Rightarrow> 'd" where
  "sd_destruct extender = extender"

text \<open>\<open>T\<close> is the base's SHA-2 plumbing, \<open>C\<close> the base as a \<open>Cal\<close>.\<close>

definition sd_base where
  "sd_base T C = \<lparr> base_sha2 = T, base_hash = cal_hash C \<rparr>"

definition sd_cal where
  "sd_cal EC T C =
     \<lparr> cal_dh = cal_dh C, cal_aead = cal_aead C, cal_hash = extender_hash EC (sd_base T C),
       cal_hmac = extender_hmac (extender_hash EC (sd_base T C)) \<rparr>"

definition sd_ec :: "('d, 'sp, 'pp, 'sx, 'px, 'sh, 'ph) ec \<Rightarrow> ('d, 'sp, 'pp, 'sx, 'px, 'sh, 'ph) ec" where
  "sd_ec base = \<lparr> MAX_SCALAR_LENGTH = MAX_SCALAR_LENGTH base, ec_p256 = ec_p256 base, ec_x25519 = ec_x25519 base,
     ec_x448 = ec_x448 base \<rparr>"

definition sd_try_rng :: "('d, 'e) try_rng \<Rightarrow> ('d, 'e) try_rng" where
  "sd_try_rng base =
     \<lparr> rng_next_u32 = (\<lambda>d. rng_next_u32 base d), rng_next_u64 = (\<lambda>d. rng_next_u64 base d),
       rng_fill_bytes = (\<lambda>n d. rng_fill_bytes base n d) \<rparr>"

text \<open>\<open>Extender::<ImplementSha256Short>::new(state.cal.take())\<close> of the integration tests.\<close>

definition nrf_extended where
  "nrf_extended rng hw at_in at_out = sd_cal direct_config (nrf_sha2 rng at_in at_out) (nrf_cal rng hw at_in at_out)"

lemma nrf_extended_hash: "cal_hash (nrf_extended rng hw at_in at_out) = extender_hash direct_config (nrf_base rng at_in at_out)"
  and nrf_extended_hmac: "cal_hmac (nrf_extended rng hw at_in at_out) = extender_hmac (extender_hash direct_config (nrf_base rng at_in at_out))"
  by (simp_all add: nrf_extended_def sd_cal_def sd_base_def nrf_cal_def nrf_base_def)

lemma extended_selects:
  "hash_from_ni_id (extender_hash direct_config B) 1 = Some ExtSha256"
  "hmac_from_cose_number (extender_hmac (extender_hash direct_config B)) 5 = Some HmacSha256"
  "hmac_len (extender_hmac (extender_hash direct_config B)) HmacSha256 = 32"
  by (simp_all add: extender_hash_def extender_hmac_def ext_hash_from_ni_id_def ext_hmac_from_cose_number_def
      ext_hash_from_cose_number_def direct_config_def)

text \<open>C18: The hash, HMAC and HKDF integration tests of the nRF54L15 decide their vectors: on an engine that carries
  out SHA jobs as documented, the three drivers run on the extender over the device pass exactly when the
  vectors state SHA-256 of FIPS 180-4, HMAC of RFC 2104 and HKDF of RFC 5869.\<close>

theorem nrf_integration_verdicts:
  assumes "cracen_sha rng at_in at_out dev" "dev d"
    and "\<forall>(m, r)\<in>set hashes. length m \<le> max_message"
    and "\<forall>(k, m, r)\<in>set macs. length k \<le> max_message - 64 \<and> length m \<le> max_message - 64"
    and "\<forall>(salt, ikm, info, prk, okm)\<in>set kdfs. length ikm \<le> max_message - 64
      \<and> (\<forall>s. salt = Some s \<longrightarrow> length s \<le> max_message - 64) \<and> 32 + length info + 1 \<le> max_message - 64 \<and> length okm \<le> 82"
  shows "((\<exists>d'. tv_hash_algorithm_sha256 hashes (cal_hash (nrf_extended rng hw at_in at_out)) d = Some d')
        \<longleftrightarrow> (\<forall>(m, r)\<in>set hashes. r = sha256 m))
    \<and> ((\<exists>d'. tv_hmac_sha256 macs (cal_hmac (nrf_extended rng hw at_in at_out)) d = Some d')
        \<longleftrightarrow> (\<forall>(k, m, r)\<in>set macs. r = hmac_spec sha256 k m))
    \<and> ((\<exists>d'. tv_hkdf_sha256 kdfs (cal_hmac (nrf_extended rng hw at_in at_out)) d = Some d')
        \<longleftrightarrow> (\<forall>v\<in>set kdfs. hkdf_vector_right (hmac_spec sha256) 32 v))"
proof -
  have S: "sha2short_contract (base_sha2 (nrf_base rng at_in at_out)) dev nrf_absorbed sw_raw"
    using cracen_sha.nrf_sha_contract [OF assms(1)] by (simp add: nrf_base_def)
  have raw: "plumbed_digest (base_sha2 (nrf_base rng at_in at_out)) sw_raw = sha256" by (simp add: nrf_base_def nrf_plumbed)
  note H = direct_hash_contract [OF S, unfolded raw] and M = direct_hmac_contract [OF S, unfolded raw]
  have pos: "0 < hmac_len (extender_hmac (extender_hash direct_config (nrf_base rng at_in at_out))) HmacSha256"
      "hmac_len (extender_hmac (extender_hash direct_config (nrf_base rng at_in at_out))) HmacSha256 \<le> max_message - 64"
    by (simp_all add: extended_selects max_message_def usize_limit_def)
  have kdfs: "\<forall>(salt, ikm, info, prk, okm)\<in>set kdfs. length ikm \<le> max_message - 64
      \<and> (\<forall>s. salt = Some s \<longrightarrow> length s \<le> max_message - 64)
      \<and> hmac_len (extender_hmac (extender_hash direct_config (nrf_base rng at_in at_out))) HmacSha256 + length info + 1 \<le> max_message - 64
      \<and> length okm \<le> 82"
    using assms(5) by (simp only: extended_selects)
  show ?thesis unfolding nrf_extended_hash nrf_extended_hmac
    using hash_contract.test_hash_algorithm_decides [OF H assms(2,3)] hmac_contract.hmac_vectors_decides [OF M assms(2,4)]
      hmac_contract.hkdf_vectors_decides [OF M assms(2) pos kdfs]
    by (auto simp: tv_hash_algorithm_sha256_def tv_hmac_sha256_def tv_hkdf_sha256_def extended_selects split: if_splits)
qed

lemma nrf_integration_verdicts_witness:
  "\<forall>hw. (\<exists>d'. tv_hash_algorithm_sha256 [([1], sha256 [1])] (cal_hash (nrf_extended sim_cracen hw 4096 8192)) [] = Some d')
   \<and> (\<exists>d'. tv_hmac_sha256 [([2], [1], hmac_spec sha256 [2] [1])] (cal_hmac (nrf_extended sim_cracen hw 4096 8192)) [] = Some d')
   \<and> (\<exists>d'. tv_hkdf_sha256 [] (cal_hmac (nrf_extended sim_cracen hw 4096 8192)) [] = Some d')"
  using nrf_integration_verdicts [OF sim.cracen_sha_axioms TrueI, of "[([1], sha256 [1])]" "[([2], [1], hmac_spec sha256 [2] [1])]" "[]" _ "[]"]
  by (simp add: max_message_val)

end
