(* ===== verification/Vectors.thy ===== *)
theory Vectors
  imports Device_Cal
begin

text \<open>
  The tables of \<^verbatim>\<open>embedded-cal-testvectors\<close>, entry for entry. \<open>hex n v\<close> is the \<open>n\<close> bytes of a literal
  \<open>hex!(..)\<close> (the macro of the crate \<^verbatim>\<open>hexlit\<close>), \<open>ascii s\<close> those of a byte string literal.
\<close>

definition hex :: "nat \<Rightarrow> nat \<Rightarrow> bytes" where
  "hex n v = be_bytes n v"

definition ascii :: "string \<Rightarrow> bytes" where
  "ascii s = map of_char s"

lemma length_hex [simp]: "length (hex n v) = n"
  by (simp add: hex_def)

lemma length_ascii [simp]: "length (ascii s) = length s"
  by (simp add: ascii_def)

text \<open>The 6400-byte message the hash tables share.\<close>

definition long_message :: bytes where
  "long_message = concat
     [hex 64 0x37EBE98EF52BFB240B9AD369153AFE081BBCF9D7AE43E8BA336B8AC57E8A6DA0A3365E3008072473BF9D6EAC13E509C1619956E12A06FC696512DA091A7D4023,
      hex 64 0x2C675E737713FCF51AEA6C0316C3BDBE196132B0943DF2B013860105CE676FCE7B88D0A167D7EC72C588B7B6465A83C9EA1D748D15713455E5D0E901C3CF646A,
      hex 64 0x38A09B0002DC5AB1687F350DCA35C1A87CD404C0D529292082F77844203D86BE0BB8A9D970A9AF7BAAD8D050CBD9E024788ECA91FBED39DB930398180E393D94,
      hex 64 0x9AD7E173D9C65498339A6EC670D049058653AD48AF45CC4CBFFD30C3B54CF1B290052B1864BCAFD0ACCDF9B8E2A163134D2C982C1BBA4A3DAFEC288E3CFD0AE1,
      hex 64 0x934A6F0E39122AEBBD7A586E48D495167620708664D31C740BD868C1CCD5F0E94BAF959E81502CB00DA87330CBF149D5A8381E9EB519A8B97ACAD7A48C5B0C92,
      hex 64 0x623B861064FF1CE8455F32469381E6198C7B8ABC341357D6A4C85F7FA517C4A47DF728AC09A6645B0CA77DF7C70CD4AACAF19C280949919132DDE7993E9181E6,
      hex 64 0x47E964BA99CD6BD10B893C8D90187A5009A23D295D43BFB4CC0E583B8052AC21651B23813BFC9912EA0C574E152F42D3F1975309588A4705196598AD93E1AB1D,
      hex 64 0x82954B4A18BC56E55039B6837FD893FA2BD7C70E21A5934DC2E990379EC6E8A2445DC55D57940A14E5164273F59CD58E5F6A8281E11C09536EA22821C98AC978,
      hex 64 0x537D7A02220D1D6552AEE168A001715834596BAABF7813E1C69949B23EB4B86658FD51819EADF8A13F067CA8A791CD1D53AB69D0E43F18BD72D5D93322CC1C36,
      hex 64 0xFBE33121F5FF01905328FC7C33D452A86468663C77FC80B0195EC1ECA05A5DAEE339042B4F88A1F9371B472C6C5168C00E984937A134B282633DEA25DDE7E397,
      hex 64 0xB907B1E7D3D240A593E747007990782CF944FA078A7118FBFA793B2604FA15B82453209DAA64475D0E95E2408319E8B5CE7460F4593A19E3831A9B363B1C5DDB,
      hex 64 0xCD273995FBC61CE7502B0233B1752223352E654837181D01A929F49FAAD422C65B8AE416EF81290B02B48E222C2B8C3ED57CF0494B928C1E11AD2DA77BAACD42,
      hex 64 0x7785096AAE1CD593CC356E551BC390CD5765EA41BE30CF0266AE2E97D326C417C91E90D75F1F874555B88A14A7C5959A62F23976B77A4C754E35DFB7DDD1700D,
      hex 64 0xF85F61A62B12A9EB4644CAA7F8BA036B9F29C6315FF96C3F7148284EBE3239ECAD50641F397EA24B46E21655352A4109B61479B9DD34972779F2F1A6A1D2887B,
      hex 64 0x8FF88289B2EBDA2EFE995668879BB93C4EBB3A585AB336F70B382205AC37C383475FA12EBDDFB95B157172261597D2CB0F24F254FEFFAF75D224A3B407EB54CC,
      hex 64 0x7C8DAA5483E4A79C347252D808A5F480A35987F6F09F6C6A73BD5CFBDB76A11ED78B86442B810CB703A5DEC5874E8721AF62E386591BD39D990B3521505E1441,
      hex 64 0x00601B46DE3F50752911FF37BB18F377DE45EC4C60FC4ED8EA1717708D2D13FC9E1453A1C4A4DB9E4FBE9B74CB8DA14AD50C8C8F2EC944E10EE8E82EBB6A0819,
      hex 64 0x59B0159F043A15FA1CB59BC5E035F7623FBFAA99EA0A1D81AE8692A4019E5A5EDB3A4886C789675039FDE87222975E86C2642EB0BD48408072FAFB1A88507194,
      hex 64 0xC9BDD69F3418376A4D9E68C3B83B3F800605FF1DCF0917A6014B0DD77708B583CE3EA632746FEE0E01A10500CBA90016B4A9072847D809BB0481AE25F74F8EF2,
      hex 64 0x90C7A087AE16F505FD0DA670826A0B1174592D184E3A7E8622A5C84A30AB64AAB75FACE50B96B217E8EA335C0605C638ED1C59370BB9DED004BE428F49A79F74,
      hex 64 0xEC0FB296B3758F0B6B41930C7E029B55C8FA73CBA7DC926151D4043C6BC8A716D7DE9AE0CD3EF3AB2D19B0C813EAF12EACFB641D492B0001B2F0F699BD98E458,
      hex 64 0x1FD44C0C817646BDD77A71D8ED432F8D422812751A2F9178CF1800EE689EBF046CF9B161F9A7EF0A106CBE833398BF383288661B426FAD8D4F570A8293629EE0,
      hex 64 0x6856AF295A58585A81F87F130E6E08F723234856E874BD0ADBB2FC9E676DEAB6B9F22FAACF12E875D1259CCEA54F7294BE02A16F34C427B51A33BE8A0C460C4C,
      hex 64 0x07D51A2E7D5C0722A9FCFEFD21C265D5AA2C57AE4FE95556B5E1388EA9756A6AFB0856FB8FBE1D2BB1838BE7A95049848FA9545B616BADB753C453F266836EDA,
      hex 64 0x3C92CD592BC0925690C42CD6667F866717827EBE91D0999F9DE5F5FD6CF77F63737B65927AEBCF6CEFC7CA107FDA8447E8BEBF1F08A280D53A4B07F8E35904CC,
      hex 64 0x48CC08EDA3C63A3475924BDE1DE6ACEBAA65FEC5EE68CA22D3FE722BF33267DE628C9DB1CEDA3C78CB2F9988682D641D068023F96AABDE4E10071CDEC2080F61,
      hex 64 0x6AC30C2725AD3EFE98A69A56873615A3A3161503A4F22621986DEF597B66641D07793D97CDC9A68F85FD3890A38928462B2FBE2BC5C509631438D2E344D1CED9,
      hex 64 0xE2B71748F1B6DDF33A3E597DE3AF03CE43D305B9F5ACEFDB2B71ACC645D3B55FA3848484B7FA4CF25E71E766702F1003950BD2F45B304052861F6748A8F38175,
      hex 64 0xF1E96C91471F5A54999CC9937191B6ADC9DE0D2520D86590CD4AEAB292BA9AE474EDB5B8CAAD6EE095C9E74C0F5E5C9387559F946B2DC45DA7FA1D4C2DAE6973,
      hex 64 0xD5984841682AF25FF7FF29D9721D6C7E76776E8965B6C681BC38E85DA15954ECBCF20D7448204D9A6A477781C1564D363E4C634C36FBD3C3B50B332F1643C415,
      hex 64 0xD004EC999316E75694A8B98E2591678388DC6624058454EC3A7CE608B3F222B8BAD5CEF77095285E1D2AD746C557222DFC30605BFADAAFC4F292E931A0F0D49B,
      hex 64 0x226D99D708247879AED5B9F2CA2FE6FB414F37373F844E13865524F206C54487AED53781834B3F6EEFB248D95BA21BB60041D501F90A97A19DCD80920DF7D843,
      hex 64 0x09148E3D0892E50687C86A45A1372926E00F200053F5F436E003E35BDC10FA99D9328853BF82D2091F1F087CC37678138AC0027E73CBCC99F7FE37939C98114F,
      hex 64 0xC7380C0AD1A26E3F5EC00BC7EAE77045A55C62C18117879389C662837415852E7A2D01AC667A226FEDB2596E3E137A83DAEC2712A65E8CEC3E644E738D11BDFE,
      hex 64 0x9B19517FA593546373FDDCB9E681FC97D1763BB9092A456CC0DFE1AA0E132387D105E3CCB7746EE199AA7AF00BB96047310585FED40219DAB43F057220A41E90,
      hex 64 0xC5F89FDAC4A5D6B207C01D5AD4440C5CA29EED292C6F7000C58DA111EB4B16E31EFA6DF3F3AFF69E6447AC406AA96A9ECE4B5B813BF8B3A499D09CD096907346,
      hex 64 0x8513355D6C19346C58480FEAF470E0D45A13B74F2925488FD810E0F74AFB9E82A24CDF61586BFAE68DC92EA09B22D8C8F1FFE9DB1E7E98892B5554CE2E15FD5F,
      hex 64 0x1CAC5347DF2EAFD2A8D5F1AA8746B9403915DA6D418C0B5A3AA8E09D6B65F9A49C3B7A5728E9BAF95471404FDF64EB05DA5F704DBAD60AC9AC106CAB2873FB1B,
      hex 64 0xC9023AD95C24852337A703D9CC04D6DF7DE594C3B2E4FB9F2996E0418EC8698A4C087C14A2687717F97E228E75AFE295CAAE2F16513F47A45B4124A7C5EBACBA,
      hex 64 0xCC562951233BF89F43FF85B703EC77F168C2278FBE6E57A0E7192125F4642D73F2F227D806287081BD30149B9D44FDB90029667622F9925B7826BD0343BC537C,
      hex 64 0x66E660F174B447860E1BB8846C3EDCB639EBD213A4695F9CB471E188DB7A859FCF3ABAE49569E676DEC857B897627CB0BC1155AD6D45282D430176FDE4262DA2,
      hex 64 0xD5F41FF890CEB319D73DDA804738456F30A3D68DA41554D4CEDE62AA8549B24E211E76768E6B17379F842A24A449A0BA3EA73CFC72624B5AFD118FD7E76A7C6B,
      hex 64 0x5BBFA7A6B6C97B97DEA52DECD51CF35A8E277140FFB2748777A1E3CC3211F3C12BE099D0316F45023DA6CD200339A718C72A5CA172903922E59648D08DC67F17,
      hex 64 0x3788363C26E5DF406391F107552925BA91B9E569F38101F5EEF9A52D201288372ABF6532BEB4AF19FA6D81EAF473D40896DBF4DEAC0F35C63BD1E129147C76E7,
      hex 64 0xAA8D0EF921631F55A7436411079F1BCC7B98714AC2C13B5E7326E60D918DB1F05FFB19DA767A95BB141A84C4B73664CCEBF844F3601F7C853F009B21BECBA11A,
      hex 64 0xF3106F1DE5827B14E9FAC84B2CBF16D18C045622ACB260024768E8ACC4C0AE2C0BD5F60A98023828CDEC18ED8DC298A306C38D1ECE01509F3265B5F8CBF441F0,
      hex 64 0x525097E8B48234BF69F65CF402C7540A023ED231EF95B222A900EA4BFAEEC02C6D8B3B01648AD7A165237CA6B557B1CE287B0EA137F4EF54534070EE793695A9,
      hex 64 0x078EC89BCEA389956878614CCBF917B61F8427B7CDA870FDD92D2D297154262FC65F28FF1A54B2651AFFF12D6F36EE8C906107BBDA399CE5E2CF0A430AD0DD86,
      hex 64 0x520841757126BAD725BF1593C7959F16221894F5852DDAD3172FEF866B3321755491FD44FBA009B42EC0B6C4FB9E901D7EB3B8ACF70E94911F54C538BD0559C5,
      hex 64 0x740042B6DF4A07C3E00BBA0934D92A684B39592A576331E5A44672A227CCEF3E595FFA1146AC1DCEE0A70BAA9ACFD5C132B361B5CEB519984B0EE00CD2124AA8,
      hex 64 0xACB50C9E574FB19BD99C8FEF5407FAEEDB28B796848BB372BEB3F5BDE55ED2CB140B60A53BBA2DF471F330208B09FFB8EDA04315A06D693AA53D9BFF8939EF6F,
      hex 64 0x3A68DE6E1975F79F50B3D484665E4EE71124ED794BE3A2BAA7B5B918E62A095BC5D46E401A0979641FE465640E8D4D43EEBA9D0CAC76C7B86D22375123B98858,
      hex 64 0x5E58F86566FD190D868ECA08AA1E66932D6D3B14ECAD3EFD9F8CFCF2696ED42EADFA642324D941602CBAEBB8639A00A17542AFDA32117051E4FBF243DFD255A5,
      hex 64 0x59C49AC37C265827BA70B0BC618882336F43E1A6A729C57BE478008CAE6C74840BBE828C976AC628D7B6015BCB705612C277BAC0727DA645480A0E14FDC49795,
      hex 64 0x6AEF05C89D30F22C2C96C6DFC9DAE30617E6206FBD957975B8BA0524F563289E1F5F09BDB6FD46FA6117E78E854F91D71699FCFCADFAA7D4DB8FCB04BED08D68,
      hex 64 0xD11677B5085B295C1D414CB12456C84C669737AF6C33992A5A9149FC7F9330BB291D38F6BED10318081DDE8FD178F02EB0E8B7D022C8B63FDCC867546035775F,
      hex 64 0xCF7B32C8FEE83DF7CBB28372B23C71459B9566A7F64165DA0A3D0E538A3DCC1B6A384F75F0263DC10E0924A0EF2AB459D0A52B7C112710C58CF72442253396B8,
      hex 64 0xA25D7644BE166C3E7828AA62B1CA1F32F620ED969B021EC609FE926958A03CFF21F08F7C8D3D3235B219FB0020A51B97B60F963EBB58F7A62A5B41104C0B28B5,
      hex 64 0x8CFC81668825F87064E401C263421152B8790DBC99B3032C9615187F29FCC1A58E86364AD45524B5358FA2F0A3296729A3663A585E9AA922F534FEFD16FB6F96,
      hex 64 0xCD9895709C5520CDCD24C8D107E387E520DE055A3296544EF1C1DDD43B919A4FF139861F06AE5280D5AA5AAEB8F7D74ED6EA56093C2E697A30C29C4AC145AA99,
      hex 64 0xA372F1A03AE72495F52A40CFDDEDC12B6E9115AEA5EA516C5A4223A8D0A0073C8B4ABE3C6188FDD6D4AB627C9F4EAB468FDC2A91945274ED18465A368F291A00,
      hex 64 0x50C9D638A31944091B35A8FD26A1FF65E2D17DFA32EF3AC412D8293B276849AD9AF71FDF272363F771D0FA99996E24510E7BF731A7480CBBEFFF7801C0E5FD0A,
      hex 64 0x13DD8278162EC1687F85409A203E82D2BCDF7E7D1AE5509857C42FCE80299FE06182E74A97C0C624ED5B6246E59781AF9407FB28B34F7024F42D36EB92BB95F7,
      hex 64 0x2CEE379ED363DAF2625B48E60D0489B23DFA57789C0DD2276B4575A01C2349171D2A58BCF29E659B868CDAC1C30A02A160C078B6FAA7E0696711D43447EA2108,
      hex 64 0xDB3D34EC1BF9CFE802F601212D335445A4624829F8A600B18E9B3CF13A9787910F2FB27676FD809E7EA1A34C7306E766B2E7AE1BBB919CC888EA931D1EB2E27C,
      hex 64 0x6109B9A12C31E188A196A98BBE0B24CC315791D26EF01B77FE06C3011AC39A8F78D233B7651E586D14DCFC2636CB713ECABADB97374CE58498F8B2E557531793,
      hex 64 0xFD9207FE484A4E147F7B826502CD3785251973B23E2B62B7FDC74A10FCE9C04F97511DBFFE3F2C46887C25904B99DF69E97B416BAC18FADAD67B71CC320EFF8D,
      hex 64 0xEF185D41AE8558CBDAE6CCEE38B8CFB2BFE92D0AA99815B3CA1D115F21493B13ADEEAFCE81A23C6B1BC15FC8F2B171284E6A1FD65C351B0C82B31112F022DDAA,
      hex 64 0x78DCFBAC9F203EEEF415C566A00C2C933F06FF18EE7674ABA548592DC8214B1AF8E929242F87C81B0CEBE8106B5267BA39C5B51987E38858DCE1D1F8D0CFEE2B,
      hex 64 0xD61D217E5A5D41BB0C4AAF0E7B0A8C66E5B0291E4D05BFDDCF8861BB31B32EA5BA80CB02472C11969B3B02A7F7BC025FEACE44726B6382012544F1BD1256744F,
      hex 64 0x4B1B0FF81F7B9F7462C5C92507F1316DF228EC5C0786378B871E69479C3E26F232F5D6A709D3551D08F0ECCED52F8158A2C40A234AF448449C1CB1A1F6F5AE56,
      hex 64 0x171606582EBB9A5836C454EB86015AE7A4AC87105B371BF40D49B1134A037243A0878953B5BBD6EF944AE7C345EC24E4A0E8496B62D71A6381AA52E5BDEEDC81,
      hex 64 0x784F45E0C75B72A8C9898EA0387A47153D7E3A7C895AAB58A1497A5E794052D7457624478C24D44C7E8932C887322B422478418AF64A389C152D12C7A6803E0F,
      hex 64 0xB0050DCF2B9D65A35A53B9845B9C3835FDDD45DFD12E28F8845E03686B3707EF6003E7C1CD4F8D7406EE0D1CDC41D7B56FB630C1438FE33196E53389F1EC1540,
      hex 64 0xFE789C6599C0B589296214D831A86E89220AE97974F4D112F4C98C726027D0C9316D1303B87A43A86CB8B800835A677ABFE1584E8BE55A624612F56BDF71A054,
      hex 64 0xA2E834E35105A19A77F7DFDBF9DD2850EE44658AB0EAE6E833C855BB9650EDA7F8F4E74D8DE73526F12773B2BCBB1BD35639F8730D8CDD6D64F496ABAE4E1F8C,
      hex 64 0xDC96148894AA691683515BCDF37BA6CAA0CBF953C752A7B9819E9F834FF39EC8F6D8A3DD8DD5A431D47C7F74C7A633FF73FF507009C5AC9431CC588BA0C6D226,
      hex 64 0xEDC17C94A0F14D3E8DB0C7EF60C3293878DFE513F96B54C61C88A90ACA4F246D6A5988F5F785CE0655F51B85E55AF03E5772A083BFCF0816EBD97A4AF416FA64,
      hex 64 0x14A9AD47B7198E51D55463807EF4F0D9B7C06A0A84762E4E46C8B39147A4BDD594B8D4D40B36F5E6B4D48726551890D040D229EE70EA3034D45B3C28EB80D686,
      hex 64 0x918FE6E219636B8F9B7E6FC08F4E3BED9BAFC778AAB274913E9CFD570732AB3FB434C9BA0928581232580495571E56F6705F2AF05B56642C2B93DF65C443A6CA,
      hex 64 0xA5B167A4040D2438206D2CEFD3114AB466EB3C9EAA5E66CF4447C89C493A2EEE0B0EA6E7329B37C90EC2D0142BAE7FEF265AE3C9C053E44031C0A142BF9FAA72,
      hex 64 0x8E5170CDBA59FA8DA361D94D887D5D6F58B409BBC4BD4548990653A04DFB841FD784AC9CC4CFD34C88512DE212074DFBA30295BADF22F1AF2522C5FE1CD423BD,
      hex 64 0x8EAE429D7A862BCD649AB61BF0D3B55DAF4B6F0F390C503D7C1BDEA453B5EF145BD8191802056BD9E0455A404B6AFE5B25977F02F902CABA46F988D91B2350EB,
      hex 64 0xE4091B5584D4F938A45803984A5291BEADEEADDA488DC7ED2DC4AAE69CA8AE0BD4492F9B297C3FB257DE986C1615D44DEE59E1E14D34AF9FD7852B13FDCB713D,
      hex 64 0xD1A03D341884A30EA1DC0104D63A31D291DF035D317FEA98EC44F5A86715014783172E667A748F162C5C26A8B34A0F133D89FB971BF6E0A01507EFED010CC7F1,
      hex 64 0x94B5E87A77D56A909D65EFA0D5CCD6DA9B5EB1D73422F97FFAD8012AF43A2905A98354B8362E9C459F0044336348EDED53660D65A38A9EFC42BE13A667279049,
      hex 64 0x6D875A67E0078DFDD8340DAB8547BE140CA9F88891B635E195C20DAA8359658785CBE3D09CE8A580F009324E6550B0196E305889262F28F49DEAD77E6F5A0E85,
      hex 64 0x9C57D53C935A4C9590879B6528EB2BC3230217B0897CDDFEFF405A6A54B2F50C58311AF1EDE4EA0660B73037F9A097D9D0271B45E325BEC666CC7CB65AE780E3,
      hex 64 0x61639838D10FE79907A0DA0EFEF85D2420A84E905BB33116789526A9A88319D460F539586762AB172E4A7F305F7AE36CB88C96D91AADA0B4DDA3418C670E27A5,
      hex 64 0xFDEDE39BD8659E477CBE08E645AF927843DBDD67489B72693EFEB3A7BE0E121FDF5580474CA028F39A035E78D81DD212679D0A830C050FFD43AF6642D60D410A,
      hex 64 0xAF34F7A5EA9CB2E12F21672E3F4E0C00CCDB05758E74DF3893BD40A5D7921E2E149330FDDBE0A2DAE4210D50A3CAA60B1B9DB685F7704AE2D7302B18E8261052,
      hex 64 0xB779139747F462A6610A37252B170AFBFCE905FB6F7FB8C2B6100EE231507F403FEE88BA5561580D4DE4CDF600BF9E9816C9DA1E1D2B91A1D966D04CDB98D3BE,
      hex 64 0x55FB77AF2DAEEED750B8B60B494ACCAA12441D372AFB3D47E7395B9E0E867595A1A6C8BFF8638BCB138DDCAC2F3EFBF89762B68EBD77247C89929620F1A3CB8D,
      hex 64 0xCAF9632FDE0996B33E6B2621DA25924B4E2C8D6BFF28AE0867786919AD763E6D79FC304A06277955795A7CB17186FB6BDFA98A16189544B228F3BCD3698737FF,
      hex 64 0x55B6185799459B796A63C6A61CEA9D20F1E296D62F474C43750B77944E5F1C09072F019DBEEB64E9BC8DEC4605D8E0322CDD97F56CC43084F5C983A584855654,
      hex 64 0x366FD5659EA23C6C15E1D7DA51D82C683AA477B9F896563A5134C64E32814EA88B7F7AF760F18BC91E656DA92B72E98BC03F1C6BFB442830305529D681DC6BCC,
      hex 64 0xAE66DA9B2E61B9C97E2397FDB92F7F6369B470529C570C2D3B329487981D148A462CDB992D792E34DD233E1C239657B8DA0D59B804566CF81AD5F0A7A0CCB3A8,
      hex 64 0xFBDA673887C153D2E56C484F9230D752BE52C1E35BC9AF5A7446237FC072AFEF777665C264C18E6A3C059FDE2E8368F9BB898F1CC8393D1BF18B175721967027,
      hex 64 0x5F0BBC7DEB0248C68AF929111E19737479BCABAB732D7E033AAEB277EAC05E185E9E56B2450BEAAC784DD0308B7A5E8CA1F2FCD8852DDAD9F7B7DE264478E189,
      hex 64 0x1A391AA89964DAE5AD0B7A829C2C9209DB346CEB26C1B967CFAC82AD574761443BE3F0A910968239D23B11507AB978B3CE89E22B7D7283736B9786544AB4460F]"

section \<open>Hashes\<close>

definition SHA256HASHES :: "(bytes \<times> bytes) list" where
  "SHA256HASHES =
     [([],
       hex 32 0xE3B0C44298FC1C149AFBF4C8996FB92427AE41E4649B934CA495991B7852B855),
      (ascii ''hello world'',
       hex 32 0xB94D27B9934D3E08A52E52D7DA7DABFAC484EFE37A5380EE9088F7ACE2EFCDE9),
      (hex 1 0xD3,
       hex 32 0x28969CDFA74A12C82F3BAD960B0B000ACA2AC329DEEA5C2328EBC6F2BA9802C1),
      (hex 2 0x11AF,
       hex 32 0x5CA7133FA735326081558AC312C620EECA9970D1E70A4B95533D956F072D1F98),
      (hex 3 0xB4190E,
       hex 32 0xDFF2E73091F6C05E528896C4C831B9448653DC2FF043528F6769437BC7B975C2),
      (hex 4 0x74BA2521,
       hex 32 0xB16AA56BE3880D18CD41E68384CF1EC8C17680C45A02B1575DC1518923AE8B0E),
      (hex 5 0xC299209682,
       hex 32 0xF0887FE961C9CD3BEAB957E8222494ABB969B1CE4C6557976DF8B0F6D20E9166),
      (hex 64 0x5A86B737EAEA8EE976A0A24DA63E7ED7EEFAD18A101C1211E2B3650C5187C2A8A650547208251F6D4237E661C7BF4C77F335390394C37FA1A9F9BE836AC28509,
       hex 32 0x42E61E174FBB3897D6DD6CEF3DD2802FE67B331953B06114A65C772859DFC1AA),
      (long_message,
       hex 32 0x33B6229592CA719E4E46F35B287617FEDADD3B7C38BE3C8C1C9F446D2D9085B3)]"

definition SHA3_224_HASHES :: "(bytes \<times> bytes) list" where
  "SHA3_224_HASHES =
     [([],
       hex 28 0x6B4E03423667DBB73B6E15454F0EB1ABD4597F9A1B078E3F5B5A6BC7),
      (ascii ''hello world'',
       hex 28 0xDFB7F18C77E928BB56FAEB2DA27291BD790BC1045CDE45F3210BB6C5),
      (hex 1 0xD3,
       hex 28 0x2FAB91FA90654D83F46A522BE94A963ACE18D81DF73EE6353824A748),
      (hex 2 0x11AF,
       hex 28 0x4E6EAFE200AAF42BD5EC696EE4B454EDC0EBB8C252989E49EFFBC18E),
      (hex 3 0xB4190E,
       hex 28 0x59BEA8852C4C3D73F3293603D08151CE36E74B5AF9EAC1A5D69CA677),
      (hex 4 0x74BA2521,
       hex 28 0xB9DCE175CBB874155F6D15A9C785815BF19E59D9687DAB64B226AA8D),
      (hex 5 0xC299209682,
       hex 28 0x626F163E9527E501AA31484A52CF53245D89B69C08B72A358454B137),
      (hex 64 0x5A86B737EAEA8EE976A0A24DA63E7ED7EEFAD18A101C1211E2B3650C5187C2A8A650547208251F6D4237E661C7BF4C77F335390394C37FA1A9F9BE836AC28509,
       hex 28 0x26BF82035B0A26C0BBA29E06275F421E9D8E39235B361CDEE7692245),
      (long_message,
       hex 28 0x63D1D742E14CC8D9FFDF94E8A6535F49C06F3A018ED41A6753E2FDAD)]"

definition SHA3_256_HASHES :: "(bytes \<times> bytes) list" where
  "SHA3_256_HASHES =
     [([],
       hex 32 0xA7FFC6F8BF1ED76651C14756A061D662F580FF4DE43B49FA82D80A4B80F8434A),
      (ascii ''hello world'',
       hex 32 0x644BCC7E564373040999AAC89E7622F3CA71FBA1D972FD94A31C3BFBF24E3938),
      (hex 1 0xD3,
       hex 32 0xABBC26A5AF725C5513B73F9D6FDFD3BA9B3B9A33875909D2E7AAB7D7B8BB8FBD),
      (hex 2 0x11AF,
       hex 32 0xE251E29B29FFFAB7866B979CECD52A35270C0F07F801A6E59FC5B6D23558A8F4),
      (hex 3 0xB4190E,
       hex 32 0x9449524E53B3B7074DE547E0B7DC2AC42D6E3E26E505976DB809CA5E383AE9E1),
      (hex 4 0x74BA2521,
       hex 32 0xBD755E66CE5845F41CCD56C4D29ED596E48D7F306B72D912E3872B836C9E75D2),
      (hex 5 0xC299209682,
       hex 32 0xFA753545C510BAA0D950AB107D43341D4120FFF6DA0CE4055F4E8B7BC2781429),
      (hex 64 0x5A86B737EAEA8EE976A0A24DA63E7ED7EEFAD18A101C1211E2B3650C5187C2A8A650547208251F6D4237E661C7BF4C77F335390394C37FA1A9F9BE836AC28509,
       hex 32 0xB660A678C9CF978DD7E12F30E64581D4F6F7B01C6D124E73CE2D1836E9411372),
      (long_message,
       hex 32 0x58EB87DFAC5F55FE50A22F18D53FFBB3422D1361D50E8BAD508BDD3CA2C9BE61)]"

definition SHA3_384_HASHES :: "(bytes \<times> bytes) list" where
  "SHA3_384_HASHES =
     [([],
       hex 48 0x0C63A75B845E4F7D01107D852E4C2485C51A50AAAA94FC61995E71BBEE983A2AC3713831264ADB47FB6BD1E058D5F004),
      (ascii ''hello world'',
       hex 48 0x83BFF28DDE1B1BF5810071C6643C08E5B05BDB836EFFD70B403EA8EA0A634DC4997EB1053AA3593F590F9C63630DD90B),
      (hex 1 0xD3,
       hex 48 0x6BBC193985CF932337B49664002BBF62F811C4B8551D126E717FC11AF9D41DEB7762CE1B45788F0B35DEEEC362ED3B69),
      (hex 2 0x11AF,
       hex 48 0xB1B500A490532572A866D2FAB1178BE449182917E32ADB7CB1149644303A219CC01547289B019049A1AAADCA9F3BF3EB),
      (hex 3 0xB4190E,
       hex 48 0x6A108A263E37B91BB92EABCC99E99AA432EE80153859430601A72DD833D85B793632CA643A2BAB471E999046E59DD77B),
      (hex 4 0x74BA2521,
       hex 48 0x8DD925EFB1ADFAE31F3CA240F0527D8DF0A5A88365523B4F55D6D378C96B16D92C7F8CA11CDB09053FBE645B71426E2E),
      (hex 5 0xC299209682,
       hex 48 0x2910E0DAD284E2B95B37B68781D502A1EDB58E3CC79F5F0F656C403B8D7E9866834E7EB1D5F7FE0A43334BC0021CEA69),
      (hex 64 0x5A86B737EAEA8EE976A0A24DA63E7ED7EEFAD18A101C1211E2B3650C5187C2A8A650547208251F6D4237E661C7BF4C77F335390394C37FA1A9F9BE836AC28509,
       hex 48 0xA4D9B60E87B174B505EA91B272CA6E56068C029003D538629C4C529FFD5C07AB2A18BBCAB9AED2921A5CAD0172F03A84),
      (long_message,
       hex 48 0x20234F27AB35E6196D5CC095F4F47C0E3A2094C4A95F8B635CBC8DD7CC24DC6FF7AB0DDEE6B5D81C0E2FF99DF32579EB)]"

definition SHA3_512_HASHES :: "(bytes \<times> bytes) list" where
  "SHA3_512_HASHES =
     [([],
       hex 64 0xA69F73CCA23A9AC5C8B567DC185A756E97C982164FE25859E0D1DCC1475C80A615B2123AF1F5F94C11E3E9402C3AC558F500199D95B6D3E301758586281DCD26),
      (ascii ''hello world'',
       hex 64 0x840006653E9AC9E95117A15C915CAAB81662918E925DE9E004F774FF82D7079A40D4D27B1B372657C61D46D470304C88C788B3A4527AD074D1DCCBEE5DBAA99A),
      (hex 1 0xD3,
       hex 64 0xC2DF1B5669A7EEFD8DFECAE258039918B95647910F1B6FE96BBBD44099541F285CCDBD68AF59FFE782A2A6DA63F7BBC8FB805167CFA1CAE90B14A38FDDA9F714),
      (hex 2 0x11AF,
       hex 64 0xC6BBFD2FDB7FE7BD26D0FA5CD98D27DB0F911EDC8BFBF32EE22B54688B18E023F3A03BD841E465A4E2B171FD6B0DEA56F3A8DD36C2027F10E53AA4C125E7A785),
      (hex 3 0xB4190E,
       hex 64 0x3287C9C2BD8B06C53174B2ADDB43D02F2AFDE60C3A6B098321E0431FD9F544CC1A343C9651AADA8494261057CD01F4DCA1AC4114AC989A3EA73E47759AC57F35),
      (hex 4 0x74BA2521,
       hex 64 0x60E6165897EB05DC2071EC8EA298C7EF75122494298FBBA89945D7DBA3C0876C2E9D97BA0F50C1EA8A6119C80B8D1F16E0F8FD87AA358337A077E59C365EBA1B),
      (hex 5 0xC299209682,
       hex 64 0xAF0C816B594F84E8434A8F6B6FAA6EE5A220FBD9A040B59BC141A60B37B24FE2847E1E7600B741D40FD41D97E597F8E3BF1948CEA96B3A8292F96A93635BE7BF),
      (hex 64 0x5A86B737EAEA8EE976A0A24DA63E7ED7EEFAD18A101C1211E2B3650C5187C2A8A650547208251F6D4237E661C7BF4C77F335390394C37FA1A9F9BE836AC28509,
       hex 64 0xB738ED212063C88EBF88E2E8F74D203B00CEF7AB3E1197CC7D749F70474054CB1EE1FEA359A4E96F6C7022051EED5754145A19F8562061ED6BCB1A2F91F15CD5),
      (long_message,
       hex 64 0xCBA27678D64A6EC2228768445A6CCAC624F7AFD7F76A6F826AC9E70CAA17272987DD5297620D8AA6FF6231452DEDD01F615304A92D17277D27CD5E218F2C9687)]"

section \<open>HMAC and HKDF\<close>

definition HMAC_SHA256 :: "(bytes \<times> bytes \<times> bytes) list" where
  "HMAC_SHA256 =
     [(hex 20 0x0B0B0B0B0B0B0B0B0B0B0B0B0B0B0B0B0B0B0B0B,
       ascii ''Hi There'',
       hex 32 0xB0344C61D8DB38535CA8AFCEAF0BF12B881DC200C9833DA726E9376C2E32CFF7),
      (ascii ''Jefe'',
       ascii ''what do ya want for nothing?'',
       hex 32 0x5BDCC146BF60754E6A042426089575C75A003F089D2739839DEC58B964EC3843),
      (hex 20 0xAAAAAAAAAAAAAAAAAAAAAAAAAAAAAAAAAAAAAAAA,
       hex 50 0xDDDDDDDDDDDDDDDDDDDDDDDDDDDDDDDDDDDDDDDDDDDDDDDDDDDDDDDDDDDDDDDDDDDDDDDDDDDDDDDDDDDDDDDDDDDDDDDDDDDD,
       hex 32 0x773EA91E36800E46854DB8EBD09181A72959098B3EF8C122D9635514CED565FE),
      (hex 25 0x0102030405060708090A0B0C0D0E0F10111213141516171819,
       hex 50 0xCDCDCDCDCDCDCDCDCDCDCDCDCDCDCDCDCDCDCDCDCDCDCDCDCDCDCDCDCDCDCDCDCDCDCDCDCDCDCDCDCDCDCDCDCDCDCDCDCDCD,
       hex 32 0x82558A389A443C0EA4CC819899F2083A85F0FAA3E578F8077A2E3FF46729665B),
      (concat [hex 64 0xAAAAAAAAAAAAAAAAAAAAAAAAAAAAAAAAAAAAAAAAAAAAAAAAAAAAAAAAAAAAAAAAAAAAAAAAAAAAAAAAAAAAAAAAAAAAAAAAAAAAAAAAAAAAAAAAAAAAAAAAAAAAAAAA, hex 64 0xAAAAAAAAAAAAAAAAAAAAAAAAAAAAAAAAAAAAAAAAAAAAAAAAAAAAAAAAAAAAAAAAAAAAAAAAAAAAAAAAAAAAAAAAAAAAAAAAAAAAAAAAAAAAAAAAAAAAAAAAAAAAAAAA, hex 3 0xAAAAAA],
       ascii ''Test Using Larger Than Block-Size Key - Hash Key First'',
       hex 32 0x60E431591EE0B67F0D8A26AACBF5B77F8E0BC6213728C5140546040F0EE37F54),
      (concat [hex 64 0xAAAAAAAAAAAAAAAAAAAAAAAAAAAAAAAAAAAAAAAAAAAAAAAAAAAAAAAAAAAAAAAAAAAAAAAAAAAAAAAAAAAAAAAAAAAAAAAAAAAAAAAAAAAAAAAAAAAAAAAAAAAAAAAA, hex 64 0xAAAAAAAAAAAAAAAAAAAAAAAAAAAAAAAAAAAAAAAAAAAAAAAAAAAAAAAAAAAAAAAAAAAAAAAAAAAAAAAAAAAAAAAAAAAAAAAAAAAAAAAAAAAAAAAAAAAAAAAAAAAAAAAA, hex 3 0xAAAAAA],
       ascii ''This is a test using a larger than block-size key and a larger than block-size data. The key needs to be hashed before being used by the HMAC algorithm.'',
       hex 32 0x9B09FFA71B942FCB27635FBCD5B0E944BFDC63644F0713938A7F51535C3A35E2)]"

definition HKDF_SHA256 :: "(bytes option \<times> bytes \<times> bytes \<times> bytes \<times> bytes) list" where
  "HKDF_SHA256 =
     [(Some (hex 13 0x000102030405060708090A0B0C),
       hex 22 0x0B0B0B0B0B0B0B0B0B0B0B0B0B0B0B0B0B0B0B0B0B0B,
       hex 10 0xF0F1F2F3F4F5F6F7F8F9,
       hex 32 0x077709362C2E32DF0DDC3F0DC47BBA6390B6C73BB50F9C3122EC844AD7C2B3E5,
       hex 42 0x3CB25F25FAACD57A90434F64D0362F2A2D2D0A90CF1A5A4C5DB02D56ECC4C5BF34007208D5B887185865),
      (Some (concat [hex 64 0x606162636465666768696A6B6C6D6E6F707172737475767778797A7B7C7D7E7F808182838485868788898A8B8C8D8E8F909192939495969798999A9B9C9D9E9F, hex 16 0xA0A1A2A3A4A5A6A7A8A9AAABACADAEAF]),
       concat [hex 64 0x000102030405060708090A0B0C0D0E0F101112131415161718191A1B1C1D1E1F202122232425262728292A2B2C2D2E2F303132333435363738393A3B3C3D3E3F, hex 16 0x404142434445464748494A4B4C4D4E4F],
       concat [hex 64 0xB0B1B2B3B4B5B6B7B8B9BABBBCBDBEBFC0C1C2C3C4C5C6C7C8C9CACBCCCDCECFD0D1D2D3D4D5D6D7D8D9DADBDCDDDEDFE0E1E2E3E4E5E6E7E8E9EAEBECEDEEEF, hex 16 0xF0F1F2F3F4F5F6F7F8F9FAFBFCFDFEFF],
       hex 32 0x06A6B88C5853361A06104C9CEB35B45CEF760014904671014A193F40C15FC244,
       concat [hex 64 0xB11E398DC80327A1C8E7F78C596A49344F012EDA2D4EFAD8A050CC4C19AFA97C59045A99CAC7827271CB41C65E590E09DA3275600C2F09B8367793A9ACA3DB71, hex 18 0xCC30C58179EC3E87C14C01D5C1F3434F1D87]),
      (None,
       hex 22 0x0B0B0B0B0B0B0B0B0B0B0B0B0B0B0B0B0B0B0B0B0B0B,
       [],
       hex 32 0x19EF24A32C717B167F33A91D6F648BDF96596776AFDB6377AC434C1C293CCB04,
       hex 42 0x8DA4E775A563C18F715F802A063C5A31B8A11F5C5EE1879EC3454E5F3C738D2D9D201395FAA4B61A96C8)]"

section \<open>AEADs\<close>

definition AES_CCM_16_64_128 :: "aead_case list" where
  "AES_CCM_16_64_128 =
     [\<lparr> ac_alg = AES_CCM_16_64_128_ALG, ac_key = hex 16 0xF0910ED7295E6AD4B54FC793154302FF,
       ac_nonce = hex 13 0x4622D4DD6D944168EEFB549868,
       ac_aad = hex 20 0x8368456E63727970743040488501810A40411440,
       ac_plaintext = hex 5 0x01B3747631,
       ac_ciphertext = hex 5 0x612F1092F1,
       ac_tag = hex 8 0x776F1C1668B3825E \<rparr>,
      \<lparr> ac_alg = AES_CCM_16_64_128_ALG, ac_key = hex 16 0xC0C1C2C3C4C5C6C7C8C9CACBCCCDCECF,
       ac_nonce = hex 13 0x00000003020100A0A1A2A3A4A5,
       ac_aad = hex 8 0x0001020304050607,
       ac_plaintext = hex 23 0x08090A0B0C0D0E0F101112131415161718191A1B1C1D1E,
       ac_ciphertext = hex 23 0x588C979A61C663D2F066D0C2C0F989806D5F6B61DAC384,
       ac_tag = hex 8 0x17E8D12CFDF926E0 \<rparr>,
      \<lparr> ac_alg = AES_CCM_16_64_128_ALG, ac_key = hex 16 0xC0C1C2C3C4C5C6C7C8C9CACBCCCDCECF,
       ac_nonce = hex 13 0x00000004030201A0A1A2A3A4A5,
       ac_aad = hex 8 0x0001020304050607,
       ac_plaintext = hex 24 0x08090A0B0C0D0E0F101112131415161718191A1B1C1D1E1F,
       ac_ciphertext = hex 24 0x72C91A36E135F8CF291CA894085C87E3CC15C439C9E43A3B,
       ac_tag = hex 8 0xA091D56E10400916 \<rparr>,
      \<lparr> ac_alg = AES_CCM_16_64_128_ALG, ac_key = hex 16 0xC0C1C2C3C4C5C6C7C8C9CACBCCCDCECF,
       ac_nonce = hex 13 0x00000005040302A0A1A2A3A4A5,
       ac_aad = hex 8 0x0001020304050607,
       ac_plaintext = hex 25 0x08090A0B0C0D0E0F101112131415161718191A1B1C1D1E1F20,
       ac_ciphertext = hex 25 0x51B1E5F44A197D1DA46B0F8E2D282AE871E838BB64DA859657,
       ac_tag = hex 8 0x4ADAA76FBD9FB0C5 \<rparr>,
      \<lparr> ac_alg = AES_CCM_16_64_128_ALG, ac_key = hex 16 0xC0C1C2C3C4C5C6C7C8C9CACBCCCDCECF,
       ac_nonce = hex 13 0x00000006050403A0A1A2A3A4A5,
       ac_aad = hex 12 0x000102030405060708090A0B,
       ac_plaintext = hex 19 0x0C0D0E0F101112131415161718191A1B1C1D1E,
       ac_ciphertext = hex 19 0xA28C6865939A9A79FAAA5C4C2A9D4A91CDAC8C,
       ac_tag = hex 8 0x96C861B9C9E61EF1 \<rparr>,
      \<lparr> ac_alg = AES_CCM_16_64_128_ALG, ac_key = hex 16 0xC0C1C2C3C4C5C6C7C8C9CACBCCCDCECF,
       ac_nonce = hex 13 0x00000007060504A0A1A2A3A4A5,
       ac_aad = hex 12 0x000102030405060708090A0B,
       ac_plaintext = hex 20 0x0C0D0E0F101112131415161718191A1B1C1D1E1F,
       ac_ciphertext = hex 20 0xDCF1FB7B5D9E23FB9D4E131253658AD86EBDCA3E,
       ac_tag = hex 8 0x51E83F077D9C2D93 \<rparr>]"

definition AES_CCM_16_64_256 :: "aead_case list" where
  "AES_CCM_16_64_256 =
     [\<lparr> ac_alg = AES_CCM_16_64_256_ALG, ac_key = hex 32 0xBAE73483DE27B581A7C13F178A6D7BDA168C1B4A1CB9180512A13E3AB914EB61,
       ac_nonce = hex 13 0xDAF54FAEF6E4FC7867624B76F2,
       ac_aad = hex 32 0x7022EAA52C9DA821DA72D2EDD98F6B91DFE474999B75B34699AEB38465F70C1C,
       ac_plaintext = hex 24 0x28EF408D57930086011B167AC04B866E5B58FE6690A0B9C3,
       ac_ciphertext = hex 24 0x356367C6CEE4453658418D9517F7C6FADDCD7C65AEF46013,
       ac_tag = hex 8 0x8CF050F48C505151 \<rparr>,
      \<lparr> ac_alg = AES_CCM_16_64_256_ALG, ac_key = hex 32 0xBAE73483DE27B581A7C13F178A6D7BDA168C1B4A1CB9180512A13E3AB914EB61,
       ac_nonce = hex 13 0xDAF54FAEF6E4FC7867624B76F2,
       ac_aad = hex 32 0xA61B6C1F0293A7C35520ABF158A995E5AE59B43EC5F38FF6FD6529970C9F83AC,
       ac_plaintext = hex 24 0x1C5AD37D2A55AFBC390B27CDE0C42D6651FE191239BFAA27,
       ac_ciphertext = hex 24 0x01D6F436B322EA0C6051BC2237786DF2D76B9B1107EB73F7,
       ac_tag = hex 8 0x6BCA352F92F383E1 \<rparr>,
      \<lparr> ac_alg = AES_CCM_16_64_256_ALG, ac_key = hex 32 0xBAE73483DE27B581A7C13F178A6D7BDA168C1B4A1CB9180512A13E3AB914EB61,
       ac_nonce = hex 13 0xDAF54FAEF6E4FC7867624B76F2,
       ac_aad = hex 32 0x0F1C6DFFEDA98F7A159F9CC61820BFB29910D8EAA41B751A41F9FE5648F02FBA,
       ac_plaintext = hex 24 0x6EFE6652D46A84166D30BEFE2FBEE0795E9475B401EEDD60,
       ac_ciphertext = hex 24 0x737241194D1DC1A6346A2511F802A0EDD801F7B73FBA04B0,
       ac_tag = hex 8 0x14FD7C84052208D9 \<rparr>,
      \<lparr> ac_alg = AES_CCM_16_64_256_ALG, ac_key = hex 32 0xBAE73483DE27B581A7C13F178A6D7BDA168C1B4A1CB9180512A13E3AB914EB61,
       ac_nonce = hex 13 0xDAF54FAEF6E4FC7867624B76F2,
       ac_aad = hex 32 0x151110A9CE7E44E5D76D9CAD53C1819317527FCD169051F01C6A3EFCC06EA999,
       ac_plaintext = hex 24 0x55B791EE495299916FF3C2327B4990952BEBD0A2DA9ACFC5,
       ac_ciphertext = hex 24 0x483BB6A5D025DC2136A959DDACF5D001AD7E52A1E4CE1615,
       ac_tag = hex 8 0xC3EBC7214B9EEF31 \<rparr>,
      \<lparr> ac_alg = AES_CCM_16_64_256_ALG, ac_key = hex 32 0xBAE73483DE27B581A7C13F178A6D7BDA168C1B4A1CB9180512A13E3AB914EB61,
       ac_nonce = hex 13 0xDAF54FAEF6E4FC7867624B76F2,
       ac_aad = hex 32 0x0BA1210696D735EEBC13B609D0EC33BC740805105DD82F065B82892B931F1E6D,
       ac_plaintext = hex 24 0x794A86F5B20D344AD86FD5523D08F1864737BE57731440C2,
       ac_ciphertext = hex 24 0x64C6A1BE2B7A71FA81354EBDEAB4B112C1A23C544D409912,
       ac_tag = hex 8 0xEFF08182F8A00F13 \<rparr>,
      \<lparr> ac_alg = AES_CCM_16_64_256_ALG, ac_key = hex 32 0xBAE73483DE27B581A7C13F178A6D7BDA168C1B4A1CB9180512A13E3AB914EB61,
       ac_nonce = hex 13 0xDAF54FAEF6E4FC7867624B76F2,
       ac_aad = hex 32 0x5A3B71B0FDECCE8BD759D3D72321B5C3E882C82627C14E0B59CC8C6D191F243F,
       ac_plaintext = hex 24 0xEFA6DDD6FB8E4480A0F64414694E5F9E7F2E9B97CBE9CD14,
       ac_ciphertext = hex 24 0xF22AFA9D62F90130F9ACDFFBBEF21F0AF9BB1994F5BD14C4,
       ac_tag = hex 8 0x6894BE1F8FA14538 \<rparr>]"

definition AES_GCM_128 :: "aead_case list" where
  "AES_GCM_128 =
     [\<lparr> ac_alg = AES_GCM_128_ALG, ac_key = hex 16 0x5B9604FE14EADBA931B0CCF34843DAB9,
       ac_nonce = hex 12 0x028318ABC1824029138141A2,
       ac_aad = [],
       ac_plaintext = hex 16 0x001D0C231287C1182784554CA3A21908,
       ac_ciphertext = hex 16 0x26073CC1D851BEFF176384DC9896D5FF,
       ac_tag = hex 16 0x0A3EA7A5487CB5F7D70FB6C58D038554 \<rparr>,
      \<lparr> ac_alg = AES_GCM_128_ALG, ac_key = hex 16 0x5B9604FE14EADBA931B0CCF34843DAB9,
       ac_nonce = hex 12 0x921D2507FA8007B7BD067D34,
       ac_aad = hex 16 0x00112233445566778899AABBCCDDEEFF,
       ac_plaintext = hex 16 0x001D0C231287C1182784554CA3A21908,
       ac_ciphertext = hex 16 0x49D8B9783E911913D87094D1F63CC765,
       ac_tag = hex 16 0x1E348BA07CCA2CF04C618CB4D43A5B92 \<rparr>,
      \<lparr> ac_alg = AES_GCM_128_ALG, ac_key = hex 16 0xBEDCFB5A011EBC84600FCB296C15AF0D,
       ac_nonce = hex 12 0x438A547A94EA88DCE46C6C85,
       ac_aad = [],
       ac_plaintext = [],
       ac_ciphertext = [],
       ac_tag = hex 16 0x960247BA5CDE02E41A313C4C0136EDC3 \<rparr>,
      \<lparr> ac_alg = AES_GCM_128_ALG, ac_key = hex 16 0x384EA416AC3C2F51A76E7D8226346D4E,
       ac_nonce = hex 12 0xB30C084727AD1C592AC21D12,
       ac_aad = [],
       ac_plaintext = hex 1 0x35,
       ac_ciphertext = hex 1 0x54,
       ac_tag = hex 16 0x7C1E4AE88BB27E5638343CB9FD3F6337 \<rparr>,
      \<lparr> ac_alg = AES_GCM_128_ALG, ac_key = hex 16 0xBB571C160132B0C8D5D190D0BC356DDC,
       ac_nonce = hex 12 0x2596C440CF0232950EC66BC4,
       ac_aad = [],
       ac_plaintext = hex 63 0x053BE1B6190A717FC74C879E6FD62DC44628495507E50D662271DEE795A4AD26E0C4F86CB6B20AC6BD9D682D2D8A05C9DAD875A6911B49EA0AF4F17C97A5F2,
       ac_ciphertext = hex 63 0xB1CFAD142A462F3656E0921627FD41D4F1FA8E2F8BD94BB51FDCF06F606296F7D2885337BED7A4CA6DDB4A9FC7FDB2476B5F7FA5220E1D6752A5E7C31C916C,
       ac_tag = hex 16 0xA231B617352FFDB63D32D69D99E7D629 \<rparr>,
      \<lparr> ac_alg = AES_GCM_128_ALG, ac_key = hex 16 0x4A30EAC07B788B7354A90E6448F56676,
       ac_nonce = hex 12 0xC359D567616B6384AC20A43F,
       ac_aad = [],
       ac_plaintext = concat [hex 64 0x9A17B9D1DBE666F7431CBDD3B3173948C7AC13F268E12807256D2E5831AE67A14116144910B38368934571DAFF9D4004BA959B3CAE2669E6EED49E750CA22841, hex 64 0x5C6F7D1C1F2D3DBB02F4DFA49483A7F80FBCC1CB01D22C67817CC7A2BD2714EB62CDF8FB884A66ED245167CDB22E0DBC7B153E648714DFE83414696CFFA892DA, hex 64 0xF5AF8820D562BDF55F76BE5584A34B7E349D10D76C6E68305835B551A41EBF48E068320D875334A6A2D3108B1E93F7AA8DA485D7A5470D805E0DD38C09FEAA0F, hex 64 0x494D0572DE314A287439F48AEE5A2FA8E9850C6127EE88D50C5E8A2AC3EAA7B2FDD1589813FB3AFFA6589831DF132BD576FBED21717E2B6766E593ED74DAB35D, hex 64 0xA125C433763EA90234DC6F01D37BE14C78B8861BE1FB4C8296B3FAEE65B6EF8A9DAA6884E936359346F2DA9F6981F9D64F676767641ADA628AA8C7129326BD4E, hex 64 0xE57E515A2F78BA18C595B9BC1D0F49068734A67E635554EEE688816061E904A4E05125D0E7797305451A7C3A1A3C507DAEDB990C12CA290A0F554AA8E834653A, hex 64 0xA21A0469D3B0C08EE512B323CB193779C9FE2F2B3F03794CD42F0220031D0C8EEB9C73A3283A599BC78DA3B5B41B243EDF082B23801A15D9956FCA60F35ACFB6, hex 63 0x5C4D06D28AFF81A1CA98C6FAF8645BE920BD87C03C054A0469B292AE34D05860E8D9B061300370463DCD5FCD6FB1D6B1ACC9B4EB25CABD9DE4E61D44922FCC],
       ac_ciphertext = concat [hex 64 0x3E13588D5A014DCC1CBF46BD6C3F06DFBEF1464649E79A9BCBD99484686D72653827882DBA803A5683F82A9BDFEC6B44B29B7C13F3F2B5DBC675780540F6A8A0, hex 64 0x8E45F59FA88021095F8B3DB5F10BC21721A56D65A589216CBC5B1915CBE7E2F8612A9D24B30ECDE2A296A96F48AD1160720537312208E9B6824E6413F2084F22, hex 64 0x9DC6E953C4B8A054E3C368EF1F70DD9CF276CAA4CC251E475F507A2BD072B7F4A1311302F617E2CC594EB6A0C49AC173DB07831945F5129A38E45135BEB97B39, hex 64 0x393F73D0977E324820533F3DD752051996543A0620EBBA50288923F1D0181BADB2204C7469E8B4B5D14A984C3F0F3D34BB383416149E0A0CA14F4F6DFE58902A, hex 64 0x48ECD3BDBC02A8C84BB303E83491824B2CA976991B229D715AF2BF4BA3385D7D93E3ADA52F12317B73E2939628D7589810D6A278D4C24E907B4FFCE0D177B040, hex 64 0xE9DCE97B63C9B8C1743AD6FEBD0C9A273F648B91BA5B5719159785DB770C664290E93D69BA14757D8BBA68F0F93A136031A97C72F2BE6BF9E15237E998395930, hex 64 0xB4D1F87B57A5FA65494DC8FEB761BDAFFED4B3BF0073E9244ABB4A3A7E15E2D52A3BB8446766F0E7563702A943DD16D5DB9DBECB0044E462BED17EAB81B312AA, hex 63 0x4F32415DB8F09BC0CC2DB7406F4F67862AF986B965237913D119CA85B8D64B4E610034891F78433F370FBE6C9996A69D0DE308ED685F4339F9B67FA5EC100E],
       ac_tag = hex 16 0x58743A6D49272DF201D81DCCCDAF76FA \<rparr>,
      \<lparr> ac_alg = AES_GCM_128_ALG, ac_key = hex 16 0xC4B03435B91FC52E09EFF27E4DC3FB42,
       ac_nonce = hex 12 0x5046E7E08F0747E1EFCCB09E,
       ac_aad = hex 64 0x75FC9078B488E9503DCB568C882C9EEC24D80B04F0958C82AAC8484F025C90434148DB8E9BFE29C7E071B797457CB1695A5E5A6317B83690BA0538FB11E325CA,
       ac_plaintext = hex 20 0x8E887B224E8B89C82E9A641CF579E6879E1111C7,
       ac_ciphertext = hex 20 0xB6786812574A254EB43B1CB1D1753564C6B520E9,
       ac_tag = hex 16 0xAD8C09610D508F3D0F03CC523C0D5FCC \<rparr>,
      \<lparr> ac_alg = AES_GCM_128_ALG, ac_key = hex 16 0xBF2056BAAF45C5A00A733B49F10B7DD0,
       ac_nonce = hex 12 0xFEF1B243B44BA92B47C6626B,
       ac_aad = concat [hex 64 0x1BB3A17907279EBFF63593DE97A64E5CEAF9E1D407E5A5EEC1CE0F62586F0DFDDB7A3A83FD164E800BCBC6FB089D6A247DFA444633F4663AE1E0BDF37B50A7A0, hex 64 0x1F506E2220BBDD4B08C59FE60E455BDAEDA7E5A0CDB2E6DFCA66381A72962FA8A6F9847A87135CCF02A40DA5B3B8E91E6E1F31542F85F90BCE1DE05188FE5735, hex 64 0x5329031C66B3FDE18BBDCBD2CBEC42EA1D0FC803ABED2F15C41D2F122674EA91B7280E818ACB7549FE63135D2109B4014EC6002745301BD0AC59CA8E4F8D2FB6, hex 63 0x99347B74E17818E3A57FA69C759312DCFDE155B2A558A2385C8ADAB8A6D57F0F497EAF0833E3D930E83FED88C91E18A74C4F5FF45925A2BBDDA22F9A4F1196],
       ac_plaintext = hex 20 0x7E8C2D8A65F539210C047422AE57549195A08393,
       ac_ciphertext = hex 20 0x1FCC05BF4960FD02475C072F9EEE8150994EDCB9,
       ac_tag = hex 16 0xF3E092F2415F7F0CE88F37A2495DCE48 \<rparr>,
      \<lparr> ac_alg = AES_GCM_128_ALG, ac_key = hex 16 0x00112233445566778899AABBCCDDEEFF,
       ac_nonce = hex 12 0x000000000000000000000000,
       ac_aad = [],
       ac_plaintext = hex 16 0xEBD4A3E10CF6D41C50AEAE007563B072,
       ac_ciphertext = hex 16 0xF62D84D649E56BC8CFEDC5D74A51E2F7,
       ac_tag = hex 16 0xFFFFFFFFFFFFFFFFFFFFFFFFFFFFFFFF \<rparr>,
      \<lparr> ac_alg = AES_GCM_128_ALG, ac_key = hex 16 0x00112233445566778899AABBCCDDEEFF,
       ac_nonce = hex 12 0xFFFFFFFFFFFFFFFFFFFFFFFF,
       ac_aad = [],
       ac_plaintext = hex 16 0xD593C4D8224F1B100C35E4F6C4006543,
       ac_ciphertext = hex 16 0x431F31E6840931FD95F94BF88296FF69,
       ac_tag = hex 16 0x00000000000000000000000000000000 \<rparr>]"

definition AES_GCM_256 :: "aead_case list" where
  "AES_GCM_256 =
     [\<lparr> ac_alg = AES_GCM_256_ALG, ac_key = hex 32 0x92ACE3E348CD821092CD921AA3546374299AB46209691BC28B8752D17F123C20,
       ac_nonce = hex 12 0x00112233445566778899AABB,
       ac_aad = hex 8 0x00000000FFFFFFFF,
       ac_plaintext = hex 10 0x00010203040506070809,
       ac_ciphertext = hex 10 0xE27ABDD2D2A53D2F136B,
       ac_tag = hex 16 0x9A4A2579529301BCFB71C78D4060F52C \<rparr>,
      \<lparr> ac_alg = AES_GCM_256_ALG, ac_key = hex 32 0x29D3A44F8723DC640239100C365423A312934AC80239212AC3DF3421A2098123,
       ac_nonce = hex 12 0x00112233445566778899AABB,
       ac_aad = hex 6 0xAABBCCDDEEFF,
       ac_plaintext = [],
       ac_ciphertext = [],
       ac_tag = hex 16 0x2A7D77FA526B8250CB296078926B5020 \<rparr>,
      \<lparr> ac_alg = AES_GCM_256_ALG, ac_key = hex 32 0x80BA3192C803CE965EA371D5FF073CF0F43B6A2AB576B208426E11409C09B9B0,
       ac_nonce = hex 12 0x4DA5BF8DFD5852C1EA12379D,
       ac_aad = [],
       ac_plaintext = [],
       ac_ciphertext = [],
       ac_tag = hex 16 0x4771A7C404A472966CEA8F73C8BFE17A \<rparr>,
      \<lparr> ac_alg = AES_GCM_256_ALG, ac_key = hex 32 0xCC56B680552EB75008F5484B4CB803FA5063EBD6EAB91F6AB6AEF4916A766273,
       ac_nonce = hex 12 0x99E23EC48985BCCDEEAB60F1,
       ac_aad = [],
       ac_plaintext = hex 1 0x2A,
       ac_ciphertext = hex 1 0x06,
       ac_tag = hex 16 0x633C1E9703EF744FFFFB40EDF9D14355 \<rparr>,
      \<lparr> ac_alg = AES_GCM_256_ALG, ac_key = hex 32 0xCDCCFE3F46D782EF47DF4E72F0C02D9C7F774DEF970D23486F11A57F54247F17,
       ac_nonce = hex 12 0x376187894605A8D45E30DE51,
       ac_aad = hex 8 0x956846A209E087ED,
       ac_plaintext = hex 20 0xE28E0E9F9D22463AC0E42639B530F42102FDED75,
       ac_ciphertext = hex 20 0xFECA44952447015B5DF1F456DF8CA4BB4EEE2CE2,
       ac_tag = hex 16 0x082E91924DEEB77880E1B1C84F9B8D30 \<rparr>,
      \<lparr> ac_alg = AES_GCM_256_ALG, ac_key = hex 32 0x7F7C5804A680F61924966725DBA2A80D85267C2E03C7C234B045B24EC8E23528,
       ac_nonce = hex 12 0x2D9BF8B636F337D265B0904C,
       ac_aad = [],
       ac_plaintext = concat [hex 64 0xE2F85FB176840C38345DA0F0F8DB6CDBC45A123165F244FF5389FE65BF341FA131130751B5C739A9931D5A57B141DC7B5B0C5A2CA07331C2DC04B2657B028987, hex 64 0x8DEA0EF7D5601465B78A65795F0F3181304E58A261FEB1D394F3C33CABAE189941755D7654BB7BEF08C31BD2C5CE1203EEBC015AE040DA2A851C2BA3C62E6993, hex 1 0x56],
       ac_ciphertext = concat [hex 64 0xD7380D10B22C3AE584531E9E4EE73D387F69DBBB3D3D9FDB4971ED2750B31913F79E4C00CF1B76933BBB75D39D8A6429A2528E9BD60E65FA6FFFF9E01A8758E7, hex 64 0xB58409FA3F370CC32A63AA60A54C36D733E8F6DFCCD5C3120D05C6E33140C00562865532B2C689DE98769D3386E7A3AE679E404E062536CA046261211A426FB5, hex 1 0x86],
       ac_tag = hex 16 0x753F6C57C0CC2A075E68D082F6E83590 \<rparr>,
      \<lparr> ac_alg = AES_GCM_256_ALG, ac_key = hex 32 0x4F62E56F7B15035F427849714BEB97E6ACF88371E1F69B388129BB447273D6B8,
       ac_nonce = hex 12 0x137D5C98A92F6DCEE4F29D7C,
       ac_aad = [],
       ac_plaintext = concat [hex 64 0xA147B716B86AC8DAC7447D5BA60EE8A4191D2C64A3AA04276AEE7BF7DC824962C09ACE20A7E614CC9E177B5B11819B8F17008A9408E8CD8BB34B401BE35368F4, hex 64 0x92C17629B6467299BFD2EC4D9A7F17DEA6F9CA084E871FB7FC78C2BF299B810522062726C5CAE14B839722ECFF499A2B3F082B6D1BFEDB752F84A4E77459C926, hex 64 0x8D63199315363E9AAA39BEA7FBBCC60A5EEDC8A1A982AD6FA67C295B932EB3999047E0A99B3823032B6B3B7C4C553970AFCA50CB4E5CE859C25C598EB682005F, hex 64 0x17AEC5526E26493208483679A23CCEF6F7403A3F3055AFFD531A1CB7D183892DD577D526E8DA8AA8B8B980A36E176B8D9293E785AC01BDD4DAC8CF8DBDD82926, hex 64 0xF1E31408284FB3AA01F4414AC7AA7832D2EC02DD2DB9B6B4B61D8C1CBB31DAC7B6AFA8D08B6877E439600C4A6FC07511877DF2E9CE3A9538A726002A46C083D9, hex 64 0x8124B185730F3B2AEA2A01CB626BE809F87B2AC100511C5B8FA0E9D40C9C999EA0AA87AAD08CFB62C1BA869178BE986156F7622D8C48AD80A552E9D08C36671A, hex 64 0xE232EFEFC8619C562E715F04AE52DB2AD8E4A09E8C671B12289558117F9562D51BEB59E29B10DD9EB232E8FCDB1CFDD14899ACD693DE14A7C076A4656386E23B, hex 63 0x06415B2C7A93B166CAD1048BC605A49A79DF3C03A3380DE68A4F013E05E5283745D4078EBE308DC8881CED62ED571A93C69E8AAE6E51F5E61E4FF75699AA32],
       ac_ciphertext = concat [hex 64 0xB194E6C8F83E09515D4EA95C00578FDAEE8F9D35AD09A560BA81A51ACCC49416598516C747E16DBC5C44BFD5C790BA59B47A6F573A43B26CDBB240230B1DCA00, hex 64 0x447770C4CF647DF2A79ECA3F4A8B2DE08F9FBC4489C30F6BCFCD096F1AA4177FA281248E8E19E2EA7D1F049B7053947A3A67E946EBBED67466E009B63DEBCEBA, hex 64 0x54CC881E55E2D68F3F584380D6FB7B0E9A3FDBD709ADAC3A47D6F9A5FCAF03218E18CCA5A7A0E340A774CD5C39D7031B63B5B5B896E1E705B4DED099C3C11150, hex 64 0x738B2107F61F1423FB72ED0A16070CD6F8A18AE90B167B707C23DDC85A1B6FF5A3EC5E654B1446C6EAE787C31A94BC9AB5376DFEA31BF8DFBDABCE45C7501119, hex 64 0x46E64C22D23C46D7EF644CA02C69205D59B1815A6A6E8B14FE7E2D8AD17FC75E656706B67F257523D517D9F8B83150A88359E56D6432859F8F90EABA70CF90F8, hex 64 0x6995AFC85C33992591536BA353AE14A6932DC96AD72687AC34C2D4D5C92E51DA246F557785DF1944D2C3C83536739B7D8475BA39C639DF4CE69859C6FFB9E994, hex 64 0x545699A3A19D53979BFA34FDEC856A9F12AC70BDEACF172721496D76D8073A76E8160D99F4B7466E05A8F006CB448D2AF7EE308CA19440AACA08F34422DA830E, hex 63 0x476269C829A2B5B64ACEA4F1143D1857CC2699EA3BF2E076B16E50A9071CF15352189EDF278984102EBCC751D46510B816AFAFDB3FEA37A7D49662FF090392],
       ac_tag = hex 16 0x79E64C4C0E8BB3A214955584D2BC8B16 \<rparr>,
      \<lparr> ac_alg = AES_GCM_256_ALG, ac_key = hex 32 0xE40003D6E08AB80B4BFC8400EF112945A901EC64A1B6536CA92665090D608BC4,
       ac_nonce = hex 12 0x9F095DAFE6F6E0FBAFBBE02E,
       ac_aad = concat [hex 64 0x422D5EFCFFE364905984533F0A579D80B18BDA7B29E6E46498EFFBA53C350112C0BBB8DC4CE03BB0C69E1D0BAA19F0637108AA4A16B09A281F232839D87B6D0E, hex 64 0x42BE1BAA7C67F1BE970EA169D3960B9FE0A61F11CD2EB7398C19E641FEB43F778E257A397063DB5B3A6707E9DB62387054F9F9D44F143583E63EDAD45A00251E, hex 64 0x5173D7505F22A8BCE232E56C2C276A58033AE30D5DBF4E35A862E42AF573BE38C6406D9B4C7ACBF275FE36C0ECF2C4642898A30E6146FAC992A16405F9831212, hex 64 0x6B7A3722F5DFB7DD4E4911C1426B2E01D04E9BE6DB3771100F7D7D4282E4EA585F3646241E807CA64F06A7FA9B7003D710B801D66F517D2D5EBD740872DEBA13, hex 1 0xD0],
       ac_plaintext = hex 20 0x38C3F44BC5765DE1F3D1C3684CD09CDDEFAF298D,
       ac_ciphertext = hex 20 0xD4A79F729487935950EC032E690AB8FE25C4158E,
       ac_tag = hex 16 0x876D2F334F47968B10C103859D436DB8 \<rparr>,
      \<lparr> ac_alg = AES_GCM_256_ALG, ac_key = hex 32 0x00112233445566778899AABBCCDDEEFF102132435465768798A9BACBDCEDFE0F,
       ac_nonce = hex 12 0x000000000000000000000000,
       ac_aad = [],
       ac_plaintext = hex 16 0x561008FA07A68F5C61285CD013464EAF,
       ac_ciphertext = hex 16 0x23293E9B07CA7D1B0CAE7CC489A973B3,
       ac_tag = hex 16 0xFFFFFFFFFFFFFFFFFFFFFFFFFFFFFFFF \<rparr>,
      \<lparr> ac_alg = AES_GCM_256_ALG, ac_key = hex 32 0x00112233445566778899AABBCCDDEEFF102132435465768798A9BACBDCEDFE0F,
       ac_nonce = hex 12 0xFFFFFFFFFFFFFFFFFFFFFFFF,
       ac_aad = [],
       ac_plaintext = hex 16 0xC6152244CEA1978D3E0BC274CF8C0B3B,
       ac_ciphertext = hex 16 0x7CB6FC7C6ABC009EFE9551A99F36A421,
       ac_tag = hex 16 0x00000000000000000000000000000000 \<rparr>]"

section \<open>Key agreement\<close>

definition RFC7748_X25519 :: "ecc_vector list" where
  "RFC7748_X25519 =
     [\<lparr> ecdh_curve = 4, alice_private = hex 32 0x77076D0A7318A57D3C16C17251B26645DF4C2F87EBC0992AB177FBA51DB92C2A,
       alice_public = hex 32 0x8520F0098930A754748B7DDCB43EF75A0DBF3A0D26381AF4EBA4A98EAA9B4E6A,
       bob_private = hex 32 0x5DAB087E624A8A4B79E17F8B83800EE66F3BB1292618B6FD1C2F8B27FF88E0EB,
       bob_public = hex 32 0xDE9EDB7D7B7DC1B4D35B61C2ECE435373F8343C85B78674DADFC7E146F882B4F,
       shared_secret = hex 32 0x4A5D9D5BA4CE2DE1728E3BF480350F25E07E21C947D19E3376F09B3C1E161742 \<rparr>]"

definition RFC7748_X448 :: "ecc_vector list" where
  "RFC7748_X448 =
     [\<lparr> ecdh_curve = 5, alice_private = hex 56 0x9A8F4925D1519F5775CF46B04B5800D4EE9EE8BAE8BC5565D498C28DD9C9BAF574A9419744897391006382A6F127AB1D9AC2D8C0A598726B,
       alice_public = hex 56 0x9B08F7CC31B7E3E67D22D5AEA121074A273BD2B83DE09C63FAA73D2C22C5D9BBC836647241D953D40C5B12DA88120D53177F80E532C41FA0,
       bob_private = hex 56 0x1C306A7AC2A0E2E0990B294470CBA339E6453772B075811D8FAD0D1D6927C120BB5EE8972B0D3E21374C9C921B09D1B0366F10B65173992D,
       bob_public = hex 56 0x3EB7A829B0CD20F5BCFC0B599B6FECCF6DA4627107BDB0D4F345B43027D8B972FC3E34FB4232A13CA706DCB57AEC3DAE07BDC1C67BF33609,
       shared_secret = hex 56 0x07FFF4181AC6CC95EC1C16A94A0F74D12DA232CE40A77552281D282BB60C0B56FD2464C335543936521C24403085D59A449A5037514A879D \<rparr>]"

definition RFC5903_P256 :: "ecc_vector list" where
  "RFC5903_P256 =
     [\<lparr> ecdh_curve = 1, alice_private = hex 32 0xC88F01F510D9AC3F70A292DAA2316DE544E9AAB8AFE84049C62A9C57862D1433,
       alice_public = hex 32 0xDAD0B65394221CF9B051E1FECA5787D098DFE637FC90B9EF945D0C3772581180,
       bob_private = hex 32 0xC6EF9C5D78AE012A011164ACB397CE2088685D8F06BF9BE0B283AB46476BEE53,
       bob_public = hex 32 0xD12DFB5289C8D4F81208B70270398C342296970A0BCCB74C736FC7554494BF63,
       shared_secret = hex 32 0xD6840F6B42F6EDAFD13116E0E12565202FEF8E9ECE7DCE03812464D04B9442DE \<rparr>]"

section \<open>The tables are in the scope of the verdicts\<close>

text \<open>A digest or code table: inputs the providers take, values of \<open>n\<close> bytes.\<close>

definition digests_of :: "nat \<Rightarrow> (bytes \<times> bytes) list \<Rightarrow> bool" where
  "digests_of n tvs \<longleftrightarrow> list_all (\<lambda>(m, r). length m \<le> max_message \<and> length r = n) tvs"

text \<open>An AEAD table for the algorithm \<open>k\<close>: the lengths the driver asserts, and at most \<open>n\<close> bytes of message and
  \<open>l\<close> of additional data.\<close>

definition cases_of :: "known_algorithm \<Rightarrow> nat \<Rightarrow> nat \<Rightarrow> aead_case list \<Rightarrow> bool" where
  "cases_of k n l tvs \<longleftrightarrow> list_all (\<lambda>c. ac_alg c = k \<and> length (ac_key c) = ka_key_length k \<and> length (ac_nonce c) = ka_nonce_length k
     \<and> length (ac_tag c) = ka_tag_length k \<and> length (ac_plaintext c) \<le> n \<and> length (ac_ciphertext c) = length (ac_plaintext c)
     \<and> length (ac_aad c) \<le> l) tvs"

definition keys_of :: "nat \<Rightarrow> ecc_vector list \<Rightarrow> bool" where
  "keys_of n tvs \<longleftrightarrow> list_all (\<lambda>v. length (alice_private v) = n \<and> length (alice_public v) = n \<and> length (bob_private v) = n
     \<and> length (bob_public v) = n \<and> length (shared_secret v) = n) tvs"

lemma length_long_message: "length long_message = 6400"
  by (simp add: long_message_def)

lemma digest_tables:
  "digests_of 32 SHA256HASHES" "digests_of 28 SHA3_224_HASHES" "digests_of 32 SHA3_256_HASHES"
  "digests_of 48 SHA3_384_HASHES" "digests_of 64 SHA3_512_HASHES"
  by (simp_all add: digests_of_def SHA256HASHES_def SHA3_224_HASHES_def SHA3_256_HASHES_def SHA3_384_HASHES_def
      SHA3_512_HASHES_def length_long_message max_message_val)

lemma aead_tables:
  "cases_of AES_CCM_16_64_128_ALG 256 270 AES_CCM_16_64_128" "cases_of AES_CCM_16_64_256_ALG 256 270 AES_CCM_16_64_256"
  "cases_of AES_GCM_128_ALG 4096 270 AES_GCM_128" "cases_of AES_GCM_256_ALG 4096 270 AES_GCM_256"
  by (simp_all add: cases_of_def AES_CCM_16_64_128_def AES_CCM_16_64_256_def AES_GCM_128_def AES_GCM_256_def
      AES_CCM_16_64_128_ALG_def AES_CCM_16_64_256_ALG_def AES_GCM_128_ALG_def AES_GCM_256_ALG_def)

lemma key_tables: "keys_of 32 RFC7748_X25519" "keys_of 56 RFC7748_X448" "keys_of 32 RFC5903_P256"
  by (simp_all add: keys_of_def RFC7748_X25519_def RFC7748_X448_def RFC5903_P256_def)

text \<open>The tables of the repository are in the scope of the verdicts: every digest, code, key, nonce, tag and key
  pair has the length of its algorithm, so the drivers' own assertions hold; the AES-CCM vectors fit the
  scratch buffers of the nRF54L15 and every AEAD vector the driver's buffer; the outputs of the HKDF vectors fit
  the 82 bytes of the driver. So a failing run is never the fault of a vector's shape.\<close>

theorem repository_vectors_in_scope:
  "digests_of 32 SHA256HASHES \<and> digests_of 28 SHA3_224_HASHES \<and> digests_of 32 SHA3_256_HASHES
   \<and> digests_of 48 SHA3_384_HASHES \<and> digests_of 64 SHA3_512_HASHES
   \<and> list_all (\<lambda>(k, m, r). length k \<le> max_message - 64 \<and> length m \<le> max_message - 64 \<and> length r = 32) HMAC_SHA256
   \<and> list_all (\<lambda>(salt, ikm, info, prk, okm). length ikm \<le> max_message - 64 \<and> 32 + length info + 1 \<le> max_message - 64
       \<and> (case salt of None \<Rightarrow> True | Some s \<Rightarrow> length s \<le> max_message - 64) \<and> length prk = 32 \<and> length okm \<le> 82) HKDF_SHA256
   \<and> cases_of AES_CCM_16_64_128_ALG 256 270 AES_CCM_16_64_128 \<and> cases_of AES_CCM_16_64_256_ALG 256 270 AES_CCM_16_64_256
   \<and> cases_of AES_GCM_128_ALG 4096 270 AES_GCM_128 \<and> cases_of AES_GCM_256_ALG 4096 270 AES_GCM_256
   \<and> keys_of 32 RFC7748_X25519 \<and> keys_of 56 RFC7748_X448 \<and> keys_of 32 RFC5903_P256"
  using digest_tables aead_tables key_tables by (simp add: HMAC_SHA256_def HKDF_SHA256_def max_message_val)

end
