(* ===== verification/Examples.thy ===== *)
theory Examples
  imports Device_Cal Rc_Provider Vectors
begin

text \<open>
  The crate \<^verbatim>\<open>embedded-cal-examples\<close>: \<open>show_examples\<close> and the choice of a back-end in \<^verbatim>\<open>bin/demo.rs\<close>. An
  example returns what it logs; the type name of the \<open>Cal\<close> and the debug form of an algorithm are left out of
  the log. The AEAD vectors are a parameter, as in the test drivers.
\<close>

datatype log_entry =
    RunningExamples
  | ComputedSha256 string bytes
  | SkippingHash
  | LookingForCurve
  | AgreeingCurve int
  | PeerKeyFailed
  | OurPublic bytes
  | SharedSecretIs bytes
  | NoMatchingCurve
  | RunningAead int
  | AllAeadPassed
  | NoAead

section \<open>The examples\<close>

definition show_sha256_example :: "('d, 'alg, 's, 'o) hash_provider \<Rightarrow> 'd \<Rightarrow> (log_entry list \<times> 'd) option" where
  "show_sha256_example P d =
     (case hash_from_ni_name P ''sha-256'' of
        Some alg \<Rightarrow> do {
          let hash_me = ''hello world'';
          (hashed, d) \<leftarrow> hash_oneshot P alg (ascii hash_me) d;
          Some ([ComputedSha256 hash_me (hp_output P hashed)], d)
        }
      | None \<Rightarrow> Some ([SkippingHash], d))"

definition peer_keys :: "(int \<times> bytes) list" where
  "peer_keys =
     [(1, ascii ''the p256 key offered by the peer''),
      (4, ascii ''if anyone finds pivkey were lost''),
      (5, ascii ''because these are obviously not pubkeys from real secrts'')]"

fun ecdh_loop :: "('d, 'alg, 'v, 'k, 'p, 'ss) dh_provider \<Rightarrow> (int \<times> bytes) list \<Rightarrow> 'd \<Rightarrow> (log_entry list \<times> 'd) option" where
  "ecdh_loop P [] d = Some ([NoMatchingCurve], d)"
| "ecdh_loop P ((crvnum, peer_pub) # rest) d =
     (case dh_from_cose_ecdh P crvnum of
        None \<Rightarrow> ecdh_loop P rest d
      | Some crv \<Rightarrow> do {
          (r, d) \<leftarrow> dp_import_publickey_bytes P crv peer_pub d;
          (case r of
             Inl _ \<Rightarrow> Some ([AgreeingCurve crvnum, PeerKeyFailed], d)
           | Inr peer_pub \<Rightarrow> do {
               (private, d) \<leftarrow> dh_generate P crv d;
               (our_pub, d) \<leftarrow> dp_public_key P private d;
               (our_pub, d) \<leftarrow> dp_export_publickey_bytes P our_pub d;
               (r, d) \<leftarrow> dp_shared_secret P private peer_pub d;
               secret \<leftarrow> unwrap r;
               (secret, d) \<leftarrow> dp_raw_secret_bytes P secret d;
               Some ([AgreeingCurve crvnum, OurPublic our_pub, SharedSecretIs secret], d)
             })
        })"

definition show_ecdh_example :: "('d, 'alg, 'v, 'k, 'p, 'ss) dh_provider \<Rightarrow> 'd \<Rightarrow> (log_entry list \<times> 'd) option" where
  "show_ecdh_example P d = do {
     (l, d) \<leftarrow> ecdh_loop P (rev peer_keys) d;
     Some (LookingForCurve # l, d)
   }"

record aead_tables =
  tbl_gcm_128 :: "aead_case list"
  tbl_gcm_256 :: "aead_case list"
  tbl_ccm_128 :: "aead_case list"
  tbl_ccm_256 :: "aead_case list"

fun aead_loop :: "('d, 'alg, 'k, 't) aead_provider \<Rightarrow> (int \<times> ('d \<Rightarrow> 'd option)) list \<Rightarrow> bool \<Rightarrow> 'd
    \<Rightarrow> ((bool \<times> log_entry list) \<times> 'd) option" where
  "aead_loop P [] any d = Some ((any, []), d)"
| "aead_loop P ((algnum, f) # rest) any d =
     (case aead_from_cose_number P algnum of
        None \<Rightarrow> aead_loop P rest any d
      | Some alg \<Rightarrow> do {
          d \<leftarrow> f d;
          ((any, l), d) \<leftarrow> aead_loop P rest True d;
          Some ((any, RunningAead algnum # l), d)
        })"

definition aead_algs where
  "aead_algs T P =
     [(1, gcm_test_128 (tbl_gcm_128 T) P), (3, gcm_test_256 (tbl_gcm_256 T) P),
      (10, test_16_64_128 (tbl_ccm_128 T) P), (11, test_16_64_256 (tbl_ccm_256 T) P)]"

definition show_aead_tests :: "aead_tables \<Rightarrow> ('d, 'alg, 'k, 't) aead_provider \<Rightarrow> 'd \<Rightarrow> (log_entry list \<times> 'd) option" where
  "show_aead_tests T P d = do {
     ((any, l), d) \<leftarrow> aead_loop P (aead_algs T P) False d;
     Some (l @ [if any then AllAeadPassed else NoAead], d)
   }"

definition show_examples where
  "show_examples T C d = do {
     (l1, d) \<leftarrow> show_sha256_example (cal_hash C) d;
     (l2, d) \<leftarrow> show_ecdh_example (cal_dh C) d;
     (l3, d) \<leftarrow> show_aead_tests T (cal_aead C) d;
     Some (RunningExamples # l1 @ l2 @ l3, d)
   }"

section \<open>The demo\<close>

text \<open>\<open>cfg_select!\<close> in \<open>main\<close>, by the features \<open>backend-libcrux\<close>, \<open>backend-rustcrypto\<close> and \<open>backend-empty\<close>. Without any
  the build fails, here \<open>None\<close>. The libraries and the system's generator \<open>sys\<close> with its operations \<open>G\<close> are parameters;
  the two software back-ends bring a library each for hashes (\<open>LH\<close>, \<open>RH\<close>), AEADs (\<open>LA\<close>, \<open>RA\<close>) and curves (\<open>LP\<close>, \<open>RK\<close>).\<close>

definition demo_main where
  "demo_main LH LA LP RH RM RA alloc RK G T backend_libcrux backend_rustcrypto backend_empty sys =
     (if backend_libcrux \<and> backend_rustcrypto then
        map_option fst (show_examples T
          (lc_cal LH LA LP (rc_try_rng (wr_try_rng G)) (rc_standalone RH RM RA alloc RK G)) (rc_standalone_new sys))
      else if backend_rustcrypto then map_option fst (show_examples T (rc_standalone RH RM RA alloc RK G) (rc_standalone_new sys))
      else if backend_libcrux then map_option fst (show_examples T (lc_standalone LH LA LP G) (lc_standalone_new sys))
      else if backend_empty then map_option fst (show_examples T empty_cal ())
      else None)"

section \<open>What the examples show\<close>

text \<open>The demo over the back-end without algorithms runs to its end and reports what is missing: no hash, no
  curve, no AEAD, and no panic; without any back-end selected there is no demo.\<close>

theorem demo_without_algorithms:
  "demo_main LH LA LP RH RM RA alloc RK G T False False True sys
      = Some [RunningExamples, SkippingHash, LookingForCurve, NoMatchingCurve, NoAead]
   \<and> demo_main LH LA LP RH RM RA alloc RK G T False False False sys = None"
  by (simp add: demo_main_def show_examples_def empty_cal_def show_sha256_example_def empty_hash_def
      show_ecdh_example_def peer_keys_def empty_dh_def show_aead_tests_def aead_algs_def empty_aead_def)

text \<open>The hash example logs the digest of the contract.\<close>

context hash_contract
begin

lemma sha256_example:
  assumes "dev d" "hash_from_ni_name P ''sha-256'' = Some alg" "11 \<le> maxlen"
  shows "\<exists>d'. show_sha256_example P d = Some ([ComputedSha256 ''hello world'' (digest (ascii ''hello world''))], d') \<and> dev d'"
proof -
  have "length (ascii ''hello world'') \<le> maxlen" using assms(3) by (simp add: ascii_def)
  from oneshot [OF assms(1) this] assms(2) show ?thesis by (auto simp: show_sha256_example_def Let_def)
qed

end

lemma peer_key_lengths:
  "length (ascii ''the p256 key offered by the peer'') = 32"
  "length (ascii ''because these are obviously not pubkeys from real secrts'') = 56"
  by (simp_all add: ascii_def)

lemma nrf_key_exhaust:
  assumes "nrf_key_inv k" "secret_alg k = alg"
  obtains b where "nrf_canonical alg b" "k = nrf_key alg b"
  using assms by (cases k) (auto simp: nrf_canonical_def)

definition p256_peer :: bytes where
  "p256_peer = ascii ''the p256 key offered by the peer''"

definition x448_peer :: bytes where
  "x448_peer = ascii ''because these are obviously not pubkeys from real secrts''"

lemma peer_keys_rev: "rev peer_keys = [(5, x448_peer), (4, ascii ''if anyone finds pivkey were lost''), (1, p256_peer)]"
  by (simp add: peer_keys_def p256_peer_def x448_peer_def)

lemma peer_lengths: "length p256_peer = 32" "length x448_peer = 56"
  by (simp_all add: p256_peer_def x448_peer_def peer_key_lengths)

lemma ecdh_loop_select:
  assumes "dh_from_cose_ecdh P n = Some crv" "dp_import_publickey_bytes P crv c d = Some (Inr p, d1)"
    and "dh_generate P crv d1 = Some (k, d2)" "dp_public_key P k d2 = Some (q, d3)" "dp_export_publickey_bytes P q d3 = Some (b, d4)"
    and "dp_shared_secret P k p d4 = Some (Inr s, d5)" "dp_raw_secret_bytes P s d5 = Some (r, d6)"
  shows "ecdh_loop P ((n, c) # rest) d = Some ([AgreeingCurve n, OurPublic b, SharedSecretIs r], d6)"
  using assms by simp

lemma ecdh_example_nrf:
  assumes "cracen_pke hw dev ram cmd ptrs err polls M X Y" "dh_generate (nrf_dh rng hw) NrfX448 d = Some (k, d1)" "dev d1"
  shows "\<exists>b d'. k = SkX448 (scalar_from b) \<and> length b = 56 \<and> dev d'
    \<and> show_ecdh_example (nrf_dh rng hw) d = Some
        ([LookingForCurve, AgreeingCurve 5, OurPublic (Y b x448_base), SharedSecretIs (Y b x448_peer)], d')"
proof -
  let ?P = "nrf_dh rng hw" and ?p = "PkX448 \<lparr> pt_x = scalar_from x448_peer, pt_y = scalar_from (replicate 56 0) \<rparr>"
  have inv: "nrf_key_inv k" "secret_alg k = NrfX448" using generated_key [OF assms(2)] by simp_all
  then obtain b where b: "nrf_canonical NrfX448 b" "k = nrf_key NrfX448 b" by (rule nrf_key_exhaust)
  then have l: "length b = 56" by (simp add: nrf_canonical_def)
  have imp: "dp_import_publickey_bytes ?P NrfX448 x448_peer d = Some (Inr ?p, d)"
    using peer_lengths(2) by (simp add: nrf_dh_def nrf_import_publickey_bytes_def try_array_def nrf_ec_def nrf_ec_primitives_def nrf_point_new_def)
  obtain d2 where 2: "nrf_public_key_op hw k d1 = Some (dh_public M X Y k, d2)" "dev d2"
    using cracen_pke.nrf_public_law [OF assms(1,3) inv(1)] by blast
  have 3: "nrf_export_publickey_bytes hw (dh_public M X Y k) d2 = Some (Y b x448_base, d2)"
    using cracen_pke.nrf_own_export [OF assms(1) b(1)] b(2) by simp
  have "nrf_public_inv ?p" using peer_lengths(2) unfolding nrf_public_inv.simps by blast
  from cracen_pke.nrf_shared_law [OF assms(1) 2(2) inv(1) this] obtain s d3 where 4:
    "nrf_shared_secret_op hw k ?p d2 = Some (Inr s, d3)" "dev d3" "shared_as_ref s = Some (dh_value M X Y k ?p)"
    using inv(2) by auto
  have v: "dh_value M X Y k ?p = Y b x448_peer" using b(2) l peer_lengths(2) by simp
  have "ecdh_loop ?P (rev peer_keys) d = Some ([AgreeingCurve 5, OurPublic (Y b x448_base), SharedSecretIs (Y b x448_peer)], d3)"
    unfolding peer_keys_rev
    by (rule ecdh_loop_select [OF _ imp assms(2), where q = "dh_public M X Y k" and ?d3.0 = d2 and s = s and ?d4.0 = d2 and ?d5.0 = d3])
      (use 2 3 4 v in \<open>simp_all add: nrf_dh_def nrf_dh_from_cose_ecdh_def\<close>)
  then show ?thesis
    using b(2) l 4(2) by (intro exI [of _ b] exI [of _ d3]) (simp add: show_ecdh_example_def)
qed

lemma ecdh_example_stm:
  assumes "stm_ecc hw dev ram failed delay M" "dh_generate (stm_dh debug rng hw) StmEcdhP256 e = Some (k, e1)" "dev e1"
  shows "case p256_recover_y p256_peer of
      Inl _ \<Rightarrow> show_ecdh_example (stm_dh debug rng hw) e = Some ([LookingForCurve, AgreeingCurve 1, PeerKeyFailed], e)
    | Inr y \<Rightarrow> \<exists>e'. dev e' \<and> show_ecdh_example (stm_dh debug rng hw) e = Some
        ([LookingForCurve, AgreeingCurve 1, OurPublic (fst (M (sk_scalar k) (P256_GX_BYTES, P256_GY_BYTES))),
          SharedSecretIs (fst (M (sk_scalar k) (p256_peer, y)))], e')"
proof -
  let ?P = "stm_dh debug rng hw"
  have skip: "ecdh_loop ?P (rev peer_keys) e = ecdh_loop ?P [(1, p256_peer)] e"
    by (simp add: peer_keys_rev stm_dh_def stm_dh_from_cose_ecdh_def del: ecdh_loop.simps(2), simp add: stm_dh_from_cose_ecdh_def)
  have imp: "dp_import_publickey_bytes ?P StmEcdhP256 p256_peer e
      = Some (map_sum id (\<lambda>y. \<lparr> pk_alg = StmEcdhP256, pk_x = p256_peer, pk_y = y \<rparr>) (p256_recover_y p256_peer), e)"
    using peer_lengths(1) by (simp add: stm_dh_def stm_import_publickey_bytes_def try_array_def)
  have crv: "dh_from_cose_ecdh ?P 1 = Some StmEcdhP256" by (simp add: stm_dh_def stm_dh_from_cose_ecdh_def)
  show ?thesis
  proof (cases "p256_recover_y p256_peer")
    case (Inl x)
    then show ?thesis using imp crv by (simp add: show_ecdh_example_def skip)
  next
    case (Inr y)
    let ?p = "\<lparr> pk_alg = StmEcdhP256, pk_x = p256_peer, pk_y = y \<rparr>"
    have l: "length (sk_scalar k) = 32" using stm_generated_key [OF assms(2)] by simp
    obtain q e2 where 2: "stm_public_key_op debug hw k e1 = Some (q, e2)" "dev e2"
        "(pk_x q, pk_y q) = M (sk_scalar k) (P256_GX_BYTES, P256_GY_BYTES)"
      using stm_ecc.stm_public_law [OF assms(1,3) l, of debug] by blast
    obtain e3 where 3: "stm_shared_secret_op debug hw k ?p e2 = Some (Inr (StmSharedSecret (fst (M (sk_scalar k) (p256_peer, y)))), e3)" "dev e3"
      using stm_ecc.stm_shared_law [OF assms(1) 2(2) l, of ?p debug] peer_lengths(1) recovered_length [OF Inr] by auto
    have x: "pk_x q = fst (M (sk_scalar k) (P256_GX_BYTES, P256_GY_BYTES))" using 2(3) by (metis fst_conv)
    have "ecdh_loop ?P [(1, p256_peer)] e = Some ([AgreeingCurve 1, OurPublic (pk_x q),
        SharedSecretIs (fst (M (sk_scalar k) (p256_peer, y)))], e3)"
      by (rule ecdh_loop_select [OF crv, where p = ?p and ?d1.0 = e and k = k and ?d2.0 = e1 and q = q and ?d3.0 = e2 and ?d4.0 = e2
            and s = "StmSharedSecret (fst (M (sk_scalar k) (p256_peer, y)))" and ?d5.0 = e3])
        (use imp Inr assms(2) 2(1) 3(1) in \<open>simp_all add: stm_dh_def stm_export_publickey_bytes_def\<close>)
    then show ?thesis using Inr 3(2) x by (simp add: show_ecdh_example_def skip)
  qed
qed


lemma const_generate_x448: "\<exists>k d'. dh_generate (nrf_dh const_rng hw) NrfX448 d = Some (k, d')"
  using const_rng.rng_fill_law [where n = 56 and k = 0 and d = d]
  by (auto simp: nrf_fill_bytes_def try_fill_bytes_def dh_generate_def nrf_dh_def nrf_generate_visible_def)


end
