(* ===== verification/Known_Digest.thy ===== *)
theory Known_Digest
  imports Examples
begin

text \<open>
  A published digest computed inside the logic: SHA-256 of \<open>hello world\<close>, one block, evaluated step by step
  through the code's own compression loop. It ties the reference \<open>sha256\<close>, which the other theories compare
  the back-ends with, to the table \<open>SHA256HASHES\<close> of the repository.
\<close>

section \<open>One block\<close>

text \<open>The padded message and its message schedule.\<close>

definition hello_w :: "u32 list" where
  "hello_w =
    [0x68656C6C, 0x6F20776F, 0x726C6480, 0x00000000, 0x00000000, 0x00000000, 0x00000000, 0x00000000,
    0x00000000, 0x00000000, 0x00000000, 0x00000000, 0x00000000, 0x00000000, 0x00000000, 0x00000058,
    0x37470237, 0x86D0C031, 0xD3BD110B, 0x783F4782, 0x2A907CED, 0x4B2F7CC9, 0x31E1945D, 0x89364964,
    0x7F7A06DA, 0xC179A93A, 0xBBE8F655, 0x0C1AE3E6, 0xB0FE0D7D, 0x5F6E5593, 0x00899B52, 0x07F1CA94,
    0x3B5FE5D6, 0x686562E6, 0xC84E0A9E, 0x06AF9B25, 0x92EF64D7, 0x63F95E5A, 0xE31667D7, 0x843BDE16,
    0xEEECA85B, 0xA04FF221, 0xF918ADB8, 0x14A89219, 0x1084531D, 0x6093E0CD, 0x83035FE9, 0xD5AE7938,
    0x393F05AD, 0xFB4B1BEF, 0xEB75FF29, 0x6A369534, 0x22FC9CD8, 0xA9740D2B, 0x60CF3885, 0xC4AC983A,
    0x1142FDAD, 0xB0B01DD9, 0x98F0C36F, 0x7217B81E, 0xA2D4679A, 0x010F997B, 0xFC174F0A, 0xC2C2EB16]"

definition hello_block :: bytes where
  "hello_block = ascii ''hello world'' @ sha256_pad 11"

lemma be_bytes_numeral: "be_bytes (numeral k) v = be_bytes (pred_numeral k) (v div 256) @ [of_nat v]"
  by (simp only: be_bytes_def le_bytes.simps numeral_eq_Suc rev.simps)

lemma be_bytes_one: "be_bytes (Suc 0) v = [of_nat v]"
  by (simp add: be_bytes_def)

lemma hello_block_bytes:
  "hello_block = [104, 101, 108, 108, 111, 32, 119, 111, 114, 108, 100, 128] @ replicate 51 0 @ [88]"
proof -
  have "be_bytes 8 88 = [0, 0, 0, 0, 0, 0, 0, 88]" by (simp add: be_bytes_numeral be_bytes_one)
  moreover have "replicate 51 (0 :: u8) = replicate 44 0 @ [0, 0, 0, 0, 0, 0, 0]" by code_simp
  ultimately show ?thesis by (simp only: hello_block_def sha256_pad_def pad_zeros_def) (simp add: ascii_def)
qed

lemma length_hello_block: "length hello_block = 64"
  by (simp add: hello_block_bytes)

lemma hello_block_chunks:
  "as_chunks4 hello_block = [[104, 101, 108, 108], [111, 32, 119, 111], [114, 108, 100, 128]] @ replicate 12 [0, 0, 0, 0] @ [[0, 0, 0, 88]]"
  unfolding hello_block_bytes by code_simp

lemma schedule_16:
  "load_words hello_block =
    [0x68656C6C, 0x6F20776F, 0x726C6480, 0x00000000, 0x00000000, 0x00000000, 0x00000000, 0x00000000,
    0x00000000, 0x00000000, 0x00000000, 0x00000000, 0x00000000, 0x00000000, 0x00000000, 0x00000058] @ replicate 48 0"
  by (simp add: load_words_def hello_block_chunks foldl_enumerate_update u32_from_be_def be_val_def) (code_simp)

lemma schedule_24:
  "foldl extend_step
    ([0x68656C6C, 0x6F20776F, 0x726C6480, 0x00000000, 0x00000000, 0x00000000, 0x00000000, 0x00000000,
    0x00000000, 0x00000000, 0x00000000, 0x00000000, 0x00000000, 0x00000000, 0x00000000, 0x00000058] @ replicate 48 0) [16..<24] =
    [0x68656C6C, 0x6F20776F, 0x726C6480, 0x00000000, 0x00000000, 0x00000000, 0x00000000, 0x00000000,
    0x00000000, 0x00000000, 0x00000000, 0x00000000, 0x00000000, 0x00000000, 0x00000000, 0x00000058,
    0x37470237, 0x86D0C031, 0xD3BD110B, 0x783F4782, 0x2A907CED, 0x4B2F7CC9, 0x31E1945D, 0x89364964] @ replicate 40 0"
  by code_simp

lemma schedule_32:
  "foldl extend_step
    ([0x68656C6C, 0x6F20776F, 0x726C6480, 0x00000000, 0x00000000, 0x00000000, 0x00000000, 0x00000000,
    0x00000000, 0x00000000, 0x00000000, 0x00000000, 0x00000000, 0x00000000, 0x00000000, 0x00000058,
    0x37470237, 0x86D0C031, 0xD3BD110B, 0x783F4782, 0x2A907CED, 0x4B2F7CC9, 0x31E1945D, 0x89364964] @ replicate 40 0) [24..<32] =
    [0x68656C6C, 0x6F20776F, 0x726C6480, 0x00000000, 0x00000000, 0x00000000, 0x00000000, 0x00000000,
    0x00000000, 0x00000000, 0x00000000, 0x00000000, 0x00000000, 0x00000000, 0x00000000, 0x00000058,
    0x37470237, 0x86D0C031, 0xD3BD110B, 0x783F4782, 0x2A907CED, 0x4B2F7CC9, 0x31E1945D, 0x89364964,
    0x7F7A06DA, 0xC179A93A, 0xBBE8F655, 0x0C1AE3E6, 0xB0FE0D7D, 0x5F6E5593, 0x00899B52, 0x07F1CA94] @ replicate 32 0"
  by code_simp

lemma schedule_40:
  "foldl extend_step
    ([0x68656C6C, 0x6F20776F, 0x726C6480, 0x00000000, 0x00000000, 0x00000000, 0x00000000, 0x00000000,
    0x00000000, 0x00000000, 0x00000000, 0x00000000, 0x00000000, 0x00000000, 0x00000000, 0x00000058,
    0x37470237, 0x86D0C031, 0xD3BD110B, 0x783F4782, 0x2A907CED, 0x4B2F7CC9, 0x31E1945D, 0x89364964,
    0x7F7A06DA, 0xC179A93A, 0xBBE8F655, 0x0C1AE3E6, 0xB0FE0D7D, 0x5F6E5593, 0x00899B52, 0x07F1CA94] @ replicate 32 0) [32..<40] =
    [0x68656C6C, 0x6F20776F, 0x726C6480, 0x00000000, 0x00000000, 0x00000000, 0x00000000, 0x00000000,
    0x00000000, 0x00000000, 0x00000000, 0x00000000, 0x00000000, 0x00000000, 0x00000000, 0x00000058,
    0x37470237, 0x86D0C031, 0xD3BD110B, 0x783F4782, 0x2A907CED, 0x4B2F7CC9, 0x31E1945D, 0x89364964,
    0x7F7A06DA, 0xC179A93A, 0xBBE8F655, 0x0C1AE3E6, 0xB0FE0D7D, 0x5F6E5593, 0x00899B52, 0x07F1CA94,
    0x3B5FE5D6, 0x686562E6, 0xC84E0A9E, 0x06AF9B25, 0x92EF64D7, 0x63F95E5A, 0xE31667D7, 0x843BDE16] @ replicate 24 0"
  by code_simp

lemma schedule_48:
  "foldl extend_step
    ([0x68656C6C, 0x6F20776F, 0x726C6480, 0x00000000, 0x00000000, 0x00000000, 0x00000000, 0x00000000,
    0x00000000, 0x00000000, 0x00000000, 0x00000000, 0x00000000, 0x00000000, 0x00000000, 0x00000058,
    0x37470237, 0x86D0C031, 0xD3BD110B, 0x783F4782, 0x2A907CED, 0x4B2F7CC9, 0x31E1945D, 0x89364964,
    0x7F7A06DA, 0xC179A93A, 0xBBE8F655, 0x0C1AE3E6, 0xB0FE0D7D, 0x5F6E5593, 0x00899B52, 0x07F1CA94,
    0x3B5FE5D6, 0x686562E6, 0xC84E0A9E, 0x06AF9B25, 0x92EF64D7, 0x63F95E5A, 0xE31667D7, 0x843BDE16] @ replicate 24 0) [40..<48] =
    [0x68656C6C, 0x6F20776F, 0x726C6480, 0x00000000, 0x00000000, 0x00000000, 0x00000000, 0x00000000,
    0x00000000, 0x00000000, 0x00000000, 0x00000000, 0x00000000, 0x00000000, 0x00000000, 0x00000058,
    0x37470237, 0x86D0C031, 0xD3BD110B, 0x783F4782, 0x2A907CED, 0x4B2F7CC9, 0x31E1945D, 0x89364964,
    0x7F7A06DA, 0xC179A93A, 0xBBE8F655, 0x0C1AE3E6, 0xB0FE0D7D, 0x5F6E5593, 0x00899B52, 0x07F1CA94,
    0x3B5FE5D6, 0x686562E6, 0xC84E0A9E, 0x06AF9B25, 0x92EF64D7, 0x63F95E5A, 0xE31667D7, 0x843BDE16,
    0xEEECA85B, 0xA04FF221, 0xF918ADB8, 0x14A89219, 0x1084531D, 0x6093E0CD, 0x83035FE9, 0xD5AE7938] @ replicate 16 0"
  by code_simp

lemma schedule_56:
  "foldl extend_step
    ([0x68656C6C, 0x6F20776F, 0x726C6480, 0x00000000, 0x00000000, 0x00000000, 0x00000000, 0x00000000,
    0x00000000, 0x00000000, 0x00000000, 0x00000000, 0x00000000, 0x00000000, 0x00000000, 0x00000058,
    0x37470237, 0x86D0C031, 0xD3BD110B, 0x783F4782, 0x2A907CED, 0x4B2F7CC9, 0x31E1945D, 0x89364964,
    0x7F7A06DA, 0xC179A93A, 0xBBE8F655, 0x0C1AE3E6, 0xB0FE0D7D, 0x5F6E5593, 0x00899B52, 0x07F1CA94,
    0x3B5FE5D6, 0x686562E6, 0xC84E0A9E, 0x06AF9B25, 0x92EF64D7, 0x63F95E5A, 0xE31667D7, 0x843BDE16,
    0xEEECA85B, 0xA04FF221, 0xF918ADB8, 0x14A89219, 0x1084531D, 0x6093E0CD, 0x83035FE9, 0xD5AE7938] @ replicate 16 0) [48..<56] =
    [0x68656C6C, 0x6F20776F, 0x726C6480, 0x00000000, 0x00000000, 0x00000000, 0x00000000, 0x00000000,
    0x00000000, 0x00000000, 0x00000000, 0x00000000, 0x00000000, 0x00000000, 0x00000000, 0x00000058,
    0x37470237, 0x86D0C031, 0xD3BD110B, 0x783F4782, 0x2A907CED, 0x4B2F7CC9, 0x31E1945D, 0x89364964,
    0x7F7A06DA, 0xC179A93A, 0xBBE8F655, 0x0C1AE3E6, 0xB0FE0D7D, 0x5F6E5593, 0x00899B52, 0x07F1CA94,
    0x3B5FE5D6, 0x686562E6, 0xC84E0A9E, 0x06AF9B25, 0x92EF64D7, 0x63F95E5A, 0xE31667D7, 0x843BDE16,
    0xEEECA85B, 0xA04FF221, 0xF918ADB8, 0x14A89219, 0x1084531D, 0x6093E0CD, 0x83035FE9, 0xD5AE7938,
    0x393F05AD, 0xFB4B1BEF, 0xEB75FF29, 0x6A369534, 0x22FC9CD8, 0xA9740D2B, 0x60CF3885, 0xC4AC983A] @ replicate 8 0"
  by code_simp

lemma schedule_64:
  "foldl extend_step
    ([0x68656C6C, 0x6F20776F, 0x726C6480, 0x00000000, 0x00000000, 0x00000000, 0x00000000, 0x00000000,
    0x00000000, 0x00000000, 0x00000000, 0x00000000, 0x00000000, 0x00000000, 0x00000000, 0x00000058,
    0x37470237, 0x86D0C031, 0xD3BD110B, 0x783F4782, 0x2A907CED, 0x4B2F7CC9, 0x31E1945D, 0x89364964,
    0x7F7A06DA, 0xC179A93A, 0xBBE8F655, 0x0C1AE3E6, 0xB0FE0D7D, 0x5F6E5593, 0x00899B52, 0x07F1CA94,
    0x3B5FE5D6, 0x686562E6, 0xC84E0A9E, 0x06AF9B25, 0x92EF64D7, 0x63F95E5A, 0xE31667D7, 0x843BDE16,
    0xEEECA85B, 0xA04FF221, 0xF918ADB8, 0x14A89219, 0x1084531D, 0x6093E0CD, 0x83035FE9, 0xD5AE7938,
    0x393F05AD, 0xFB4B1BEF, 0xEB75FF29, 0x6A369534, 0x22FC9CD8, 0xA9740D2B, 0x60CF3885, 0xC4AC983A] @ replicate 8 0) [56..<64] =
    [0x68656C6C, 0x6F20776F, 0x726C6480, 0x00000000, 0x00000000, 0x00000000, 0x00000000, 0x00000000,
    0x00000000, 0x00000000, 0x00000000, 0x00000000, 0x00000000, 0x00000000, 0x00000000, 0x00000058,
    0x37470237, 0x86D0C031, 0xD3BD110B, 0x783F4782, 0x2A907CED, 0x4B2F7CC9, 0x31E1945D, 0x89364964,
    0x7F7A06DA, 0xC179A93A, 0xBBE8F655, 0x0C1AE3E6, 0xB0FE0D7D, 0x5F6E5593, 0x00899B52, 0x07F1CA94,
    0x3B5FE5D6, 0x686562E6, 0xC84E0A9E, 0x06AF9B25, 0x92EF64D7, 0x63F95E5A, 0xE31667D7, 0x843BDE16,
    0xEEECA85B, 0xA04FF221, 0xF918ADB8, 0x14A89219, 0x1084531D, 0x6093E0CD, 0x83035FE9, 0xD5AE7938,
    0x393F05AD, 0xFB4B1BEF, 0xEB75FF29, 0x6A369534, 0x22FC9CD8, 0xA9740D2B, 0x60CF3885, 0xC4AC983A,
    0x1142FDAD, 0xB0B01DD9, 0x98F0C36F, 0x7217B81E, 0xA2D4679A, 0x010F997B, 0xFC174F0A, 0xC2C2EB16] @ replicate 0 0"
  by code_simp

text \<open>The registers after every eighth round.\<close>

lemma rounds_8:
  "foldl (round_step hello_w)
    (0x6A09E667, 0xBB67AE85, 0x3C6EF372, 0xA54FF53A, 0x510E527F, 0x9B05688C, 0x1F83D9AB, 0x5BE0CD19) [0..<8] =
    (0x4BE34FEC, 0xD00381A8, 0x865344C3, 0xF486C606, 0xE36A0F9D, 0xF2081EC0, 0x9D3D2193, 0x46268669)"
  by code_simp

lemma rounds_16:
  "foldl (round_step hello_w)
    (0x4BE34FEC, 0xD00381A8, 0x865344C3, 0xF486C606, 0xE36A0F9D, 0xF2081EC0, 0x9D3D2193, 0x46268669) [8..<16] =
    (0x829E492B, 0xD63E2C26, 0x4354F5D2, 0x14331D35, 0xA8AC99C4, 0x1D13EA2B, 0x4A0A41C5, 0xA1FD6572)"
  by code_simp

lemma rounds_24:
  "foldl (round_step hello_w)
    (0x829E492B, 0xD63E2C26, 0x4354F5D2, 0x14331D35, 0xA8AC99C4, 0x1D13EA2B, 0x4A0A41C5, 0xA1FD6572) [16..<24] =
    (0x87A4DC59, 0x9AC6CB79, 0xF813193B, 0x48F3719A, 0x17AE59DC, 0x075E2CB1, 0x5186923D, 0x8E9CE42A)"
  by code_simp

lemma rounds_32:
  "foldl (round_step hello_w)
    (0x87A4DC59, 0x9AC6CB79, 0xF813193B, 0x48F3719A, 0x17AE59DC, 0x075E2CB1, 0x5186923D, 0x8E9CE42A) [24..<32] =
    (0x86882A8C, 0x6460B31A, 0xA7C8C0C8, 0x24118386, 0xDDCADEBE, 0x3E7738BC, 0x058B0A6E, 0x16808D93)"
  by code_simp

lemma rounds_40:
  "foldl (round_step hello_w)
    (0x86882A8C, 0x6460B31A, 0xA7C8C0C8, 0x24118386, 0xDDCADEBE, 0x3E7738BC, 0x058B0A6E, 0x16808D93) [32..<40] =
    (0x67168510, 0xBA6962C9, 0x1573CB0C, 0x4CF89D15, 0xC0553FF6, 0xF0DC6430, 0x63C355E3, 0x7982A293)"
  by code_simp

lemma rounds_48:
  "foldl (round_step hello_w)
    (0x67168510, 0xBA6962C9, 0x1573CB0C, 0x4CF89D15, 0xC0553FF6, 0xF0DC6430, 0x63C355E3, 0x7982A293) [40..<48] =
    (0xC0E967D9, 0xD4802268, 0xB089BCAC, 0xC834CDB2, 0xB66968EA, 0x5633B810, 0x92EB8B4A, 0x812665C6)"
  by code_simp

lemma rounds_56:
  "foldl (round_step hello_w)
    (0xC0E967D9, 0xD4802268, 0xB089BCAC, 0xC834CDB2, 0xB66968EA, 0x5633B810, 0x92EB8B4A, 0x812665C6) [48..<56] =
    (0x7C31C40C, 0x6E46EF0A, 0x208A86FF, 0x95B8193A, 0x5A2CCB8A, 0xC7771C15, 0x812461F9, 0x2E2A5A2C)"
  by code_simp

lemma rounds_64:
  "foldl (round_step hello_w)
    (0x7C31C40C, 0x6E46EF0A, 0x208A86FF, 0x95B8193A, 0x5A2CCB8A, 0xC7771C15, 0x812461F9, 0x2E2A5A2C) [56..<64] =
    (0x4F434152, 0xD7E58F83, 0x68BF5F65, 0x352DB6C0, 0x73769D64, 0xDF4E1862, 0x71051E01, 0x870F00D0)"
  by code_simp

lemma hello_schedule: "foldl extend_step (load_words hello_block) [16..<64] = hello_w"
proof -
  have "[16..<64] = [16..<24] @ [24..<32] @ [32..<40] @ [40..<48] @ [48..<56] @ [56..<64]" by (simp add: upt_rec)
  then show ?thesis
    by (simp only: foldl_append schedule_16 schedule_24 schedule_32 schedule_40 schedule_48 schedule_56 schedule_64)
      (simp add: hello_w_def)
qed

lemma hello_rounds:
  "foldl (round_step hello_w) (regs_of sha256_init) [0..<64] =
    (0x4F434152, 0xD7E58F83, 0x68BF5F65, 0x352DB6C0, 0x73769D64, 0xDF4E1862, 0x71051E01, 0x870F00D0)"
proof -
  have "[0..<64] = [0..<8] @ [8..<16] @ [16..<24] @ [24..<32] @ [32..<40] @ [40..<48] @ [48..<56] @ [56..<64]"
    by (simp add: upt_rec)
  moreover have "regs_of sha256_init =
    (0x6A09E667, 0xBB67AE85, 0x3C6EF372, 0xA54FF53A, 0x510E527F, 0x9B05688C, 0x1F83D9AB, 0x5BE0CD19)"
    by (simp add: regs_of_def sha256_init_def)
  ultimately show ?thesis
    by (simp only: foldl_append rounds_8 rounds_16 rounds_24 rounds_32 rounds_40 rounds_48 rounds_56 rounds_64)
qed

lemma hello_compress:
  "sha256_compress sha256_init hello_block = [0xB94D27B9, 0x934D3E08, 0xA52E52D7, 0xDA7DABFA, 0xC484EFE3, 0x7A5380EE, 0x9088F7AC, 0xE2EFCDE9]"
proof -
  have "Some (sha256_compress sha256_init hello_block) = sha256_update sha256_init hello_block"
    using sha256_update_eq length_hello_block by simp
  also have "\<dots> = Some [0xB94D27B9, 0x934D3E08, 0xA52E52D7, 0xDA7DABFA, 0xC484EFE3, 0x7A5380EE, 0x9088F7AC, 0xE2EFCDE9]"
    by (simp only: sha256_update_def Let_def hello_schedule hello_rounds length_hello_block if_False not_True_eq_False
        simp_thms) (simp add: sha256_init_def)
  finally show ?thesis by simp
qed

lemma sha256_hello_world: "sha256 (ascii ''hello world'') = hex 32 0xB94D27B9934D3E08A52E52D7DA7DABFAC484EFE37A5380EE9088F7ACE2EFCDE9"
proof -
  have hello_length: "length (ascii ''hello world'') = 11" by simp
  have "sha256_blocks hello_block = sha256_compress sha256_init hello_block"
    using length_hello_block blocks64.simps(2) [of 0 hello_block] by (simp add: sha256_blocks_def del: blocks64.simps(2))
  then have "sha256 (ascii ''hello world'') = words_be (sha256_compress sha256_init hello_block)"
    using hello_length by (simp only: sha256_def hello_block_def)
  also have "\<dots> = hex 32 0xB94D27B9934D3E08A52E52D7DA7DABFAC484EFE37A5380EE9088F7ACE2EFCDE9"
    unfolding hello_compress by (simp add: words_be_def hex_def u32_to_be_def be_bytes_numeral be_bytes_one)
  finally show ?thesis .
qed

lemma hello_world_in_table: "(ascii ''hello world'', sha256 (ascii ''hello world'')) \<in> set SHA256HASHES"
  unfolding sha256_hello_world by (simp add: SHA256HASHES_def)

section \<open>What the demo logs\<close>

lemma extended_sha256_name: "hash_from_ni_name (extender_hash direct_config B) ''sha-256'' = Some ExtSha256"
  "hash_from_ni_name (extender_hash software_config B) ''sha-256'' = Some ExtSha256"
  by (simp_all add: extender_hash_def ext_hash_from_ni_name_def direct_config_def software_config_def)

text \<open>C17: The hash example logs the published digest. Over the software extender on the empty \<open>Cal\<close>, and over the
  extender on an nRF54L15 whose engine carries out SHA jobs as documented, it returns without panic and what
  it logs is the very digest that the repository's table states for the same message.\<close>

theorem hello_world_logged:
  assumes "cracen_sha rng at_in at_out dev" "dev d"
  shows "show_sha256_example (cal_hash (sd_cal software_config empty_sha2 empty_cal)) ()
      = Some ([ComputedSha256 ''hello world'' (hex 32 0xB94D27B9934D3E08A52E52D7DA7DABFAC484EFE37A5380EE9088F7ACE2EFCDE9)], ())
    \<and> (\<exists>d'. show_sha256_example (cal_hash (nrf_extended rng hw at_in at_out)) d
      = Some ([ComputedSha256 ''hello world'' (hex 32 0xB94D27B9934D3E08A52E52D7DA7DABFAC484EFE37A5380EE9088F7ACE2EFCDE9)], d'))
    \<and> SHA256HASHES ! 1 = (ascii ''hello world'', hex 32 0xB94D27B9934D3E08A52E52D7DA7DABFAC484EFE37A5380EE9088F7ACE2EFCDE9)"
proof -
  have m: "11 \<le> max_message" by (simp add: max_message_val)
  note sw = hash_contract.sha256_example [OF sw_hash.hash_contract_axioms [of "sd_base empty_sha2 empty_cal" "()"] refl extended_sha256_name(2) m]
  have S: "sha2short_contract (base_sha2 (nrf_base rng at_in at_out)) dev nrf_absorbed sw_raw"
    using cracen_sha.nrf_sha_contract [OF assms(1)] by (simp add: nrf_base_def)
  have raw: "plumbed_digest (base_sha2 (nrf_base rng at_in at_out)) sw_raw = sha256" by (simp add: nrf_base_def nrf_plumbed)
  note hw = hash_contract.sha256_example [OF direct_hash_contract [OF S, unfolded raw] assms(2) extended_sha256_name(1) m]
  show ?thesis
    using sw hw sha256_hello_world by (auto simp: sd_cal_def nrf_extended_hash SHA256HASHES_def)
qed

lemma hello_world_logged_witness:
  "\<forall>hw. \<exists>d'. show_sha256_example (cal_hash (nrf_extended sim_cracen hw 4096 8192)) []
    = Some ([ComputedSha256 ''hello world'' (hex 32 0xB94D27B9934D3E08A52E52D7DA7DABFAC484EFE37A5380EE9088F7ACE2EFCDE9)], d')"
  using hello_world_logged [OF sim.cracen_sha_axioms TrueI] by blast

end
